(* ===== verification/Ledos_Prelude.thy ===== *)
theory Ledos_Prelude
  imports Main "HOL-Library.Word"
begin

text \<open>
  The vocabulary every component of the LEDOS firmware model shares.

  The firmware is C code that owns global state, talks to memory-mapped hardware and
  polls it in loops that have no bound of their own.  A C function of the firmware is
  therefore a value of type \<open>('s, 'a) drv\<close>: given the machine state it either returns
  a result and a new state, or \<open>None\<close>, which stands for a polling loop that never
  ends.  The combinators below are the ones the C code uses: \<open>ret\<close> (return), \<open>bnd\<close>
  (sequencing), \<open>for_each\<close> (a counted \<open>for\<close> loop) and \<open>run_checked\<close> (the idiom
  \<^verbatim>\<open>if (f(...) != 0) return -1;\<close> repeated, and \<open>return 0\<close> at the end).

  Total correctness is expressed by \<open>wp m Q s\<close>: the call \<open>m\<close> from state \<open>s\<close> does
  return, and result and final state satisfy \<open>Q\<close>.  The equations collected in
  \<open>wp_simps\<close> push \<open>wp\<close> through the combinators, so that a component proof only
  meets the calls it makes.
\<close>

unbundle bit_operations_syntax

named_theorems wp_simps \<open>equations that push wp through the driver combinators\<close>
named_theorems inv_intros \<open>calls that return from, and keep, every state of an invariant\<close>
named_theorems hw_consts \<open>register addresses, masks and field descriptions\<close>

type_synonym u8 = "8 word"
type_synonym u16 = "16 word"
type_synonym u32 = "32 word"

section \<open>Driver calls\<close>

type_synonym ('s, 'a) drv = "'s \<Rightarrow> ('a \<times> 's) option"

definition ret :: "'a \<Rightarrow> ('s, 'a) drv" where
  "ret x = (\<lambda>s. Some (x, s))"

definition bnd :: "('s, 'a) drv \<Rightarrow> ('a \<Rightarrow> ('s, 'b) drv) \<Rightarrow> ('s, 'b) drv" where
  "bnd m k = (\<lambda>s. case m s of None \<Rightarrow> None | Some (x, s') \<Rightarrow> k x s')"

definition modify :: "('s \<Rightarrow> 's) \<Rightarrow> ('s, unit) drv" where
  "modify f = (\<lambda>s. Some ((), f s))"

definition gets :: "('s \<Rightarrow> 'a) \<Rightarrow> ('s, 'a) drv" where
  "gets f = (\<lambda>s. Some (f s, s))"

fun for_each :: "'i list \<Rightarrow> ('i \<Rightarrow> ('s, unit) drv) \<Rightarrow> ('s, unit) drv" where
  "for_each [] f = ret ()"
| "for_each (i # is) f = bnd (f i) (\<lambda>_. for_each is f)"

fun run_checked :: "('s, int) drv list \<Rightarrow> ('s, int) drv" where
  "run_checked [] = ret 0"
| "run_checked (m # ms) = bnd m (\<lambda>r. if r \<noteq> 0 then ret (- 1) else run_checked ms)"

section \<open>Total correctness\<close>

definition wp :: "('s, 'a) drv \<Rightarrow> ('a \<Rightarrow> 's \<Rightarrow> bool) \<Rightarrow> 's \<Rightarrow> bool" where
  "wp m Q s = (case m s of None \<Rightarrow> False | Some (x, s') \<Rightarrow> Q x s')"

lemma wp_ret [wp_simps]: "wp (ret x) Q s = Q x s"
  by (simp add: wp_def ret_def)

lemma wp_bnd [wp_simps]: "wp (bnd m k) Q s = wp m (\<lambda>x s'. wp (k x) Q s') s"
  by (auto simp: wp_def bnd_def split: option.splits)

lemma wp_modify [wp_simps]: "wp (modify f) Q s = Q () (f s)"
  by (simp add: wp_def modify_def)

lemma wp_gets [wp_simps]: "wp (gets f) Q s = Q (f s) s"
  by (simp add: wp_def gets_def)

lemma wp_if [wp_simps]: "wp (if b then m else n) Q s = (if b then wp m Q s else wp n Q s)"
  by simp

lemma wp_case_prod [wp_simps]:
  "wp (case p of (a, b) \<Rightarrow> f a b) Q s = (case p of (a, b) \<Rightarrow> wp (f a b) Q s)"
  by (simp split: prod.split)

lemma wp_let [wp_simps]: "wp (Let e f) Q s = (let x = e in wp (f x) Q s)"
  by simp

lemma wp_mono:
  assumes "wp m Q s" and "\<And>x s'. Q x s' \<Longrightarrow> Q' x s'"
  shows "wp m Q' s"
  using assms by (auto simp: wp_def split: option.splits)

lemma wp_conj: "wp m (\<lambda>x s'. P x s' \<and> Q x s') s \<longleftrightarrow> wp m P s \<and> wp m Q s"
  by (auto simp: wp_def split: option.splits)

lemma wp_run: "wp m Q s \<longleftrightarrow> (\<exists>x s'. m s = Some (x, s') \<and> Q x s')"
  by (auto simp: wp_def split: option.splits)

lemma wp_returns: "wp m Q s \<Longrightarrow> \<exists>x s'. m s = Some (x, s')"
  by (auto simp: wp_run)

lemma wp_eqI: "m s = Some (x, s') \<Longrightarrow> wp m Q s \<longleftrightarrow> Q x s'"
  by (simp add: wp_def)

text \<open>An invariant kept by every iteration is kept by the loop.\<close>

lemma wp_for_each_inv:
  assumes "I s"
    and "\<And>i s. i \<in> set is \<Longrightarrow> I s \<Longrightarrow> wp (f i) (\<lambda>_ s'. I s') s"
  shows "wp (for_each is f) (\<lambda>_ s'. I s') s"
  using assms
proof (induction "is" arbitrary: s)
  case Nil
  then show ?case by (simp add: wp_simps)
next
  case (Cons i js)
  have "wp (f i) (\<lambda>_ s'. I s') s" using Cons.prems by simp
  then have "wp (f i) (\<lambda>_ s'. wp (for_each js f) (\<lambda>_ s''. I s'') s') s"
    by (rule wp_mono) (use Cons in auto)
  then show ?case by (simp add: wp_simps)
qed

text \<open>
  A checked sequence whose steps keep an invariant returns \<open>0\<close> or \<open>-1\<close> and keeps it.
\<close>

lemma wp_run_checked_inv:
  assumes "I s"
    and "\<And>m s. m \<in> set ms \<Longrightarrow> I s \<Longrightarrow> wp m (\<lambda>_ s'. I s') s"
  shows "wp (run_checked ms) (\<lambda>r s'. (r = 0 \<or> r = - 1) \<and> I s') s"
  using assms
proof (induction ms arbitrary: s)
  case Nil
  then show ?case by (simp add: wp_simps)
next
  case (Cons m ms)
  have "wp m (\<lambda>_ s'. I s') s" using Cons.prems by simp
  then have "wp m (\<lambda>r s'. if r \<noteq> 0 then I s' else
      wp (run_checked ms) (\<lambda>r s'. (r = 0 \<or> r = - 1) \<and> I s') s') s"
    by (rule wp_mono) (use Cons in auto)
  then show ?case by (simp add: wp_simps cong: if_cong)
qed

text \<open>
  When every step succeeds from every good state, with effect \<open>eff m\<close> on an abstract
  view of the state, the sequence succeeds and its effect is the steps' effects in order.
\<close>

lemma wp_run_checked_fold:
  assumes "ok s"
    and "\<And>m s. m \<in> set ms \<Longrightarrow> ok s \<Longrightarrow>
           wp m (\<lambda>r s'. r = 0 \<and> ok s' \<and> view s' = eff m (view s)) s"
  shows "wp (run_checked ms) (\<lambda>r s'. r = 0 \<and> ok s' \<and> view s' = fold eff ms (view s)) s"
  using assms
proof (induction ms arbitrary: s)
  case Nil
  then show ?case by (simp add: wp_simps)
next
  case (Cons m ms)
  have "wp m (\<lambda>r s'. r = 0 \<and> ok s' \<and> view s' = eff m (view s)) s"
    using Cons.prems by simp
  then have "wp m (\<lambda>r s'. if r \<noteq> 0 then False else
      wp (run_checked ms)
        (\<lambda>r s''. r = 0 \<and> ok s'' \<and> view s'' = fold eff ms (eff m (view s))) s') s"
  proof (rule wp_mono)
    fix r s'
    assume a: "r = 0 \<and> ok s' \<and> view s' = eff m (view s)"
    have "wp (run_checked ms) (\<lambda>r s''. r = 0 \<and> ok s'' \<and> view s'' = fold eff ms (view s')) s'"
      using a Cons.prems(2) by (intro Cons.IH) auto
    with a show "if r \<noteq> 0 then False else wp (run_checked ms)
        (\<lambda>r s''. r = 0 \<and> ok s'' \<and> view s'' = fold eff ms (eff m (view s))) s'"
      by simp
  qed
  then show ?case by (simp add: wp_simps cong: if_cong)
qed

section \<open>Calls that keep an invariant\<close>

text \<open>
  \<open>keeps I m\<close>: from every state of \<open>I\<close> the call returns, in a state of \<open>I\<close>.  The rules
  collected in \<open>inv_intros\<close> follow the structure of the C code; a component adds one for
  each of its functions.
\<close>

definition keeps :: "('s \<Rightarrow> bool) \<Rightarrow> ('s, 'a) drv \<Rightarrow> bool" where
  "keeps I m = (\<forall>s. I s \<longrightarrow> wp m (\<lambda>_ s'. I s') s)"

lemma keepsI: "(\<And>s. I s \<Longrightarrow> wp m (\<lambda>_ s'. I s') s) \<Longrightarrow> keeps I m"
  by (simp add: keeps_def)

lemma keepsD: "keeps I m \<Longrightarrow> I s \<Longrightarrow> wp m (\<lambda>_ s'. I s') s"
  by (simp add: keeps_def)

lemma keeps_returns: "keeps I m \<Longrightarrow> I s \<Longrightarrow> \<exists>r s'. m s = Some (r, s') \<and> I s'"
  by (auto simp: keeps_def wp_run)

lemma keeps_ret [inv_intros]: "keeps I (ret x)"
  by (simp add: keeps_def wp_simps)

lemma keeps_gets [inv_intros]: "keeps I (gets f)"
  by (simp add: keeps_def wp_simps)

lemma keeps_bnd [inv_intros]:
  assumes "keeps I m" and "\<And>x. keeps I (k x)"
  shows "keeps I (bnd m k)"
proof (rule keepsI)
  fix s assume "I s"
  with assms(1) have "wp m (\<lambda>_ s'. I s') s" by (rule keepsD)
  then show "wp (bnd m k) (\<lambda>_ s'. I s') s"
    unfolding wp_bnd by (rule wp_mono) (use assms(2) in \<open>auto dest: keepsD\<close>)
qed

lemma keeps_if [inv_intros]: "keeps I m \<Longrightarrow> keeps I n \<Longrightarrow> keeps I (if b then m else n)"
  by simp

lemma keeps_case_prod [inv_intros]:
  "(\<And>a b. keeps I (f a b)) \<Longrightarrow> keeps I (case p of (a, b) \<Rightarrow> f a b)"
  by (simp split: prod.split)

lemma keeps_let [inv_intros]: "(\<And>x. keeps I (f x)) \<Longrightarrow> keeps I (Let e f)"
  by simp

lemma keeps_for_each [inv_intros]:
  "(\<And>i. keeps I (f i)) \<Longrightarrow> keeps I (for_each is f)"
  by (rule keepsI, rule wp_for_each_inv) (auto dest: keepsD)

lemma keeps_run_checked [inv_intros]:
  "list_all (keeps I) ms \<Longrightarrow> keeps I (run_checked ms)"
  by (induction ms) (auto intro!: keeps_bnd keeps_ret)

lemma keeps_Cons [inv_intros]:
  "keeps I m \<Longrightarrow> list_all (keeps I) ms \<Longrightarrow> list_all (keeps I) (m # ms)"
  by simp

lemma keeps_Nil [inv_intros]: "list_all (keeps I) []"
  by simp

text \<open>A checked sequence only ever returns \<open>0\<close> or \<open>-1\<close>.\<close>

lemma run_checked_range: "run_checked ms s = Some (r, s') \<Longrightarrow> r = 0 \<or> r = - 1"
  by (induction ms arbitrary: s)
    (auto simp: ret_def bnd_def split: option.splits if_splits prod.splits)

section \<open>Refinement of calls\<close>

text \<open>
  \<open>refines ok vw m e\<close>: from every good state the call returns in a good state, and on the
  abstract view \<open>vw\<close> it acts as the pure function \<open>e\<close>.
\<close>

definition refines ::
  "('s \<Rightarrow> bool) \<Rightarrow> ('s \<Rightarrow> 'v) \<Rightarrow> ('s, 'a) drv \<Rightarrow> ('v \<Rightarrow> 'v) \<Rightarrow> bool" where
  "refines ok vw m e = (\<forall>s. ok s \<longrightarrow> wp m (\<lambda>_ s'. ok s' \<and> vw s' = e (vw s)) s)"

lemma refinesI:
  "(\<And>s. ok s \<Longrightarrow> wp m (\<lambda>_ s'. ok s' \<and> vw s' = e (vw s)) s) \<Longrightarrow> refines ok vw m e"
  by (simp add: refines_def)

lemma refines_wp: "refines ok vw m e \<Longrightarrow> ok s \<Longrightarrow> wp m (\<lambda>_ s'. ok s' \<and> vw s' = e (vw s)) s"
  by (simp add: refines_def)

lemma refines_run:
  "refines ok vw m e \<Longrightarrow> ok s \<Longrightarrow> \<exists>r s'. m s = Some (r, s') \<and> ok s' \<and> vw s' = e (vw s)"
  by (auto simp: refines_def wp_run)

lemma refines_seq:
  assumes "refines ok vw m e" and "\<And>x. refines ok vw (k x) e'"
  shows "refines ok vw (bnd m k) (\<lambda>v. e' (e v))"
proof (rule refinesI)
  fix s assume "ok s"
  with assms(1) have "wp m (\<lambda>_ s'. ok s' \<and> vw s' = e (vw s)) s" by (rule refines_wp)
  then show "wp (bnd m k) (\<lambda>_ s'. ok s' \<and> vw s' = e' (e (vw s))) s"
    unfolding wp_bnd
    by (rule wp_mono) (metis assms(2) refines_wp)
qed

lemma refines_ret: "refines ok vw (ret x) (\<lambda>v. v)"
  by (simp add: refines_def wp_simps)

lemma refines_eq: "refines ok vw m e \<Longrightarrow> (\<And>v. e v = e' v) \<Longrightarrow> refines ok vw m e'"
  by (simp add: refines_def)

text \<open>The same for a call that reports success with the return code 0.\<close>

definition does ::
  "('s \<Rightarrow> bool) \<Rightarrow> ('s \<Rightarrow> 'v) \<Rightarrow> ('s, int) drv \<Rightarrow> ('v \<Rightarrow> 'v) \<Rightarrow> bool" where
  "does ok vw m e = (\<forall>s. ok s \<longrightarrow> wp m (\<lambda>r s'. r = 0 \<and> ok s' \<and> vw s' = e (vw s)) s)"

lemma doesI:
  "(\<And>s. ok s \<Longrightarrow> wp m (\<lambda>r s'. r = 0 \<and> ok s' \<and> vw s' = e (vw s)) s) \<Longrightarrow> does ok vw m e"
  by (simp add: does_def)

lemma does_wp: "does ok vw m e \<Longrightarrow> ok s \<Longrightarrow> wp m (\<lambda>r s'. r = 0 \<and> ok s' \<and> vw s' = e (vw s)) s"
  by (simp add: does_def)

lemma does_run: "does ok vw m e \<Longrightarrow> ok s \<Longrightarrow> \<exists>s'. m s = Some (0, s') \<and> ok s' \<and> vw s' = e (vw s)"
  by (auto simp: does_def wp_run)

lemma does_Nil: "does ok vw (run_checked []) (\<lambda>v. v)"
  by (simp add: does_def wp_simps)

lemma does_seq:
  assumes "does ok vw m e" and "does ok vw n e'" and "\<And>s. k 0 s = n s"
  shows "does ok vw (bnd m k) (\<lambda>v. e' (e v))"
proof (rule doesI)
  fix s assume "ok s"
  with assms(1) have "wp m (\<lambda>r s'. r = 0 \<and> ok s' \<and> vw s' = e (vw s)) s" by (rule does_wp)
  then show "wp (bnd m k) (\<lambda>r s'. r = 0 \<and> ok s' \<and> vw s' = e' (e (vw s))) s"
    unfolding wp_bnd
  proof (rule wp_mono)
    fix x :: int and s' assume a: "x = 0 \<and> ok s' \<and> vw s' = e (vw s)"
    then have "wp n (\<lambda>r s''. r = 0 \<and> ok s'' \<and> vw s'' = e' (vw s')) s'"
      using assms(2) by (auto dest: does_wp)
    with a show "wp (k x) (\<lambda>r s'. r = 0 \<and> ok s' \<and> vw s' = e' (e (vw s))) s'"
      using assms(3) by (simp add: wp_def)
  qed
qed

lemma does_Cons:
  "does ok vw m e \<Longrightarrow> does ok vw (run_checked ms) e' \<Longrightarrow>
   does ok vw (run_checked (m # ms)) (\<lambda>v. e' (e v))"
  unfolding run_checked.simps by (erule does_seq) simp_all

lemma does_eq: "does ok vw m e \<Longrightarrow> (\<And>v. e v = e' v) \<Longrightarrow> does ok vw m e'"
  by (simp add: does_def)

section \<open>Buffers\<close>

text \<open>A loop that stores \<open>f i\<close> at index \<open>i\<close> for every \<open>i\<close> below \<open>n\<close>.\<close>

lemma fold_fill:
  "n \<le> length b \<Longrightarrow> fold (\<lambda>i b. b[i := f i]) [0..<n] b = map f [0..<n] @ drop n b"
proof (induction n)
  case (Suc n)
  then show ?case
    by (simp add: list_update_append Cons_nth_drop_Suc [symmetric])
qed simp

section \<open>Words\<close>

lemma take_bit_small: "unat w < 2 ^ n \<Longrightarrow> take_bit n w = (w :: 'a::len word)"
  by (simp add: word_unat_eq_iff unsigned_take_bit_eq take_bit_nat_eq_self)

lemma drop_push_bit: "drop_bit k (push_bit k w) = take_bit (LENGTH('a) - k) (w :: 'a::len word)"
  by (rule bit_word_eqI) (auto simp: bit_simps)

lemma ucast_u8_u32 [simp]: "(ucast (ucast (x :: u8) :: u32) :: u8) = x"
  by (rule bit_word_eqI) (auto simp: bit_simps)

lemma ucast_u8_u16 [simp]: "(ucast (ucast (x :: u8) :: u16) :: u8) = x"
  by (rule bit_word_eqI) (auto simp: bit_simps)

lemma ucast_u8_and_ff [simp]: "(ucast (ucast (x :: u8) AND 0xFF :: u32) :: u8) = x"
proof -
  have "y AND 0xFF = take_bit 8 y" for y :: u32
    by (simp add: take_bit_eq_mask mask_eq_exp_minus_1)
  then show ?thesis by (intro bit_word_eqI) (auto simp: bit_simps)
qed

lemma byte_and_ff: "(word_of_int (i AND 0xff) :: u8) = word_of_int i"
proof -
  have "i AND 0xff = take_bit 8 i" by (simp add: take_bit_eq_mask mask_eq_exp_minus_1)
  then show ?thesis by (rule_tac bit_word_eqI) (simp add: bit_simps)
qed

text \<open>Read-modify-write of a masked field.\<close>

definition upd_bits :: "'a::len word \<Rightarrow> 'a word \<Rightarrow> 'a word \<Rightarrow> 'a word" where
  "upd_bits msk data v = (v AND NOT msk) OR (data AND msk)"

lemma upd_bits_in: "upd_bits msk data v AND msk = data AND msk"
  by (simp add: upd_bits_def bit_eq_iff bit_simps) auto

lemma upd_bits_out: "upd_bits msk data v AND NOT msk = v AND NOT msk"
  by (simp add: upd_bits_def bit_eq_iff bit_simps) auto

lemma upd_bits_idem: "upd_bits msk data (upd_bits msk data v) = upd_bits msk data v"
  by (simp add: upd_bits_def bit_eq_iff bit_simps) auto

lemma upd_bits_full [simp]: "upd_bits (- 1) data v = data"
  by (simp add: upd_bits_def)

end
