(* ===== verification/Machine.thy ===== *)
theory Machine
  imports Ledos_Prelude
begin

text \<open>
  The state the firmware runs on: the memory-mapped hardware, reached through the HAL
  macros of \<^verbatim>\<open>io.h\<close>, the console, the interrupt tables of the HAL and the global
  variables of the LEDOS application.

  The FPGA fabric and the chips behind it are not C code.  They are a parameter of every
  definition: a \<open>bus\<close> says what a 32-bit load or store at an address does to the device
  state \<open>'d\<close>, and what the passing of \<open>n\<close> milliseconds does to it
  (\<^verbatim>\<open>chThdSleepMilliseconds\<close> gives the processor away and lets the hardware run).
\<close>

section \<open>The hardware parameter\<close>

record 'd bus =
  io_rd :: "u32 \<Rightarrow> 'd \<Rightarrow> u32 \<times> 'd"
  io_wr :: "u32 \<Rightarrow> u32 \<Rightarrow> 'd \<Rightarrow> 'd"
  io_sleep :: "nat \<Rightarrow> 'd \<Rightarrow> 'd"

section \<open>Console output\<close>

text \<open>
  \<open>Txt\<close> is text sent character by character by the HAL (\<^verbatim>\<open>alt_putstr\<close>,
  \<^verbatim>\<open>alt_printf\<close>, already formatted); \<open>Printf\<close> is a call of the C library's
  \<^verbatim>\<open>printf\<close> with its format and arguments, which is not part of the sources.
\<close>

datatype out = Txt string | Printf string "int list"

section \<open>Globals of the application\<close>

record bar =
  top_e :: int
  bottom_s :: int
  left_e :: int
  right_s :: int

record avi_infoframe =
  scan_info :: int
  bar_info :: int
  active_fmt :: int
  rgb_ycbcr :: int
  active_fmt_ar :: int
  pict_ar :: int
  colorimetry :: int
  scaling :: int
  quant :: int
  colorimetry_ext :: int
  itc :: int
  vic :: int
  pr :: int
  yq1yq0 :: int
  avi_bar :: bar

record vendor_infoframe =
  struct_3d :: int
  ext_data_3d :: int

record hdmi_encoder =
  slave_addr :: int
  edid_addr :: int
  hpd_prev :: int
  hpd_latest :: int
  hpd_event :: int
  hpd :: int
  int_mask :: u32
  chip_id :: "u8 list"
  chip_rev :: "u8 list"
  avi_if :: avi_infoframe
  vendor_if :: vendor_infoframe

text \<open>The only interrupt service routine the application registers.\<close>

datatype isr = Adv7513_int_handler

text \<open>
  The two I2C scratch buffers are unions of a two-byte array and a 16-bit value; the Nios II
  is little-endian, so byte 0 is the low half of \<open>val\<close>.  \<open>alt_irq\<close>,
  \<open>alt_irq_active\<close> and the \<open>ienable\<close> control register are the state of the HAL's
  interrupt layer.
\<close>

record 'd mach =
  dev :: 'd
  console :: "out list"
  aud_codec_i2c_bffr :: u16
  adv7513_i2c_bffr :: u16
  adv7513_encoder :: hdmi_encoder
  alt_irq :: "nat \<Rightarrow> isr option"
  alt_irq_active :: u32
  ienable :: u32

definition bytes_of :: "u16 \<Rightarrow> u8 list" where
  "bytes_of v = [ucast v, ucast (drop_bit 8 v)]"

definition val_of :: "u8 list \<Rightarrow> u16" where
  "val_of bs = (push_bit 8 (ucast (bs ! 1)) :: u16) OR ucast (bs ! 0)"

lemma length_bytes_of [simp]: "length (bytes_of v) = 2"
  by (simp add: bytes_of_def)

lemma val_of_bytes_of [simp]: "val_of (bytes_of v) = v"
  by (rule bit_word_eqI) (auto simp: val_of_def bytes_of_def bit_simps)

lemma bytes_of_val_of: "length bs = 2 \<Longrightarrow> bytes_of (val_of bs) = bs"
proof -
  assume "length bs = 2"
  then obtain a b where bs: "bs = [a, b]"
    by (auto simp: length_Suc_conv numeral_2_eq_2)
  have "ucast ((push_bit 8 (ucast b) :: u16) OR ucast a) = a"
    by (rule bit_word_eqI) (auto simp: bit_simps)
  moreover have "ucast (drop_bit 8 ((push_bit 8 (ucast b) :: u16) OR ucast a)) = b"
    by (rule bit_word_eqI) (auto simp: bit_simps dest: bit_imp_le_length)
  ultimately show ?thesis by (simp add: bs val_of_def bytes_of_def)
qed

section \<open>HAL access macros\<close>

definition IORD_32DIRECT :: "'d bus \<Rightarrow> u32 \<Rightarrow> u32 \<Rightarrow> ('d mach, u32) drv" where
  "IORD_32DIRECT bus base offset = (\<lambda>s.
     let (v, d) = io_rd bus (base + offset) (dev s) in Some (v, s\<lparr>dev := d\<rparr>))"

definition IOWR_32DIRECT :: "'d bus \<Rightarrow> u32 \<Rightarrow> u32 \<Rightarrow> u32 \<Rightarrow> ('d mach, unit) drv" where
  "IOWR_32DIRECT bus base offset v = modify (\<lambda>s. s\<lparr>dev := io_wr bus (base + offset) v (dev s)\<rparr>)"

definition IORD :: "'d bus \<Rightarrow> u32 \<Rightarrow> u32 \<Rightarrow> ('d mach, u32) drv" where
  "IORD bus base regnum = IORD_32DIRECT bus base (regnum * 4)"

definition IOWR :: "'d bus \<Rightarrow> u32 \<Rightarrow> u32 \<Rightarrow> u32 \<Rightarrow> ('d mach, unit) drv" where
  "IOWR bus base regnum v = IOWR_32DIRECT bus base (regnum * 4) v"

definition chThdSleepMilliseconds :: "'d bus \<Rightarrow> nat \<Rightarrow> ('d mach, unit) drv" where
  "chThdSleepMilliseconds bus ms = modify (\<lambda>s. s\<lparr>dev := io_sleep bus ms (dev s)\<rparr>)"

definition CORTEX_BASE :: u32 where "CORTEX_BASE = 0x0"

lemma CORTEX_BASE_add [simp]: "CORTEX_BASE + a = a"
  by (simp add: CORTEX_BASE_def)

lemma wp_IORD [wp_simps]:
  "wp (IORD_32DIRECT bus base a) Q s =
   Q (fst (io_rd bus (base + a) (dev s))) (s\<lparr>dev := snd (io_rd bus (base + a) (dev s))\<rparr>)"
  by (simp add: wp_def IORD_32DIRECT_def split: prod.split)

lemma wp_IOWR [wp_simps]:
  "wp (IOWR_32DIRECT bus base a v) Q s = Q () (s\<lparr>dev := io_wr bus (base + a) v (dev s)\<rparr>)"
  by (simp add: IOWR_32DIRECT_def wp_simps)

lemma wp_sleep [wp_simps]:
  "wp (chThdSleepMilliseconds bus ms) Q s = Q () (s\<lparr>dev := io_sleep bus ms (dev s)\<rparr>)"
  by (simp add: chThdSleepMilliseconds_def wp_simps)

lemmas [wp_simps] = IORD_def IOWR_def

end
