(* ===== verification/Alt_Printf.thy ===== *)
theory Alt_Printf
  imports Machine
begin

text \<open>
  The HAL's minimal \<^verbatim>\<open>printf\<close> (\<^verbatim>\<open>HAL/src/alt_printf.c\<close>): the format
  directives \<open>%%\<close>, \<open>%c\<close>, \<open>%x\<close> and \<open>%s\<close>; any other directive prints nothing
  and consumes no argument.  The conversion of a 32-bit value to hexadecimal is the two
  loops of the source: find the first non-zero digit from the top, then print down to
  digit 0.
\<close>

datatype va_arg = Va_x u32 | Va_c char | Va_s string

section \<open>Hexadecimal conversion\<close>

definition hex_nibble :: "u32 \<Rightarrow> nat \<Rightarrow> u32" where
  "hex_nibble v k = drop_bit (4 * k) (v AND push_bit (4 * k) 0xF)"

definition hex_char :: "u32 \<Rightarrow> char" where
  "hex_char digit =
     (if digit \<le> 9 then char_of (48 + unat digit) else char_of (97 + unat digit - 10))"

text \<open>\<open>digit_shift = 4 * k\<close>; the search runs only for a value that is not zero.\<close>

fun hex_first :: "u32 \<Rightarrow> nat \<Rightarrow> nat" where
  "hex_first v 0 = 0"
| "hex_first v (Suc k) =
     (if v AND push_bit (4 * Suc k) 0xF = 0 then hex_first v k else Suc k)"

fun hex_down :: "u32 \<Rightarrow> nat \<Rightarrow> string" where
  "hex_down v 0 = [hex_char (hex_nibble v 0)]"
| "hex_down v (Suc k) = hex_char (hex_nibble v (Suc k)) # hex_down v k"

definition hex_str :: "u32 \<Rightarrow> string" where
  "hex_str v = (if v = 0 then [CHR ''0''] else hex_down v (hex_first v 7))"

section \<open>Format processing\<close>

fun alt_printf_chars :: "string \<Rightarrow> va_arg list \<Rightarrow> string" where
  "alt_printf_chars [] args = []"
| "alt_printf_chars [c] args = (if c \<noteq> CHR ''%'' then [c] else [])"
| "alt_printf_chars (c # d # w) args =
     (if c \<noteq> CHR ''%'' then c # alt_printf_chars (d # w) args
      else if d = CHR ''%'' then d # alt_printf_chars w args
      else if d = CHR ''c'' then
        (case args of Va_c v # rest \<Rightarrow> v # alt_printf_chars w rest | _ \<Rightarrow> [])
      else if d = CHR ''x'' then
        (case args of Va_x v # rest \<Rightarrow> hex_str v @ alt_printf_chars w rest | _ \<Rightarrow> [])
      else if d = CHR ''s'' then
        (case args of Va_s v # rest \<Rightarrow> v @ alt_printf_chars w rest | _ \<Rightarrow> [])
      else alt_printf_chars w args)"

declare alt_printf_chars.simps [simp del]

definition alt_printf :: "string \<Rightarrow> va_arg list \<Rightarrow> ('d mach, unit) drv" where
  "alt_printf fmt args =
     modify (\<lambda>s. s\<lparr>console := console s @ [Txt (alt_printf_chars fmt args)]\<rparr>)"

definition alt_putstr :: "string \<Rightarrow> ('d mach, unit) drv" where
  "alt_putstr str = modify (\<lambda>s. s\<lparr>console := console s @ [Txt str]\<rparr>)"

definition printf :: "string \<Rightarrow> int list \<Rightarrow> ('d mach, unit) drv" where
  "printf fmt args = modify (\<lambda>s. s\<lparr>console := console s @ [Printf fmt args]\<rparr>)"

lemma wp_alt_printf [wp_simps]:
  "wp (alt_printf fmt args) Q s =
   Q () (s\<lparr>console := console s @ [Txt (alt_printf_chars fmt args)]\<rparr>)"
  by (simp add: alt_printf_def wp_simps)

lemma wp_alt_putstr [wp_simps]:
  "wp (alt_putstr str) Q s = Q () (s\<lparr>console := console s @ [Txt str]\<rparr>)"
  by (simp add: alt_putstr_def wp_simps)

lemma wp_printf [wp_simps]:
  "wp (printf fmt args) Q s = Q () (s\<lparr>console := console s @ [Printf fmt args]\<rparr>)"
  by (simp add: printf_def wp_simps)

section \<open>The printed digits denote the value\<close>

definition hex_digit_val :: "char \<Rightarrow> nat" where
  "hex_digit_val c =
     (let n = of_char c in if n \<le> (57 :: nat) then n - 48 else n - 87)"

definition hex_acc :: "nat \<Rightarrow> char \<Rightarrow> nat" where
  "hex_acc acc c = acc * 16 + hex_digit_val c"

definition hex_val :: "string \<Rightarrow> nat" where
  "hex_val cs = foldl hex_acc 0 cs"

lemma hex_nibble_take: "hex_nibble v k = take_bit 4 (drop_bit (4 * k) v)"
proof (cases "k < 8")
  case True
  then have "k \<in> {0, 1, 2, 3, 4, 5, 6, 7}" by auto
  then have "drop_bit (4 * k) (push_bit (4 * k) (0xF :: u32)) = 0xF"
    by auto
  moreover have "(0xF :: u32) = mask 4" by (simp add: mask_eq_exp_minus_1)
  ultimately show ?thesis
    by (simp add: hex_nibble_def drop_bit_and take_bit_eq_mask)
next
  case False
  then have "drop_bit (4 * k) w = 0" for w :: u32
    by (intro bit_word_eqI) (auto simp: bit_simps dest: bit_imp_le_length)
  then show ?thesis by (simp add: hex_nibble_def)
qed

lemma unat_hex_nibble: "unat (hex_nibble v k) = (unat v div 16 ^ k) mod 16"
proof -
  have "unat (hex_nibble v k) = take_bit 4 (drop_bit (4 * k) (unat v))"
    unfolding hex_nibble_take unsigned_take_bit_eq unsigned_drop_bit_eq
    using unsigned_less [of v, where 'a = nat] by (simp add: take_bit_nat_eq_self)
  then show ?thesis
    unfolding take_bit_eq_mod drop_bit_eq_div by (simp add: power_mult)
qed

lemma hex_nibble_small: "unat (hex_nibble v k) < 16"
  by (simp add: unat_hex_nibble)

lemma hex_nibble_0_iff: "v AND push_bit (4 * k) 0xF = 0 \<longleftrightarrow> hex_nibble v k = 0"
proof
  assume "v AND push_bit (4 * k) 0xF = 0"
  then show "hex_nibble v k = 0" by (simp add: hex_nibble_def)
next
  assume z: "hex_nibble v k = 0"
  show "v AND push_bit (4 * k) 0xF = 0"
  proof (rule bit_word_eqI)
    fix n :: nat
    assume n: "n < LENGTH(32)"
    have "bit (hex_nibble v k) (n - 4 * k) = bit (0 :: u32) (n - 4 * k)"
      using z by simp
    then show "bit (v AND push_bit (4 * k) 0xF) n = bit (0 :: u32) n"
      using n by (auto simp: hex_nibble_def bit_simps)
  qed
qed

lemma hex_digit_val_char:
  assumes "unat d < 16"
  shows "hex_digit_val (hex_char d) = unat d"
  using assms by (auto simp: hex_char_def hex_digit_val_def word_le_nat_alt Let_def)

lemma hex_char_zero: "unat d < 16 \<Longrightarrow> hex_char d = CHR ''0'' \<Longrightarrow> d = 0"
  using hex_digit_val_char [of d] by (simp add: unat_eq_zero hex_digit_val_def)

lemma foldl_hex_down:
  "foldl hex_acc acc (hex_down v k) =
   acc * 16 ^ Suc k + unat v mod 16 ^ Suc k"
proof (induction k arbitrary: acc)
  case 0
  then show ?case by (simp add: hex_digit_val_char unat_hex_nibble hex_acc_def)
next
  case (Suc k)
  have "unat v mod 16 ^ Suc (Suc k) =
      (unat v div 16 ^ Suc k) mod 16 * 16 ^ Suc k + unat v mod 16 ^ Suc k"
    using mod_mult2_eq [of "unat v" "16 ^ Suc k" 16] by (simp add: mult.commute)
  moreover have "hex_acc acc (hex_char (hex_nibble v (Suc k))) =
      acc * 16 + (unat v div 16 ^ Suc k) mod 16"
    by (simp only: hex_acc_def hex_digit_val_char hex_nibble_small)
      (simp only: unat_hex_nibble)
  ultimately show ?case
    by (simp only: hex_down.simps foldl.simps Suc.IH) (simp add: algebra_simps)
qed

lemma hex_val_down: "hex_val (hex_down v k) = unat v mod 16 ^ Suc k"
  by (simp add: hex_val_def foldl_hex_down)

lemma hex_first_bound: "unat v < 16 ^ Suc k \<Longrightarrow> unat v < 16 ^ Suc (hex_first v k)"
proof (induction k)
  case 0
  then show ?case by simp
next
  case (Suc k)
  show ?case
  proof (cases "v AND push_bit (4 * Suc k) 0xF = 0")
    case True
    then have "(unat v div 16 ^ Suc k) mod 16 = 0"
      by (metis hex_nibble_0_iff unat_hex_nibble unat_0)
    moreover have "unat v div 16 ^ Suc k < 16"
      using Suc.prems by (simp add: less_mult_imp_div_less)
    ultimately have "unat v < 16 ^ Suc k"
      by (simp add: div_eq_0_iff)
    with True Suc.IH show ?thesis by simp
  next
    case False
    with Suc.prems show ?thesis by simp
  qed
qed

lemma hex_first_nonzero:
  "v \<noteq> 0 \<Longrightarrow> unat v < 16 ^ Suc k \<Longrightarrow> hex_nibble v (hex_first v k) \<noteq> 0"
proof (induction k)
  case 0
  then have "unat (hex_nibble v 0) = unat v" by (simp add: unat_hex_nibble)
  with 0 show ?case by (metis hex_first.simps(1) unat_eq_0)
next
  case (Suc k)
  have "unat v < 16 ^ Suc k" if "v AND push_bit (4 * Suc k) 0xF = 0"
    using hex_first_bound [OF Suc.prems(2)] that Suc.prems(2)
    by (metis div_eq_0_iff div_less hex_nibble_0_iff less_mult_imp_div_less mod_less
        power_Suc unat_0 unat_hex_nibble zero_less_power zero_less_numeral power_not_zero zero_neq_numeral)
  with Suc show ?case
    using hex_nibble_0_iff [of v "Suc k"] by (cases "hex_nibble v (Suc k) = 0") simp_all
qed

lemma hex_down_hd: "\<exists>cs. hex_down v k = hex_char (hex_nibble v k) # cs"
  by (cases k) auto

text \<open>
  The hexadecimal text \<^verbatim>\<open>alt_printf\<close> prints for \<^verbatim>\<open>%x\<close> denotes the
  32-bit argument, and has no leading zero unless the argument is zero.
\<close>

lemma hex_str_correct:
  "hex_val (hex_str v) = unat v \<and> (hd (hex_str v) = CHR ''0'' \<longleftrightarrow> v = 0)"
proof (cases "v = 0")
  case True
  then show ?thesis by (simp add: hex_str_def hex_val_def hex_acc_def hex_digit_val_def)
next
  case False
  have b: "unat v < 16 ^ Suc 7" using unsigned_less [of v, where 'a = nat] by simp
  have "hex_val (hex_str v) = unat v"
    using False hex_first_bound [OF b] by (simp add: hex_str_def hex_val_down)
  moreover have "hd (hex_str v) \<noteq> CHR ''0''"
    using False hex_first_nonzero [OF False b] hex_down_hd [of v "hex_first v 7"]
      hex_char_zero [OF hex_nibble_small]
    by (auto simp: hex_str_def)
  ultimately show ?thesis using False by simp
qed

end
