(* ===== verification/I2c.thy ===== *)
theory I2c
  imports Alt_Printf
begin

text \<open>
  The driver of the I2C master (\<^verbatim>\<open>cortex/acortex/i2c/i2c.h\<close>, \<^verbatim>\<open>i2c.c\<close>), through which
  the audio codec and the HDMI transmitter are reached.  A transfer moves at most
  \<open>I2C_MAX_XTN_LEN\<close> bytes through a data cache in the controller; the driver starts it by a
  write to the CONFIG register and then polls the STATUS register.

  Two locales state what the driver relies on of the controller.  \<open>i2c_live\<close> only says that
  the controller is not busy for ever: it gives termination of every call above the driver.
  \<open>i2c_master\<close> adds what a transfer does to the chips on the bus.
\<close>

section \<open>Registers\<close>

definition I2C_MAX_XTN_LEN :: u8 where "I2C_MAX_XTN_LEN = 4"

definition I2C_ADDR_REG_ADDR :: u32 where "I2C_ADDR_REG_ADDR = 0x00000"
definition I2C_CLK_DIV_REG_ADDR :: u32 where "I2C_CLK_DIV_REG_ADDR = 0x00010"
definition I2C_CONFIG_REG_ADDR :: u32 where "I2C_CONFIG_REG_ADDR = 0x00020"
definition I2C_STATUS_REG_ADDR :: u32 where "I2C_STATUS_REG_ADDR = 0x00030"
definition I2C_FSM_REG_ADDR :: u32 where "I2C_FSM_REG_ADDR = 0x00040"
definition I2C_DATA_CACHE_BASE_ADDR :: u32 where "I2C_DATA_CACHE_BASE_ADDR = 0x00050"

definition I2C_ADDR_MSK :: u32 where "I2C_ADDR_MSK = 0x000000ff"
definition I2C_CLK_DIV_MSK :: u32 where "I2C_CLK_DIV_MSK = 0x0000ffff"
definition I2C_START_EN_MSK :: u32 where "I2C_START_EN_MSK = 0x00000001"
definition I2C_STOP_EN_MSK :: u32 where "I2C_STOP_EN_MSK = 0x00000002"
definition I2C_INIT_MSK :: u32 where "I2C_INIT_MSK = 0x00000004"
definition I2C_RD_N_WR_MSK :: u32 where "I2C_RD_N_WR_MSK = 0x00000008"
definition I2C_NUM_BYTES_OFFSET :: nat where "I2C_NUM_BYTES_OFFSET = 8"
definition I2C_BUSY_MSK :: u32 where "I2C_BUSY_MSK = 0x00000001"
definition I2C_NACK_DET_MSK :: u32 where "I2C_NACK_DET_MSK = 0x00000002"

lemmas i2c_consts = I2C_MAX_XTN_LEN_def I2C_ADDR_REG_ADDR_def I2C_CLK_DIV_REG_ADDR_def
  I2C_CONFIG_REG_ADDR_def I2C_STATUS_REG_ADDR_def I2C_FSM_REG_ADDR_def
  I2C_DATA_CACHE_BASE_ADDR_def I2C_ADDR_MSK_def I2C_CLK_DIV_MSK_def I2C_START_EN_MSK_def
  I2C_STOP_EN_MSK_def I2C_INIT_MSK_def I2C_RD_N_WR_MSK_def I2C_NUM_BYTES_OFFSET_def
  I2C_BUSY_MSK_def I2C_NACK_DET_MSK_def

definition IORD_I2C_ADDR :: "'d bus \<Rightarrow> ('d mach, u32) drv" where
  "IORD_I2C_ADDR bus = IORD_32DIRECT bus CORTEX_BASE I2C_ADDR_REG_ADDR"

definition IORD_I2C_CLK_DIV :: "'d bus \<Rightarrow> ('d mach, u32) drv" where
  "IORD_I2C_CLK_DIV bus = IORD_32DIRECT bus CORTEX_BASE I2C_CLK_DIV_REG_ADDR"

definition IORD_I2C_STATUS :: "'d bus \<Rightarrow> ('d mach, u32) drv" where
  "IORD_I2C_STATUS bus = IORD_32DIRECT bus CORTEX_BASE I2C_STATUS_REG_ADDR"

definition I2C_DATA_CACHE_ADDR :: "nat \<Rightarrow> u32" where
  "I2C_DATA_CACHE_ADDR offset = I2C_DATA_CACHE_BASE_ADDR + push_bit 4 (of_nat offset)"

definition IORD_I2C_DATA_CACHE :: "'d bus \<Rightarrow> nat \<Rightarrow> ('d mach, u32) drv" where
  "IORD_I2C_DATA_CACHE bus offset = IORD_32DIRECT bus CORTEX_BASE (I2C_DATA_CACHE_ADDR offset)"

definition IOWR_I2C_ADDR :: "'d bus \<Rightarrow> u32 \<Rightarrow> ('d mach, unit) drv" where
  "IOWR_I2C_ADDR bus data = IOWR_32DIRECT bus CORTEX_BASE I2C_ADDR_REG_ADDR data"

definition IOWR_I2C_CLK_DIV :: "'d bus \<Rightarrow> u32 \<Rightarrow> ('d mach, unit) drv" where
  "IOWR_I2C_CLK_DIV bus data = IOWR_32DIRECT bus CORTEX_BASE I2C_CLK_DIV_REG_ADDR data"

definition IOWR_I2C_CONFIG :: "'d bus \<Rightarrow> u32 \<Rightarrow> ('d mach, unit) drv" where
  "IOWR_I2C_CONFIG bus data = IOWR_32DIRECT bus CORTEX_BASE I2C_CONFIG_REG_ADDR data"

definition IOWR_I2C_DATA_CACHE :: "'d bus \<Rightarrow> nat \<Rightarrow> u32 \<Rightarrow> ('d mach, unit) drv" where
  "IOWR_I2C_DATA_CACHE bus offset data =
     IOWR_32DIRECT bus CORTEX_BASE (I2C_DATA_CACHE_ADDR offset) data"

lemmas i2c_macros [wp_simps] = IORD_I2C_ADDR_def IORD_I2C_CLK_DIV_def IORD_I2C_STATUS_def
  IORD_I2C_DATA_CACHE_def IOWR_I2C_ADDR_def IOWR_I2C_CLK_DIV_def IOWR_I2C_CONFIG_def
  IOWR_I2C_DATA_CACHE_def

section \<open>The driver\<close>

datatype I2C_RES = I2C_OK | I2C_NACK_DETECTED | I2C_BUSY | I2C_IDLE | I2C_ERROR

definition get_i2c_status :: "'d bus \<Rightarrow> ('d mach, I2C_RES) drv" where
  "get_i2c_status bus = bnd (IORD_I2C_STATUS bus) (\<lambda>status.
     if status AND I2C_NACK_DET_MSK \<noteq> 0 then ret I2C_NACK_DETECTED
     else if status AND I2C_BUSY_MSK \<noteq> 0 then ret I2C_BUSY
     else ret I2C_IDLE)"

definition configure_i2c_clk :: "'d bus \<Rightarrow> u8 \<Rightarrow> ('d mach, unit) drv" where
  "configure_i2c_clk bus clk_val = IOWR_I2C_CLK_DIV bus (ucast clk_val AND I2C_CLK_DIV_MSK)"

definition get_i2c_clk :: "'d bus \<Rightarrow> ('d mach, u8) drv" where
  "get_i2c_clk bus = bnd (IORD_I2C_CLK_DIV bus) (\<lambda>v. ret (ucast (v AND I2C_CLK_DIV_MSK)))"

definition configure_i2c_addr :: "'d bus \<Rightarrow> u8 \<Rightarrow> ('d mach, unit) drv" where
  "configure_i2c_addr bus addr_val = IOWR_I2C_ADDR bus (ucast addr_val AND I2C_ADDR_MSK)"

definition get_i2c_addr :: "'d bus \<Rightarrow> ('d mach, u8) drv" where
  "get_i2c_addr bus = bnd (IORD_I2C_ADDR bus) (\<lambda>v. ret (ucast (v AND I2C_ADDR_MSK)))"

text \<open>The polling loop of both transfer functions: it has no bound of its own.\<close>

partial_function (option) i2c_wait :: "'d bus \<Rightarrow> 'd mach \<Rightarrow> (unit \<times> 'd mach) option" where
  "i2c_wait bus s =
     (let (status, d) = io_rd bus (CORTEX_BASE + I2C_STATUS_REG_ADDR) (dev s) in
      if status AND I2C_BUSY_MSK \<noteq> 0
      then i2c_wait bus (s\<lparr>dev := io_sleep bus 1 d\<rparr>)
      else Some ((), s\<lparr>dev := d\<rparr>))"

definition i2c_wr_config :: "u8 \<Rightarrow> u8 \<Rightarrow> u8 \<Rightarrow> u32" where
  "i2c_wr_config num_bytes start stop =
     push_bit I2C_NUM_BYTES_OFFSET (ucast num_bytes) + I2C_INIT_MSK +
     push_bit 1 (ucast stop AND 0x1) + (ucast start AND 0x1)"

definition i2c_rd_config :: "u8 \<Rightarrow> u8 \<Rightarrow> u8 \<Rightarrow> u32" where
  "i2c_rd_config num_bytes start stop =
     push_bit I2C_NUM_BYTES_OFFSET (ucast num_bytes) + I2C_RD_N_WR_MSK + I2C_INIT_MSK +
     push_bit 1 (ucast stop AND 0x1) + (ucast start AND 0x1)"

definition i2c_len_error :: "u8 \<Rightarrow> ('d mach, unit) drv" where
  "i2c_len_error num_bytes = alt_printf
     (''[i2c_xtn_write] ERROR num_bytes(0x%x) > I2C_MAX_XTN_LEN(0x%x)'' @ [CHR 0x0D, CHR 0x0A])
     [Va_x (ucast num_bytes), Va_x (ucast I2C_MAX_XTN_LEN)]"

definition i2c_xtn_write ::
  "'d bus \<Rightarrow> u8 \<Rightarrow> u8 list \<Rightarrow> u8 \<Rightarrow> u8 \<Rightarrow> u8 \<Rightarrow> ('d mach, I2C_RES) drv" where
  "i2c_xtn_write bus addr data num_bytes start stop =
     (if num_bytes > I2C_MAX_XTN_LEN then bnd (i2c_len_error num_bytes) (\<lambda>_. ret I2C_ERROR)
      else
        bnd (configure_i2c_addr bus addr) (\<lambda>_.
        bnd (for_each [0..<unat num_bytes]
               (\<lambda>i. IOWR_I2C_DATA_CACHE bus i (ucast (data ! i)))) (\<lambda>_.
        bnd (IOWR_I2C_CONFIG bus (i2c_wr_config num_bytes start stop)) (\<lambda>_.
        bnd (i2c_wait bus) (\<lambda>_.
        bnd (IORD_I2C_STATUS bus) (\<lambda>status.
        if status AND I2C_NACK_DET_MSK \<noteq> 0 then
          bnd (IORD_I2C_STATUS bus) (\<lambda>st.
          bnd (alt_printf (''[i2c_xtn_write] NACK Detected : 0x%x'' @ [CHR 0x0D, CHR 0x0A])
                 [Va_x st]) (\<lambda>_.
          ret I2C_NACK_DETECTED))
        else ret I2C_OK))))))"

text \<open>The caller's buffer is passed in and handed back with the bytes that were read.\<close>

fun i2c_rd_cache :: "'d bus \<Rightarrow> nat list \<Rightarrow> u8 list \<Rightarrow> ('d mach, u8 list) drv" where
  "i2c_rd_cache bus [] bffr = ret bffr"
| "i2c_rd_cache bus (i # is) bffr =
     bnd (IORD_I2C_DATA_CACHE bus i) (\<lambda>v. i2c_rd_cache bus is (bffr[i := ucast (v AND 0xff)]))"

definition i2c_xtn_read ::
  "'d bus \<Rightarrow> u8 \<Rightarrow> u8 list \<Rightarrow> u8 \<Rightarrow> u8 \<Rightarrow> u8 \<Rightarrow> ('d mach, I2C_RES \<times> u8 list) drv" where
  "i2c_xtn_read bus addr bffr num_bytes start stop =
     (if num_bytes > I2C_MAX_XTN_LEN then
        bnd (i2c_len_error num_bytes) (\<lambda>_. ret (I2C_ERROR, bffr))
      else
        bnd (configure_i2c_addr bus (addr OR 0x1)) (\<lambda>_.
        bnd (IOWR_I2C_CONFIG bus (i2c_rd_config num_bytes start stop)) (\<lambda>_.
        bnd (i2c_wait bus) (\<lambda>_.
        bnd (IORD_I2C_STATUS bus) (\<lambda>status.
        if status AND I2C_NACK_DET_MSK \<noteq> 0 then
          bnd (IORD_I2C_STATUS bus) (\<lambda>st.
          bnd (alt_printf (''[i2c_xtn_read] NACK Detected : 0x%x'' @ [CHR 0x0D, CHR 0x0A])
                 [Va_x st]) (\<lambda>_.
          ret (I2C_NACK_DETECTED, bffr)))
        else bnd (i2c_rd_cache bus [0..<unat num_bytes] bffr) (\<lambda>b. ret (I2C_OK, b)))))))"

text \<open>
  \<open>byte_rev_i2c_arry\<close>: the loop counter is 16 bits wide, the size 32 bits; the counter
  wraps, so the loop is not a \<open>for_each\<close>.
\<close>

partial_function (option) byte_rev_loop :: "u32 \<Rightarrow> u16 \<Rightarrow> u8 list \<Rightarrow> u8 list option" where
  "byte_rev_loop sz i bffr =
     (if (ucast i :: u32) < drop_bit 1 sz then
        (let j = unat (sz - ucast i - 1); temp = bffr ! unat i in
         byte_rev_loop sz (i + 1) ((bffr[unat i := bffr ! j])[j := temp]))
      else Some bffr)"

definition byte_rev_i2c_arry :: "u8 list \<Rightarrow> u32 \<Rightarrow> u8 list option" where
  "byte_rev_i2c_arry bffr sz = byte_rev_loop sz 0 bffr"

section \<open>Byte reversal\<close>

text \<open>The buffer after \<open>i\<close> swaps.\<close>

definition rev_part :: "nat \<Rightarrow> 'a list \<Rightarrow> 'a list" where
  "rev_part i b = map (\<lambda>k. if k < i \<or> length b - i \<le> k then b ! (length b - 1 - k) else b ! k)
     [0..<length b]"

lemma length_rev_part [simp]: "length (rev_part i b) = length b"
  by (simp add: rev_part_def)

lemma rev_part_0 [simp]: "rev_part 0 b = b"
  by (rule nth_equalityI) (auto simp: rev_part_def)

lemma rev_part_end: "rev_part (length b div 2) b = rev b"
proof (rule nth_equalityI)
  fix k
  assume "k < length (rev_part (length b div 2) b)"
  moreover from this have "length b - 1 - k = k"
    if "\<not> (k < length b div 2 \<or> length b - length b div 2 \<le> k)"
    using that by auto
  ultimately show "rev_part (length b div 2) b ! k = rev b ! k"
    by (auto simp: rev_part_def rev_nth)
qed simp

lemma rev_part_Suc:
  assumes "i < length b div 2"
  shows "(rev_part i b)[i := rev_part i b ! (length b - i - 1), length b - i - 1 := rev_part i b ! i] =
    rev_part (Suc i) b"
  using assms
  by (intro nth_equalityI) (auto simp: rev_part_def nth_list_update)

lemma byte_rev_loop_rev:
  assumes "length b = unat sz" and "unat sz div 2 < 2 ^ 16" and "i \<le> unat sz div 2"
  shows "byte_rev_loop sz (of_nat i) (rev_part i b) = Some (rev b)"
  using assms(3)
proof (induction "unat sz div 2 - i" arbitrary: i)
  case 0
  then have i: "i = unat sz div 2" by simp
  have "\<not> (ucast (of_nat i :: u16) :: u32) < drop_bit 1 sz"
    using assms(2) i
    by (simp add: word_less_nat_alt drop_bit_eq_div unat_div unsigned_ucast_eq
        take_bit_nat_eq_self unsigned_of_nat)
  then show ?case
    using i assms(1) rev_part_end [of b] by (simp add: byte_rev_loop.simps)
next
  case (Suc n)
  then have i: "i < unat sz div 2" by simp
  have u: "unat (of_nat i :: u16) = i" "unat (ucast (of_nat i :: u16) :: u32) = i"
    using assms(2) i by (simp_all add: unsigned_ucast_eq take_bit_nat_eq_self unsigned_of_nat)
  have lt: "(ucast (of_nat i :: u16) :: u32) < drop_bit 1 sz"
    using i u by (simp add: word_less_nat_alt drop_bit_eq_div unat_div)
  have j: "unat (sz - ucast (of_nat i :: u16) - 1) = unat sz - i - 1"
    using i u by (auto simp: unat_sub_if' unat_gt_0)
  have "byte_rev_loop sz (of_nat (Suc i)) (rev_part (Suc i) b) = Some (rev b)"
    using Suc by (intro Suc.hyps) auto
  then show ?case
    using lt u j i assms(1) rev_part_Suc [of i b]
    by (subst byte_rev_loop.simps) (simp add: Let_def add.commute)
qed

lemma byte_rev_loop_diverges:
  assumes "byte_rev_loop sz i b = Some b'"
  shows "unat sz div 2 < 2 ^ 16"
proof (rule byte_rev_loop.raw_induct [OF _ assms])
  fix f and sz :: u32 and i :: u16 and b b' :: "u8 list"
  assume IH: "\<And>sz i b b'. f sz i b = Some b' \<Longrightarrow> unat sz div 2 < 2 ^ 16"
    and run: "(if (ucast i :: u32) < drop_bit 1 sz then
        (let j = unat (sz - ucast i - 1); temp = b ! unat i in
         f sz (i + 1) ((b[unat i := b ! j])[j := temp]))
      else Some b) = Some b'"
  show "unat sz div 2 < 2 ^ 16"
  proof (rule ccontr)
    assume large: "\<not> unat sz div 2 < 2 ^ 16"
    have "unat i < 2 ^ 16" using unsigned_less [of i, where 'a = nat] by simp
    then have "(ucast i :: u32) < drop_bit 1 sz"
      using large by (simp add: word_less_nat_alt drop_bit_eq_div unat_div unsigned_ucast_eq
          take_bit_nat_eq_self)
    then show False using IH run large by (auto simp: Let_def)
  qed
qed

text \<open>
  C40.  \<^verbatim>\<open>byte_rev_i2c_arry\<close> on a whole buffer returns exactly when half the size fits
  the 16-bit loop counter, and then it has reversed the buffer; for larger buffers the counter
  wraps and the loop never ends.
\<close>

theorem byte_rev_i2c_arry_correct:
  assumes "length b = unat sz"
  shows "byte_rev_i2c_arry b sz = (if unat sz div 2 < 2 ^ 16 then Some (rev b) else None)"
  using byte_rev_loop_rev [of b sz 0] byte_rev_loop_diverges [of sz 0 b] assms
  by (cases "byte_rev_loop sz 0 b") (auto simp: byte_rev_i2c_arry_def)

theorem byte_rev_i2c_arry_witness:
  "length [1, 2, 3 :: u8] = unat (3 :: u32) \<and> byte_rev_i2c_arry [1, 2, 3] 3 = Some [3, 2, 1]"
  using byte_rev_i2c_arry_correct [of "[1, 2, 3]" 3] by simp

section \<open>A controller that is not busy for ever\<close>

text \<open>One turn of the polling loop, as the hardware sees it.\<close>

definition i2c_poll :: "'d bus \<Rightarrow> 'd \<Rightarrow> 'd" where
  "i2c_poll bus d = io_sleep bus 1 (snd (io_rd bus I2C_STATUS_REG_ADDR d))"

definition i2c_busy :: "'d bus \<Rightarrow> 'd \<Rightarrow> bool" where
  "i2c_busy bus d \<longleftrightarrow> fst (io_rd bus I2C_STATUS_REG_ADDR d) AND I2C_BUSY_MSK \<noteq> 0"

lemma i2c_wait_step:
  "i2c_wait bus s =
     (if i2c_busy bus (dev s) then i2c_wait bus (s\<lparr>dev := i2c_poll bus (dev s)\<rparr>)
      else Some ((), s\<lparr>dev := snd (io_rd bus I2C_STATUS_REG_ADDR (dev s))\<rparr>))"
  by (subst i2c_wait.simps) (simp add: i2c_busy_def i2c_poll_def split: prod.split)

text \<open>If the controller is idle after \<open>n\<close> turns the loop ends, after the first such turn.\<close>

lemma i2c_wait_returns:
  assumes "\<not> i2c_busy bus ((i2c_poll bus ^^ n) (dev s))"
  shows "\<exists>m \<le> n. \<not> i2c_busy bus ((i2c_poll bus ^^ m) (dev s)) \<and>
    i2c_wait bus s =
      Some ((), s\<lparr>dev := snd (io_rd bus I2C_STATUS_REG_ADDR ((i2c_poll bus ^^ m) (dev s)))\<rparr>)"
  using assms
proof (induction n arbitrary: s)
  case 0
  then show ?case by (simp add: i2c_wait_step [of bus s])
next
  case (Suc n)
  show ?case
  proof (cases "i2c_busy bus (dev s)")
    case False
    then show ?thesis by (intro exI [of _ 0]) (simp add: i2c_wait_step [of bus s])
  next
    case True
    let ?s = "s\<lparr>dev := i2c_poll bus (dev s)\<rparr>"
    have "\<not> i2c_busy bus ((i2c_poll bus ^^ n) (dev ?s))"
      using Suc.prems by (simp add: funpow_swap1)
    from Suc.IH [OF this] obtain m where
      "m \<le> n" "\<not> i2c_busy bus ((i2c_poll bus ^^ Suc m) (dev s))"
      "i2c_wait bus ?s =
        Some ((), s\<lparr>dev := snd (io_rd bus I2C_STATUS_REG_ADDR ((i2c_poll bus ^^ Suc m) (dev s)))\<rparr>)"
      by (auto simp: funpow_swap1)
    then show ?thesis
      using True by (intro exI [of _ "Suc m"]) (simp add: i2c_wait_step [of bus s])
  qed
qed

locale i2c_live =
  fixes bus :: "'d bus" and live :: "'d \<Rightarrow> bool"
  assumes live_rd: "live d \<Longrightarrow> live (snd (io_rd bus a d))"
    and live_wr: "live d \<Longrightarrow> live (io_wr bus a v d)"
    and live_sleep: "live d \<Longrightarrow> live (io_sleep bus n d)"
    and settles: "live d \<Longrightarrow> \<exists>n. \<not> i2c_busy bus ((i2c_poll bus ^^ n) d)"
begin

abbreviation alive :: "'d mach \<Rightarrow> bool" where "alive s \<equiv> live (dev s)"

lemma live_poll: "live d \<Longrightarrow> live (i2c_poll bus d)"
  by (simp add: i2c_poll_def live_rd live_sleep)

lemma live_polls: "live d \<Longrightarrow> live ((i2c_poll bus ^^ n) d)"
  by (induction n) (simp_all add: live_poll)

lemma keeps_IORD [inv_intros]: "keeps alive (IORD_32DIRECT bus base a)"
  by (rule keepsI) (simp add: wp_simps live_rd)

lemma keeps_IOWR [inv_intros]: "keeps alive (IOWR_32DIRECT bus base a v)"
  by (rule keepsI) (simp add: wp_simps live_wr)

lemma keeps_sleep [inv_intros]: "keeps alive (chThdSleepMilliseconds bus n)"
  by (rule keepsI) (simp add: wp_simps live_sleep)

lemma keeps_alt_printf [inv_intros]: "keeps alive (alt_printf fmt args)"
  by (rule keepsI) (simp add: wp_simps)

lemma keeps_alt_putstr [inv_intros]: "keeps alive (alt_putstr str)"
  by (rule keepsI) (simp add: wp_simps)

lemma keeps_printf [inv_intros]: "keeps alive (printf fmt pargs)"
  by (rule keepsI) (simp add: wp_simps)

lemma keeps_modify [inv_intros]: "(\<And>s. dev (f s) = dev s) \<Longrightarrow> keeps alive (modify f)"
  by (rule keepsI) (simp add: wp_simps)

lemma keeps_i2c_wait [inv_intros]: "keeps alive (i2c_wait bus)"
proof (rule keepsI)
  fix s assume l: "alive s"
  then obtain n where "\<not> i2c_busy bus ((i2c_poll bus ^^ n) (dev s))"
    using settles by blast
  from i2c_wait_returns [OF this] obtain m where
    "i2c_wait bus s =
      Some ((), s\<lparr>dev := snd (io_rd bus I2C_STATUS_REG_ADDR ((i2c_poll bus ^^ m) (dev s)))\<rparr>)"
    by blast
  then show "wp (i2c_wait bus) (\<lambda>_ s'. alive s') s"
    using l by (simp add: wp_eqI live_rd live_polls)
qed

lemma keeps_i2c_rd_cache [inv_intros]: "keeps alive (i2c_rd_cache bus is b)"
  by (induction "is" arbitrary: b) (auto intro!: inv_intros simp: IORD_I2C_DATA_CACHE_def)

lemma keeps_i2c_xtn_write [inv_intros]:
  "keeps alive (i2c_xtn_write bus addr data num_bytes start stop)"
  unfolding i2c_xtn_write_def i2c_len_error_def configure_i2c_addr_def i2c_macros
  by (intro inv_intros)

lemma keeps_i2c_xtn_read [inv_intros]:
  "keeps alive (i2c_xtn_read bus addr b num_bytes start stop)"
  unfolding i2c_xtn_read_def i2c_len_error_def configure_i2c_addr_def i2c_macros
  by (intro inv_intros)

end

section \<open>What a transfer does\<close>

text \<open>
  The controller as its programmer sees it between two transfers: slave address (the read/write
  bit is not stored), data cache, the sticky NACK flag, the chips on the two wires, and, for
  the drivers that use the controller next to other peripherals, the contents of the plain
  registers of those, which no transfer touches.
\<close>

record 'c ctl =
  areg :: u8
  cache :: "u8 list"
  nack :: bool
  chips :: 'c
  regs :: "u32 \<Rightarrow> u32"

text \<open>
  A slave write takes address, bytes, start and stop flag and says whether every byte was
  acknowledged; a slave read also gives the bytes that were received.
\<close>

type_synonym 'c slave_wr = "u8 \<Rightarrow> u8 list \<Rightarrow> bool \<Rightarrow> bool \<Rightarrow> 'c \<Rightarrow> bool \<times> 'c"
type_synonym 'c slave_rd = "u8 \<Rightarrow> nat \<Rightarrow> bool \<Rightarrow> bool \<Rightarrow> 'c \<Rightarrow> bool \<times> u8 list \<times> 'c"

definition ctl_write :: "'c slave_wr \<Rightarrow> nat \<Rightarrow> bool \<Rightarrow> bool \<Rightarrow> 'c ctl \<Rightarrow> 'c ctl" where
  "ctl_write swr n start stop c =
     (let (ack, ch) = swr (areg c) (take n (cache c)) start stop (chips c) in
      c\<lparr>nack := \<not> ack, chips := ch\<rparr>)"

definition ctl_read :: "'c slave_rd \<Rightarrow> nat \<Rightarrow> bool \<Rightarrow> bool \<Rightarrow> 'c ctl \<Rightarrow> 'c ctl" where
  "ctl_read srd n start stop c =
     (let (ack, bs, ch) = srd (areg c) n start stop (chips c) in
      c\<lparr>nack := \<not> ack, cache := bs @ drop (length bs) (cache c), chips := ch\<rparr>)"

definition i2c_regs :: "u32 set" where
  "i2c_regs = {I2C_STATUS_REG_ADDR} \<union> I2C_DATA_CACHE_ADDR ` {..<4}"

text \<open>The words the driver stores, as a controller decodes them.\<close>

lemma areg_decode: "(ucast (ucast (a :: u8) AND I2C_ADDR_MSK :: u32) :: u8) = a"
  by (simp add: I2C_ADDR_MSK_def)

lemma take_cache_update:
  "i < length c \<Longrightarrow> take i c = take i d \<Longrightarrow> take (Suc i) (c[i := d ! i]) = take i d @ [d ! i]"
  by (simp add: take_Suc_conv_app_nth)

locale i2c_master = i2c_live bus live
  for bus :: "'d bus" and live :: "'d \<Rightarrow> bool" +
  fixes view :: "'d \<Rightarrow> 'c ctl" and swr :: "'c slave_wr" and srd :: "'c slave_rd"
  assumes rd_view: "live d \<Longrightarrow> a \<in> i2c_regs \<Longrightarrow> view (snd (io_rd bus a d)) = view d"
    and rd_idle: "live d \<Longrightarrow> a \<in> i2c_regs \<Longrightarrow> \<not> i2c_busy bus d \<Longrightarrow>
      \<not> i2c_busy bus (snd (io_rd bus a d))"
    and sleep_view: "live d \<Longrightarrow> view (io_sleep bus n d) = view d"
    and rd_status: "live d \<Longrightarrow> \<not> i2c_busy bus d \<Longrightarrow>
      fst (io_rd bus I2C_STATUS_REG_ADDR d) AND I2C_NACK_DET_MSK \<noteq> 0 \<longleftrightarrow> nack (view d)"
    and rd_cache: "live d \<Longrightarrow> \<not> i2c_busy bus d \<Longrightarrow> i < 4 \<Longrightarrow>
      fst (io_rd bus (I2C_DATA_CACHE_ADDR i) d) = ucast (cache (view d) ! i)"
    and wr_addr: "live d \<Longrightarrow> \<not> i2c_busy bus d \<Longrightarrow>
      view (io_wr bus I2C_ADDR_REG_ADDR v d) = (view d)\<lparr>areg := ucast v AND 0xFE\<rparr> \<and>
      \<not> i2c_busy bus (io_wr bus I2C_ADDR_REG_ADDR v d)"
    and wr_cache: "live d \<Longrightarrow> \<not> i2c_busy bus d \<Longrightarrow> i < 4 \<Longrightarrow>
      view (io_wr bus (I2C_DATA_CACHE_ADDR i) v d) =
        (view d)\<lparr>cache := (cache (view d))[i := ucast v]\<rparr> \<and>
      \<not> i2c_busy bus (io_wr bus (I2C_DATA_CACHE_ADDR i) v d)"
    and start_write: "live d \<Longrightarrow> \<not> i2c_busy bus d \<Longrightarrow> nb \<le> 4 \<Longrightarrow>
      view (io_wr bus I2C_CONFIG_REG_ADDR (i2c_wr_config nb start stop) d) =
        ctl_write swr (unat nb) (bit start 0) (bit stop 0) (view d)"
    and start_read: "live d \<Longrightarrow> \<not> i2c_busy bus d \<Longrightarrow> nb \<le> 4 \<Longrightarrow>
      view (io_wr bus I2C_CONFIG_REG_ADDR (i2c_rd_config nb start stop) d) =
        ctl_read srd (unat nb) (bit start 0) (bit stop 0) (view d)"
    and cache_len: "live d \<Longrightarrow> length (cache (view d)) = 4"
    and srd_len: "srd sa n st sp c = (True, bs, c') \<Longrightarrow> length bs = n"
begin

definition ready :: "'d mach \<Rightarrow> bool" where
  "ready s \<longleftrightarrow> live (dev s) \<and> \<not> i2c_busy bus (dev s)"

abbreviation chips_of :: "'d mach \<Rightarrow> 'c" where "chips_of s \<equiv> chips (view (dev s))"
abbreviation regs_of :: "'d mach \<Rightarrow> u32 \<Rightarrow> u32" where "regs_of s \<equiv> regs (view (dev s))"

lemma polls_view: "live d \<Longrightarrow> view ((i2c_poll bus ^^ n) d) = view d"
proof (induction n)
  case (Suc n)
  then show ?case
    by (simp add: live_polls i2c_poll_def [of bus "(i2c_poll bus ^^ n) d"]
        sleep_view rd_view live_rd i2c_regs_def)
qed simp

lemma wp_wait:
  assumes "live (dev s)"
    and "\<And>d'. live d' \<Longrightarrow> \<not> i2c_busy bus d' \<Longrightarrow> view d' = view (dev s) \<Longrightarrow> Q () (s\<lparr>dev := d'\<rparr>)"
  shows "wp (i2c_wait bus) Q s"
proof -
  obtain n where "\<not> i2c_busy bus ((i2c_poll bus ^^ n) (dev s))"
    using settles assms(1) by blast
  from i2c_wait_returns [OF this] obtain m where
    m: "\<not> i2c_busy bus ((i2c_poll bus ^^ m) (dev s))"
    "i2c_wait bus s =
      Some ((), s\<lparr>dev := snd (io_rd bus I2C_STATUS_REG_ADDR ((i2c_poll bus ^^ m) (dev s)))\<rparr>)"
    by blast
  have r: "I2C_STATUS_REG_ADDR \<in> i2c_regs" by (simp add: i2c_regs_def)
  show ?thesis
    using m assms r
    by (simp add: wp_eqI live_rd live_polls rd_view rd_idle polls_view)
qed

lemma wp_wr_cache:
  assumes "live (dev s)" "\<not> i2c_busy bus (dev s)" "n \<le> 4" "n \<le> length data"
  shows "wp (for_each [0..<n] (\<lambda>i. IOWR_I2C_DATA_CACHE bus i (ucast (data ! i))))
     (\<lambda>_ s'. \<exists>d'. s' = s\<lparr>dev := d'\<rparr> \<and> live d' \<and> \<not> i2c_busy bus d' \<and>
        areg (view d') = areg (view (dev s)) \<and> chips (view d') = chips (view (dev s)) \<and>
        regs (view d') = regs (view (dev s)) \<and> take n (cache (view d')) = take n data) s"
  using assms(3,4)
proof (induction n)
  case 0
  show ?case using assms by (auto simp: wp_simps intro!: exI [of _ "dev s"])
next
  case (Suc n)
  have split: "for_each (is @ [i]) f = bnd (for_each is f) (\<lambda>_. f i)"
    for "is" i and f :: "nat \<Rightarrow> ('d mach, unit) drv"
    by (induction "is") (auto simp: bnd_def ret_def fun_eq_iff split: option.split)
  have "wp (for_each [0..<n] (\<lambda>i. IOWR_I2C_DATA_CACHE bus i (ucast (data ! i))))
     (\<lambda>_ s'. \<exists>d'. s' = s\<lparr>dev := d'\<rparr> \<and> live d' \<and> \<not> i2c_busy bus d' \<and>
        areg (view d') = areg (view (dev s)) \<and> chips (view d') = chips (view (dev s)) \<and>
        regs (view d') = regs (view (dev s)) \<and> take n (cache (view d')) = take n data) s"
    using Suc by simp
  then show ?case
    unfolding upt_Suc_append [OF le0] split wp_bnd
  proof (rule wp_mono, elim exE conjE)
    fix x s' d'
    assume d': "s' = s\<lparr>dev := d'\<rparr>" "live d'" "\<not> i2c_busy bus d'"
      "areg (view d') = areg (view (dev s))" "chips (view d') = chips (view (dev s))"
      "regs (view d') = regs (view (dev s))"
      "take n (cache (view d')) = take n data"
    let ?d = "io_wr bus (I2C_DATA_CACHE_ADDR n) (ucast (data ! n)) d'"
    have "take (Suc n) (cache (view ?d)) = take (Suc n) data"
      using d' Suc.prems by (simp add: wr_cache cache_len take_cache_update take_Suc_conv_app_nth)
    then show "wp (IOWR_I2C_DATA_CACHE bus n (ucast (data ! n)))
     (\<lambda>_ s'. \<exists>d'. s' = s\<lparr>dev := d'\<rparr> \<and> live d' \<and> \<not> i2c_busy bus d' \<and>
        areg (view d') = areg (view (dev s)) \<and> chips (view d') = chips (view (dev s)) \<and>
        regs (view d') = regs (view (dev s)) \<and> take (Suc n) (cache (view d')) = take (Suc n) data) s'"
      using d' Suc.prems by (simp add: wp_simps) (auto intro!: exI [of _ ?d] simp: live_wr wr_cache)
  qed
qed

lemma wp_status:
  assumes "live (dev s)" "\<not> i2c_busy bus (dev s)"
    and "\<And>d'. live d' \<Longrightarrow> \<not> i2c_busy bus d' \<Longrightarrow> view d' = view (dev s) \<Longrightarrow>
      wp (k (nack (view (dev s)))) Q (s\<lparr>dev := d'\<rparr>)"
  shows "wp (bnd (IORD_I2C_STATUS bus) (\<lambda>st. k (st AND I2C_NACK_DET_MSK \<noteq> 0))) Q s"
proof -
  have r: "I2C_STATUS_REG_ADDR \<in> i2c_regs" by (simp add: i2c_regs_def)
  show ?thesis
    using assms rd_view [OF assms(1) r] rd_idle [OF assms(1) r assms(2)] live_rd [OF assms(1)]
      rd_status [OF assms(1,2)]
    by (simp add: wp_simps)
qed

text \<open>The tail both transfer functions share: report a NACK, or go on.\<close>

lemma wp_nack_report:
  assumes "live (dev s)" "\<not> i2c_busy bus (dev s)"
    and "\<And>d' con. live d' \<Longrightarrow> \<not> i2c_busy bus d' \<Longrightarrow> view d' = view (dev s) \<Longrightarrow>
      Q x (s\<lparr>dev := d', console := con\<rparr>)"
  shows "wp (bnd (IORD_I2C_STATUS bus) (\<lambda>st.
      bnd (alt_printf fmt [Va_x st]) (\<lambda>_. ret x))) Q s"
proof -
  have r: "I2C_STATUS_REG_ADDR \<in> i2c_regs" by (simp add: i2c_regs_def)
  show ?thesis
    using assms rd_view [OF assms(1) r] rd_idle [OF assms(1) r assms(2)] live_rd [OF assms(1)]
    by (simp add: wp_simps)
qed

lemma configured:
  assumes "live (dev s)" "\<not> i2c_busy bus (dev s)"
    and "\<And>d'. live d' \<Longrightarrow> \<not> i2c_busy bus d' \<Longrightarrow>
      view d' = (view (dev s))\<lparr>areg := addr AND 0xFE\<rparr> \<Longrightarrow> wp (k ()) Q (s\<lparr>dev := d'\<rparr>)"
  shows "wp (bnd (configure_i2c_addr bus addr) k) Q s"
  using assms by (simp add: configure_i2c_addr_def wp_simps live_wr wr_addr areg_decode)

lemma console_same [simp]: "s\<lparr>dev := d, console := console s\<rparr> = s\<lparr>dev := d\<rparr>"
  by simp

lemma wp_finish:
  assumes d: "live (dev s)"
    and ok: "\<And>d'. live d' \<Longrightarrow> \<not> i2c_busy bus d' \<Longrightarrow> view d' = view (dev s) \<Longrightarrow>
      \<not> nack (view (dev s)) \<Longrightarrow> wp k Q (s\<lparr>dev := d'\<rparr>)"
    and fail: "\<And>d' con. live d' \<Longrightarrow> \<not> i2c_busy bus d' \<Longrightarrow> view d' = view (dev s) \<Longrightarrow>
      nack (view (dev s)) \<Longrightarrow> Q x (s\<lparr>dev := d', console := con\<rparr>)"
  shows "wp (bnd (i2c_wait bus) (\<lambda>_. bnd (IORD_I2C_STATUS bus) (\<lambda>status.
      if status AND I2C_NACK_DET_MSK \<noteq> 0 then
        bnd (IORD_I2C_STATUS bus) (\<lambda>st. bnd (alt_printf fmt [Va_x st]) (\<lambda>_. ret x))
      else k))) Q s"
  unfolding wp_bnd [of "i2c_wait bus"]
  by (intro wp_wait wp_status [where k = "\<lambda>b. if b then _ else _"])
    (use d ok fail in \<open>auto intro!: wp_nack_report\<close>)

lemma wp_config:
  "wp (bnd (IOWR_I2C_CONFIG bus v) k) Q s =
   wp (k ()) Q (s\<lparr>dev := io_wr bus I2C_CONFIG_REG_ADDR v (dev s)\<rparr>)"
  by (simp add: wp_bnd IOWR_I2C_CONFIG_def wp_IOWR)

lemma wp_i2c_xtn_write:
  assumes "ready s" and n: "n \<le> 4" "unat n \<le> length data"
    and x: "swr (addr AND 0xFE) (take (unat n) data) (bit start 0) (bit stop 0) (chips_of s) = (ack, c')"
    and Q: "\<And>d' con. live d' \<Longrightarrow> \<not> i2c_busy bus d' \<Longrightarrow> chips (view d') = c' \<Longrightarrow>
      regs (view d') = regs_of s \<Longrightarrow> (ack \<Longrightarrow> con = console s) \<Longrightarrow>
      Q (if ack then I2C_OK else I2C_NACK_DETECTED) (s\<lparr>dev := d', console := con\<rparr>)"
  shows "wp (i2c_xtn_write bus addr data n start stop) Q s"
proof -
  have n4: "unat n \<le> 4" using n(1) by (simp add: word_le_nat_alt)
  have start: "wp (bnd (IOWR_I2C_CONFIG bus (i2c_wr_config n start stop)) (\<lambda>_.
        bnd (i2c_wait bus) (\<lambda>_.
        bnd (IORD_I2C_STATUS bus) (\<lambda>status.
        if status AND I2C_NACK_DET_MSK \<noteq> 0 then
          bnd (IORD_I2C_STATUS bus) (\<lambda>st. bnd (alt_printf fmt [Va_x st]) (\<lambda>_.
          ret I2C_NACK_DETECTED))
        else ret I2C_OK)))) Q (s\<lparr>dev := d\<rparr>)"
    if d: "live d" "\<not> i2c_busy bus d" "areg (view d) = addr AND 0xFE"
      "take (unat n) (cache (view d)) = take (unat n) data"
      "chips (view d) = chips_of s" "regs (view d) = regs_of s" for d fmt
  proof -
    let ?d = "io_wr bus I2C_CONFIG_REG_ADDR (i2c_wr_config n start stop) d"
    have v: "live ?d" "nack (view ?d) = (\<not> ack)" "chips (view ?d) = c'"
      "regs (view ?d) = regs_of s"
      using d by (simp_all add: live_wr start_write n ctl_write_def x)
    show ?thesis
      unfolding wp_config
      by (rule wp_finish) (use v Q [of _ "console s"] Q in \<open>auto simp: wp_ret\<close>)
  qed
  show ?thesis
    unfolding i2c_xtn_write_def
    using assms(1) n start
    by (auto simp: ready_def I2C_MAX_XTN_LEN_def linorder_not_less wp_bnd [of "for_each _ _"]
        intro!: configured wp_mono [OF wp_wr_cache] n4)
qed

lemma wp_rd_cache:
  assumes "live (dev s)" "\<not> i2c_busy bus (dev s)" "\<forall>i \<in> set is. i < 4"
    and "\<And>d'. live d' \<Longrightarrow> \<not> i2c_busy bus d' \<Longrightarrow> view d' = view (dev s) \<Longrightarrow>
      Q (fold (\<lambda>i b. b[i := cache (view (dev s)) ! i]) is bffr) (s\<lparr>dev := d'\<rparr>)"
  shows "wp (i2c_rd_cache bus is bffr) Q s"
  using assms
proof (induction "is" arbitrary: s bffr)
  case Nil
  then show ?case using Nil.prems(4) [of "dev s"] by (simp add: wp_simps)
next
  case (Cons i js)
  have r: "I2C_DATA_CACHE_ADDR i \<in> i2c_regs" using Cons.prems by (simp add: i2c_regs_def)
  let ?s = "s\<lparr>dev := snd (io_rd bus (I2C_DATA_CACHE_ADDR i) (dev s))\<rparr>"
  have "wp (i2c_rd_cache bus js (bffr[i := cache (view (dev s)) ! i])) Q ?s"
    using Cons.prems r by (intro Cons.IH) (auto simp: live_rd rd_idle rd_view)
  then show ?case using Cons.prems by (simp add: wp_simps rd_cache)
qed

lemma wp_i2c_xtn_read:
  assumes "ready s" and n: "n \<le> 4" "unat n \<le> length bffr"
    and x: "srd (addr AND 0xFE) (unat n) (bit start 0) (bit stop 0) (chips_of s) = (ack, bs, c')"
    and Q: "\<And>d' con. live d' \<Longrightarrow> \<not> i2c_busy bus d' \<Longrightarrow> chips (view d') = c' \<Longrightarrow>
      regs (view d') = regs_of s \<Longrightarrow> (ack \<Longrightarrow> con = console s) \<Longrightarrow>
      Q (if ack then (I2C_OK, bs @ drop (unat n) bffr) else (I2C_NACK_DETECTED, bffr))
        (s\<lparr>dev := d', console := con\<rparr>)"
  shows "wp (i2c_xtn_read bus addr bffr n start stop) Q s"
proof -
  have n4: "unat n \<le> 4" using n(1) by (simp add: word_le_nat_alt)
  have a: "(addr OR 1) AND 0xFE = addr AND 0xFE"
    by (simp add: bit.conj_disj_distrib2)
  have start: "wp (bnd (IOWR_I2C_CONFIG bus (i2c_rd_config n start stop)) (\<lambda>_.
        bnd (i2c_wait bus) (\<lambda>_.
        bnd (IORD_I2C_STATUS bus) (\<lambda>status.
        if status AND I2C_NACK_DET_MSK \<noteq> 0 then
          bnd (IORD_I2C_STATUS bus) (\<lambda>st. bnd (alt_printf fmt [Va_x st]) (\<lambda>_.
          ret (I2C_NACK_DETECTED, bffr)))
        else bnd (i2c_rd_cache bus [0..<unat n] bffr) (\<lambda>b. ret (I2C_OK, b)))))) Q (s\<lparr>dev := d\<rparr>)"
    if d: "live d" "\<not> i2c_busy bus d" "areg (view d) = addr AND 0xFE"
      "chips (view d) = chips_of s" "regs (view d) = regs_of s" for d fmt
  proof -
    let ?d = "io_wr bus I2C_CONFIG_REG_ADDR (i2c_rd_config n start stop) d"
    have v: "live ?d" "nack (view ?d) = (\<not> ack)" "chips (view ?d) = c'"
      "regs (view ?d) = regs_of s"
      using d by (simp_all add: live_wr start_read n ctl_read_def x)
    have l: "length (cache (view ?d)) = 4" using v(1) by (rule cache_len)
    have b: "fold (\<lambda>i b. b[i := cache (view ?d) ! i]) [0..<unat n] bffr = bs @ drop (unat n) bffr"
      if ack
    proof -
      have "length bs = unat n" using that x by (intro srd_len) simp
      moreover have "cache (view ?d) = bs @ drop (length bs) (cache (view d))"
        using d by (simp add: start_read n ctl_read_def x)
      ultimately show ?thesis using n l n4
        by (subst fold_fill) (auto simp: map_nth intro!: nth_equalityI simp: nth_append)
    qed
    show ?thesis
      unfolding wp_config
      by (rule wp_finish)
        (use v n4 b Q [of _ "console s"] Q in \<open>auto simp: wp_ret wp_bnd intro!: wp_rd_cache\<close>)
  qed
  show ?thesis
    unfolding i2c_xtn_read_def
    using assms(1) n start
    by (auto simp: ready_def I2C_MAX_XTN_LEN_def linorder_not_less a intro!: configured)
qed

end

end
