(* ===== verification/Cortex_Regs.thy ===== *)
theory Cortex_Regs
  imports I2c
begin

text \<open>
  The plain registers of the CORTEX peripherals next to the I2C master: a register that keeps
  the implemented bits of what was last written and changes nothing else.  The drivers of the
  audio interface, the PCM buffer, the FFT engine and the memory interface are read-modify-write
  sequences on such registers.
\<close>

text \<open>A store that updates one plain register, seen on the register contents.\<close>

definition set_reg :: "(u32 \<Rightarrow> u32) \<Rightarrow> u32 \<Rightarrow> (u32 \<Rightarrow> u32) \<Rightarrow> (u32 \<Rightarrow> u32) \<Rightarrow> u32 \<Rightarrow> u32" where
  "set_reg wmask a f g = g(a := f (g a) AND wmask a)"

locale cortex_regs = i2c_master bus live view swr srd
  for bus :: "'d bus" and live :: "'d \<Rightarrow> bool" and view :: "'d \<Rightarrow> 'c ctl"
    and swr :: "'c slave_wr" and srd :: "'c slave_rd" +
  fixes plain :: "u32 set" and wmask :: "u32 \<Rightarrow> u32"
  assumes plain_rd: "live d \<Longrightarrow> \<not> i2c_busy bus d \<Longrightarrow> a \<in> plain \<Longrightarrow>
      fst (io_rd bus a d) = regs (view d) a \<and> view (snd (io_rd bus a d)) = view d \<and>
      \<not> i2c_busy bus (snd (io_rd bus a d))"
    and plain_wr: "live d \<Longrightarrow> \<not> i2c_busy bus d \<Longrightarrow> a \<in> plain \<Longrightarrow>
      view (io_wr bus a v d) = (view d)\<lparr>regs := (regs (view d))(a := v AND wmask a)\<rparr> \<and>
      \<not> i2c_busy bus (io_wr bus a v d)"
begin

text \<open>
  The view of the machine in which the drivers above act: what the chips hold, through an
  observation \<open>obs\<close>, and the plain registers.
\<close>

abbreviation regs_view :: "('c \<Rightarrow> 'o) \<Rightarrow> 'd mach \<Rightarrow> 'o \<times> (u32 \<Rightarrow> u32)" where
  "regs_view obs s \<equiv> (obs (chips_of s), regs_of s)"

text \<open>The store of a value computed from the register's own contents.\<close>

lemma wp_rmw:
  assumes "ready s" "a \<in> plain"
    and "\<And>d'. live d' \<Longrightarrow> \<not> i2c_busy bus d' \<Longrightarrow>
      view d' = (view (dev s))\<lparr>regs := (regs_of s)(a := f (regs_of s a) AND wmask a)\<rparr> \<Longrightarrow>
      Q () (s\<lparr>dev := d'\<rparr>)"
  shows "wp (bnd (IORD_32DIRECT bus CORTEX_BASE a) (\<lambda>v. IOWR_32DIRECT bus CORTEX_BASE a (f v))) Q s"
  using assms plain_rd [of "dev s" a] plain_wr [of "snd (io_rd bus a (dev s))" a]
  by (simp add: wp_simps ready_def live_rd live_wr)

lemma wp_store:
  assumes "ready s" "a \<in> plain"
    and "\<And>d'. live d' \<Longrightarrow> \<not> i2c_busy bus d' \<Longrightarrow>
      view d' = (view (dev s))\<lparr>regs := (regs_of s)(a := v AND wmask a)\<rparr> \<Longrightarrow>
      Q () (s\<lparr>dev := d'\<rparr>)"
  shows "wp (IOWR_32DIRECT bus CORTEX_BASE a v) Q s"
  using assms plain_wr [of "dev s" a]
  by (simp add: wp_simps ready_def live_wr)

lemma rmw_refines:
  "a \<in> plain \<Longrightarrow> refines ready (regs_view obs)
     (bnd (IORD_32DIRECT bus CORTEX_BASE a) (\<lambda>v. IOWR_32DIRECT bus CORTEX_BASE a (f v)))
     (\<lambda>(c, g). (c, set_reg wmask a f g))"
  by (rule refinesI, rule wp_rmw) (auto simp: ready_def set_reg_def)

lemma store_refines:
  "a \<in> plain \<Longrightarrow> refines ready (regs_view obs) (IOWR_32DIRECT bus CORTEX_BASE a v)
     (\<lambda>(c, g). (c, set_reg wmask a (\<lambda>_. v) g))"
  by (rule refinesI, rule wp_store) (auto simp: ready_def set_reg_def)

lemma wp_load:
  assumes "ready s" "a \<in> plain"
    and "\<And>d'. live d' \<Longrightarrow> \<not> i2c_busy bus d' \<Longrightarrow> view d' = view (dev s) \<Longrightarrow>
      Q (regs_of s a) (s\<lparr>dev := d'\<rparr>)"
  shows "wp (IORD_32DIRECT bus CORTEX_BASE a) Q s"
  using assms plain_rd [of "dev s" a]
  by (simp add: wp_simps ready_def live_rd)

end

end
