(* ===== verification/Ssm2603.thy ===== *)
theory Ssm2603
  imports Cortex_Regs
begin

text \<open>
  The driver of the digital audio interface to the SSM2603 codec
  (\<^verbatim>\<open>cortex/acortex/ssm2603_drvr\<close>): enable bits, sample width, and the clock dividers
  for the bit clock and the sample rate.
\<close>

section \<open>Registers, enumerations and tables\<close>

definition SSM2603_DRVR_CONFIG_REG_ADDR :: u32 where "SSM2603_DRVR_CONFIG_REG_ADDR = 0x01000"
definition SSM2603_DRVR_STATUS_REG_ADDR :: u32 where "SSM2603_DRVR_STATUS_REG_ADDR = 0x01010"
definition SSM2603_DRVR_BCLK_DIV_REG_ADDR :: u32 where "SSM2603_DRVR_BCLK_DIV_REG_ADDR = 0x01020"
definition SSM2603_DRVR_FS_VAL_REG_ADDR :: u32 where "SSM2603_DRVR_FS_VAL_REG_ADDR = 0x01030"

definition SSM2603_DRVR_DAC_EN_MSK :: u32 where "SSM2603_DRVR_DAC_EN_MSK = 0x00000001"
definition SSM2603_DRVR_ADC_EN_MSK :: u32 where "SSM2603_DRVR_ADC_EN_MSK = 0x00000002"
definition SSM2603_DRVR_BPS_OFFSET :: nat where "SSM2603_DRVR_BPS_OFFSET = 2"
definition SSM2603_DRVR_BPS_MSK :: u32 where "SSM2603_DRVR_BPS_MSK = 0x0000000c"

lemmas ssm_consts = SSM2603_DRVR_CONFIG_REG_ADDR_def SSM2603_DRVR_STATUS_REG_ADDR_def
  SSM2603_DRVR_BCLK_DIV_REG_ADDR_def SSM2603_DRVR_FS_VAL_REG_ADDR_def
  SSM2603_DRVR_DAC_EN_MSK_def SSM2603_DRVR_ADC_EN_MSK_def SSM2603_DRVR_BPS_OFFSET_def
  SSM2603_DRVR_BPS_MSK_def

definition IORD_SSM2603_DRVR_CONFIG :: "'d bus \<Rightarrow> ('d mach, u32) drv" where
  "IORD_SSM2603_DRVR_CONFIG bus = IORD_32DIRECT bus CORTEX_BASE SSM2603_DRVR_CONFIG_REG_ADDR"

definition IORD_SSM2603_DRVR_STATUS :: "'d bus \<Rightarrow> ('d mach, u32) drv" where
  "IORD_SSM2603_DRVR_STATUS bus = IORD_32DIRECT bus CORTEX_BASE SSM2603_DRVR_STATUS_REG_ADDR"

definition IORD_SSM2603_DRVR_BCLK_DIV :: "'d bus \<Rightarrow> ('d mach, u32) drv" where
  "IORD_SSM2603_DRVR_BCLK_DIV bus = IORD_32DIRECT bus CORTEX_BASE SSM2603_DRVR_BCLK_DIV_REG_ADDR"

definition IORD_SSM2603_DRVR_FS_VAL :: "'d bus \<Rightarrow> ('d mach, u32) drv" where
  "IORD_SSM2603_DRVR_FS_VAL bus = IORD_32DIRECT bus CORTEX_BASE SSM2603_DRVR_FS_VAL_REG_ADDR"

definition IOWR_SSM2603_DRVR_CONFIG :: "'d bus \<Rightarrow> u32 \<Rightarrow> ('d mach, unit) drv" where
  "IOWR_SSM2603_DRVR_CONFIG bus data = IOWR_32DIRECT bus CORTEX_BASE SSM2603_DRVR_CONFIG_REG_ADDR data"

definition IOWR_SSM2603_DRVR_BCLK_DIV :: "'d bus \<Rightarrow> u32 \<Rightarrow> ('d mach, unit) drv" where
  "IOWR_SSM2603_DRVR_BCLK_DIV bus data =
     IOWR_32DIRECT bus CORTEX_BASE SSM2603_DRVR_BCLK_DIV_REG_ADDR data"

definition IOWR_SSM2603_DRVR_FS_VAL :: "'d bus \<Rightarrow> u32 \<Rightarrow> ('d mach, unit) drv" where
  "IOWR_SSM2603_DRVR_FS_VAL bus data = IOWR_32DIRECT bus CORTEX_BASE SSM2603_DRVR_FS_VAL_REG_ADDR data"

lemmas ssm_macros = IORD_SSM2603_DRVR_CONFIG_def IORD_SSM2603_DRVR_STATUS_def
  IORD_SSM2603_DRVR_BCLK_DIV_def IORD_SSM2603_DRVR_FS_VAL_def IOWR_SSM2603_DRVR_CONFIG_def
  IOWR_SSM2603_DRVR_BCLK_DIV_def IOWR_SSM2603_DRVR_FS_VAL_def

datatype FS_T = FS_8KHZ | FS_32KHZ | FS_44KHZ | FS_48KHZ | FS_88KHZ | FS_96KHZ

datatype BCLK_DIV_T = BCLK_DIV_10MHZ

definition bclk_div_val :: "BCLK_DIV_T \<Rightarrow> u32" where
  "bclk_div_val d = (case d of BCLK_DIV_10MHZ \<Rightarrow> 10)"

datatype FS_DIV_T = FS_DIV_8KHZ | FS_DIV_32KHZ | FS_DIV_44KHZ | FS_DIV_48KHZ | FS_DIV_88KHZ
  | FS_DIV_96KHZ

definition fs_div_val :: "FS_DIV_T \<Rightarrow> u32" where
  "fs_div_val d = (case d of FS_DIV_8KHZ \<Rightarrow> 1250 | FS_DIV_32KHZ \<Rightarrow> 313 | FS_DIV_44KHZ \<Rightarrow> 227
     | FS_DIV_48KHZ \<Rightarrow> 208 | FS_DIV_88KHZ \<Rightarrow> 114 | FS_DIV_96KHZ \<Rightarrow> 104)"

definition fs2fs_div_lookup :: "FS_T \<Rightarrow> FS_DIV_T" where
  "fs2fs_div_lookup fs = (case fs of FS_8KHZ \<Rightarrow> FS_DIV_8KHZ | FS_32KHZ \<Rightarrow> FS_DIV_32KHZ
     | FS_44KHZ \<Rightarrow> FS_DIV_44KHZ | FS_48KHZ \<Rightarrow> FS_DIV_48KHZ | FS_88KHZ \<Rightarrow> FS_DIV_88KHZ
     | FS_96KHZ \<Rightarrow> FS_DIV_96KHZ)"

datatype BPS_T = BPS_16 | BPS_20 | BPS_24 | BPS_32

definition bps_val :: "BPS_T \<Rightarrow> nat" where
  "bps_val b = (case b of BPS_16 \<Rightarrow> 0 | BPS_20 \<Rightarrow> 1 | BPS_24 \<Rightarrow> 2 | BPS_32 \<Rightarrow> 3)"

section \<open>Operations\<close>

definition disable_dac_drvr :: "'d bus \<Rightarrow> ('d mach, unit) drv" where
  "disable_dac_drvr bus = bnd (IORD_SSM2603_DRVR_CONFIG bus) (\<lambda>v.
     IOWR_SSM2603_DRVR_CONFIG bus (v AND NOT SSM2603_DRVR_DAC_EN_MSK))"

definition enable_dac_drvr :: "'d bus \<Rightarrow> ('d mach, unit) drv" where
  "enable_dac_drvr bus = bnd (IORD_SSM2603_DRVR_CONFIG bus) (\<lambda>v.
     IOWR_SSM2603_DRVR_CONFIG bus (v OR SSM2603_DRVR_DAC_EN_MSK))"

definition disable_adc_drvr :: "'d bus \<Rightarrow> ('d mach, unit) drv" where
  "disable_adc_drvr bus = bnd (IORD_SSM2603_DRVR_CONFIG bus) (\<lambda>v.
     IOWR_SSM2603_DRVR_CONFIG bus (v AND NOT SSM2603_DRVR_ADC_EN_MSK))"

definition enable_adc_drvr :: "'d bus \<Rightarrow> ('d mach, unit) drv" where
  "enable_adc_drvr bus = bnd (IORD_SSM2603_DRVR_CONFIG bus) (\<lambda>v.
     IOWR_SSM2603_DRVR_CONFIG bus (v OR SSM2603_DRVR_ADC_EN_MSK))"

text \<open>An enumeration is an \<open>int\<close> to the callee: any value of the argument register is shifted in.\<close>

definition configure_drvr_bps :: "'d bus \<Rightarrow> u32 \<Rightarrow> ('d mach, unit) drv" where
  "configure_drvr_bps bus val = bnd (IORD_SSM2603_DRVR_CONFIG bus) (\<lambda>v.
     IOWR_SSM2603_DRVR_CONFIG bus ((v AND NOT SSM2603_DRVR_BPS_MSK) OR
       push_bit SSM2603_DRVR_BPS_OFFSET val))"

definition configure_drvr_fs_div :: "'d bus \<Rightarrow> FS_DIV_T \<Rightarrow> ('d mach, unit) drv" where
  "configure_drvr_fs_div bus val = IOWR_SSM2603_DRVR_FS_VAL bus (fs_div_val val)"

definition configure_drvr_bclk_div :: "'d bus \<Rightarrow> BCLK_DIV_T \<Rightarrow> ('d mach, unit) drv" where
  "configure_drvr_bclk_div bus val = IOWR_SSM2603_DRVR_BCLK_DIV bus (bclk_div_val val)"

definition dump_drvr_regs :: "'d bus \<Rightarrow> ('d mach, unit) drv" where
  "dump_drvr_regs bus =
     bnd (IORD_SSM2603_DRVR_CONFIG bus) (\<lambda>v. bnd (alt_printf
       (''[dump_drvr_regs] SSM2603_DRVR_CONFIG_REG   : 0x%x'' @ [CHR 0x0D, CHR 0x0A]) [Va_x v]) (\<lambda>_.
     bnd (IORD_SSM2603_DRVR_STATUS bus) (\<lambda>v. bnd (alt_printf
       (''[dump_drvr_regs] SSM2603_DRVR_STATUS_REG   : 0x%x'' @ [CHR 0x0D, CHR 0x0A]) [Va_x v]) (\<lambda>_.
     bnd (IORD_SSM2603_DRVR_BCLK_DIV bus) (\<lambda>v. bnd (alt_printf
       (''[dump_drvr_regs] SSM2603_DRVR_BCLK_DIV_REG : 0x%x'' @ [CHR 0x0D, CHR 0x0A]) [Va_x v]) (\<lambda>_.
     bnd (IORD_SSM2603_DRVR_FS_VAL bus) (\<lambda>v. alt_printf
       (''[dump_drvr_regs] SSM2603_DRVR_FS_VAL_REG   : 0x%x'' @ [CHR 0x0D, CHR 0x0A]) [Va_x v])))))))"

section \<open>Effect on the registers\<close>

definition ssm_regs :: "u32 set" where
  "ssm_regs = {SSM2603_DRVR_CONFIG_REG_ADDR, SSM2603_DRVR_BCLK_DIV_REG_ADDR,
     SSM2603_DRVR_FS_VAL_REG_ADDR}"

definition ssm_bps_set :: "u32 \<Rightarrow> u32 \<Rightarrow> u32" where
  "ssm_bps_set val v = (v AND NOT SSM2603_DRVR_BPS_MSK) OR push_bit SSM2603_DRVR_BPS_OFFSET val"

context cortex_regs
begin

lemma ssm_refines:
  assumes "ssm_regs \<subseteq> plain"
  shows "refines ready (regs_view obs) (disable_dac_drvr bus)
      (\<lambda>(c, g). (c, set_reg wmask SSM2603_DRVR_CONFIG_REG_ADDR (\<lambda>v. v AND NOT SSM2603_DRVR_DAC_EN_MSK) g))"
    and "refines ready (regs_view obs) (enable_dac_drvr bus)
      (\<lambda>(c, g). (c, set_reg wmask SSM2603_DRVR_CONFIG_REG_ADDR (\<lambda>v. v OR SSM2603_DRVR_DAC_EN_MSK) g))"
    and "refines ready (regs_view obs) (disable_adc_drvr bus)
      (\<lambda>(c, g). (c, set_reg wmask SSM2603_DRVR_CONFIG_REG_ADDR (\<lambda>v. v AND NOT SSM2603_DRVR_ADC_EN_MSK) g))"
    and "refines ready (regs_view obs) (enable_adc_drvr bus)
      (\<lambda>(c, g). (c, set_reg wmask SSM2603_DRVR_CONFIG_REG_ADDR (\<lambda>v. v OR SSM2603_DRVR_ADC_EN_MSK) g))"
    and "refines ready (regs_view obs) (configure_drvr_bps bus val)
      (\<lambda>(c, g). (c, set_reg wmask SSM2603_DRVR_CONFIG_REG_ADDR (ssm_bps_set val) g))"
    and "refines ready (regs_view obs) (configure_drvr_fs_div bus fsd)
      (\<lambda>(c, g). (c, set_reg wmask SSM2603_DRVR_FS_VAL_REG_ADDR (\<lambda>_. fs_div_val fsd) g))"
    and "refines ready (regs_view obs) (configure_drvr_bclk_div bus bcd)
      (\<lambda>(c, g). (c, set_reg wmask SSM2603_DRVR_BCLK_DIV_REG_ADDR (\<lambda>_. bclk_div_val bcd) g))"
  unfolding disable_dac_drvr_def enable_dac_drvr_def disable_adc_drvr_def enable_adc_drvr_def
    configure_drvr_bps_def configure_drvr_fs_div_def configure_drvr_bclk_div_def ssm_macros
    ssm_bps_set_def
  by (rule rmw_refines store_refines, use assms in \<open>simp add: ssm_regs_def\<close>)+

end

section \<open>The tables\<close>

text \<open>
  The divider of a sample rate is the bit clock frequency over the rate, rounded to the
  nearest integer; the rates are those the names of \<open>FS_T\<close> say, in Hz.
\<close>

definition fs_hz :: "FS_T \<Rightarrow> nat" where
  "fs_hz fs = (case fs of FS_8KHZ \<Rightarrow> 8000 | FS_32KHZ \<Rightarrow> 32000 | FS_44KHZ \<Rightarrow> 44000
     | FS_48KHZ \<Rightarrow> 48000 | FS_88KHZ \<Rightarrow> 88000 | FS_96KHZ \<Rightarrow> 96000)"

lemma fs_div_within_half:
  "2 * \<bar>int (unat (fs_div_val (fs2fs_div_lookup fs))) * int (fs_hz fs) - 10000000\<bar> \<le> int (fs_hz fs)"
  by (cases fs) (simp_all add: fs_div_val_def fs2fs_div_lookup_def fs_hz_def)

end
