(* ===== verification/Aud_Codec.thy ===== *)
theory Aud_Codec
  imports Ssm2603
begin

text \<open>
  The driver of the SSM2603 audio codec (\<^verbatim>\<open>ledos/aud_codec\<close>): registers of nine bits
  behind a seven-bit index, written and read over I2C through a two-byte buffer that is also a
  16-bit word, and read-modify-write of the fields the header describes.
\<close>

section \<open>Registers and fields\<close>

definition AUD_CODEC_I2C_READ_ADDR :: u8 where "AUD_CODEC_I2C_READ_ADDR = 0x35"
definition AUD_CODEC_I2C_WRITE_ADDR :: u8 where "AUD_CODEC_I2C_WRITE_ADDR = 0x34"
definition AUD_CODEC_DATA_OFFSET :: nat where "AUD_CODEC_DATA_OFFSET = 0"
definition AUD_CODEC_DATA_MSK :: u16 where "AUD_CODEC_DATA_MSK = 0x1ff"
definition AUD_CODEC_ADDR_OFFSET :: nat where "AUD_CODEC_ADDR_OFFSET = 9"
definition AUD_CODEC_ADDR_MSK :: u8 where "AUD_CODEC_ADDR_MSK = 0x7f"
definition AUD_CODEC_RESET_IDX :: u8 where "AUD_CODEC_RESET_IDX = 0x0f"

lemmas codec_consts = AUD_CODEC_I2C_READ_ADDR_def AUD_CODEC_I2C_WRITE_ADDR_def
  AUD_CODEC_DATA_OFFSET_def AUD_CODEC_DATA_MSK_def AUD_CODEC_ADDR_OFFSET_def
  AUD_CODEC_ADDR_MSK_def AUD_CODEC_RESET_IDX_def

definition AUD_CODEC_LEFT_LINE_IN_REG_IDX :: u8 where "AUD_CODEC_LEFT_LINE_IN_REG_IDX = 0x00"
definition AUD_CODEC_RIGHT_LINE_IN_REG_IDX :: u8 where "AUD_CODEC_RIGHT_LINE_IN_REG_IDX = 0x01"
definition AUD_CODEC_LEFT_HP_OUT_REG_IDX :: u8 where "AUD_CODEC_LEFT_HP_OUT_REG_IDX = 0x02"
definition AUD_CODEC_RIGHT_HP_OUT_REG_IDX :: u8 where "AUD_CODEC_RIGHT_HP_OUT_REG_IDX = 0x03"
definition AUD_CODEC_ANALOG_AUD_PATH_REG_IDX :: u8 where "AUD_CODEC_ANALOG_AUD_PATH_REG_IDX = 0x04"
definition AUD_CODEC_DIGITAL_AUD_PATH_REG_IDX :: u8 where "AUD_CODEC_DIGITAL_AUD_PATH_REG_IDX = 0x05"
definition AUD_CODEC_POWER_DOWN_REG_IDX :: u8 where "AUD_CODEC_POWER_DOWN_REG_IDX = 0x06"
definition AUD_CODEC_DIGITAL_AUD_IF_FMT_REG_IDX :: u8 where "AUD_CODEC_DIGITAL_AUD_IF_FMT_REG_IDX = 0x07"
definition AUD_CODEC_SAMPLING_CTRL_REG_IDX :: u8 where "AUD_CODEC_SAMPLING_CTRL_REG_IDX = 0x08"
definition AUD_CODEC_ACTIVE_CTRL_REG_IDX :: u8 where "AUD_CODEC_ACTIVE_CTRL_REG_IDX = 0x09"
definition AUD_CODEC_RESET_REG_IDX :: u8 where "AUD_CODEC_RESET_REG_IDX = 0x0f"
definition AUD_CODEC_ALC_CNTRL_1_REG_IDX :: u8 where "AUD_CODEC_ALC_CNTRL_1_REG_IDX = 0x10"
definition AUD_CODEC_ALC_CNTRL_2_REG_IDX :: u8 where "AUD_CODEC_ALC_CNTRL_2_REG_IDX = 0x11"
definition AUD_CODEC_NOISE_GATE_REG_IDX :: u8 where "AUD_CODEC_NOISE_GATE_REG_IDX = 0x12"

lemmas codec_reg_idx = AUD_CODEC_LEFT_LINE_IN_REG_IDX_def
  AUD_CODEC_RIGHT_LINE_IN_REG_IDX_def
  AUD_CODEC_LEFT_HP_OUT_REG_IDX_def
  AUD_CODEC_RIGHT_HP_OUT_REG_IDX_def
  AUD_CODEC_ANALOG_AUD_PATH_REG_IDX_def
  AUD_CODEC_DIGITAL_AUD_PATH_REG_IDX_def
  AUD_CODEC_POWER_DOWN_REG_IDX_def
  AUD_CODEC_DIGITAL_AUD_IF_FMT_REG_IDX_def
  AUD_CODEC_SAMPLING_CTRL_REG_IDX_def
  AUD_CODEC_ACTIVE_CTRL_REG_IDX_def
  AUD_CODEC_RESET_REG_IDX_def
  AUD_CODEC_ALC_CNTRL_1_REG_IDX_def
  AUD_CODEC_ALC_CNTRL_2_REG_IDX_def
  AUD_CODEC_NOISE_GATE_REG_IDX_def

text \<open>A field is described by three macros: register index, offset and mask.\<close>

type_synonym codec_field = "u8 \<times> u8 \<times> u8"

definition AUD_CODEC_LINVOL :: codec_field where "AUD_CODEC_LINVOL = (0, 0, 0x3f)"
definition AUD_CODEC_LIN_MUTE :: codec_field where "AUD_CODEC_LIN_MUTE = (0, 7, 0x1)"
definition AUD_CODEC_LRIN_BOTH :: codec_field where "AUD_CODEC_LRIN_BOTH = (0, 8, 0x1)"
definition AUD_CODEC_RINVOL :: codec_field where "AUD_CODEC_RINVOL = (1, 0, 0x3f)"
definition AUD_CODEC_RIN_MUTE :: codec_field where "AUD_CODEC_RIN_MUTE = (1, 7, 0x1)"
definition AUD_CODEC_RLIN_BOTH :: codec_field where "AUD_CODEC_RLIN_BOTH = (1, 8, 0x1)"
definition AUD_CODEC_LHPVOL :: codec_field where "AUD_CODEC_LHPVOL = (2, 0, 0x7f)"
definition AUD_CODEC_LRHP_BOTH :: codec_field where "AUD_CODEC_LRHP_BOTH = (2, 8, 0x1)"
definition AUD_CODEC_RHPVOL :: codec_field where "AUD_CODEC_RHPVOL = (3, 0, 0x7f)"
definition AUD_CODEC_RLHP_BOTH :: codec_field where "AUD_CODEC_RLHP_BOTH = (3, 8, 0x1)"
definition AUD_CODEC_MIC_BOOST :: codec_field where "AUD_CODEC_MIC_BOOST = (4, 0, 0x1)"
definition AUD_CODEC_MUTE_MIC :: codec_field where "AUD_CODEC_MUTE_MIC = (4, 1, 0x1)"
definition AUD_CODEC_INSEL :: codec_field where "AUD_CODEC_INSEL = (4, 2, 0x1)"
definition AUD_CODEC_BYPASS :: codec_field where "AUD_CODEC_BYPASS = (4, 3, 0x1)"
definition AUD_CODEC_DAC_SEL :: codec_field where "AUD_CODEC_DAC_SEL = (4, 4, 0x1)"
definition AUD_CODEC_SIDE_TONE :: codec_field where "AUD_CODEC_SIDE_TONE = (4, 5, 0x1)"
definition AUD_CODEC_SIDE_ATT :: codec_field where "AUD_CODEC_SIDE_ATT = (4, 6, 0x3)"
definition AUD_CODEC_ADC_HPD :: codec_field where "AUD_CODEC_ADC_HPD = (5, 0, 0x1)"
definition AUD_CODEC_DEEMPH :: codec_field where "AUD_CODEC_DEEMPH = (5, 1, 0x3)"
definition AUD_CODEC_DAC_MU :: codec_field where "AUD_CODEC_DAC_MU = (5, 3, 0x1)"
definition AUD_CODEC_HPOR :: codec_field where "AUD_CODEC_HPOR = (5, 4, 0x1)"
definition AUD_CODEC_LINEINPD :: codec_field where "AUD_CODEC_LINEINPD = (6, 0, 0x1)"
definition AUD_CODEC_MICPD :: codec_field where "AUD_CODEC_MICPD = (6, 1, 0x1)"
definition AUD_CODEC_ADCPD :: codec_field where "AUD_CODEC_ADCPD = (6, 2, 0x1)"
definition AUD_CODEC_DACPD :: codec_field where "AUD_CODEC_DACPD = (6, 3, 0x1)"
definition AUD_CODEC_OUTPD :: codec_field where "AUD_CODEC_OUTPD = (6, 4, 0x1)"
definition AUD_CODEC_OSCPD :: codec_field where "AUD_CODEC_OSCPD = (6, 5, 0x1)"
definition AUD_CODEC_CLKOUTPD :: codec_field where "AUD_CODEC_CLKOUTPD = (6, 6, 0x1)"
definition AUD_CODEC_PWROFF :: codec_field where "AUD_CODEC_PWROFF = (6, 7, 0x1)"
definition AUD_CODEC_FORMAT :: codec_field where "AUD_CODEC_FORMAT = (7, 0, 0x3)"
definition AUD_CODEC_IWL :: codec_field where "AUD_CODEC_IWL = (7, 2, 0x3)"
definition AUD_CODEC_LRP :: codec_field where "AUD_CODEC_LRP = (7, 4, 0x1)"
definition AUD_CODEC_LRSWAP :: codec_field where "AUD_CODEC_LRSWAP = (7, 5, 0x1)"
definition AUD_CODEC_MS :: codec_field where "AUD_CODEC_MS = (7, 6, 0x1)"
definition AUD_CODEC_BCLK_INV :: codec_field where "AUD_CODEC_BCLK_INV = (7, 7, 0x1)"
definition AUD_CODEC_USB_NORM :: codec_field where "AUD_CODEC_USB_NORM = (8, 0, 0x1)"
definition AUD_CODEC_BOSR :: codec_field where "AUD_CODEC_BOSR = (8, 1, 0x1)"
definition AUD_CODEC_SR :: codec_field where "AUD_CODEC_SR = (8, 2, 0xf)"
definition AUD_CODEC_CLKI_DIV2 :: codec_field where "AUD_CODEC_CLKI_DIV2 = (8, 6, 0x1)"
definition AUD_CODEC_CLKO_DIV2 :: codec_field where "AUD_CODEC_CLKO_DIV2 = (8, 7, 0x1)"
definition AUD_CODEC_ACTIVE :: codec_field where "AUD_CODEC_ACTIVE = (9, 0, 0x1)"
definition AUD_CODEC_ALCL :: codec_field where "AUD_CODEC_ALCL = (0x10, 0, 0xf)"
definition AUD_CODEC_MAXGAIN :: codec_field where "AUD_CODEC_MAXGAIN = (0x10, 4, 0x7)"
definition AUD_CODEC_ALCSEL :: codec_field where "AUD_CODEC_ALCSEL = (0x10, 7, 0x3)"
definition AUD_CODEC_ATK :: codec_field where "AUD_CODEC_ATK = (0x11, 0, 0xf)"
definition AUD_CODEC_DCY :: codec_field where "AUD_CODEC_DCY = (0x11, 4, 0xf)"
definition AUD_CODEC_NGAT :: codec_field where "AUD_CODEC_NGAT = (0x12, 0, 0x1)"
definition AUD_CODEC_NGG :: codec_field where "AUD_CODEC_NGG = (0x12, 1, 0x3)"
definition AUD_CODEC_NGTH :: codec_field where "AUD_CODEC_NGTH = (0x12, 3, 0x1f)"

lemmas codec_fields =
  AUD_CODEC_LINVOL_def
  AUD_CODEC_LIN_MUTE_def
  AUD_CODEC_LRIN_BOTH_def
  AUD_CODEC_RINVOL_def
  AUD_CODEC_RIN_MUTE_def
  AUD_CODEC_RLIN_BOTH_def
  AUD_CODEC_LHPVOL_def
  AUD_CODEC_LRHP_BOTH_def
  AUD_CODEC_RHPVOL_def
  AUD_CODEC_RLHP_BOTH_def
  AUD_CODEC_MIC_BOOST_def
  AUD_CODEC_MUTE_MIC_def
  AUD_CODEC_INSEL_def
  AUD_CODEC_BYPASS_def
  AUD_CODEC_DAC_SEL_def
  AUD_CODEC_SIDE_TONE_def
  AUD_CODEC_SIDE_ATT_def
  AUD_CODEC_ADC_HPD_def
  AUD_CODEC_DEEMPH_def
  AUD_CODEC_DAC_MU_def
  AUD_CODEC_HPOR_def
  AUD_CODEC_LINEINPD_def
  AUD_CODEC_MICPD_def
  AUD_CODEC_ADCPD_def
  AUD_CODEC_DACPD_def
  AUD_CODEC_OUTPD_def
  AUD_CODEC_OSCPD_def
  AUD_CODEC_CLKOUTPD_def
  AUD_CODEC_PWROFF_def
  AUD_CODEC_FORMAT_def
  AUD_CODEC_IWL_def
  AUD_CODEC_LRP_def
  AUD_CODEC_LRSWAP_def
  AUD_CODEC_MS_def
  AUD_CODEC_BCLK_INV_def
  AUD_CODEC_USB_NORM_def
  AUD_CODEC_BOSR_def
  AUD_CODEC_SR_def
  AUD_CODEC_CLKI_DIV2_def
  AUD_CODEC_CLKO_DIV2_def
  AUD_CODEC_ACTIVE_def
  AUD_CODEC_ALCL_def
  AUD_CODEC_MAXGAIN_def
  AUD_CODEC_ALCSEL_def
  AUD_CODEC_ATK_def
  AUD_CODEC_DCY_def
  AUD_CODEC_NGAT_def
  AUD_CODEC_NGG_def
  AUD_CODEC_NGTH_def

datatype SR_SEL = FS_8KHZ_SR | FS_32KHZ_SR | FS_44KHZ_SR | FS_48KHZ_SR | FS_88KHZ_SR | FS_96KHZ_SR

definition sr_sel_val :: "SR_SEL \<Rightarrow> u16" where
  "sr_sel_val r = (case r of FS_8KHZ_SR \<Rightarrow> 0x3 | FS_32KHZ_SR \<Rightarrow> 0x6 | FS_44KHZ_SR \<Rightarrow> 0x8
     | FS_48KHZ_SR \<Rightarrow> 0x0 | FS_88KHZ_SR \<Rightarrow> 0xf | FS_96KHZ_SR \<Rightarrow> 0x7)"

definition fs2sr_lookup :: "FS_T \<Rightarrow> SR_SEL" where
  "fs2sr_lookup fs = (case fs of FS_8KHZ \<Rightarrow> FS_8KHZ_SR | FS_32KHZ \<Rightarrow> FS_32KHZ_SR
     | FS_44KHZ \<Rightarrow> FS_44KHZ_SR | FS_48KHZ \<Rightarrow> FS_48KHZ_SR | FS_88KHZ \<Rightarrow> FS_88KHZ_SR
     | FS_96KHZ \<Rightarrow> FS_96KHZ_SR)"

definition fs2bosr_lookup :: "FS_T \<Rightarrow> u16" where
  "fs2bosr_lookup fs = (case fs of FS_8KHZ \<Rightarrow> 0 | FS_32KHZ \<Rightarrow> 0 | FS_44KHZ \<Rightarrow> 1 | FS_48KHZ \<Rightarrow> 0
     | FS_88KHZ \<Rightarrow> 1 | FS_96KHZ \<Rightarrow> 0)"

text \<open>The macros \<open>AUD_CODEC_EXTRACT_FIELD\<close> and \<open>AUD_CODEC_UPDATE_FIELD\<close> on a buffer value.\<close>

definition AUD_CODEC_EXTRACT_FIELD :: "u16 \<Rightarrow> u8 \<Rightarrow> u8 \<Rightarrow> u16" where
  "AUD_CODEC_EXTRACT_FIELD v offset msk = drop_bit (unat offset) v AND ucast msk"

definition AUD_CODEC_UPDATE_FIELD :: "u16 \<Rightarrow> u16 \<Rightarrow> u8 \<Rightarrow> u8 \<Rightarrow> u16" where
  "AUD_CODEC_UPDATE_FIELD v value offset msk =
     (v AND NOT (push_bit (unat offset) (ucast msk))) + push_bit (unat offset) (value AND ucast msk)"

section \<open>Operations\<close>

definition codec_word :: "u8 \<Rightarrow> u16 \<Rightarrow> u16" where
  "codec_word addr val = push_bit AUD_CODEC_ADDR_OFFSET (ucast (addr AND AUD_CODEC_ADDR_MSK)) +
     push_bit AUD_CODEC_DATA_OFFSET (val AND AUD_CODEC_DATA_MSK)"

text \<open>\<open>lift_opt\<close> runs a computation on data alone, which may not end.\<close>

definition lift_opt :: "'a option \<Rightarrow> ('s, 'a) drv" where
  "lift_opt m = (\<lambda>s. case m of None \<Rightarrow> None | Some x \<Rightarrow> Some (x, s))"

definition aud_codec_write_reg :: "'d bus \<Rightarrow> u8 \<Rightarrow> u16 \<Rightarrow> ('d mach, I2C_RES) drv" where
  "aud_codec_write_reg bus addr val =
     bnd (modify (\<lambda>s. s\<lparr>aud_codec_i2c_bffr := codec_word addr val\<rparr>)) (\<lambda>_.
     bnd (gets aud_codec_i2c_bffr) (\<lambda>v.
     bnd (lift_opt (byte_rev_i2c_arry (bytes_of v) 2)) (\<lambda>bs.
     bnd (modify (\<lambda>s. s\<lparr>aud_codec_i2c_bffr := val_of bs\<rparr>)) (\<lambda>_.
     i2c_xtn_write bus AUD_CODEC_I2C_WRITE_ADDR bs 2 1 1))))"

definition aud_codec_read_reg :: "'d bus \<Rightarrow> u8 \<Rightarrow> ('d mach, I2C_RES) drv" where
  "aud_codec_read_reg bus addr =
     bnd (modify (\<lambda>s. s\<lparr>aud_codec_i2c_bffr :=
            val_of ((bytes_of (aud_codec_i2c_bffr s))[0 := push_bit 1 (addr AND AUD_CODEC_ADDR_MSK)])\<rparr>)) (\<lambda>_.
     bnd (gets aud_codec_i2c_bffr) (\<lambda>v.
     bnd (i2c_xtn_write bus AUD_CODEC_I2C_WRITE_ADDR (bytes_of v) 1 1 0) (\<lambda>r.
     if r \<noteq> I2C_OK then ret I2C_ERROR
     else
       bnd (i2c_xtn_read bus AUD_CODEC_I2C_READ_ADDR (bytes_of v) 2 1 1) (\<lambda>(r, bs).
       bnd (modify (\<lambda>s. s\<lparr>aud_codec_i2c_bffr := val_of bs\<rparr>)) (\<lambda>_.
       if r \<noteq> I2C_OK then ret I2C_ERROR
       else
         bnd (modify (\<lambda>s. s\<lparr>aud_codec_i2c_bffr := aud_codec_i2c_bffr s AND AUD_CODEC_DATA_MSK\<rparr>)) (\<lambda>_.
         ret I2C_OK))))))"

definition aud_codec_reset :: "'d bus \<Rightarrow> ('d mach, unit) drv" where
  "aud_codec_reset bus =
     bnd (aud_codec_write_reg bus AUD_CODEC_RESET_IDX 0) (\<lambda>r.
     if r \<noteq> I2C_OK then alt_printf (''[aud_codec_reset] Error in I2C'' @ [CHR 0x0A]) [] else ret ())"

definition aud_codec_update_field :: "'d bus \<Rightarrow> u16 \<Rightarrow> codec_field \<Rightarrow> ('d mach, unit) drv" where
  "aud_codec_update_field bus val field = (case field of (idx, offset, msk) \<Rightarrow>
     bnd (aud_codec_read_reg bus idx) (\<lambda>r.
     if r \<noteq> I2C_OK then
       alt_printf (''[aud_codec_update_field] ERROR in reading codec register 0x%x'' @
         [CHR 0x0D, CHR 0x0A]) [Va_x (ucast idx)]
     else
       bnd (modify (\<lambda>s. s\<lparr>aud_codec_i2c_bffr :=
              AUD_CODEC_UPDATE_FIELD (aud_codec_i2c_bffr s) val offset msk\<rparr>)) (\<lambda>_.
       bnd (gets aud_codec_i2c_bffr) (\<lambda>v.
       bnd (aud_codec_write_reg bus idx v) (\<lambda>r.
       if r \<noteq> I2C_OK then
         alt_printf (''[aud_codec_update_field] ERROR in writing to codec register 0x%x'' @
           [CHR 0x0D, CHR 0x0A]) [Va_x (ucast idx)]
       else ret ())))))"

definition aud_codec_update_iwl :: "'d bus \<Rightarrow> BPS_T \<Rightarrow> ('d mach, unit) drv" where
  "aud_codec_update_iwl bus val = aud_codec_update_field bus (of_nat (bps_val val)) AUD_CODEC_IWL"

definition aud_codec_init :: "'d bus \<Rightarrow> BPS_T \<Rightarrow> ('d mach, unit) drv" where
  "aud_codec_init bus bps =
     bnd (aud_codec_reset bus) (\<lambda>_.
     bnd (aud_codec_update_field bus 0 AUD_CODEC_PWROFF) (\<lambda>_.
     bnd (aud_codec_update_field bus 0 AUD_CODEC_LINEINPD) (\<lambda>_.
     bnd (aud_codec_update_iwl bus bps) (\<lambda>_.
     bnd (aud_codec_update_field bus 1 AUD_CODEC_LRP) (\<lambda>_.
     bnd (aud_codec_update_field bus 3 AUD_CODEC_FORMAT) (\<lambda>_.
     bnd (aud_codec_update_field bus 1 AUD_CODEC_USB_NORM) (\<lambda>_.
     bnd (aud_codec_update_field bus 1 AUD_CODEC_DAC_SEL) (\<lambda>_.
     bnd (aud_codec_update_field bus 0 AUD_CODEC_BYPASS) (\<lambda>_.
     bnd (aud_codec_update_field bus 0 AUD_CODEC_DAC_MU) (\<lambda>_.
     bnd (aud_codec_update_field bus 1 AUD_CODEC_ACTIVE) (\<lambda>_.
     aud_codec_update_field bus 0 AUD_CODEC_OUTPD)))))))))))"

section \<open>The register dump\<close>

text \<open>
  \<open>aud_codec_dump_regs\<close> is a switch over the register index; the table has one entry per case,
  with the title and, in the order of the source, the label, offset and mask of each line.
\<close>

definition dump_field :: "string \<Rightarrow> codec_field \<Rightarrow> string \<times> u8 \<times> u8" where
  "dump_field label f = (label, fst (snd f), snd (snd f))"

definition codec_dump_table :: "(u8 \<times> string \<times> (string \<times> u8 \<times> u8) list) list" where
  "codec_dump_table =
    [(AUD_CODEC_LEFT_LINE_IN_REG_IDX, ''LEFT_LINE_IN REG - 0x%x'',
       [dump_field ''LRIN BOTH : 0x%x'' AUD_CODEC_LRIN_BOTH,
        dump_field ''LIN MUTE  : 0x%x'' AUD_CODEC_LIN_MUTE,
        dump_field ''LIN VOL   : 0x%x'' AUD_CODEC_LINVOL]),
     (AUD_CODEC_RIGHT_LINE_IN_REG_IDX, ''RIGHT_LINE_IN REG - 0x%x'',
       [dump_field ''RLIN BOTH : 0x%x'' AUD_CODEC_RLIN_BOTH,
        dump_field ''RIN MUTE  : 0x%x'' AUD_CODEC_RIN_MUTE,
        dump_field ''RIN VOL   : 0x%x'' AUD_CODEC_RINVOL]),
     (AUD_CODEC_LEFT_HP_OUT_REG_IDX, ''LEFT_HP_OUT REG - 0x%x'',
       [dump_field ''LRHP BOTH : 0x%x'' AUD_CODEC_LRHP_BOTH,
        dump_field ''LHPVOL    : 0x%x'' AUD_CODEC_LHPVOL]),
     (AUD_CODEC_RIGHT_HP_OUT_REG_IDX, ''RIGHT_HP_OUT REG - 0x%x'',
       [dump_field ''RLHP BOTH : 0x%x'' AUD_CODEC_RLHP_BOTH,
        dump_field ''RHPVOL    : 0x%x'' AUD_CODEC_RHPVOL]),
     (AUD_CODEC_ANALOG_AUD_PATH_REG_IDX, ''ANALOG_AUDIO_PATH REG - 0x%x'',
       [dump_field ''SIDE ATT  : 0x%x'' AUD_CODEC_SIDE_ATT,
        dump_field ''SIDE TONE : 0x%x'' AUD_CODEC_SIDE_TONE,
        dump_field ''DAC SEL   : 0x%x'' AUD_CODEC_DAC_SEL,
        dump_field ''BYPASS    : 0x%x'' AUD_CODEC_BYPASS,
        dump_field ''INSEL     : 0x%x'' AUD_CODEC_INSEL,
        dump_field ''MUTE MIC  : 0x%x'' AUD_CODEC_MUTE_MIC,
        dump_field ''MIC BOOST  : 0x%x'' AUD_CODEC_MIC_BOOST]),
     (AUD_CODEC_DIGITAL_AUD_PATH_REG_IDX, ''DIGITAL_AUDIO_PATH REG - 0x%x'',
       [dump_field ''HPOR      : 0x%x'' AUD_CODEC_HPOR,
        dump_field ''DAC MUTE  : 0x%x'' AUD_CODEC_DAC_MU,
        dump_field ''DE-EMPH   : 0x%x'' AUD_CODEC_DEEMPH,
        dump_field ''ADC HPD   : 0x%x'' AUD_CODEC_ADC_HPD]),
     (AUD_CODEC_POWER_DOWN_REG_IDX, ''POWER_DOWN REG - 0x%x'',
       [dump_field ''PWR OFF   : 0x%x'' AUD_CODEC_PWROFF,
        dump_field ''CLK OUTPD : 0x%x'' AUD_CODEC_CLKOUTPD,
        dump_field ''OSCPD     : 0x%x'' AUD_CODEC_OSCPD,
        dump_field ''OUTPD     : 0x%x'' AUD_CODEC_OUTPD,
        dump_field ''DACPD     : 0x%x'' AUD_CODEC_DACPD,
        dump_field ''ADCPD     : 0x%x'' AUD_CODEC_ADCPD,
        dump_field ''MICPD     : 0x%x'' AUD_CODEC_MICPD,
        dump_field ''LINEINPD  : 0x%x'' AUD_CODEC_LINEINPD]),
     (AUD_CODEC_DIGITAL_AUD_IF_FMT_REG_IDX, ''DIGITAL_AUD_INTF_FMT REG - 0x%x'',
       [dump_field ''BCLK INV  : 0x%x'' AUD_CODEC_BCLK_INV,
        dump_field ''MS        : 0x%x'' AUD_CODEC_MS,
        dump_field ''LRSWAP    : 0x%x'' AUD_CODEC_LRSWAP,
        dump_field ''LRP       : 0x%x'' AUD_CODEC_LRP,
        dump_field ''IWL       : 0x%x'' AUD_CODEC_IWL,
        dump_field ''FORMAT    : 0x%x'' AUD_CODEC_FORMAT]),
     (AUD_CODEC_SAMPLING_CTRL_REG_IDX, ''SAMPLING_CNTRL REG - 0x%x'',
       [dump_field ''CLKO DIV2 : 0x%x'' AUD_CODEC_CLKO_DIV2,
        dump_field ''CLKI DIV2 : 0x%x'' AUD_CODEC_CLKI_DIV2,
        dump_field ''SR        : 0x%x'' AUD_CODEC_SR,
        dump_field ''BOSR      : 0x%x'' AUD_CODEC_BOSR,
        dump_field ''USB/NORM  : 0x%x'' AUD_CODEC_USB_NORM]),
     (AUD_CODEC_ACTIVE_CTRL_REG_IDX, ''SAMPLING_CNTRL REG - 0x%x'',
       [dump_field ''ACTIVE    : 0x%x'' AUD_CODEC_ACTIVE]),
     (AUD_CODEC_RESET_REG_IDX, ''AUD_CODEC_RESET REG - 0x%x'',
       []),
     (AUD_CODEC_ALC_CNTRL_1_REG_IDX, ''AUD_CODEC_ALC_CNTRL_1 REG - 0x%x'',
       [dump_field ''ALCL : 0x%x'' AUD_CODEC_ALCL,
        dump_field ''MAXGAIN : 0x%x'' AUD_CODEC_MAXGAIN,
        dump_field ''ALCSEL : 0x%x'' AUD_CODEC_ALCSEL]),
     (AUD_CODEC_ALC_CNTRL_2_REG_IDX, ''AUD_CODEC_ALC_CNTRL_2 REG - 0x%x'',
       [dump_field ''ATK : 0x%x'' AUD_CODEC_ATK,
        dump_field ''DCY : 0x%x'' AUD_CODEC_DCY]),
     (AUD_CODEC_NOISE_GATE_REG_IDX, ''AUD_CODEC_NOISE_GATE REG - 0x%x'',
       [dump_field ''NGAT : 0x%x'' AUD_CODEC_NGAT,
        (''NGG : 0x%x'', fst (snd AUD_CODEC_NGG), snd (snd AUD_CODEC_NGAT)),
        dump_field ''NGTH : 0x%x'' AUD_CODEC_NGTH])]"

definition codec_dump_reg :: "'d bus \<Rightarrow> u8 \<Rightarrow> ('d mach, bool) drv" where
  "codec_dump_reg bus i = (case map_of codec_dump_table i of
       None \<Rightarrow> ret True
     | Some (title, flds) \<Rightarrow>
         bnd (aud_codec_read_reg bus i) (\<lambda>r.
         if r \<noteq> I2C_OK then
           bnd (alt_printf (''[aud_codec_dump_regs] ERROR in reading codec register 0x%x'' @
             [CHR 0x0D, CHR 0x0A]) [Va_x (ucast i)]) (\<lambda>_. ret False)
         else
           bnd (gets aud_codec_i2c_bffr) (\<lambda>v.
           bnd (alt_printf (''[0x%x] '' @ title @ [CHR 0x0D, CHR 0x0A])
                  [Va_x (ucast i), Va_x (ucast v)]) (\<lambda>_.
           bnd (for_each flds (\<lambda>(label, offset, msk).
                  bnd (gets aud_codec_i2c_bffr) (\<lambda>v.
                  alt_printf (CHR 0x09 # label @ [CHR 0x0D, CHR 0x0A])
                    [Va_x (ucast (AUD_CODEC_EXTRACT_FIELD v offset msk))]))) (\<lambda>_.
           ret True)))))"

fun codec_dump_loop :: "'d bus \<Rightarrow> u8 list \<Rightarrow> ('d mach, unit) drv" where
  "codec_dump_loop bus [] = ret ()"
| "codec_dump_loop bus (i # is) =
     bnd (codec_dump_reg bus i) (\<lambda>go. if go then codec_dump_loop bus is else ret ())"

text \<open>The two loops run over \<open>0 .. 9\<close> and over \<open>0xf .. 0x12\<close>; an error leaves the function.\<close>

definition aud_codec_dump_regs :: "'d bus \<Rightarrow> ('d mach, unit) drv" where
  "aud_codec_dump_regs bus =
     bnd (alt_printf (''CODEC Regs - '' @ [CHR 0x0D, CHR 0x0A]) []) (\<lambda>_.
     codec_dump_loop bus (map of_nat [0..<10] @ map of_nat [0xf..<0x13]))"

section \<open>Encoding\<close>

text \<open>The two bytes as the codec decodes them: index in the upper seven bits, then nine bits of data.\<close>

definition codec_decode :: "u8 list \<Rightarrow> u8 \<times> u16" where
  "codec_decode bs = (drop_bit 1 (bs ! 0), push_bit 8 (ucast (bs ! 0 AND 1)) OR ucast (bs ! 1))"

lemma wp_lift_opt [wp_simps]:
  "wp (lift_opt m) Q s = (case m of None \<Rightarrow> False | Some x \<Rightarrow> Q x s)"
  by (simp add: wp_def lift_opt_def split: option.split)

lemma byte_rev_pair: "byte_rev_i2c_arry (bytes_of v) 2 = Some (rev (bytes_of v))"
  using byte_rev_loop_rev [of "bytes_of v" 2 0] by (simp add: byte_rev_i2c_arry_def)

lemma codec_word_or:
  "codec_word r v = push_bit 9 (ucast r) OR (v AND mask 9)"
proof -
  have "codec_word r v = push_bit 9 (ucast (r AND mask 7)) + (v AND mask 9)"
    by (simp add: codec_word_def codec_consts mask_eq_exp_minus_1)
  also have "\<dots> = push_bit 9 (ucast (r AND mask 7)) OR (v AND mask 9)"
    by (rule disjunctive_add) (auto simp: bit_simps)
  also have "\<dots> = push_bit 9 (ucast r) OR (v AND mask 9)"
    by (rule bit_word_eqI) (auto simp: bit_simps)
  finally show ?thesis .
qed

lemma codec_decode_word:
  assumes "r < 0x80"
  shows "codec_decode (rev (bytes_of (codec_word r v))) = (r, v AND AUD_CODEC_DATA_MSK)"
proof -
  have m: "AUD_CODEC_DATA_MSK = mask 9" by (simp add: codec_consts mask_eq_exp_minus_1)
  have "take_bit 7 r = r" using assms by (intro take_bit_small) (simp add: word_less_nat_alt)
  then have r: "bit r n \<Longrightarrow> n < 7" for n by (metis bit_take_bit_iff)
  have e: "n < 9 \<Longrightarrow> \<not> n < 8 \<Longrightarrow> n = 8" for n :: nat by simp
  have b: "rev (bytes_of w) ! 0 = ucast (drop_bit 8 w)" "rev (bytes_of w) ! 1 = ucast w" for w
    by (simp_all add: bytes_of_def)
  have "drop_bit 1 (rev (bytes_of (codec_word r v)) ! 0) = r"
    unfolding b codec_word_or by (rule bit_word_eqI) (auto simp: bit_simps dest: r)
  moreover have "push_bit 8 (ucast (rev (bytes_of (codec_word r v)) ! 0 AND 1)) OR
      ucast (rev (bytes_of (codec_word r v)) ! 1) = v AND mask 9"
    unfolding b codec_word_or
    by (rule bit_word_eqI) (auto simp: bit_simps dest: e)
  ultimately show ?thesis by (simp add: codec_decode_def m)
qed

lemma update_field_upd_bits:
  "AUD_CODEC_UPDATE_FIELD v val offset msk =
   upd_bits (push_bit (unat offset) (ucast msk)) (push_bit (unat offset) val) v"
proof -
  have "(v AND NOT (push_bit (unat offset) (ucast msk))) + push_bit (unat offset) (val AND ucast msk) =
    (v AND NOT (push_bit (unat offset) (ucast msk))) OR push_bit (unat offset) (val AND ucast msk)"
    by (rule disjunctive_add) (auto simp: bit_simps)
  then show ?thesis
    by (simp add: AUD_CODEC_UPDATE_FIELD_def upd_bits_def push_bit_and)
qed

section \<open>The codec on the bus\<close>

text \<open>The effect of a field update on a register file of nine-bit registers.\<close>

definition codec_set :: "u16 \<Rightarrow> codec_field \<Rightarrow> (u8 \<Rightarrow> u16) \<Rightarrow> u8 \<Rightarrow> u16" where
  "codec_set val field f = (case field of (idx, offset, msk) \<Rightarrow>
     f(idx := AUD_CODEC_UPDATE_FIELD (f idx AND 0x1ff) val offset msk AND 0x1ff))"

definition codec_rw :: "u8 set" where
  "codec_rw = {0x00, 0x01, 0x02, 0x03, 0x04, 0x05, 0x06, 0x07, 0x08, 0x09, 0x10, 0x11, 0x12}"

text \<open>
  What the driver relies on of the codec: it acknowledges, a two-byte write stores nine bits
  in the selected register (or restores the defaults, for the reset register), a one-byte write
  selects a register, and a two-byte read returns the selected one, low byte first.
\<close>

locale codec_slave =
  fixes swr :: "'c slave_wr" and srd :: "'c slave_rd"
    and creg :: "'c \<Rightarrow> u8 \<Rightarrow> u16" and csel :: "'c \<Rightarrow> u8" and codec_default :: "u8 \<Rightarrow> u16"
  assumes codec_write: "codec_decode [b0, b1] = (r, v) \<Longrightarrow> r \<in> insert 0x0f codec_rw \<Longrightarrow>
      \<exists>c'. swr 0x34 [b0, b1] True True c = (True, c') \<and>
        creg c' = (if r = 0x0f then codec_default else (creg c)(r := v))"
    and codec_select: "\<exists>c'. swr 0x34 [b] True False c = (True, c') \<and>
        creg c' = creg c \<and> csel c' = drop_bit 1 b"
    and codec_read: "\<exists>c'. srd 0x34 2 True True c = (True, bytes_of (creg c (csel c)), c') \<and>
        creg c' = creg c"

locale codec_chip = cortex_regs bus live view swr srd plain wmask +
    codec_slave swr srd creg csel codec_default
  for bus :: "'d bus" and live :: "'d \<Rightarrow> bool" and view :: "'d \<Rightarrow> 'c ctl"
    and swr :: "'c slave_wr" and srd :: "'c slave_rd" and plain :: "u32 set"
    and wmask :: "u32 \<Rightarrow> u32" and creg :: "'c \<Rightarrow> u8 \<Rightarrow> u16" and csel :: "'c \<Rightarrow> u8"
    and codec_default :: "u8 \<Rightarrow> u16"
begin

abbreviation codec_view :: "'d mach \<Rightarrow> (u8 \<Rightarrow> u16) \<times> (u32 \<Rightarrow> u32)" where
  "codec_view s \<equiv> (creg (chips_of s), regs_of s)"

lemma wp_codec_write:
  assumes "ready s" "r \<in> insert 0x0f codec_rw"
    and Q: "\<And>d' b. live d' \<Longrightarrow> \<not> i2c_busy bus d' \<Longrightarrow>
      creg (chips (view d')) =
        (if r = 0x0f then codec_default else (creg (chips_of s))(r := v AND 0x1ff)) \<Longrightarrow>
      regs (view d') = regs_of s \<Longrightarrow> Q I2C_OK (s\<lparr>aud_codec_i2c_bffr := b, dev := d'\<rparr>)"
  shows "wp (aud_codec_write_reg bus r v) Q s"
proof -
  have r: "r < 0x80" using assms(2) by (auto simp: codec_rw_def)
  let ?bs = "rev (bytes_of (codec_word r v))"
  obtain b0 b1 where bs: "?bs = [b0, b1]" by (simp add: bytes_of_def)
  have "codec_decode [b0, b1] = (r, v AND 0x1ff)"
    using codec_decode_word [OF r, of v] by (simp add: bs codec_consts)
  from codec_write [OF this assms(2)] obtain c' where
    c': "swr 0x34 ?bs True True (chips_of s) = (True, c')"
      "creg c' = (if r = 0x0f then codec_default else (creg (chips_of s))(r := v AND 0x1ff))"
    unfolding bs by blast
  show ?thesis
    unfolding aud_codec_write_reg_def
    using assms(1) c' Q
    by (auto simp: wp_simps byte_rev_pair ready_def codec_consts
        intro!: wp_i2c_xtn_write [where ack = True and c' = c'])
qed

lemma wp_codec_read:
  assumes "ready s" "r < 0x80"
    and Q: "\<And>d'. live d' \<Longrightarrow> \<not> i2c_busy bus d' \<Longrightarrow> creg (chips (view d')) = creg (chips_of s) \<Longrightarrow>
      regs (view d') = regs_of s \<Longrightarrow>
      Q I2C_OK (s\<lparr>dev := d', aud_codec_i2c_bffr := creg (chips_of s) r AND 0x1ff\<rparr>)"
  shows "wp (aud_codec_read_reg bus r) Q s"
proof -
  have r: "drop_bit 1 (push_bit 1 (r AND AUD_CODEC_ADDR_MSK)) = r"
  proof -
    have m: "x AND AUD_CODEC_ADDR_MSK = take_bit 7 x" for x :: u8
      by (simp add: codec_consts take_bit_eq_mask mask_eq_exp_minus_1)
    have "take_bit 7 r = r" using assms(2) by (intro take_bit_small) (simp add: word_less_nat_alt)
    then show ?thesis unfolding m drop_push_bit by simp
  qed
  define b where "b = (bytes_of (aud_codec_i2c_bffr s))[0 := push_bit 1 (r AND AUD_CODEC_ADDR_MSK)]"
  have b: "length b = 2" "bytes_of (val_of b) = b" "take (Suc 0) b = [push_bit 1 (r AND AUD_CODEC_ADDR_MSK)]"
    by (simp_all add: b_def bytes_of_val_of) (simp add: bytes_of_def)
  obtain c1 where c1: "swr 0x34 (take (Suc 0) b) True False (chips_of s) = (True, c1)"
      "creg c1 = creg (chips_of s)" "csel c1 = r"
    using codec_select [of "push_bit 1 (r AND AUD_CODEC_ADDR_MSK)" "chips_of s"]
    unfolding b(3) r by blast
  obtain c2 where c2: "srd 0x34 2 True True c1 = (True, bytes_of (creg (chips_of s) r), c2)"
      "creg c2 = creg (chips_of s)"
    using codec_read [of c1] unfolding c1(2,3) by blast
  show ?thesis
    unfolding aud_codec_read_reg_def wp_bnd wp_modify wp_gets b_def [symmetric]
    using assms(1) c1 c2 Q b(1,2)
    by (auto simp: wp_simps ready_def codec_consts
        intro!: wp_i2c_xtn_write [where ack = True and c' = c1]
          wp_i2c_xtn_read [where ack = True and c' = c2 and bs = "bytes_of (creg (chips_of s) r)"])
qed

lemma update_field_refines:
  assumes "fst field \<in> codec_rw"
  shows "refines ready codec_view (aud_codec_update_field bus val field)
    (\<lambda>(f, g). (codec_set val field f, g))"
proof (rule refinesI)
  fix s assume s: "ready s"
  obtain idx offset msk where f: "field = (idx, offset, msk)" by (cases field)
  have i: "idx \<in> codec_rw" "idx < 0x80" "idx \<noteq> 0x0f"
    using assms f by (auto simp: codec_rw_def)
  show "wp (aud_codec_update_field bus val field) (\<lambda>_ s'. ready s' \<and>
      codec_view s' = (case codec_view s of (f, g) \<Rightarrow> (codec_set val field f, g))) s"
    unfolding aud_codec_update_field_def f prod.case wp_bnd
    by (rule wp_codec_read [OF s i(2)])
      (use i in \<open>auto simp: wp_simps ready_def codec_set_def intro!: wp_codec_write\<close>)
qed

lemma reset_refines:
  "refines ready codec_view (aud_codec_reset bus) (\<lambda>(f, g). (codec_default, g))"
  unfolding aud_codec_reset_def
  by (rule refinesI, unfold wp_bnd, rule wp_codec_write)
    (auto simp: wp_simps ready_def codec_consts)

lemma fields_rw:
  "fst AUD_CODEC_PWROFF \<in> codec_rw" "fst AUD_CODEC_LINEINPD \<in> codec_rw"
  "fst AUD_CODEC_IWL \<in> codec_rw" "fst AUD_CODEC_LRP \<in> codec_rw"
  "fst AUD_CODEC_FORMAT \<in> codec_rw" "fst AUD_CODEC_USB_NORM \<in> codec_rw"
  "fst AUD_CODEC_DAC_SEL \<in> codec_rw" "fst AUD_CODEC_BYPASS \<in> codec_rw"
  "fst AUD_CODEC_DAC_MU \<in> codec_rw" "fst AUD_CODEC_ACTIVE \<in> codec_rw"
  "fst AUD_CODEC_OUTPD \<in> codec_rw" "fst AUD_CODEC_LIN_MUTE \<in> codec_rw"
  "fst AUD_CODEC_RIN_MUTE \<in> codec_rw" "fst AUD_CODEC_BOSR \<in> codec_rw"
  "fst AUD_CODEC_SR \<in> codec_rw" "fst AUD_CODEC_ADCPD \<in> codec_rw"
  "fst AUD_CODEC_DACPD \<in> codec_rw"
  by (simp_all add: codec_fields codec_rw_def)

end

section \<open>Initialisation as a function on the register file\<close>

definition codec_init_regs :: "u16 \<Rightarrow> (u8 \<Rightarrow> u16) \<Rightarrow> u8 \<Rightarrow> u16" where
  "codec_init_regs iwl f =
     codec_set 0 AUD_CODEC_OUTPD (codec_set 1 AUD_CODEC_ACTIVE (codec_set 0 AUD_CODEC_DAC_MU
     (codec_set 0 AUD_CODEC_BYPASS (codec_set 1 AUD_CODEC_DAC_SEL (codec_set 1 AUD_CODEC_USB_NORM
     (codec_set 3 AUD_CODEC_FORMAT (codec_set 1 AUD_CODEC_LRP (codec_set iwl AUD_CODEC_IWL
     (codec_set 0 AUD_CODEC_LINEINPD (codec_set 0 AUD_CODEC_PWROFF f))))))))))"

context codec_chip
begin

lemma aud_codec_init_refines:
  "refines ready codec_view (aud_codec_init bus bps)
     (\<lambda>(f, g). (codec_init_regs (of_nat (bps_val bps)) codec_default, g))"
  unfolding aud_codec_init_def aud_codec_update_iwl_def
  by (rule refines_eq, (rule refines_seq reset_refines update_field_refines fields_rw)+)
    (simp add: codec_init_regs_def split: prod.splits)

end

end
