(* ===== verification/Pcm_Bffr.thy ===== *)
theory Pcm_Bffr
  imports Cortex_Regs
begin

text \<open>
  The driver of the PCM sample buffer (\<^verbatim>\<open>cortex/acortex/pcm_bffr\<close>): its mode, and the
  read-out of captured samples through an address register and a data register.
\<close>

definition PCM_BFFR_NUM_SAMPLES :: nat where "PCM_BFFR_NUM_SAMPLES = 128"

definition PCM_BFFR_CONTROL_REG_ADDR :: u32 where "PCM_BFFR_CONTROL_REG_ADDR = 0x02000"
definition PCM_BFFR_STATUS_REG_ADDR :: u32 where "PCM_BFFR_STATUS_REG_ADDR = 0x02010"
definition PCM_BFFR_CAP_ADDR_REG_ADDR :: u32 where "PCM_BFFR_CAP_ADDR_REG_ADDR = 0x02020"
definition PCM_BFFR_CAP_DATA_REG_ADDR :: u32 where "PCM_BFFR_CAP_DATA_REG_ADDR = 0x02030"

definition PCM_BFFR_MODE_MSK :: u32 where "PCM_BFFR_MODE_MSK = 0x1"
definition PCM_BFFR_CAP_DONE_OFFSET :: nat where "PCM_BFFR_CAP_DONE_OFFSET = 0"
definition PCM_BFFR_CAP_DONE_MSK :: u32 where "PCM_BFFR_CAP_DONE_MSK = 0x1"

definition IORD_PCM_BFFR_STATUS :: "'d bus \<Rightarrow> ('d mach, u32) drv" where
  "IORD_PCM_BFFR_STATUS bus = IORD_32DIRECT bus CORTEX_BASE PCM_BFFR_STATUS_REG_ADDR"

definition IORD_PCM_BFFR_CAP_DATA :: "'d bus \<Rightarrow> ('d mach, u32) drv" where
  "IORD_PCM_BFFR_CAP_DATA bus = IORD_32DIRECT bus CORTEX_BASE PCM_BFFR_CAP_DATA_REG_ADDR"

definition IOWR_PCM_BFFR_CONTROL :: "'d bus \<Rightarrow> u32 \<Rightarrow> ('d mach, unit) drv" where
  "IOWR_PCM_BFFR_CONTROL bus data = IOWR_32DIRECT bus CORTEX_BASE PCM_BFFR_CONTROL_REG_ADDR data"

definition IOWR_PCM_BFFR_CAP_ADDR :: "'d bus \<Rightarrow> u32 \<Rightarrow> ('d mach, unit) drv" where
  "IOWR_PCM_BFFR_CAP_ADDR bus data = IOWR_32DIRECT bus CORTEX_BASE PCM_BFFR_CAP_ADDR_REG_ADDR data"

lemmas pcm_macros = IORD_PCM_BFFR_STATUS_def IORD_PCM_BFFR_CAP_DATA_def
  IOWR_PCM_BFFR_CONTROL_def IOWR_PCM_BFFR_CAP_ADDR_def

datatype PCM_BFFR_MODE_T = PCM_BFFR_MODE_NORMAL | PCM_BFFR_MODE_CAPTURE

definition pcm_mode_val :: "PCM_BFFR_MODE_T \<Rightarrow> u32" where
  "pcm_mode_val m = (case m of PCM_BFFR_MODE_NORMAL \<Rightarrow> 0 | PCM_BFFR_MODE_CAPTURE \<Rightarrow> 1)"

definition update_acache_mode :: "'d bus \<Rightarrow> PCM_BFFR_MODE_T \<Rightarrow> ('d mach, unit) drv" where
  "update_acache_mode bus mode =
     IOWR_PCM_BFFR_CONTROL bus (pcm_mode_val mode AND PCM_BFFR_MODE_MSK)"

text \<open>The loop body reads sample \<open>i\<close> of the left and then of the right channel.\<close>

fun dump_acache_loop ::
  "'d bus \<Rightarrow> nat list \<Rightarrow> u32 list \<Rightarrow> u32 list \<Rightarrow> ('d mach, u32 list \<times> u32 list) drv" where
  "dump_acache_loop bus [] lbffr rbffr = ret (lbffr, rbffr)"
| "dump_acache_loop bus (i # is) lbffr rbffr =
     bnd (IOWR_PCM_BFFR_CAP_ADDR bus (of_nat i)) (\<lambda>_.
     bnd (IORD_PCM_BFFR_CAP_DATA bus) (\<lambda>l.
     bnd (IOWR_PCM_BFFR_CAP_ADDR bus (of_nat (i + PCM_BFFR_NUM_SAMPLES))) (\<lambda>_.
     bnd (IORD_PCM_BFFR_CAP_DATA bus) (\<lambda>r.
     dump_acache_loop bus is (lbffr[i := l]) (rbffr[i := r])))))"

definition dump_acache_cap_data ::
  "'d bus \<Rightarrow> u32 list \<Rightarrow> u32 list \<Rightarrow> ('d mach, u32 list \<times> u32 list) drv" where
  "dump_acache_cap_data bus lbffr rbffr =
     dump_acache_loop bus [0..<PCM_BFFR_NUM_SAMPLES] lbffr rbffr"

section \<open>What a read-out returns\<close>

text \<open>
  The buffer as its driver relies on it: while the buffer is in capture mode (\<open>cap\<close>), a memory
  that only the address register selects from.
\<close>

locale pcm_memory =
  fixes bus :: "'d bus" and cap :: "'d \<Rightarrow> bool" and mem :: "'d \<Rightarrow> u32 \<Rightarrow> u32" and sel :: "'d \<Rightarrow> u32"
  assumes set_addr: "cap d \<Longrightarrow> sel (io_wr bus PCM_BFFR_CAP_ADDR_REG_ADDR v d) = v AND 0xFF"
    and set_addr_mem: "cap d \<Longrightarrow> mem (io_wr bus PCM_BFFR_CAP_ADDR_REG_ADDR v d) = mem d"
    and set_addr_cap: "cap d \<Longrightarrow> cap (io_wr bus PCM_BFFR_CAP_ADDR_REG_ADDR v d)"
    and get_data: "cap d \<Longrightarrow> fst (io_rd bus PCM_BFFR_CAP_DATA_REG_ADDR d) = mem d (sel d)"
    and get_data_mem: "cap d \<Longrightarrow> mem (snd (io_rd bus PCM_BFFR_CAP_DATA_REG_ADDR d)) = mem d"
    and get_data_cap: "cap d \<Longrightarrow> cap (snd (io_rd bus PCM_BFFR_CAP_DATA_REG_ADDR d))"
begin

lemma byte_index: "n < 256 \<Longrightarrow> of_nat n AND 0xFF = (of_nat n :: u32)"
proof -
  assume "n < 256"
  then have "take_bit 8 (of_nat n :: u32) = of_nat n"
    by (simp add: take_bit_of_nat take_bit_nat_eq_self)
  then show ?thesis by (simp add: take_bit_eq_mask mask_eq_exp_minus_1)
qed

lemma wp_dump_loop:
  assumes "\<forall>i \<in> set is. i < 128" "cap (dev s)"
  shows "wp (dump_acache_loop bus is l r) (\<lambda>b s'. cap (dev s') \<and>
    mem (dev s') = mem (dev s) \<and>
    b = (fold (\<lambda>i b. b[i := mem (dev s) (of_nat i)]) is l,
         fold (\<lambda>i b. b[i := mem (dev s) (of_nat (i + 128))]) is r)) s"
  using assms
proof (induction "is" arbitrary: l r s)
  case Nil
  then show ?case by (simp add: wp_simps)
next
  case (Cons i js)
  define d1 where "d1 = io_wr bus PCM_BFFR_CAP_ADDR_REG_ADDR (of_nat i) (dev s)"
  define d2 where "d2 = snd (io_rd bus PCM_BFFR_CAP_DATA_REG_ADDR d1)"
  define d3 where "d3 = io_wr bus PCM_BFFR_CAP_ADDR_REG_ADDR (of_nat (i + 128)) d2"
  define d4 where "d4 = snd (io_rd bus PCM_BFFR_CAP_DATA_REG_ADDR d3)"
  have c: "cap d1" "cap d2" "cap d3" "cap d4"
    using Cons.prems by (simp_all add: d1_def d2_def d3_def d4_def set_addr_cap get_data_cap)
  have m: "mem d4 = mem (dev s)" "mem d2 = mem (dev s)"
    using Cons.prems c
    by (simp_all add: d1_def d2_def d3_def d4_def set_addr_mem get_data_mem set_addr_cap get_data_cap)
  have l: "fst (io_rd bus PCM_BFFR_CAP_DATA_REG_ADDR d1) = mem (dev s) (of_nat i)"
    using Cons.prems byte_index [of i] 
    by (simp add: d1_def get_data set_addr set_addr_mem set_addr_cap)
  have r: "fst (io_rd bus PCM_BFFR_CAP_DATA_REG_ADDR d3) = mem (dev s) (of_nat (i + 128))"
    using Cons.prems byte_index [of "i + 128"] m(2) c(2)
    by (simp add: d3_def get_data set_addr set_addr_mem set_addr_cap)
  show ?case
    using Cons.IH [of "s\<lparr>dev := d4\<rparr>" "l[i := mem (dev s) (of_nat i)]"
        "r[i := mem (dev s) (of_nat (i + 128))]"] Cons.prems m l r c
    by (simp add: wp_simps pcm_macros PCM_BFFR_NUM_SAMPLES_def d1_def [symmetric]
        d2_def [symmetric] d3_def [symmetric, simplified] d4_def [symmetric])
qed

lemma wp_dump_acache_cap_data:
  assumes "length l = 128" "length r = 128" "cap (dev s)"
  shows "wp (dump_acache_cap_data bus l r) (\<lambda>b s'. cap (dev s') \<and>
    mem (dev s') = mem (dev s) \<and>
    b = (map (\<lambda>i. mem (dev s) (of_nat i)) [0..<128],
         map (\<lambda>i. mem (dev s) (of_nat (i + 128))) [0..<128])) s"
  using wp_dump_loop [of "[0..<128]" s l r] assms
  unfolding dump_acache_cap_data_def PCM_BFFR_NUM_SAMPLES_def
  by (simp add: fold_fill del: upt_rec_numeral)

end

end
