(* ===== verification/Acortex.thy ===== *)
theory Acortex
  imports Aud_Codec Pcm_Bffr
begin

text \<open>
  The audio cortex (\<^verbatim>\<open>cortex/acortex/acortex.c\<close>): it programs the codec and the audio
  interface together so that both agree on sample rate and width, and captures samples.
\<close>

section \<open>Operations\<close>

definition init_acortex :: "'d bus \<Rightarrow> u32 \<Rightarrow> ('d mach, unit) drv" where
  "init_acortex bus bps =
     bnd (configure_i2c_clk bus 255) (\<lambda>_.
     bnd (configure_drvr_bclk_div bus BCLK_DIV_10MHZ) (\<lambda>_.
     configure_drvr_bps bus bps))"

definition enable_audio_path :: "'d bus \<Rightarrow> FS_T \<Rightarrow> BPS_T \<Rightarrow> ('d mach, unit) drv" where
  "enable_audio_path bus fs bps =
     bnd (aud_codec_update_field bus 0 AUD_CODEC_ACTIVE) (\<lambda>_.
     bnd (aud_codec_update_field bus 1 AUD_CODEC_OUTPD) (\<lambda>_.
     bnd (aud_codec_update_field bus 0 AUD_CODEC_LIN_MUTE) (\<lambda>_.
     bnd (aud_codec_update_field bus 0 AUD_CODEC_RIN_MUTE) (\<lambda>_.
     bnd (aud_codec_update_field bus (of_nat (bps_val bps)) AUD_CODEC_IWL) (\<lambda>_.
     bnd (configure_drvr_bps bus (of_nat (bps_val bps))) (\<lambda>_.
     bnd (aud_codec_update_field bus (fs2bosr_lookup fs) AUD_CODEC_BOSR) (\<lambda>_.
     bnd (aud_codec_update_field bus (sr_sel_val (fs2sr_lookup fs)) AUD_CODEC_SR) (\<lambda>_.
     bnd (configure_drvr_fs_div bus (fs2fs_div_lookup fs)) (\<lambda>_.
     bnd (aud_codec_update_field bus 0 AUD_CODEC_ADCPD) (\<lambda>_.
     bnd (aud_codec_update_field bus 0 AUD_CODEC_DACPD) (\<lambda>_.
     bnd (aud_codec_update_field bus 1 AUD_CODEC_ACTIVE) (\<lambda>_.
     aud_codec_update_field bus 0 AUD_CODEC_OUTPD))))))))))))"

definition disable_audio_path :: "'d bus \<Rightarrow> ('d mach, unit) drv" where
  "disable_audio_path bus =
     bnd (aud_codec_update_field bus 0 AUD_CODEC_ACTIVE) (\<lambda>_.
     bnd (aud_codec_update_field bus 1 AUD_CODEC_OUTPD) (\<lambda>_.
     bnd (aud_codec_update_field bus 1 AUD_CODEC_LIN_MUTE) (\<lambda>_.
     bnd (aud_codec_update_field bus 1 AUD_CODEC_RIN_MUTE) (\<lambda>_.
     bnd (aud_codec_update_field bus 1 AUD_CODEC_ADCPD) (\<lambda>_.
     bnd (aud_codec_update_field bus 1 AUD_CODEC_DACPD) (\<lambda>_.
     bnd (aud_codec_update_field bus 1 AUD_CODEC_ACTIVE) (\<lambda>_.
     aud_codec_update_field bus 0 AUD_CODEC_OUTPD)))))))"

text \<open>\<open>pcm_cap\<close> waits without bound for the end of the capture; it sleeps before each test.\<close>

partial_function (option) pcm_cap_wait :: "'d bus \<Rightarrow> 'd mach \<Rightarrow> (unit \<times> 'd mach) option" where
  "pcm_cap_wait bus s =
     (let (status, d) = io_rd bus (CORTEX_BASE + PCM_BFFR_STATUS_REG_ADDR) (io_sleep bus 1 (dev s)) in
      if drop_bit PCM_BFFR_CAP_DONE_OFFSET status AND PCM_BFFR_CAP_DONE_MSK = 0
      then pcm_cap_wait bus (s\<lparr>dev := d\<rparr>)
      else Some ((), s\<lparr>dev := d\<rparr>))"

definition pcm_cap :: "'d bus \<Rightarrow> FS_T \<Rightarrow> BPS_T \<Rightarrow> u32 list \<Rightarrow> u32 list \<Rightarrow> ('d mach, unit) drv" where
  "pcm_cap bus fs bps lbffr rbffr =
     bnd (disable_adc_drvr bus) (\<lambda>_.
     bnd (disable_audio_path bus) (\<lambda>_.
     bnd (update_acache_mode bus PCM_BFFR_MODE_CAPTURE) (\<lambda>_.
     bnd (enable_audio_path bus fs bps) (\<lambda>_.
     bnd (enable_adc_drvr bus) (\<lambda>_.
     bnd (pcm_cap_wait bus) (\<lambda>_.
     bnd (dump_acache_cap_data bus lbffr rbffr) (\<lambda>(l, r).
     bnd (for_each [0..<PCM_BFFR_NUM_SAMPLES] (\<lambda>i. printf
            (''[pcm_cap] LBFFR[0x%x] - 0x%x'' @ [CHR 0x0D, CHR 0x0A]) [int i, uint (l ! i)])) (\<lambda>_.
     bnd (alt_printf [CHR 0x0D, CHR 0x0A] []) (\<lambda>_.
     bnd (for_each [0..<PCM_BFFR_NUM_SAMPLES] (\<lambda>i. printf
            (''[pcm_cap] RBFFR[0x%x] - 0x%x'' @ [CHR 0x0D, CHR 0x0A]) [int i, uint (r ! i)])) (\<lambda>_.
     bnd (alt_printf [CHR 0x0D, CHR 0x0A] []) (\<lambda>_.
     bnd (disable_adc_drvr bus) (\<lambda>_.
     disable_audio_path bus))))))))))))"

section \<open>Fields of a register file\<close>

definition codec_get :: "codec_field \<Rightarrow> (u8 \<Rightarrow> u16) \<Rightarrow> u16" where
  "codec_get field f = (case field of (idx, offset, msk) \<Rightarrow> AUD_CODEC_EXTRACT_FIELD (f idx) offset msk)"

definition wf_field :: "codec_field \<Rightarrow> bool" where
  "wf_field field = (case field of (idx, offset, msk) \<Rightarrow>
     unat offset \<le> 9 \<and> unat msk < 2 ^ (9 - unat offset))"

definition disjoint_fields :: "codec_field \<Rightarrow> codec_field \<Rightarrow> bool" where
  "disjoint_fields F G = (case (F, G) of ((i, o1, m1), (j, o2, m2)) \<Rightarrow>
     i \<noteq> j \<or> (push_bit (unat o1) (ucast m1) AND push_bit (unat o2) (ucast m2) :: u16) = 0)"

lemma wf_field_bit: "wf_field (i, off, m) \<Longrightarrow> bit m n \<Longrightarrow> unat off + n < 9"
proof -
  assume w: "wf_field (i, off, m)" and b: "bit m n"
  then have "take_bit (9 - unat off) m = m" by (intro take_bit_small) (simp add: wf_field_def)
  with b have "n < 9 - unat off" by (metis bit_take_bit_iff)
  then show ?thesis by simp
qed

lemma mask9: "(0x1ff :: u16) = mask 9"
  by (simp add: mask_eq_exp_minus_1)

lemma codec_get_set_same:
  assumes "wf_field F"
  shows "codec_get F (codec_set v F f) = v AND ucast (snd (snd F))"
proof (cases F)
  case (fields i off m)
  show ?thesis
    using wf_field_bit assms
    unfolding fields codec_get_def codec_set_def update_field_upd_bits mask9
    by (intro bit_word_eqI)
      (fastforce simp: AUD_CODEC_EXTRACT_FIELD_def upd_bits_def bit_simps simp del: mask_numeral)
qed

lemma codec_get_set_other:
  assumes "wf_field F" "disjoint_fields F G"
  shows "codec_get F (codec_set v G f) = codec_get F f"
proof (cases F, cases G)
  fix i o1 m1 j o2 m2
  assume F: "F = (i, o1, m1)" and G: "G = (j, o2, m2)"
  show ?thesis
  proof (cases "i = j")
    case False
    then show ?thesis by (simp add: F G codec_get_def codec_set_def)
  next
    case True
    have "bit (push_bit (unat o1) (ucast m1) AND push_bit (unat o2) (ucast m2) :: u16) k = bit (0 :: u16) k" for k
      using assms(2) True by (simp add: disjoint_fields_def F G)
    then have d: "bit m1 n \<Longrightarrow> unat o2 \<le> unat o1 + n \<Longrightarrow> \<not> bit m2 (unat o1 + n - unat o2)" for n
      using wf_field_bit [of i o1 m1 n] assms(1)
      by (auto simp: F bit_simps dest: spec [where x = "unat o1 + n"])
    show ?thesis
    proof (rule bit_word_eqI)
      fix n
      show "bit (codec_get F (codec_set v G f)) n = bit (codec_get F f) n"
      proof (cases "bit m1 n")
        case b: True
        have "unat o1 + n < 9" using wf_field_bit b assms(1) F by blast
        with b d [OF b] show ?thesis
          unfolding F G True codec_get_def codec_set_def update_field_upd_bits mask9
          by (auto simp: AUD_CODEC_EXTRACT_FIELD_def upd_bits_def bit_simps simp del: mask_numeral)
      qed (simp add: F codec_get_def AUD_CODEC_EXTRACT_FIELD_def bit_simps)
    qed
  qed
qed

lemmas codec_get_set = codec_get_set_same codec_get_set_other

section \<open>The audio path as a function on codec and interface\<close>

definition audio_on :: "FS_T \<Rightarrow> BPS_T \<Rightarrow> (u8 \<Rightarrow> u16) \<Rightarrow> u8 \<Rightarrow> u16" where
  "audio_on fs bps f =
     codec_set 0 AUD_CODEC_OUTPD (codec_set 1 AUD_CODEC_ACTIVE (codec_set 0 AUD_CODEC_DACPD
     (codec_set 0 AUD_CODEC_ADCPD (codec_set (sr_sel_val (fs2sr_lookup fs)) AUD_CODEC_SR
     (codec_set (fs2bosr_lookup fs) AUD_CODEC_BOSR (codec_set (of_nat (bps_val bps)) AUD_CODEC_IWL
     (codec_set 0 AUD_CODEC_RIN_MUTE (codec_set 0 AUD_CODEC_LIN_MUTE (codec_set 1 AUD_CODEC_OUTPD
     (codec_set 0 AUD_CODEC_ACTIVE f))))))))))"

definition audio_off :: "(u8 \<Rightarrow> u16) \<Rightarrow> u8 \<Rightarrow> u16" where
  "audio_off f =
     codec_set 0 AUD_CODEC_OUTPD (codec_set 1 AUD_CODEC_ACTIVE (codec_set 1 AUD_CODEC_DACPD
     (codec_set 1 AUD_CODEC_ADCPD (codec_set 1 AUD_CODEC_RIN_MUTE (codec_set 1 AUD_CODEC_LIN_MUTE
     (codec_set 1 AUD_CODEC_OUTPD (codec_set 0 AUD_CODEC_ACTIVE f)))))))"

context codec_chip
begin

lemma enable_audio_path_refines:
  assumes "ssm_regs \<subseteq> plain"
  shows "refines ready codec_view (enable_audio_path bus fs bps)
     (\<lambda>(f, g). (audio_on fs bps f,
        set_reg wmask SSM2603_DRVR_FS_VAL_REG_ADDR (\<lambda>_. fs_div_val (fs2fs_div_lookup fs))
          (set_reg wmask SSM2603_DRVR_CONFIG_REG_ADDR (ssm_bps_set (of_nat (bps_val bps))) g)))"
  unfolding enable_audio_path_def
  by (rule refines_eq, (rule refines_seq update_field_refines fields_rw ssm_refines assms)+)
    (simp add: audio_on_def split: prod.splits)

lemma disable_audio_path_refines:
  "refines ready codec_view (disable_audio_path bus) (\<lambda>(f, g). (audio_off f, g))"
  unfolding disable_audio_path_def
  by (rule refines_eq, (rule refines_seq update_field_refines fields_rw)+)
    (simp add: audio_off_def split: prod.splits)

end

lemmas field_laws = codec_get_set wf_field_def disjoint_fields_def codec_fields

lemma audio_on_power:
  "codec_get AUD_CODEC_ACTIVE (audio_on fs bps f) = 1"
  "codec_get AUD_CODEC_OUTPD (audio_on fs bps f) = 0"
  "codec_get AUD_CODEC_LIN_MUTE (audio_on fs bps f) = 0"
  "codec_get AUD_CODEC_RIN_MUTE (audio_on fs bps f) = 0"
  "codec_get AUD_CODEC_ADCPD (audio_on fs bps f) = 0"
  "codec_get AUD_CODEC_DACPD (audio_on fs bps f) = 0"
  unfolding audio_on_def by (simp_all add: field_laws)

lemma audio_on_format:
  "codec_get AUD_CODEC_IWL (audio_on fs bps f) = of_nat (bps_val bps)"
  "codec_get AUD_CODEC_SR (audio_on fs bps f) = sr_sel_val (fs2sr_lookup fs)"
  "codec_get AUD_CODEC_BOSR (audio_on fs bps f) = fs2bosr_lookup fs"
  unfolding audio_on_def
  by (cases bps; cases fs; simp add: field_laws bps_val_def sr_sel_val_def fs2sr_lookup_def
      fs2bosr_lookup_def)+

lemma audio_off_fields:
  "codec_get AUD_CODEC_ACTIVE (audio_off f) = 1"
  "codec_get AUD_CODEC_OUTPD (audio_off f) = 0"
  "codec_get AUD_CODEC_LIN_MUTE (audio_off f) = 1"
  "codec_get AUD_CODEC_RIN_MUTE (audio_off f) = 1"
  "codec_get AUD_CODEC_ADCPD (audio_off f) = 1"
  "codec_get AUD_CODEC_DACPD (audio_off f) = 1"
  unfolding audio_off_def by (simp_all add: field_laws)

text \<open>The fields that belong to the audio path; every other field keeps its value.\<close>

definition path_fields :: "codec_field list" where
  "path_fields = [AUD_CODEC_ACTIVE, AUD_CODEC_OUTPD, AUD_CODEC_LIN_MUTE, AUD_CODEC_RIN_MUTE,
     AUD_CODEC_ADCPD, AUD_CODEC_DACPD, AUD_CODEC_IWL, AUD_CODEC_SR, AUD_CODEC_BOSR]"

lemma audio_path_frame:
  assumes "wf_field F" "list_all (disjoint_fields F) path_fields"
  shows "codec_get F (audio_on fs bps f) = codec_get F f"
    and "codec_get F (audio_off f) = codec_get F f"
  using assms by (simp_all add: audio_on_def audio_off_def path_fields_def codec_get_set_other)

lemma codec_init_fields:
  "codec_get AUD_CODEC_PWROFF (codec_init_regs iwl f) = 0"
  "codec_get AUD_CODEC_LINEINPD (codec_init_regs iwl f) = 0"
  "codec_get AUD_CODEC_IWL (codec_init_regs iwl f) = iwl AND 3"
  "codec_get AUD_CODEC_LRP (codec_init_regs iwl f) = 1"
  "codec_get AUD_CODEC_FORMAT (codec_init_regs iwl f) = 3"
  "codec_get AUD_CODEC_USB_NORM (codec_init_regs iwl f) = 1"
  "codec_get AUD_CODEC_DAC_SEL (codec_init_regs iwl f) = 1"
  "codec_get AUD_CODEC_BYPASS (codec_init_regs iwl f) = 0"
  "codec_get AUD_CODEC_DAC_MU (codec_init_regs iwl f) = 0"
  "codec_get AUD_CODEC_ACTIVE (codec_init_regs iwl f) = 1"
  "codec_get AUD_CODEC_OUTPD (codec_init_regs iwl f) = 0"
  unfolding codec_init_regs_def by (simp_all add: field_laws)

end
