(* ===== verification/Fgyrus.thy ===== *)
theory Fgyrus
  imports Cortex_Regs
begin

text \<open>
  The driver of the FFT engine (\<^verbatim>\<open>cortex/fgyrus\<close>): control and status register, and
  read-out of its window, twiddle, CORDIC and FFT memories.
\<close>

section \<open>Registers and enumerations\<close>

definition FGYRUS_FFT_LEN :: nat where "FGYRUS_FFT_LEN = 128"

definition FGYRUS_FFT_CACHE_BASE :: u32 where "FGYRUS_FFT_CACHE_BASE = 0x11000"
definition FGYRUS_TWDL_RAM_BASE :: u32 where "FGYRUS_TWDL_RAM_BASE = 0x12000"
definition FGYRUS_CORDIC_RAM_BASE :: u32 where "FGYRUS_CORDIC_RAM_BASE = 0x13000"
definition FGYRUS_WIN_RAM_BASE :: u32 where "FGYRUS_WIN_RAM_BASE = 0x14000"

definition FGYRUS_TWDL_RAM_SIZE :: nat where "FGYRUS_TWDL_RAM_SIZE = 128"
definition FGYRUS_CORDIC_RAM_SIZE :: nat where "FGYRUS_CORDIC_RAM_SIZE = 256"
definition FGYRUS_WIN_RAM_SIZE :: nat where "FGYRUS_WIN_RAM_SIZE = 128"

definition FGYRUS_CTRL_REG_ADDR :: u32 where "FGYRUS_CTRL_REG_ADDR = 0x10000"
definition FGYRUS_STATUS_REG_ADDR :: u32 where "FGYRUS_STATUS_REG_ADDR = 0x10010"

definition FGYRUS_EN_MSK :: u32 where "FGYRUS_EN_MSK = 0x1"
definition FGYRUS_MODE_MSK :: u32 where "FGYRUS_MODE_MSK = 0x2"
definition FGYRUS_BUSY_MSK :: u32 where "FGYRUS_BUSY_MSK = 0x1"
definition FGYRUS_BUT_UFLW_MSK :: u32 where "FGYRUS_BUT_UFLW_MSK = 0x2"
definition FGYRUS_BUT_OFLW_MSK :: u32 where "FGYRUS_BUT_OFLW_MSK = 0x4"
definition FGYRUS_FFT_DONE_MSK :: u32 where "FGYRUS_FFT_DONE_MSK = 0x8"

lemmas fgyrus_consts = FGYRUS_FFT_LEN_def FGYRUS_FFT_CACHE_BASE_def FGYRUS_TWDL_RAM_BASE_def
  FGYRUS_CORDIC_RAM_BASE_def FGYRUS_WIN_RAM_BASE_def FGYRUS_TWDL_RAM_SIZE_def
  FGYRUS_CORDIC_RAM_SIZE_def FGYRUS_WIN_RAM_SIZE_def FGYRUS_CTRL_REG_ADDR_def
  FGYRUS_STATUS_REG_ADDR_def FGYRUS_EN_MSK_def FGYRUS_MODE_MSK_def FGYRUS_BUSY_MSK_def
  FGYRUS_BUT_UFLW_MSK_def FGYRUS_BUT_OFLW_MSK_def FGYRUS_FFT_DONE_MSK_def

definition IORD_FGYRUS_CTRL :: "'d bus \<Rightarrow> ('d mach, u32) drv" where
  "IORD_FGYRUS_CTRL bus = IORD_32DIRECT bus CORTEX_BASE FGYRUS_CTRL_REG_ADDR"

definition IORD_FGYRUS_STATUS :: "'d bus \<Rightarrow> ('d mach, u32) drv" where
  "IORD_FGYRUS_STATUS bus = IORD_32DIRECT bus CORTEX_BASE FGYRUS_STATUS_REG_ADDR"

definition IOWR_FGYRUS_CTRL :: "'d bus \<Rightarrow> u32 \<Rightarrow> ('d mach, unit) drv" where
  "IOWR_FGYRUS_CTRL bus data = IOWR_32DIRECT bus CORTEX_BASE FGYRUS_CTRL_REG_ADDR data"

lemmas fgyrus_macros = IORD_FGYRUS_CTRL_def IORD_FGYRUS_STATUS_def IOWR_FGYRUS_CTRL_def

datatype FGYRUS_MODE_T = FGYRUS_NORMAL | FGYRUS_CONFIG

definition fgyrus_mode_val :: "FGYRUS_MODE_T \<Rightarrow> u32" where
  "fgyrus_mode_val m = (case m of FGYRUS_NORMAL \<Rightarrow> 0 | FGYRUS_CONFIG \<Rightarrow> 2)"

datatype FGYRUS_STATUS_T = FGYRUS_IDLE | FGYRUS_BUSY | FGYRUS_BUT_UFLW | FGYRUS_BUT_OFLW
  | FGYRUS_FFT_DONE

section \<open>Operations\<close>

definition disable_fgyrus :: "'d bus \<Rightarrow> ('d mach, unit) drv" where
  "disable_fgyrus bus = bnd (IORD_FGYRUS_CTRL bus) (\<lambda>v.
     IOWR_FGYRUS_CTRL bus (v AND NOT FGYRUS_EN_MSK))"

definition enable_fgyrus :: "'d bus \<Rightarrow> ('d mach, unit) drv" where
  "enable_fgyrus bus = bnd (IORD_FGYRUS_CTRL bus) (\<lambda>v.
     IOWR_FGYRUS_CTRL bus ((v AND NOT FGYRUS_EN_MSK) + FGYRUS_EN_MSK))"

definition update_fgyrus_mode :: "'d bus \<Rightarrow> FGYRUS_MODE_T \<Rightarrow> ('d mach, unit) drv" where
  "update_fgyrus_mode bus mode = bnd (IORD_FGYRUS_CTRL bus) (\<lambda>v.
     IOWR_FGYRUS_CTRL bus ((v AND NOT FGYRUS_MODE_MSK) + fgyrus_mode_val mode))"

text \<open>The returned number is one of the two values of the enumeration.\<close>

definition get_fgyrus_mode :: "'d bus \<Rightarrow> ('d mach, FGYRUS_MODE_T) drv" where
  "get_fgyrus_mode bus = bnd (IORD_FGYRUS_CTRL bus) (\<lambda>v.
     ret (if v AND FGYRUS_MODE_MSK = 0 then FGYRUS_NORMAL else FGYRUS_CONFIG))"

definition get_fgyrus_status :: "'d bus \<Rightarrow> ('d mach, FGYRUS_STATUS_T) drv" where
  "get_fgyrus_status bus = bnd (IORD_FGYRUS_STATUS bus) (\<lambda>reg.
     if reg AND FGYRUS_BUT_OFLW_MSK \<noteq> 0 then ret FGYRUS_BUT_OFLW
     else if reg AND FGYRUS_BUT_UFLW_MSK \<noteq> 0 then ret FGYRUS_BUT_UFLW
     else if reg AND FGYRUS_BUSY_MSK \<noteq> 0 then ret FGYRUS_BUSY
     else if reg AND FGYRUS_FFT_DONE_MSK \<noteq> 0 then ret FGYRUS_FFT_DONE
     else ret FGYRUS_IDLE)"

text \<open>
  The four read-out loops have one form: location \<open>i\<close> of a memory is at \<open>base + (i << 4)\<close>.
  \<open>cast\<close> is the conversion of the assignment (the CORDIC buffer has 16-bit elements).
\<close>

fun dump_ram :: "'d bus \<Rightarrow> (u32 \<Rightarrow> 'e) \<Rightarrow> u32 \<Rightarrow> nat list \<Rightarrow> 'e list \<Rightarrow> ('d mach, 'e list) drv" where
  "dump_ram bus cast base [] bffr = ret bffr"
| "dump_ram bus cast base (i # is) bffr =
     bnd (IORD_32DIRECT bus CORTEX_BASE (base + push_bit 4 (of_nat i))) (\<lambda>v.
     dump_ram bus cast base is (bffr[i := cast v]))"

definition dump_fgyrus_win_ram :: "'d bus \<Rightarrow> u32 list \<Rightarrow> ('d mach, u32 list) drv" where
  "dump_fgyrus_win_ram bus bffr =
     dump_ram bus (\<lambda>v. v) FGYRUS_WIN_RAM_BASE [0..<FGYRUS_WIN_RAM_SIZE] bffr"

definition dump_fgyrus_twdl_ram :: "'d bus \<Rightarrow> u32 list \<Rightarrow> ('d mach, u32 list) drv" where
  "dump_fgyrus_twdl_ram bus bffr =
     dump_ram bus (\<lambda>v. v) FGYRUS_TWDL_RAM_BASE [0..<FGYRUS_TWDL_RAM_SIZE] bffr"

definition dump_fgyrus_cordic_ram :: "'d bus \<Rightarrow> u16 list \<Rightarrow> ('d mach, u16 list) drv" where
  "dump_fgyrus_cordic_ram bus bffr =
     dump_ram bus ucast FGYRUS_CORDIC_RAM_BASE [0..<FGYRUS_CORDIC_RAM_SIZE] bffr"

text \<open>\<open>dump_fgyrus_fft_cache\<close> steps a 16-bit offset by \<open>0x10\<close>.\<close>

fun dump_fft_channel ::
  "'d bus \<Rightarrow> nat \<Rightarrow> nat \<Rightarrow> u16 \<Rightarrow> u32 list \<Rightarrow> ('d mach, u32 list) drv" where
  "dump_fft_channel bus 0 i offset bffr = ret bffr"
| "dump_fft_channel bus (Suc k) i offset bffr =
     bnd (IORD_32DIRECT bus CORTEX_BASE (FGYRUS_FFT_CACHE_BASE + ucast offset)) (\<lambda>v.
     dump_fft_channel bus k (Suc i) (offset + 0x10) (bffr[i := v]))"

definition dump_fgyrus_fft_cache ::
  "'d bus \<Rightarrow> u32 list \<Rightarrow> u32 list \<Rightarrow> u8 \<Rightarrow> ('d mach, u32 list \<times> u32 list) drv" where
  "dump_fgyrus_fft_cache bus lbffr rbffr num =
     bnd (dump_fft_channel bus (unat num) 0 0x000 lbffr) (\<lambda>l.
     bnd (dump_fft_channel bus (unat num) 0 0x800 rbffr) (\<lambda>r.
     ret (l, r)))"

section \<open>Reading the memories\<close>

text \<open>A memory whose locations read without side effect.\<close>

locale fgyrus_memory =
  fixes bus :: "'d bus" and mem :: "'d \<Rightarrow> u32 \<Rightarrow> u32"
  assumes rd_mem: "FGYRUS_FFT_CACHE_BASE \<le> a \<Longrightarrow> a < FGYRUS_WIN_RAM_BASE + 0x1000 \<Longrightarrow>
      fst (io_rd bus a d) = mem d a \<and> mem (snd (io_rd bus a d)) = mem d"
begin

lemma ram_addr:
  assumes "i < 256" "0x11000 \<le> base" "base \<le> (0x14000 :: u32)"
  shows "FGYRUS_FFT_CACHE_BASE \<le> base + push_bit 4 (of_nat i)"
    and "base + push_bit 4 (of_nat i) < FGYRUS_WIN_RAM_BASE + 0x1000"
proof -
  have i: "unat (push_bit 4 (of_nat i :: u32)) = 16 * i"
    using assms(1)
    by (simp add: push_bit_eq_mult unat_word_ariths unat_of_nat)
  have b: "0x11000 \<le> unat base" "unat base \<le> 0x14000"
    using assms(2,3) by (simp_all add: word_le_nat_alt)
  have "unat (base + push_bit 4 (of_nat i)) = unat base + 16 * i"
    using i b assms(1) by (subst unat_add_lem [THEN iffD1]) auto
  then show "FGYRUS_FFT_CACHE_BASE \<le> base + push_bit 4 (of_nat i)"
    and "base + push_bit 4 (of_nat i) < FGYRUS_WIN_RAM_BASE + 0x1000"
    using b assms(1) by (simp_all add: word_le_nat_alt word_less_nat_alt fgyrus_consts)
qed

lemma wp_dump_ram:
  assumes "\<forall>i \<in> set is. i < 256" "0x11000 \<le> base" "base \<le> 0x14000"
  shows "wp (dump_ram bus cast base is b) (\<lambda>b' s'. mem (dev s') = mem (dev s) \<and>
    b' = fold (\<lambda>i b. b[i := cast (mem (dev s) (base + push_bit 4 (of_nat i)))]) is b) s"
  using assms(1)
proof (induction "is" arbitrary: b s)
  case Nil
  then show ?case by (simp add: wp_simps)
next
  case (Cons i js)
  let ?a = "base + push_bit 4 (of_nat i)"
  have "fst (io_rd bus ?a (dev s)) = mem (dev s) ?a"
    "mem (snd (io_rd bus ?a (dev s))) = mem (dev s)"
    using Cons.prems rd_mem [OF ram_addr [OF _ assms(2,3)]] by simp_all
  then show ?case
    using Cons.IH [of "b[i := cast (mem (dev s) ?a)]" "s\<lparr>dev := snd (io_rd bus ?a (dev s))\<rparr>"]
      Cons.prems
    by (simp add: wp_simps)
qed

lemma fft_off:
  "i < 256 \<Longrightarrow> (ucast (base + push_bit 4 (of_nat i :: u16)) :: u32) =
     ucast base + push_bit 4 (of_nat i)" if "base = 0 \<or> base = (0x800 :: u16)"
proof -
  assume i: "i < 256"
  have p16: "unat (push_bit 4 (of_nat i :: u16)) = 16 * i"
    and p32: "unat (push_bit 4 (of_nat i :: u32)) = 16 * i"
    using i by (simp_all add: push_bit_eq_mult unat_word_ariths unat_of_nat)
  have b: "unat base \<le> 0x800" "unat (ucast base :: u32) = unat base" using that by auto
  show ?thesis
    unfolding word_unat_eq_iff
    using b p16 p32 i
    by (simp add: unsigned_ucast_eq unat_word_ariths take_bit_nat_eq_self)
qed

lemma wp_dump_fft_channel:
  assumes "base = 0 \<or> base = (0x800 :: u16)" "i + k < 256"
  shows "wp (dump_fft_channel bus k i (base + push_bit 4 (of_nat i)) b) (\<lambda>b' s'.
    mem (dev s') = mem (dev s) \<and>
    b' = fold (\<lambda>i b. b[i := mem (dev s) (FGYRUS_FFT_CACHE_BASE + ucast base + push_bit 4 (of_nat i))])
           [i..<i + k] b) s"
  using assms(2)
proof (induction k arbitrary: i b s)
  case 0
  then show ?case by (simp add: wp_simps)
next
  case (Suc k)
  let ?a = "FGYRUS_FFT_CACHE_BASE + ucast base + push_bit 4 (of_nat i)"
  have a: "FGYRUS_FFT_CACHE_BASE + ucast (base + push_bit 4 (of_nat i)) = ?a"
    using fft_off [OF assms(1), of i] Suc.prems by (simp add: add.assoc)
  have "0x11000 \<le> FGYRUS_FFT_CACHE_BASE + ucast base" "FGYRUS_FFT_CACHE_BASE + ucast base \<le> 0x14000"
    using assms(1) by (auto simp: fgyrus_consts)
  then have r: "fst (io_rd bus ?a (dev s)) = mem (dev s) ?a"
    "mem (snd (io_rd bus ?a (dev s))) = mem (dev s)"
    using Suc.prems rd_mem [OF ram_addr, of i "FGYRUS_FFT_CACHE_BASE + ucast base"] by simp_all
  have step: "base + push_bit 4 (of_nat i) + 0x10 = base + push_bit 4 (of_nat (Suc i))"
    by (simp add: push_bit_eq_mult algebra_simps)
  have u: "[i..<i + Suc k] = i # [Suc i..<Suc i + k]"
    by (simp add: upt_conv_Cons)
  show ?case
    using Suc.IH [of "Suc i" "b[i := mem (dev s) ?a]" "s\<lparr>dev := snd (io_rd bus ?a (dev s))\<rparr>"]
      Suc.prems r
    unfolding dump_fft_channel.simps u step a
    by (simp add: wp_simps a)
qed

lemma wp_dump_fgyrus_fft_cache:
  assumes "unat num \<le> length l" "unat num \<le> length r"
  shows "wp (dump_fgyrus_fft_cache bus l r num) (\<lambda>b s'. mem (dev s') = mem (dev s) \<and>
    b = (map (\<lambda>i. mem (dev s) (0x11000 + push_bit 4 (of_nat i))) [0..<unat num] @ drop (unat num) l,
         map (\<lambda>i. mem (dev s) (0x11800 + push_bit 4 (of_nat i))) [0..<unat num] @ drop (unat num) r)) s"
proof -
  have n: "0 + unat num < 256" using unsigned_less [of num, where 'a = nat] by simp
  have L: "wp (dump_fft_channel bus (unat num) 0 0 l) (\<lambda>b' s'. mem (dev s') = mem (dev s) \<and>
      b' = map (\<lambda>i. mem (dev s) (0x11000 + push_bit 4 (of_nat i))) [0..<unat num] @ drop (unat num) l) s" for s
    using wp_dump_fft_channel [of 0 0 "unat num" l s, OF _ n] assms(1)
    by (simp add: fgyrus_consts fold_fill)
  have R: "wp (dump_fft_channel bus (unat num) 0 0x800 r) (\<lambda>b' s'. mem (dev s') = mem (dev s) \<and>
      b' = map (\<lambda>i. mem (dev s) (0x11800 + push_bit 4 (of_nat i))) [0..<unat num] @ drop (unat num) r) s" for s
    using wp_dump_fft_channel [of "0x800" 0 "unat num" r s, OF _ n] assms(2)
    by (simp add: fgyrus_consts fold_fill)
  show ?thesis
    unfolding dump_fgyrus_fft_cache_def wp_bnd wp_ret
    by (rule wp_mono [OF L], rule wp_mono [OF R]) auto
qed

lemma wp_dump_tables:
  assumes "length b = 128" "length c = 256"
  shows "wp (dump_fgyrus_win_ram bus b) (\<lambda>b' s'. mem (dev s') = mem (dev s) \<and>
      b' = map (\<lambda>i. mem (dev s) (0x14000 + push_bit 4 (of_nat i))) [0..<128]) s"
    and "wp (dump_fgyrus_twdl_ram bus b) (\<lambda>b' s'. mem (dev s') = mem (dev s) \<and>
      b' = map (\<lambda>i. mem (dev s) (0x12000 + push_bit 4 (of_nat i))) [0..<128]) s"
    and "wp (dump_fgyrus_cordic_ram bus c) (\<lambda>b' s'. mem (dev s') = mem (dev s) \<and>
      b' = map (\<lambda>i. ucast (mem (dev s) (0x13000 + push_bit 4 (of_nat i)))) [0..<256]) s"
  unfolding dump_fgyrus_win_ram_def dump_fgyrus_twdl_ram_def dump_fgyrus_cordic_ram_def
    fgyrus_consts
  using assms wp_dump_ram [where ?is = "[0..<128]" and base = "0x14000" and cast = "\<lambda>v. v" and b = b and s = s]
    wp_dump_ram [where ?is = "[0..<128]" and base = "0x12000" and cast = "\<lambda>v. v" and b = b and s = s] wp_dump_ram [where ?is = "[0..<256]" and base = "0x13000" and cast = ucast and b = c and s = s]
  by (simp_all add: fold_fill del: upt_rec_numeral)

end

end
