(* ===== verification/Sys_Mem.thy ===== *)
theory Sys_Mem
  imports Cortex_Regs
begin

text \<open>
  The driver of the system memory interface (\<^verbatim>\<open>cortex/sys_mem_intf\<close>): the report of the
  arbiter's buffer errors, and the table of memory partitions.
\<close>

definition SYS_MEM_INTF_PART_MNGR_START_BASE :: u32 where
  "SYS_MEM_INTF_PART_MNGR_START_BASE = 0x21000"
definition SYS_MEM_INTF_PART_MNGR_END_BASE :: u32 where
  "SYS_MEM_INTF_PART_MNGR_END_BASE = 0x21200"
definition SYS_MEM_INTF_PART_MNGR_SIZE :: u8 where "SYS_MEM_INTF_PART_MNGR_SIZE = 32"
definition SYS_MEM_INTF_PART_MAX_ADDR :: u32 where "SYS_MEM_INTF_PART_MAX_ADDR = 268435455"
definition SYS_MEM_ARB_STATUS_REG_ADDR :: u32 where "SYS_MEM_ARB_STATUS_REG_ADDR = 0x20000"

definition SYS_MEM_ARB_EGR_BFFR_0_UNDERFLOW_MSK :: u32 where
  "SYS_MEM_ARB_EGR_BFFR_0_UNDERFLOW_MSK = 0x1"
definition SYS_MEM_ARB_EGR_BFFR_0_OVERFLOW_MSK :: u32 where
  "SYS_MEM_ARB_EGR_BFFR_0_OVERFLOW_MSK = 0x2"
definition SYS_MEM_ARB_EGR_BFFR_1_UNDERFLOW_MSK :: u32 where
  "SYS_MEM_ARB_EGR_BFFR_1_UNDERFLOW_MSK = 0x4"
definition SYS_MEM_ARB_EGR_BFFR_1_OVERFLOW_MSK :: u32 where
  "SYS_MEM_ARB_EGR_BFFR_1_OVERFLOW_MSK = 0x8"
definition SYS_MEM_ARB_INGR_BFFR_0_UNDERFLOW_MSK :: u32 where
  "SYS_MEM_ARB_INGR_BFFR_0_UNDERFLOW_MSK = 0x10"
definition SYS_MEM_ARB_INGR_BFFR_0_OVERFLOW_MSK :: u32 where
  "SYS_MEM_ARB_INGR_BFFR_0_OVERFLOW_MSK = 0x20"
definition SYS_MEM_ARB_INGR_BFFR_1_UNDERFLOW_MSK :: u32 where
  "SYS_MEM_ARB_INGR_BFFR_1_UNDERFLOW_MSK = 0x40"
definition SYS_MEM_ARB_INGR_BFFR_1_OVERFLOW_MSK :: u32 where
  "SYS_MEM_ARB_INGR_BFFR_1_OVERFLOW_MSK = 0x80"

lemmas sys_mem_consts = SYS_MEM_INTF_PART_MNGR_START_BASE_def SYS_MEM_INTF_PART_MNGR_END_BASE_def
  SYS_MEM_INTF_PART_MNGR_SIZE_def SYS_MEM_INTF_PART_MAX_ADDR_def SYS_MEM_ARB_STATUS_REG_ADDR_def
  SYS_MEM_ARB_EGR_BFFR_0_UNDERFLOW_MSK_def SYS_MEM_ARB_EGR_BFFR_0_OVERFLOW_MSK_def
  SYS_MEM_ARB_EGR_BFFR_1_UNDERFLOW_MSK_def SYS_MEM_ARB_EGR_BFFR_1_OVERFLOW_MSK_def
  SYS_MEM_ARB_INGR_BFFR_0_UNDERFLOW_MSK_def SYS_MEM_ARB_INGR_BFFR_0_OVERFLOW_MSK_def
  SYS_MEM_ARB_INGR_BFFR_1_UNDERFLOW_MSK_def SYS_MEM_ARB_INGR_BFFR_1_OVERFLOW_MSK_def

definition sys_mem_report :: "u32 \<Rightarrow> u32 \<Rightarrow> string \<Rightarrow> ('d mach, unit) drv" where
  "sys_mem_report reg msk name =
     (if reg AND msk \<noteq> 0 then
        alt_printf (''[check_sys_mem_intf_errors] '' @ name @ '' Detected!'' @ [CHR 0x0D, CHR 0x0A]) []
      else ret ())"

text \<open>The masks are those the source tests, branch by branch.\<close>

definition check_sys_mem_intf_errors :: "'d bus \<Rightarrow> ('d mach, unit) drv" where
  "check_sys_mem_intf_errors bus =
     bnd (IORD_32DIRECT bus CORTEX_BASE SYS_MEM_ARB_STATUS_REG_ADDR) (\<lambda>reg.
     bnd (sys_mem_report reg SYS_MEM_ARB_EGR_BFFR_0_UNDERFLOW_MSK ''EGR_BFFR_0_UNDERFLOW'') (\<lambda>_.
     bnd (sys_mem_report reg SYS_MEM_ARB_EGR_BFFR_0_OVERFLOW_MSK ''EGR_BFFR_0_OVERFLOW'') (\<lambda>_.
     bnd (sys_mem_report reg SYS_MEM_ARB_EGR_BFFR_1_UNDERFLOW_MSK ''EGR_BFFR_1_UNDERFLOW'') (\<lambda>_.
     bnd (sys_mem_report reg SYS_MEM_ARB_EGR_BFFR_0_OVERFLOW_MSK ''EGR_BFFR_1_OVERFLOW'') (\<lambda>_.
     bnd (sys_mem_report reg SYS_MEM_ARB_INGR_BFFR_0_UNDERFLOW_MSK ''INGR_BFFR_0_UNDERFLOW'') (\<lambda>_.
     bnd (sys_mem_report reg SYS_MEM_ARB_INGR_BFFR_0_OVERFLOW_MSK ''INGR_BFFR_0_OVERFLOW'') (\<lambda>_.
     bnd (sys_mem_report reg SYS_MEM_ARB_INGR_BFFR_1_UNDERFLOW_MSK ''INGR_BFFR_1_UNDERFLOW'') (\<lambda>_.
     sys_mem_report reg SYS_MEM_ARB_INGR_BFFR_0_OVERFLOW_MSK ''INGR_BFFR_1_OVERFLOW''))))))))"

definition configure_sys_mem_intf_part ::
  "'d bus \<Rightarrow> u8 \<Rightarrow> u32 \<Rightarrow> u32 \<Rightarrow> ('d mach, unit) drv" where
  "configure_sys_mem_intf_part bus part_num start_addr end_addr =
     (if part_num \<ge> SYS_MEM_INTF_PART_MNGR_SIZE then
        alt_printf ''[configure_sys_mem_intf_part] ERROR part_num 0x%x exceeds table size 0x%x''
          [Va_x (ucast part_num), Va_x (ucast SYS_MEM_INTF_PART_MNGR_SIZE)]
      else if start_addr > SYS_MEM_INTF_PART_MAX_ADDR then
        alt_printf ''[configure_sys_mem_intf_part] ERROR start_addr 0x%x exceeds max addr 0x%x''
          [Va_x start_addr, Va_x SYS_MEM_INTF_PART_MAX_ADDR]
      else if end_addr > SYS_MEM_INTF_PART_MAX_ADDR then
        alt_printf ''[configure_sys_mem_intf_part] ERROR end_addr 0x%x exceeds max addr 0x%x''
          [Va_x end_addr, Va_x SYS_MEM_INTF_PART_MAX_ADDR]
      else
        bnd (IOWR_32DIRECT bus CORTEX_BASE
               (SYS_MEM_INTF_PART_MNGR_START_BASE + push_bit 4 (ucast part_num)) start_addr) (\<lambda>_.
        IOWR_32DIRECT bus CORTEX_BASE
          (SYS_MEM_INTF_PART_MNGR_END_BASE + push_bit 4 (ucast part_num)) end_addr))"

section \<open>Properties\<close>

lemma wp_sys_mem_report [wp_simps]:
  "wp (sys_mem_report reg msk name) Q s =
   (if reg AND msk \<noteq> 0 then wp (alt_printf
      (''[check_sys_mem_intf_errors] '' @ name @ '' Detected!'' @ [CHR 0x0D, CHR 0x0A]) []) Q s
    else Q () s)"
  by (simp add: sys_mem_report_def wp_ret)

text \<open>What the call does on any bus, and where the two entries of a partition lie.\<close>

lemma configure_sys_mem_intf_part_run:
  "\<exists>msg. configure_sys_mem_intf_part bus p a e s =
   Some ((), if p < 32 \<and> a \<le> 0xFFFFFFF \<and> e \<le> 0xFFFFFFF
     then s\<lparr>dev := io_wr bus (0x21200 + 16 * ucast p) e (io_wr bus (0x21000 + 16 * ucast p) a (dev s))\<rparr>
     else s\<lparr>console := console s @ [Txt msg]\<rparr>)"
  by (auto simp: configure_sys_mem_intf_part_def alt_printf_def IOWR_32DIRECT_def modify_def
      bnd_def sys_mem_consts push_bit_eq_mult mult.commute linorder_not_less linorder_not_le)

lemma part_entry:
  assumes "p < (32 :: u8)"
  shows "0x21000 \<le> 0x21000 + 16 * (ucast p :: u32)" "0x21000 + 16 * ucast p < (0x21200 :: u32)"
    "0x21200 \<le> 0x21200 + 16 * (ucast p :: u32)" "0x21200 + 16 * ucast p < (0x21400 :: u32)"
proof -
  have "unat (ucast p :: u32) = unat p"
    using unsigned_less [of p, where 'a = nat] by (simp add: unsigned_ucast_eq take_bit_nat_eq_self)
  then show "0x21000 \<le> 0x21000 + 16 * (ucast p :: u32)" "0x21000 + 16 * ucast p < (0x21200 :: u32)"
    "0x21200 \<le> 0x21200 + 16 * (ucast p :: u32)" "0x21200 + 16 * ucast p < (0x21400 :: u32)"
    using assms by (simp_all add: word_less_nat_alt word_le_nat_alt unat_word_ariths)
qed

end
