(* ===== verification/Cortex_Dev.thy ===== *)
theory Cortex_Dev
  imports Acortex Fgyrus Sys_Mem
begin

text \<open>
  The CORTEX fabric at the level of its register interface, as the SystemVerilog sources
  describe it (\<^verbatim>\<open>dgn/rtl/i2c/i2c_master.sv\<close>, \<^verbatim>\<open>acortex/ssm2603_drvr.sv\<close>,
  \<^verbatim>\<open>acortex/pcm_bffr.sv\<close>, \<^verbatim>\<open>fgyrus/fgyrus_fsm.sv\<close>, \<^verbatim>\<open>rst_cntrl.sv\<close>,
  \<^verbatim>\<open>sys_mem_part_mngr.sv\<close> and the PIO of the HDMI interrupt line), with the chips on the
  I2C wires and the duration of a transfer as parameters.  The theory interprets on it the
  locales that state what the drivers rely on, so that what is proved in them holds of the
  firmware on this fabric.

  A transfer is one step: its outcome is fixed when it starts, and the controller is busy for
  \<open>env_lat\<close> milliseconds afterwards.  A CONFIG write during a transfer is not described (the
  model ignores it): no driver does it.
\<close>

section \<open>State and parameters\<close>

record 'c cortex_dev = "'c ctl" +
  busy_ms :: nat
  pcm_sel :: u32
  pcm_mem :: "u32 \<Rightarrow> u32"
  fft_ram :: "u32 \<Rightarrow> u32"

text \<open>
  The chips: a write says whether it was acknowledged; a read gives the level of the data line
  for every byte the master clocks in.
\<close>

record 'c env =
  env_wr :: "'c slave_wr"
  env_rd :: "u8 \<Rightarrow> nat \<Rightarrow> bool \<Rightarrow> bool \<Rightarrow> 'c \<Rightarrow> bool \<times> (nat \<Rightarrow> u8) \<times> 'c"
  env_lat :: "u8 \<Rightarrow> nat \<Rightarrow> nat"

definition cx_srd :: "'c env \<Rightarrow> 'c slave_rd" where
  "cx_srd env a n start stop c =
     (let (ack, f, c') = env_rd env a n start stop c in (ack, map f [0..<n], c'))"

section \<open>Register decoding\<close>

definition cx_cache_idx :: "u32 \<Rightarrow> nat option" where
  "cx_cache_idx a =
     (if a = 0x50 then Some 0 else if a = 0x60 then Some 1 else if a = 0x70 then Some 2
      else if a = 0x80 then Some 3 else None)"

definition HDMI_IRQ_MASK_ADDR :: u32 where "HDMI_IRQ_MASK_ADDR = 0x201048"
definition HDMI_EDGE_CAP_ADDR :: u32 where "HDMI_EDGE_CAP_ADDR = 0x20104C"

text \<open>The plain registers and the bits each of them implements.\<close>

definition cx_wmask :: "u32 \<Rightarrow> u32" where
  "cx_wmask a =
     (if a = 0x10 then 0xFF
      else if a = 0x1000 then 0xF else if a = 0x1020 then 0xFF else if a = 0x1030 then 0xFFFF
      else if a = 0x2000 then 0x1
      else if a = 0x10000 then 0x3
      else if 0x21000 \<le> a \<and> a < 0x21400 then 0x7FFFFFF
      else if a = 0x40000 then 0x1F
      else if a = HDMI_IRQ_MASK_ADDR then 0x1 else 0)"

definition cx_plain :: "u32 set" where
  "cx_plain = {a. a = 0x10 \<or> a = 0x1000 \<or> a = 0x1020 \<or> a = 0x1030 \<or> a = 0x2000 \<or> a = 0x10000 \<or>
     (0x21000 \<le> a \<and> a < 0x21400) \<or> a = 0x40000 \<or> a = HDMI_IRQ_MASK_ADDR}"

definition cx_rd :: "u32 \<Rightarrow> 'c cortex_dev \<Rightarrow> u32 \<times> 'c cortex_dev" where
  "cx_rd a d =
     (if a = 0x0 then (ucast (areg d), d)
      else if a = 0x30 then ((if nack d then 2 else 0) OR (if busy_ms d > 0 then 1 else 0), d)
      else if a = 0x2030 then (pcm_mem d (pcm_sel d), d)
      else if 0x11000 \<le> a \<and> a < 0x15000 then (fft_ram d a, d)
      else (case cx_cache_idx a of Some i \<Rightarrow> (ucast (cache d ! i), d) | None \<Rightarrow> (regs d a, d)))"

definition cx_start :: "'c env \<Rightarrow> u32 \<Rightarrow> 'c cortex_dev \<Rightarrow> 'c cortex_dev" where
  "cx_start env v d =
     (let n = unat (drop_bit 8 v AND 7) in
      if bit v 3 then
        (let (ack, bs, ch) = cx_srd env (areg d) n (bit v 0) (bit v 1) (chips d) in
         d\<lparr>nack := \<not> ack, cache := bs @ drop (length bs) (cache d), chips := ch,
           busy_ms := env_lat env (areg d) n\<rparr>)
      else
        (let (ack, ch) = env_wr env (areg d) (take n (cache d)) (bit v 0) (bit v 1) (chips d) in
         d\<lparr>nack := \<not> ack, chips := ch, busy_ms := env_lat env (areg d) n\<rparr>))"

definition cx_wr :: "'c env \<Rightarrow> u32 \<Rightarrow> u32 \<Rightarrow> 'c cortex_dev \<Rightarrow> 'c cortex_dev" where
  "cx_wr env a v d =
     (if a = 0x0 then d\<lparr>areg := ucast v AND 0xFE\<rparr>
      else if a = 0x20 then (if bit v 2 \<and> busy_ms d = 0 \<and> drop_bit 8 v AND 7 \<le> 4 then cx_start env v d else d)
      else if a = 0x2020 then (if bit (regs d 0x2000) 0 then d\<lparr>pcm_sel := v AND 0xFF\<rparr> else d)
      else if a = HDMI_EDGE_CAP_ADDR then
        (if bit v 0 then d\<lparr>regs := (regs d)(HDMI_EDGE_CAP_ADDR := 0)\<rparr> else d)
      else if a \<in> cx_plain then d\<lparr>regs := (regs d)(a := v AND cx_wmask a)\<rparr>
      else (case cx_cache_idx a of Some i \<Rightarrow> d\<lparr>cache := (cache d)[i := ucast v]\<rparr> | None \<Rightarrow> d))"

definition cx_bus :: "'c env \<Rightarrow> 'c cortex_dev bus" where
  "cx_bus env = \<lparr>io_rd = cx_rd, io_wr = cx_wr env, io_sleep = (\<lambda>n d. d\<lparr>busy_ms := busy_ms d - n\<rparr>)\<rparr>"

definition cx_live :: "'c cortex_dev \<Rightarrow> bool" where
  "cx_live d \<longleftrightarrow> length (cache d) = 4"

lemma cx_bus_simps [simp]:
  "io_rd (cx_bus env) = cx_rd" "io_wr (cx_bus env) = cx_wr env"
  "io_sleep (cx_bus env) n d = d\<lparr>busy_ms := busy_ms d - n\<rparr>"
  by (simp_all add: cx_bus_def)

section \<open>The contracts hold of the fabric\<close>

lemma cx_rd_keeps [simp]: "snd (cx_rd a d) = d"
  by (simp add: cx_rd_def split: option.split)

lemma cx_busy [simp]: "i2c_busy (cx_bus env) d \<longleftrightarrow> busy_ms d > 0"
  by (simp add: i2c_busy_def cx_rd_def i2c_consts)

lemma cx_poll: "(i2c_poll (cx_bus env) ^^ n) d = d\<lparr>busy_ms := busy_ms d - n\<rparr>"
  by (induction n) (simp_all add: i2c_poll_def)

lemma cx_cache_addr: "i < 4 \<Longrightarrow> cx_cache_idx (I2C_DATA_CACHE_ADDR i) = Some i"
proof -
  assume "i < 4"
  then have "i \<in> {0, 1, 2, 3}" by auto
  then show ?thesis by (auto simp: cx_cache_idx_def I2C_DATA_CACHE_ADDR_def i2c_consts)
qed

lemma cx_cache_idx_lt: "cx_cache_idx a = Some i \<Longrightarrow> i < 4"
  by (auto simp: cx_cache_idx_def split: if_splits)

lemma cx_srd_len: "cx_srd env a n st sp c = (ack, bs, c') \<Longrightarrow> length bs = n"
  by (auto simp: cx_srd_def split: prod.splits)

lemma u32_le_4: "(x :: u32) \<le> 4 \<Longrightarrow> unat x \<le> 4"
  by (simp add: word_le_nat_alt)

lemma cx_start_live:
  assumes "cx_live d" "drop_bit 8 v AND 7 \<le> 4"
  shows "cx_live (cx_start env v d)"
proof -
  have n: "unat (drop_bit 8 v AND 7) \<le> 4" using assms(2) by (rule u32_le_4)
  show ?thesis
    using assms(1) n
    by (cases "cx_srd env (areg d) (unat (drop_bit 8 v AND 7)) (bit v 0) (bit v 1) (chips d)")
      (auto simp: cx_live_def cx_start_def Let_def dest: cx_srd_len split: prod.split)
qed

lemma cx_live_wr: "cx_live d \<Longrightarrow> cx_live (cx_wr env a v d)"
  by (auto simp: cx_wr_def cx_start_live cx_live_def [of "_\<lparr>areg := _\<rparr>"]
      cx_live_def [of "_\<lparr>regs := _\<rparr>"] cx_live_def [of "_\<lparr>pcm_sel := _\<rparr>"]
      cx_live_def [of "_\<lparr>cache := _\<rparr>"] cx_live_def [of d] split: option.split)

text \<open>How the fabric decodes the words the driver stores in CONFIG.\<close>

lemma and_one_cases: "(ucast (x :: u8) AND 1 :: u32) = of_bool (bit x 0)"
  by (rule bit_word_eqI) (auto simp: bit_simps)

lemma config_decode:
  assumes "nb \<le> (4 :: u8)"
  shows "unat (drop_bit 8 (i2c_wr_config nb st sp) AND 7) = unat nb"
    "drop_bit 8 (i2c_wr_config nb st sp) AND 7 \<le> 4"
    "bit (i2c_wr_config nb st sp) 0 = bit st 0" "bit (i2c_wr_config nb st sp) 1 = bit sp 0"
    "bit (i2c_wr_config nb st sp) 2" "\<not> bit (i2c_wr_config nb st sp) 3"
    "unat (drop_bit 8 (i2c_rd_config nb st sp) AND 7) = unat nb"
    "drop_bit 8 (i2c_rd_config nb st sp) AND 7 \<le> 4"
    "bit (i2c_rd_config nb st sp) 0 = bit st 0" "bit (i2c_rd_config nb st sp) 1 = bit sp 0"
    "bit (i2c_rd_config nb st sp) 2" "bit (i2c_rd_config nb st sp) 3"
proof -
  have "unat nb \<le> 4" using assms by (simp add: word_le_nat_alt)
  then have "unat nb \<in> {0, 1, 2, 3, 4}" by auto
  then have nb: "nb \<in> {0, 1, 2, 3, 4}" by (auto simp: word_unat_eq_iff)
  note d = i2c_wr_config_def i2c_rd_config_def and_one_cases i2c_consts
  show "unat (drop_bit 8 (i2c_wr_config nb st sp) AND 7) = unat nb"
    "drop_bit 8 (i2c_wr_config nb st sp) AND 7 \<le> 4"
    "bit (i2c_wr_config nb st sp) 0 = bit st 0" "bit (i2c_wr_config nb st sp) 1 = bit sp 0"
    "bit (i2c_wr_config nb st sp) 2" "\<not> bit (i2c_wr_config nb st sp) 3"
    "unat (drop_bit 8 (i2c_rd_config nb st sp) AND 7) = unat nb"
    "drop_bit 8 (i2c_rd_config nb st sp) AND 7 \<le> 4"
    "bit (i2c_rd_config nb st sp) 0 = bit st 0" "bit (i2c_rd_config nb st sp) 1 = bit sp 0"
    "bit (i2c_rd_config nb st sp) 2" "bit (i2c_rd_config nb st sp) 3"
    using nb by (cases "bit st 0"; cases "bit sp 0"; auto simp: d)+
qed

interpretation cx: i2c_live "cx_bus env" cx_live
  for env :: "'c env"
proof
  fix d :: "'c cortex_dev" and a v n
  assume l: "cx_live d"
  show "cx_live (snd (io_rd (cx_bus env) a d))" using l by simp
  show "cx_live (io_wr (cx_bus env) a v d)" using l by (simp add: cx_live_wr)
  show "cx_live (io_sleep (cx_bus env) n d)" using l by (simp add: cx_live_def)
  show "\<exists>n. \<not> i2c_busy (cx_bus env) ((i2c_poll (cx_bus env) ^^ n) d)"
    by (rule exI [of _ "busy_ms d"]) (simp add: cx_poll)
qed

lemma truncate_simps [simp]:
  "areg (ctl.truncate d) = areg d" "cache (ctl.truncate d) = cache d"
  "nack (ctl.truncate d) = nack d" "chips (ctl.truncate d) = chips d"
  "regs (ctl.truncate d) = regs d"
  by (simp_all add: ctl.truncate_def)

lemma cx_regs_neq:
  assumes "a \<in> cx_plain"
  shows "a \<noteq> 0x0" "a \<noteq> 0x20" "a \<noteq> 0x30" "a \<noteq> 0x2020" "a \<noteq> 0x2030" "a \<noteq> HDMI_EDGE_CAP_ADDR"
    "\<not> (0x11000 \<le> a \<and> a < 0x15000)" "cx_cache_idx a = None"
proof -
  have "\<not> (a < 0x15000 \<and> 0x21000 \<le> a)" by (auto simp: word_less_nat_alt word_le_nat_alt)
  then show "a \<noteq> 0x0" "a \<noteq> 0x20" "a \<noteq> 0x30" "a \<noteq> 0x2020" "a \<noteq> 0x2030" "a \<noteq> HDMI_EDGE_CAP_ADDR"
    "\<not> (0x11000 \<le> a \<and> a < 0x15000)" "cx_cache_idx a = None"
    using assms
    by (auto simp: cx_plain_def HDMI_IRQ_MASK_ADDR_def HDMI_EDGE_CAP_ADDR_def cx_cache_idx_def)
qed

lemma cx_cache_plain:
  assumes "i < 4"
  shows "I2C_DATA_CACHE_ADDR i \<in> {0x50, 0x60, 0x70, 0x80}"
    "I2C_DATA_CACHE_ADDR i \<notin> cx_plain" "I2C_DATA_CACHE_ADDR i \<noteq> HDMI_EDGE_CAP_ADDR"
proof -
  have "i \<in> {0, 1, 2, 3}" using assms by auto
  then show m: "I2C_DATA_CACHE_ADDR i \<in> {0x50, 0x60, 0x70, 0x80}"
    by (auto simp: I2C_DATA_CACHE_ADDR_def i2c_consts)
  then show "I2C_DATA_CACHE_ADDR i \<notin> cx_plain" "I2C_DATA_CACHE_ADDR i \<noteq> HDMI_EDGE_CAP_ADDR"
    by (auto simp: cx_plain_def HDMI_IRQ_MASK_ADDR_def HDMI_EDGE_CAP_ADDR_def)
qed

lemma cx_wr_cache:
  "i < 4 \<Longrightarrow> cx_wr env (I2C_DATA_CACHE_ADDR i) v d = d\<lparr>cache := (cache d)[i := ucast v]\<rparr>"
  using cx_cache_plain [of i] by (auto simp: cx_wr_def cx_cache_addr)

lemma cx_rd_cache: "i < 4 \<Longrightarrow> cx_rd (I2C_DATA_CACHE_ADDR i) d = (ucast (cache d ! i), d)"
  using cx_cache_plain [of i] cx_cache_addr [of i] by (auto simp: cx_rd_def)

lemma cx_wr_config:
  assumes "nb \<le> 4" "busy_ms d = 0"
  shows "cx_wr env I2C_CONFIG_REG_ADDR (i2c_wr_config nb st sp) d = cx_start env (i2c_wr_config nb st sp) d"
    "cx_wr env I2C_CONFIG_REG_ADDR (i2c_rd_config nb st sp) d = cx_start env (i2c_rd_config nb st sp) d"
  using assms by (simp_all add: cx_wr_def i2c_consts config_decode [simplified i2c_consts])

lemma cx_start_wr:
  "nb \<le> 4 \<Longrightarrow> ctl.truncate (cx_start env (i2c_wr_config nb st sp) d) =
     ctl_write (env_wr env) (unat nb) (bit st 0) (bit sp 0) (ctl.truncate d)"
  by (simp add: cx_start_def config_decode [simplified] ctl_write_def Let_def split: prod.split)

lemma cx_start_rd:
  "nb \<le> 4 \<Longrightarrow> ctl.truncate (cx_start env (i2c_rd_config nb st sp) d) =
     ctl_read (cx_srd env) (unat nb) (bit st 0) (bit sp 0) (ctl.truncate d)"
  by (simp add: cx_start_def config_decode [simplified] ctl_read_def Let_def split: prod.split)

interpretation cx: i2c_master "cx_bus env" cx_live ctl.truncate "env_wr env" "cx_srd env"
  for env :: "'c env"
proof
  fix d :: "'c cortex_dev" and n
  show "ctl.truncate (io_sleep (cx_bus env) n d) = ctl.truncate d"
    by (simp add: ctl.truncate_def)
next
  fix d :: "'c cortex_dev"
  assume "cx_live d" "\<not> i2c_busy (cx_bus env) d"
  then show "(fst (io_rd (cx_bus env) I2C_STATUS_REG_ADDR d) AND I2C_NACK_DET_MSK \<noteq> 0) =
      nack (ctl.truncate d)"
    by (simp add: cx_rd_def i2c_consts)
next
  fix d :: "'c cortex_dev" and v
  assume "\<not> i2c_busy (cx_bus env) d"
  then show "ctl.truncate (io_wr (cx_bus env) I2C_ADDR_REG_ADDR v d) =
        (ctl.truncate d)\<lparr>areg := ucast v AND 0xFE\<rparr> \<and>
      \<not> i2c_busy (cx_bus env) (io_wr (cx_bus env) I2C_ADDR_REG_ADDR v d)"
    by (simp add: cx_wr_def i2c_consts ctl.truncate_def)
next
  fix d :: "'c cortex_dev" and v and i :: nat
  assume "\<not> i2c_busy (cx_bus env) d" "i < 4"
  then show "ctl.truncate (io_wr (cx_bus env) (I2C_DATA_CACHE_ADDR i) v d) =
        (ctl.truncate d)\<lparr>cache := (cache (ctl.truncate d))[i := ucast v]\<rparr> \<and>
      \<not> i2c_busy (cx_bus env) (io_wr (cx_bus env) (I2C_DATA_CACHE_ADDR i) v d)"
    by (simp add: cx_wr_cache)
qed (simp_all add: cx_rd_cache cx_wr_config cx_start_wr cx_start_rd cx_live_def cx_srd_len)

interpretation cx: cortex_regs "cx_bus env" cx_live ctl.truncate "env_wr env" "cx_srd env"
    cx_plain cx_wmask
  for env :: "'c env"
proof
  fix d :: "'c cortex_dev" and a v
  assume "\<not> i2c_busy (cx_bus env) d" and a: "a \<in> cx_plain"
  then show "fst (io_rd (cx_bus env) a d) = regs (ctl.truncate d) a \<and>
      ctl.truncate (snd (io_rd (cx_bus env) a d)) = ctl.truncate d \<and>
      \<not> i2c_busy (cx_bus env) (snd (io_rd (cx_bus env) a d))"
    using cx_regs_neq [OF a] by (auto simp: cx_rd_def)
next
  fix d :: "'c cortex_dev" and a v
  assume "\<not> i2c_busy (cx_bus env) d" and a: "a \<in> cx_plain"
  then show "ctl.truncate (io_wr (cx_bus env) a v d) =
        (ctl.truncate d)\<lparr>regs := (regs (ctl.truncate d))(a := v AND cx_wmask a)\<rparr> \<and>
      \<not> i2c_busy (cx_bus env) (io_wr (cx_bus env) a v d)"
    using cx_regs_neq [OF a] by (simp add: cx_wr_def)
qed

text \<open>The idle fabric, and what a refinement proved in a locale says of it.\<close>

definition cx_ready :: "'c cortex_dev mach \<Rightarrow> bool" where
  "cx_ready s \<longleftrightarrow> cx_live (dev s) \<and> busy_ms (dev s) = 0"

lemma cx_ready_iff: "i2c_master.ready (cx_bus env) cx_live s \<longleftrightarrow> cx_ready s"
  by (simp add: cx.ready_def cx_ready_def)

lemma refines_cx:
  assumes "refines (i2c_master.ready (cx_bus env) cx_live) vw m e" "cx_ready s"
  shows "\<exists>r s'. m s = Some (r, s') \<and> cx_ready s' \<and> vw s' = e (vw s)"
  using refines_run [OF assms(1)] assms(2) by (simp add: cx_ready_iff)

lemma ssm_plain: "ssm_regs \<subseteq> cx_plain"
  by (simp add: ssm_regs_def cx_plain_def ssm_consts)

interpretation cx: pcm_memory "cx_bus env" "\<lambda>d. bit (regs d 0x2000) 0" pcm_mem pcm_sel
  for env :: "'c env"
  by unfold_locales
    (simp_all add: cx_wr_def cx_rd_def PCM_BFFR_CAP_ADDR_REG_ADDR_def PCM_BFFR_CAP_DATA_REG_ADDR_def)

interpretation cx: fgyrus_memory "cx_bus env" fft_ram
  for env :: "'c env"
proof
  fix d :: "'c cortex_dev" and a
  assume "FGYRUS_FFT_CACHE_BASE \<le> a" "a < FGYRUS_WIN_RAM_BASE + 0x1000"
  then have a: "0x11000 \<le> a" "a < 0x15000" by (simp_all add: fgyrus_consts)
  then have "a \<noteq> 0" "a \<noteq> 0x30" "a \<noteq> 0x2030" by auto
  with a show "fst (io_rd (cx_bus env) a d) = fft_ram d a \<and>
      fft_ram (snd (io_rd (cx_bus env) a d)) = fft_ram d"
    by (simp add: cx_rd_def)
qed

end
