(* ===== verification/Encoder.thy ===== *)
theory Encoder
  imports I2c
begin

text \<open>
  Register access of the HDMI encoder (\<^verbatim>\<open>adv7513/encoder/encoder.c\<close>): read, write, and
  read-modify-write of one 8-bit register over I2C.  The C functions take the encoder by
  pointer; the only encoder of the program is the global \<open>adv7513_encoder\<close>.  A C \<open>int\<close> is an
  \<open>int\<close>; 0 and -1 are the return codes.
\<close>

definition ec_slave :: "'d mach \<Rightarrow> u8" where
  "ec_slave s = word_of_int (slave_addr (adv7513_encoder s))"

definition set_bffr_byte0 :: "u8 \<Rightarrow> 'd mach \<Rightarrow> 'd mach" where
  "set_bffr_byte0 b s = s\<lparr>adv7513_i2c_bffr := val_of ((bytes_of (adv7513_i2c_bffr s))[0 := b])\<rparr>"

text \<open>
  A one-byte read at \<open>addr\<close>: select, then read.  \<open>reg_read\<close>, \<open>adv7513_edid_read\<close> and
  \<open>adv7513_regmap_dump\<close> contain the same two transfers.  The byte is stored through the
  pointer only on success, so the old value is an argument.
\<close>

definition i2c_read_byte :: "'d bus \<Rightarrow> u8 \<Rightarrow> int \<Rightarrow> u8 \<Rightarrow> ('d mach, int \<times> u8) drv" where
  "i2c_read_byte bus addr reg old =
     bnd (modify (set_bffr_byte0 (word_of_int (reg AND 0xff)))) (\<lambda>_.
     bnd (gets adv7513_i2c_bffr) (\<lambda>v.
     bnd (i2c_xtn_write bus addr (bytes_of v) 1 1 0) (\<lambda>r.
     if r \<noteq> I2C_OK then ret (- 1, old)
     else
       bnd (i2c_xtn_read bus addr (bytes_of v) 1 1 1) (\<lambda>(r, bs).
       bnd (modify (\<lambda>s. s\<lparr>adv7513_i2c_bffr := val_of bs\<rparr>)) (\<lambda>_.
       if r \<noteq> I2C_OK then ret (- 1, old)
       else bnd (gets adv7513_i2c_bffr) (\<lambda>v. ret (0, bytes_of v ! 0)))))))"

definition reg_read :: "'d bus \<Rightarrow> int \<Rightarrow> u8 \<Rightarrow> ('d mach, int \<times> u8) drv" where
  "reg_read bus reg data = bnd (gets ec_slave) (\<lambda>a. i2c_read_byte bus a reg data)"

definition reg_write :: "'d bus \<Rightarrow> int \<Rightarrow> int \<Rightarrow> ('d mach, int) drv" where
  "reg_write bus reg data =
     bnd (modify (\<lambda>s. s\<lparr>adv7513_i2c_bffr :=
            word_of_int (push_bit 8 (data AND 0xff) + (reg AND 0xff))\<rparr>)) (\<lambda>_.
     bnd (gets ec_slave) (\<lambda>a.
     bnd (gets adv7513_i2c_bffr) (\<lambda>v.
     bnd (i2c_xtn_write bus a (bytes_of v) 2 1 1) (\<lambda>r.
     if r \<noteq> I2C_OK then ret (- 1) else ret 0))))"

definition reg_update_bits :: "'d bus \<Rightarrow> int \<Rightarrow> int \<Rightarrow> int \<Rightarrow> ('d mach, int) drv" where
  "reg_update_bits bus reg msk data =
     bnd (reg_read bus reg 0) (\<lambda>(r, regv).
     if r < 0 then ret (- 1)
     else
       let regv = regv AND NOT (word_of_int msk);
           regv = regv OR (word_of_int data AND word_of_int msk) in
       bnd (reg_write bus reg (uint regv)) (\<lambda>r. if r \<noteq> 0 then ret (- 1) else ret 0))"

definition reg_or_bits :: "'d bus \<Rightarrow> int \<Rightarrow> int \<Rightarrow> ('d mach, int) drv" where
  "reg_or_bits bus reg data =
     bnd (reg_read bus reg 0) (\<lambda>(r, regv).
     if r < 0 then ret (- 1)
     else bnd (reg_write bus reg (uint (regv OR word_of_int data))) (\<lambda>r.
       if r \<noteq> 0 then ret (- 1) else ret 0))"

definition reg_clear_bits :: "'d bus \<Rightarrow> int \<Rightarrow> int \<Rightarrow> ('d mach, int) drv" where
  "reg_clear_bits bus reg msk =
     bnd (reg_read bus reg 0) (\<lambda>(r, regv).
     if r < 0 then ret (- 1)
     else bnd (reg_write bus reg (uint (regv AND NOT (word_of_int msk)))) (\<lambda>r.
       if r \<noteq> 0 then ret (- 1) else ret 0))"

section \<open>The accesses return\<close>

context i2c_live
begin

lemma keeps_i2c_read_byte [inv_intros]: "keeps alive (i2c_read_byte bus a reg old)"
  unfolding i2c_read_byte_def by (intro inv_intros) (simp_all add: set_bffr_byte0_def)

lemma keeps_reg_read [inv_intros]: "keeps alive (reg_read bus reg old)"
  unfolding reg_read_def by (intro inv_intros)

lemma keeps_reg_write [inv_intros]: "keeps alive (reg_write bus reg data)"
  unfolding reg_write_def by (intro inv_intros) simp_all

lemma keeps_reg_update_bits [inv_intros]: "keeps alive (reg_update_bits bus reg msk data)"
  unfolding reg_update_bits_def by (intro inv_intros)

lemma keeps_reg_or_bits [inv_intros]: "keeps alive (reg_or_bits bus reg data)"
  unfolding reg_or_bits_def by (intro inv_intros)

lemma keeps_reg_clear_bits [inv_intros]: "keeps alive (reg_clear_bits bus reg msk)"
  unfolding reg_clear_bits_def by (intro inv_intros)

end

section \<open>The encoder on the bus\<close>

text \<open>
  What the driver relies on of the ADV7513 at address \<open>0x72\<close>: it acknowledges; a two-byte write
  stores a register; a one-byte write selects one and a one-byte read returns it.  \<open>rw\<close> are the
  registers that change only by such writes, and \<open>rfile\<close> their contents; the others (status,
  interrupt flags, identification) may read as anything.
\<close>

locale adv_slave =
  fixes swr :: "'c slave_wr" and srd :: "'c slave_rd"
    and rfile :: "'c \<Rightarrow> u8 \<Rightarrow> u8" and asel :: "'c \<Rightarrow> u8" and rw :: "u8 set"
  assumes adv_write: "\<exists>c'. swr 0x72 [r, v] True True c = (True, c') \<and>
        rfile c' = (if r \<in> rw then (rfile c)(r := v) else rfile c)"
    and adv_select: "\<exists>c'. swr 0x72 [r] True False c = (True, c') \<and> asel c' = r \<and> rfile c' = rfile c"
    and adv_read: "\<exists>b c'. srd 0x72 (Suc 0) True True c = (True, [b], c') \<and>
        (asel c \<in> rw \<longrightarrow> b = rfile c (asel c)) \<and> rfile c' = rfile c"
    and other_write: "a \<noteq> 0x72 \<Longrightarrow> rfile (snd (swr a bs st sp c)) = rfile c"
    and other_read: "a \<noteq> 0x72 \<Longrightarrow> rfile (snd (snd (srd a n st sp c))) = rfile c"

locale adv_chip = i2c_master bus live view swr srd + adv_slave swr srd rfile asel rw
  for bus :: "'d bus" and live :: "'d \<Rightarrow> bool" and view :: "'d \<Rightarrow> 'c ctl"
    and swr :: "'c slave_wr" and srd :: "'c slave_rd"
    and rfile :: "'c \<Rightarrow> u8 \<Rightarrow> u8" and asel :: "'c \<Rightarrow> u8" and rw :: "u8 set"
begin

definition adv_ready :: "'d mach \<Rightarrow> bool" where
  "adv_ready s \<longleftrightarrow> ready s \<and> slave_addr (adv7513_encoder s) = 0x72 \<and>
     edid_addr (adv7513_encoder s) = 0x7e"

abbreviation adv_file :: "'d mach \<Rightarrow> u8 \<Rightarrow> u8" where
  "adv_file s \<equiv> rfile (chips_of s)"

lemma wp_reg_read:
  assumes "adv_ready s"
    and Q: "\<And>b d' v. live d' \<Longrightarrow> \<not> i2c_busy bus d' \<Longrightarrow> rfile (chips (view d')) = adv_file s \<Longrightarrow>
      regs (view d') = regs_of s \<Longrightarrow>
      (word_of_int reg \<in> rw \<Longrightarrow> b = adv_file s (word_of_int reg)) \<Longrightarrow>
      Q (0, b) (s\<lparr>dev := d', adv7513_i2c_bffr := v\<rparr>)"
  shows "wp (reg_read bus reg old) Q s"
proof -
  let ?r = "word_of_int reg :: u8"
  have s: "ready s" "ec_slave s = 0x72" using assms(1) by (simp_all add: adv_ready_def ec_slave_def)
  define b where "b = (bytes_of (adv7513_i2c_bffr s))[0 := ?r]"
  have b: "length b = 2" "bytes_of (val_of b) = b" "take (Suc 0) b = [?r]"
    by (simp_all add: b_def bytes_of_val_of) (simp add: bytes_of_def)
  have set: "set_bffr_byte0 (word_of_int (reg AND 0xff)) s = s\<lparr>adv7513_i2c_bffr := val_of b\<rparr>"
    by (simp add: set_bffr_byte0_def b_def byte_and_ff)
  obtain c1 where c1: "swr 0x72 (take (Suc 0) b) True False (chips_of s) = (True, c1)"
      "asel c1 = ?r" "rfile c1 = adv_file s"
    using adv_select [of ?r "chips_of s"] unfolding b(3) by blast
  obtain x c2 where c2: "srd 0x72 (Suc 0) True True c1 = (True, [x], c2)"
      "?r \<in> rw \<longrightarrow> x = adv_file s ?r" "rfile c2 = adv_file s"
    using adv_read [of c1] c1 by auto
  have x: "bytes_of (val_of (x # drop (Suc 0) b)) ! 0 = x"
    using b(1) by (simp add: bytes_of_val_of)
  show ?thesis
    unfolding reg_read_def i2c_read_byte_def wp_bnd wp_modify wp_gets s(2) set
    using s(1) c1 c2 Q b(1,2) x
    by (auto simp: wp_simps ready_def
        intro!: wp_i2c_xtn_write [where ack = True and c' = c1]
          wp_i2c_xtn_read [where ack = True and c' = c2 and bs = "[x]"])
qed

lemma wr_bytes:
  "bytes_of (word_of_int (push_bit 8 (data AND 0xff) + (reg AND 0xff))) =
     [word_of_int reg, word_of_int data]"
proof -
  have m: "i AND 0xff = take_bit 8 i" for i :: int
    by (simp add: take_bit_eq_mask mask_eq_exp_minus_1)
  have "push_bit 8 (data AND 0xff) + (reg AND 0xff) = push_bit 8 (take_bit 8 data) OR take_bit 8 reg"
    unfolding m by (rule disjunctive_add) (auto simp: bit_simps)
  moreover have "ucast (word_of_int (push_bit 8 (take_bit 8 data) OR take_bit 8 reg) :: u16) =
      (word_of_int reg :: u8)"
    by (rule bit_word_eqI) (auto simp: bit_simps)
  moreover have "ucast (drop_bit 8 (word_of_int (push_bit 8 (take_bit 8 data) OR take_bit 8 reg) :: u16)) =
      (word_of_int data :: u8)"
    by (rule bit_word_eqI) (auto simp: bit_simps)
  ultimately show ?thesis by (simp add: bytes_of_def)
qed

lemma wp_reg_write:
  assumes "adv_ready s"
    and Q: "\<And>d' v. live d' \<Longrightarrow> \<not> i2c_busy bus d' \<Longrightarrow>
      rfile (chips (view d')) = (if word_of_int reg \<in> rw
        then (adv_file s)(word_of_int reg := word_of_int data) else adv_file s) \<Longrightarrow>
      regs (view d') = regs_of s \<Longrightarrow> Q 0 (s\<lparr>adv7513_i2c_bffr := v, dev := d'\<rparr>)"
  shows "wp (reg_write bus reg data) Q s"
proof -
  have s: "ready s" "ec_slave (s\<lparr>adv7513_i2c_bffr := w\<rparr>) = 0x72" for w
    using assms(1) by (simp_all add: adv_ready_def ec_slave_def)
  obtain c1 where c1: "swr 0x72 [word_of_int reg, word_of_int data] True True (chips_of s) = (True, c1)"
      "rfile c1 = (if word_of_int reg \<in> rw
        then (adv_file s)(word_of_int reg := word_of_int data) else adv_file s)"
    using adv_write by blast
  define w :: u16 where "w = word_of_int (push_bit 8 (data AND 0xff) + (reg AND 0xff))"
  have w: "bytes_of w = [word_of_int reg, word_of_int data]" unfolding w_def by (rule wr_bytes)
  show ?thesis
    unfolding reg_write_def wp_bnd wp_modify wp_gets s(2) w_def [symmetric]
    using s(1) c1 Q
    by (auto simp: wp_simps ready_def w
        intro!: wp_i2c_xtn_write [where ack = True and c' = c1])
qed

text \<open>The accesses as functions on the register file.\<close>

lemma reg_write_does:
  "word_of_int reg \<in> rw \<Longrightarrow> does adv_ready adv_file (reg_write bus reg data)
     (\<lambda>f. f(word_of_int reg := word_of_int data))"
  by (rule doesI, rule wp_reg_write) (auto simp: adv_ready_def ready_def)

lemma reg_write_other_does:
  "word_of_int reg \<notin> rw \<Longrightarrow> does adv_ready adv_file (reg_write bus reg data) (\<lambda>f. f)"
  by (rule doesI, rule wp_reg_write) (auto simp: adv_ready_def ready_def)

lemma reg_update_bits_does:
  assumes "word_of_int reg \<in> rw"
  shows "does adv_ready adv_file (reg_update_bits bus reg msk data)
     (\<lambda>f. f(word_of_int reg :=
        upd_bits (word_of_int msk) (word_of_int data) (f (word_of_int reg))))"
  unfolding reg_update_bits_def
  by (rule doesI, unfold wp_bnd, rule wp_reg_read)
    (use assms in \<open>auto simp: wp_simps adv_ready_def ready_def upd_bits_def intro!: wp_reg_write\<close>)

lemma reg_clear_bits_does:
  assumes "word_of_int reg \<in> rw"
  shows "does adv_ready adv_file (reg_clear_bits bus reg msk)
     (\<lambda>f. f(word_of_int reg := f (word_of_int reg) AND NOT (word_of_int msk)))"
  unfolding reg_clear_bits_def
  by (rule doesI, unfold wp_bnd, rule wp_reg_read)
    (use assms in \<open>auto simp: wp_simps adv_ready_def ready_def intro!: wp_reg_write\<close>)

lemma reg_or_bits_does:
  assumes "word_of_int reg \<in> rw"
  shows "does adv_ready adv_file (reg_or_bits bus reg data)
     (\<lambda>f. f(word_of_int reg := f (word_of_int reg) OR word_of_int data))"
  unfolding reg_or_bits_def
  by (rule doesI, unfold wp_bnd, rule wp_reg_read)
    (use assms in \<open>auto simp: wp_simps adv_ready_def ready_def intro!: wp_reg_write\<close>)

end

end
