(* ===== verification/Hal_Irq.thy ===== *)
theory Hal_Irq
  imports Alt_Printf
begin

text \<open>
  The interrupt layer of the HAL that the HDMI driver uses: \<^verbatim>\<open>alt_iic.c\<close>,
  \<^verbatim>\<open>alt_iic_isr_register.c\<close>, \<^verbatim>\<open>priv/alt_legacy_irq.h\<close>, and the register macros of the
  PIO core that the interrupt line of the HDMI transmitter is connected to.  Saving and
  restoring the global interrupt enable around the table updates has no net effect and is left
  out.
\<close>

definition ALT_NIRQ :: nat where "ALT_NIRQ = 32"

definition alt_irq_disable :: "nat \<Rightarrow> ('d mach, int) drv" where
  "alt_irq_disable irq =
     bnd (modify (\<lambda>s. s\<lparr>alt_irq_active := alt_irq_active s AND NOT (push_bit irq 1)\<rparr>)) (\<lambda>_.
     bnd (modify (\<lambda>s. s\<lparr>ienable := alt_irq_active s\<rparr>)) (\<lambda>_.
     ret 0))"

definition alt_irq_enable :: "nat \<Rightarrow> ('d mach, int) drv" where
  "alt_irq_enable irq =
     bnd (modify (\<lambda>s. s\<lparr>alt_irq_active := alt_irq_active s OR push_bit irq 1\<rparr>)) (\<lambda>_.
     bnd (modify (\<lambda>s. s\<lparr>ienable := alt_irq_active s\<rparr>)) (\<lambda>_.
     ret 0))"

definition alt_ic_irq_enable :: "nat \<Rightarrow> nat \<Rightarrow> ('d mach, int) drv" where
  "alt_ic_irq_enable ic_id irq = alt_irq_enable irq"

definition alt_ic_irq_disable :: "nat \<Rightarrow> nat \<Rightarrow> ('d mach, int) drv" where
  "alt_ic_irq_disable ic_id irq = alt_irq_disable irq"

definition alt_ic_irq_enabled :: "nat \<Rightarrow> nat \<Rightarrow> ('d mach, u32) drv" where
  "alt_ic_irq_enabled ic_id irq =
     bnd (gets ienable) (\<lambda>irq_enabled. ret (if irq_enabled AND push_bit irq 1 \<noteq> 0 then 1 else 0))"

text \<open>\<open>-EINVAL\<close> is \<open>-22\<close>.\<close>

definition alt_iic_isr_register :: "nat \<Rightarrow> nat \<Rightarrow> isr option \<Rightarrow> ('d mach, int) drv" where
  "alt_iic_isr_register ic_id irq isr =
     (if irq < ALT_NIRQ then
        bnd (modify (\<lambda>s. s\<lparr>alt_irq := (alt_irq s)(irq := isr)\<rparr>)) (\<lambda>_.
        if isr \<noteq> None then alt_ic_irq_enable ic_id irq else alt_ic_irq_disable ic_id irq)
      else ret (- 22))"

definition alt_ic_isr_register :: "nat \<Rightarrow> nat \<Rightarrow> isr option \<Rightarrow> ('d mach, int) drv" where
  "alt_ic_isr_register ic_id irq isr = alt_iic_isr_register ic_id irq isr"

section \<open>PIO registers\<close>

definition IOWR_ALTERA_AVALON_PIO_IRQ_MASK :: "'d bus \<Rightarrow> u32 \<Rightarrow> u32 \<Rightarrow> ('d mach, unit) drv" where
  "IOWR_ALTERA_AVALON_PIO_IRQ_MASK bus base data = IOWR bus base 2 data"

definition IORD_ALTERA_AVALON_PIO_EDGE_CAP :: "'d bus \<Rightarrow> u32 \<Rightarrow> ('d mach, u32) drv" where
  "IORD_ALTERA_AVALON_PIO_EDGE_CAP bus base = IORD bus base 3"

definition IOWR_ALTERA_AVALON_PIO_EDGE_CAP :: "'d bus \<Rightarrow> u32 \<Rightarrow> u32 \<Rightarrow> ('d mach, unit) drv" where
  "IOWR_ALTERA_AVALON_PIO_EDGE_CAP bus base data = IOWR bus base 3 data"

lemmas pio_macros = IOWR_ALTERA_AVALON_PIO_IRQ_MASK_def IORD_ALTERA_AVALON_PIO_EDGE_CAP_def
  IOWR_ALTERA_AVALON_PIO_EDGE_CAP_def IORD_def IOWR_def

section \<open>Properties\<close>

lemma wp_alt_ic_irq_enable [wp_simps]:
  "wp (alt_ic_irq_enable ic irq) Q s =
   Q 0 (s\<lparr>alt_irq_active := alt_irq_active s OR push_bit irq 1,
          ienable := alt_irq_active s OR push_bit irq 1\<rparr>)"
  by (simp add: alt_ic_irq_enable_def alt_irq_enable_def wp_simps)

lemma wp_alt_ic_irq_disable [wp_simps]:
  "wp (alt_ic_irq_disable ic irq) Q s =
   Q 0 (s\<lparr>alt_irq_active := alt_irq_active s AND NOT (push_bit irq 1),
          ienable := alt_irq_active s AND NOT (push_bit irq 1)\<rparr>)"
  by (simp add: alt_ic_irq_disable_def alt_irq_disable_def wp_simps)

lemma wp_alt_ic_isr_register [wp_simps]:
  "wp (alt_ic_isr_register ic irq (Some h)) Q s =
   (if irq < 32 then
      Q 0 (s\<lparr>alt_irq := (alt_irq s)(irq := Some h),
             alt_irq_active := alt_irq_active s OR push_bit irq 1,
             ienable := alt_irq_active s OR push_bit irq 1\<rparr>)
    else Q (- 22) s)"
  by (simp add: alt_ic_isr_register_def alt_iic_isr_register_def ALT_NIRQ_def wp_simps)

end
