(* ===== verification/Adv7513.thy ===== *)
theory Adv7513
  imports Encoder Hal_Irq
begin

text \<open>
  The driver of the ADV7513 HDMI transmitter (\<^verbatim>\<open>ledos/adv7513/adv7513.h\<close>,
  \<^verbatim>\<open>adv7513.c\<close>): identification, hot-plug detection, power, video input and output
  format, AVI infoframe, EDID read-out, the interrupt handler and the interrupt setup.  A run of
  \<^verbatim>\<open>if (f(...) != 0) return -1;\<close> is a \<open>run_checked\<close> sequence.  Memory the C code reads
  before it is written (an uninitialised local) is an argument.
\<close>

section \<open>Registers, bit-fields and enumerations\<close>

definition ADV7513_SALVE_ADDR8 :: int where "ADV7513_SALVE_ADDR8 = push_bit 1 0x39"
definition ADV7513_EDID_ADDR8 :: int where "ADV7513_EDID_ADDR8 = 0x7e"

definition ADV7513_REG_CHIP_REVISION :: int where "ADV7513_REG_CHIP_REVISION = 0x00"
definition ADV7513_REG_STATUS :: int where "ADV7513_REG_STATUS = 0x42"
definition ADV7513_REG_CHIP_ID_HIGH :: int where "ADV7513_REG_CHIP_ID_HIGH = 0xf5"
definition ADV7513_REG_CHIP_ID_LOW :: int where "ADV7513_REG_CHIP_ID_LOW = 0xf6"
definition ADV7513_STATUS_HPD :: u8 where "ADV7513_STATUS_HPD = push_bit 6 1"
definition ADV7513_STATUS_MONITOR_SENSE :: u8 where "ADV7513_STATUS_MONITOR_SENSE = push_bit 5 1"

definition HDMI_TX_INT_N_BASE :: u32 where "HDMI_TX_INT_N_BASE = 0x201040"
definition HDMI_TX_INT_N_IRQ :: nat where "HDMI_TX_INT_N_IRQ = 4"
definition HDMI_TX_INT_N_IRQ_INTERRUPT_CONTROLLER_ID :: nat where
  "HDMI_TX_INT_N_IRQ_INTERRUPT_CONTROLLER_ID = 0"
definition HDMI_TX_INT_MASK :: u32 where "HDMI_TX_INT_MASK = 0x01"

lemmas adv_consts = ADV7513_SALVE_ADDR8_def ADV7513_EDID_ADDR8_def ADV7513_REG_CHIP_REVISION_def
  ADV7513_REG_STATUS_def ADV7513_REG_CHIP_ID_HIGH_def ADV7513_REG_CHIP_ID_LOW_def
  ADV7513_STATUS_HPD_def ADV7513_STATUS_MONITOR_SENSE_def HDMI_TX_INT_N_BASE_def
  HDMI_TX_INT_N_IRQ_def HDMI_TX_INT_N_IRQ_INTERRUPT_CONTROLLER_ID_def HDMI_TX_INT_MASK_def

text \<open>
  The interrupt mask and status words; each is a union of an \<open>unsigned int\<close> with eight
  one-bit fields from bit 0 up, read and written here by bit number.
\<close>

record adv7513_int_mask =
  reg92 :: u32
  reg94 :: u32
  reg95 :: u32

record adv7513_int_status =
  reg93 :: u32
  reg96 :: u32
  reg97 :: u32

definition INT_HPD_BIT :: nat where "INT_HPD_BIT = 7"
definition INT_MONITOR_SENSE_BIT :: nat where "INT_MONITOR_SENSE_BIT = 6"

definition adv7513_int_mask_to_long :: "adv7513_int_mask \<Rightarrow> u32" where
  "adv7513_int_mask_to_long m = push_bit 16 (reg92 m) OR push_bit 8 (reg94 m) OR reg95 m"

definition adv7513_long_to_int_mask :: "u32 \<Rightarrow> adv7513_int_mask" where
  "adv7513_long_to_int_mask long_val =
     \<lparr>reg92 = drop_bit 16 long_val AND 0xff, reg94 = drop_bit 8 long_val AND 0xff,
      reg95 = long_val AND 0xff\<rparr>"

datatype adv7513_input_id =
    ADV7513_INPUT_ID_24BIT_RGB444_YCBCR444
  | ADV7513_INPUT_ID_16_20_24BIT_YCBCR422_SEPARATE_SYNC
  | ADV7513_INPUT_ID_16_20_24BIT_YCBCR422_EMBEDDED_SYNC
  | ADV7513_INPUT_ID_8_10_12BIT_YCBCR422_SEPARATE_SYNC
  | ADV7513_INPUT_ID_8_10_12BIT_YCBCR422_EMBEDDED_SYNC
  | ADV7513_INPUT_ID_12_15_16BIT_RGB444_YCBCR444

definition input_id_val :: "adv7513_input_id \<Rightarrow> int" where
  "input_id_val x = (case x of
       ADV7513_INPUT_ID_24BIT_RGB444_YCBCR444 \<Rightarrow> 0
     | ADV7513_INPUT_ID_16_20_24BIT_YCBCR422_SEPARATE_SYNC \<Rightarrow> 1
     | ADV7513_INPUT_ID_16_20_24BIT_YCBCR422_EMBEDDED_SYNC \<Rightarrow> 2
     | ADV7513_INPUT_ID_8_10_12BIT_YCBCR422_SEPARATE_SYNC \<Rightarrow> 3
     | ADV7513_INPUT_ID_8_10_12BIT_YCBCR422_EMBEDDED_SYNC \<Rightarrow> 4
     | ADV7513_INPUT_ID_12_15_16BIT_RGB444_YCBCR444 \<Rightarrow> 5)"

datatype adv7513_input_color_depth = ADV7513_INPUT_COLOR_DEPTH_8BIT
  | ADV7513_INPUT_COLOR_DEPTH_10BIT | ADV7513_INPUT_COLOR_DEPTH_12BIT
  | ADV7513_INPUT_COLOR_DEPTH_INVALID

definition color_depth_val :: "adv7513_input_color_depth \<Rightarrow> int" where
  "color_depth_val x = (case x of ADV7513_INPUT_COLOR_DEPTH_8BIT \<Rightarrow> 3
     | ADV7513_INPUT_COLOR_DEPTH_10BIT \<Rightarrow> 1 | ADV7513_INPUT_COLOR_DEPTH_12BIT \<Rightarrow> 2
     | ADV7513_INPUT_COLOR_DEPTH_INVALID \<Rightarrow> 0)"

datatype adv7513_input_color_space = ADV7513_INPUT_COLOR_SPACE_RGB | ADV7513_INPUT_COLOR_SPACE_YCBCR

definition color_space_val :: "adv7513_input_color_space \<Rightarrow> int" where
  "color_space_val x = (case x of ADV7513_INPUT_COLOR_SPACE_RGB \<Rightarrow> 0
     | ADV7513_INPUT_COLOR_SPACE_YCBCR \<Rightarrow> 1)"

datatype adv7513_input_aspect_ratio = ADV7513_INPUT_ASPECT_4V3 | ADV7513_INPUT_ASPECT_16V9

definition aspect_val :: "adv7513_input_aspect_ratio \<Rightarrow> int" where
  "aspect_val x = (case x of ADV7513_INPUT_ASPECT_4V3 \<Rightarrow> 0 | ADV7513_INPUT_ASPECT_16V9 \<Rightarrow> 1)"

datatype adv7513_input_style = ADV7513_INPUT_STYLE1 | ADV7513_INPUT_STYLE2 | ADV7513_INPUT_STYLE3
  | ADV7513_INPUT_INVALID

definition style_val :: "adv7513_input_style \<Rightarrow> int" where
  "style_val x = (case x of ADV7513_INPUT_STYLE1 \<Rightarrow> 2 | ADV7513_INPUT_STYLE2 \<Rightarrow> 1
     | ADV7513_INPUT_STYLE3 \<Rightarrow> 3 | ADV7513_INPUT_INVALID \<Rightarrow> 0)"

datatype adv7513_output_format = ADV7513_OUTPUT_444 | ADV7513_OUTPUT_422

definition output_format_val :: "adv7513_output_format \<Rightarrow> int" where
  "output_format_val x = (case x of ADV7513_OUTPUT_444 \<Rightarrow> 0 | ADV7513_OUTPUT_422 \<Rightarrow> 1)"

datatype adv7513_hdmi_dvi = ADV7513_MODE_DVI | ADV7513_MODE_HDMI

definition hdmi_dvi_val :: "adv7513_hdmi_dvi \<Rightarrow> int" where
  "hdmi_dvi_val x = (case x of ADV7513_MODE_DVI \<Rightarrow> 0 | ADV7513_MODE_HDMI \<Rightarrow> 1)"

lemmas adv_enums = input_id_val_def color_depth_val_def color_space_val_def aspect_val_def
  style_val_def output_format_val_def hdmi_dvi_val_def

text \<open>
  The two switches over \<open>enum adv7513_vic\<close>, on the numbers the enumeration gives its
  members: the video identification codes with picture aspect 4:3 and with 16:9.
\<close>

definition vic_4_3 :: "int list" where
  "vic_4_3 = [1, 2, 6, 8, 10, 12, 14, 17, 21, 23]"

definition vic_16_9 :: "int list" where
  "vic_16_9 = [3, 4, 5, 7, 9, 11, 13, 15, 16, 18, 19, 20, 22, 24]"

section \<open>Interrupt line\<close>

definition GET_HDMI_IRQ_STATUS :: "'d bus \<Rightarrow> ('d mach, u32) drv" where
  "GET_HDMI_IRQ_STATUS bus =
     bnd (IORD_ALTERA_AVALON_PIO_EDGE_CAP bus HDMI_TX_INT_N_BASE) (\<lambda>v. ret (v AND HDMI_TX_INT_MASK))"

definition CLEAR_HDMI_IRQ_FLAG :: "'d bus \<Rightarrow> ('d mach, unit) drv" where
  "CLEAR_HDMI_IRQ_FLAG bus = IOWR_ALTERA_AVALON_PIO_EDGE_CAP bus HDMI_TX_INT_N_BASE 0x00"

definition DISABLE_HDMI_IRQ :: "('d mach, int) drv" where
  "DISABLE_HDMI_IRQ = alt_ic_irq_disable HDMI_TX_INT_N_IRQ_INTERRUPT_CONTROLLER_ID HDMI_TX_INT_N_IRQ"

definition REGISTER_HDMI_ISR :: "isr option \<Rightarrow> ('d mach, int) drv" where
  "REGISTER_HDMI_ISR isr =
     alt_ic_isr_register HDMI_TX_INT_N_IRQ_INTERRUPT_CONTROLLER_ID HDMI_TX_INT_N_IRQ isr"

definition ENABLE_HDMI_IRQ :: "'d bus \<Rightarrow> ('d mach, int) drv" where
  "ENABLE_HDMI_IRQ bus =
     bnd (IOWR_ALTERA_AVALON_PIO_IRQ_MASK bus HDMI_TX_INT_N_BASE HDMI_TX_INT_MASK) (\<lambda>_.
     alt_ic_irq_enable HDMI_TX_INT_N_IRQ_INTERRUPT_CONTROLLER_ID HDMI_TX_INT_N_IRQ)"

section \<open>Identification, hot plug and power\<close>

definition set_ec :: "(hdmi_encoder \<Rightarrow> hdmi_encoder) \<Rightarrow> ('d mach, unit) drv" where
  "set_ec f = modify (\<lambda>s. s\<lparr>adv7513_encoder := f (adv7513_encoder s)\<rparr>)"

definition adv7513_chip_identify :: "'d bus \<Rightarrow> ('d mach, int) drv" where
  "adv7513_chip_identify bus =
     bnd (gets (\<lambda>s. chip_rev (adv7513_encoder s) ! 0)) (\<lambda>v0.
     bnd (reg_read bus ADV7513_REG_CHIP_REVISION v0) (\<lambda>(r, v).
     bnd (set_ec (\<lambda>ec. ec\<lparr>chip_rev := (chip_rev ec)[0 := v]\<rparr>)) (\<lambda>_.
     if r < 0 then ret (- 1) else
     bnd (gets (\<lambda>s. chip_id (adv7513_encoder s) ! 0)) (\<lambda>v0.
     bnd (reg_read bus ADV7513_REG_CHIP_ID_LOW v0) (\<lambda>(r, v).
     bnd (set_ec (\<lambda>ec. ec\<lparr>chip_id := (chip_id ec)[0 := v]\<rparr>)) (\<lambda>_.
     if r < 0 then ret (- 2) else
     bnd (gets (\<lambda>s. chip_id (adv7513_encoder s) ! 1)) (\<lambda>v0.
     bnd (reg_read bus ADV7513_REG_CHIP_ID_HIGH v0) (\<lambda>(r, v).
     bnd (set_ec (\<lambda>ec. ec\<lparr>chip_id := (chip_id ec)[1 := v]\<rparr>)) (\<lambda>_.
     if r < 0 then ret (- 3) else ret 0)))))))))"

definition HPD_MS :: int where
  "HPD_MS = uint (ADV7513_STATUS_HPD OR ADV7513_STATUS_MONITOR_SENSE)"

text \<open>The update of the four hot-plug fields from a status register value.\<close>

definition hpd_refresh :: "u8 \<Rightarrow> hdmi_encoder \<Rightarrow> hdmi_encoder" where
  "hpd_refresh regv ec =
     (let latest = uint regv AND HPD_MS;
          event = latest XOR hpd_prev ec;
          h = (if event \<noteq> 0 \<and> latest AND HPD_MS = HPD_MS then 1
               else
                 let h0 = (if event AND uint ADV7513_STATUS_HPD \<noteq> 0 \<and>
                              latest AND uint ADV7513_STATUS_HPD = 0 then - 1 else 0) in
                 if event AND uint ADV7513_STATUS_MONITOR_SENSE \<noteq> 0 \<and>
                    latest AND uint ADV7513_STATUS_MONITOR_SENSE = 0 then - 1 else h0)
      in ec\<lparr>hpd_latest := latest, hpd_event := event, hpd := h\<rparr>)"

definition adv7513_hpd_probe :: "'d bus \<Rightarrow> ('d mach, int) drv" where
  "adv7513_hpd_probe bus =
     bnd (set_ec (\<lambda>ec. ec\<lparr>hpd_prev := hpd_latest ec\<rparr>)) (\<lambda>_.
     bnd (reg_read bus ADV7513_REG_STATUS 0) (\<lambda>(r, regv).
     if r \<noteq> 0 then ret (- 1)
     else bnd (set_ec (hpd_refresh regv)) (\<lambda>_. ret 0)))"

definition adv7513_do_hpd_powerup :: "'d bus \<Rightarrow> ('d mach, int) drv" where
  "adv7513_do_hpd_powerup bus = run_checked
     [reg_update_bits bus 0x41 0x40 0,
      reg_write bus 0x98 0x03,
      reg_update_bits bus 0x9a 0xe0 (push_bit 5 0x7),
      reg_write bus 0x9c 0x30,
      reg_update_bits bus 0x9d 0x03 0x01,
      reg_write bus 0xa2 0xa4,
      reg_write bus 0xa3 0xa4,
      reg_write bus 0xe0 0xd0,
      reg_write bus 0x96 0xff]"

definition adv7513_kick_up :: "'d bus \<Rightarrow> ('d mach, int) drv" where
  "adv7513_kick_up bus = run_checked [reg_update_bits bus 0x41 0x40 0]"

definition adv7513_do_hpd_powerdown :: "'d bus \<Rightarrow> ('d mach, int) drv" where
  "adv7513_do_hpd_powerdown bus = run_checked [reg_update_bits bus 0x41 0x40 0x40]"

text \<open>The result is the return code and the value stored through \<open>state\<close>.\<close>

definition adv7513_power_state :: "'d bus \<Rightarrow> int \<Rightarrow> ('d mach, int \<times> int) drv" where
  "adv7513_power_state bus state =
     bnd (reg_read bus 0x41 0) (\<lambda>(r, regv).
     if r \<noteq> 0 then ret (- 1, state)
     else if regv AND 0x40 = 1 then ret (0, 0) else ret (0, 1))"

definition vic_table :: "string list" where
  "vic_table =
    [''unavailable'',
     ''640x480p @59.94/60 Hz (4:3)'',
     ''720x480p @59.94/60 Hz (4:3)'',
     ''720x480p @59.94/60 Hz (16:9)'',
     ''1280x720p @59.94/60 Hz (16:9)'',
     ''1920x1080i @59.94/60 Hz (16:9)'',
     ''720(1440)x480i @59.94/60 Hz (4:3)'',
     ''720(1440)x480i @59.94/60 Hz (16:9)'',
     ''720(1440)x240p @59.94/60 Hz (4:3)'',
     ''720(1440)x240p @59.94/60 Hz (16:9)'',
     ''2880x480i @59.94/60 Hz (4:3)'',
     ''2880x480i @59.94/60 Hz (16:9)'',
     ''2880x240p @59.94/60 Hz (4:3)'',
     ''2880x240p @59.94/60 Hz (16:9)'',
     ''1440x480p @59.94/60 Hz (4:3)'',
     ''1440x480p @59.94/60 Hz (16:9)'',
     ''1920x1080p @59.94/60 Hz (16:9)'',
     ''720x576p @50 Hz (4:3)'',
     ''720x576p @50 Hz (16:9)'',
     ''1280x720p @50 Hz (16:9)'',
     ''1920x1080i @50 Hz (16:9)'',
     ''720(1440)x576i @50 Hz (4:3)'',
     ''720(1440)x576i @50 Hz (16:9)'',
     ''720(1440)x288p @50 Hz (4:3)'',
     ''720(1440)x288p @50 Hz (16:9)'',
     ''2880x576i @50 Hz (4:3)'',
     ''2880x576i @50 Hz (16:9)'',
     ''2880x288p @50 Hz (4:3)'',
     ''2880x288p @50 Hz (16:9)'',
     ''1440x576p @50 Hz (4:3)'',
     ''1440x576p @50 Hz (16:9)'',
     ''1920x1080p @50 Hz (16:9)'',
     ''1920x1080p @23.97/24 Hz (16:9)'',
     ''1920x1080p @25 Hz (16:9)'',
     ''1920x1080p @29.97/30 Hz (16:9)'',
     ''2880x480p @59.94/60 Hz (4:3)'',
     ''2880x480p @59.94/60 Hz (16:9)'',
     ''2880x576p @50 Hz (4:3)'',
     ''2880x576p @50 Hz (16:9)'',
     ''1920x1080i @50 Hz (16:9)'',
     ''1920x1080i @100 Hz (16:9)'',
     ''1280x720p @100 Hz (16:9)'',
     ''720x576p @100 Hz (4:3)'',
     ''720x576p @100 Hz (16:9)'',
     ''720(1440)x576i @100 Hz (4:3)'',
     ''720(1440)x576i @100 Hz (16:9)'',
     ''1920x1080i @119.88/120 Hz (16:9)'',
     ''1280x720p @119.88/120 Hz (16:9)'',
     ''720x480p @119.88/120 Hz (4:3)'',
     ''720x480p @119.88/120 Hz (16:9)'',
     ''720(1440)x480i @119.88/120 Hz (4:3)'',
     ''720(1440)x480i @119.88/120 Hz (16:9)'',
     ''720x576p @200 Hz (4:3)'',
     ''720x576p @200 Hz (16:9)'',
     ''720(1440)x576i @200 Hz (4:3)'',
     ''720(1440)x576i @200 Hz (16:9)'',
     ''720x480p @239.76/240 Hz (4:3)'',
     ''720x480p @239.76/240 Hz (16:9)'',
     ''720(1440)x480i @239.76/240 Hz (4:3)'',
     ''720(1440)x480i @239.76/240 Hz (16:9)'']"

definition adv7513_mode_state :: "'d bus \<Rightarrow> int \<Rightarrow> string \<Rightarrow> ('d mach, int \<times> int \<times> string) drv" where
  "adv7513_mode_state bus vic0 mode0 =
     bnd (reg_read bus 0x3d 0) (\<lambda>(r, regv).
     if r \<noteq> 0 then ret (- 1, vic0, mode0)
     else
       let v = uint (regv AND 0x1f) in
       ret (0, v, if v < 60 then vic_table ! nat v else vic_table ! 0))"

section \<open>Read-out of EDID and register map\<close>

text \<open>A loop of one-byte reads; the byte of index \<open>i\<close> goes to the next place of the buffer.\<close>

fun read_bytes :: "'d bus \<Rightarrow> ('d mach \<Rightarrow> u8) \<Rightarrow> int list \<Rightarrow> nat \<Rightarrow> u8 list \<Rightarrow> ('d mach, int \<times> u8 list) drv" where
  "read_bytes bus addr [] k buf = ret (0, buf)"
| "read_bytes bus addr (i # is) k buf =
     bnd (gets addr) (\<lambda>a.
     bnd (i2c_read_byte bus a i (buf ! k)) (\<lambda>(r, v).
     if r \<noteq> 0 then ret (- 1, buf) else read_bytes bus addr is (Suc k) (buf[k := v])))"

definition ec_edid :: "'d mach \<Rightarrow> u8" where
  "ec_edid s = word_of_int (edid_addr (adv7513_encoder s))"

definition adv7513_edid_read :: "'d bus \<Rightarrow> u8 list \<Rightarrow> int \<Rightarrow> ('d mach, int \<times> u8 list) drv" where
  "adv7513_edid_read bus edid segment =
     read_bytes bus ec_edid [segment * 256..(segment + 1) * 256 - 1] 0 edid"

definition adv7513_regmap_dump :: "'d bus \<Rightarrow> u8 list \<Rightarrow> int \<Rightarrow> ('d mach, int \<times> u8 list) drv" where
  "adv7513_regmap_dump bus data offset = read_bytes bus ec_slave [0..255] 0 data"

section \<open>Video formats\<close>

definition adv7513_config_csc :: "'d bus \<Rightarrow> int \<Rightarrow> ('d mach, int) drv" where
  "adv7513_config_csc bus enable =
     run_checked [reg_update_bits bus 0x18 0x80 (push_bit 7 (if enable \<noteq> 0 then 1 else 0))]"

definition video_in_regv :: "int \<Rightarrow> int \<Rightarrow> int \<Rightarrow> int" where
  "video_in_regv depth style color_space =
     push_bit 4 (depth AND 0x03) OR push_bit 2 (style AND 0x03) OR (color_space AND 0x01)"

definition adv7513_video_in_format ::
  "'d bus \<Rightarrow> int \<Rightarrow> int \<Rightarrow> int \<Rightarrow> int \<Rightarrow> int \<Rightarrow> ('d mach, int) drv" where
  "adv7513_video_in_format bus inid depth color_space aspect style = run_checked
     [reg_update_bits bus 0x15 0x0f inid,
      reg_update_bits bus 0x16 0x3d (video_in_regv depth style color_space),
      reg_update_bits bus 0x17 0x02 (push_bit 1 (aspect AND 0x01))]"

definition adv7513_video_out_format :: "'d bus \<Rightarrow> int \<Rightarrow> int \<Rightarrow> ('d mach, int) drv" where
  "adv7513_video_out_format bus format dvi = run_checked
     [reg_update_bits bus 0x16 0x80 (push_bit 7 (format AND 0x01)),
      adv7513_config_csc bus 0,
      reg_update_bits bus 0xaf 0x82 (push_bit 1 (dvi AND 0x01)),
      (if dvi = hdmi_dvi_val ADV7513_MODE_HDMI then reg_update_bits bus 0x40 0x80 (push_bit 7 (1 AND 0x01))
       else reg_clear_bits bus 0x40 0x80),
      reg_update_bits bus 0x4c 0x0f (4 AND 0x0f)]"

section \<open>AVI infoframe\<close>

text \<open>The accesses both infoframe functions make, from the contents of \<open>avi_if\<close>.\<close>

definition avi_write :: "'d bus \<Rightarrow> avi_infoframe \<Rightarrow> ('d mach, int) drv" where
  "avi_write bus avi = run_checked
     [reg_update_bits bus 0x44 0x10 (push_bit 4 1),
      reg_update_bits bus 0x4a 0xc0 (push_bit 6 3),
      reg_update_bits bus 0x55 0x70
        (push_bit 5 (rgb_ycbcr avi AND 0x03) OR push_bit 4 (active_fmt avi AND 0x01) OR
         push_bit 2 (bar_info avi AND 0x03) OR push_bit 0 (scan_info avi AND 0x03)),
      reg_write bus 0x56
        (push_bit 6 (colorimetry avi AND 0x03) OR push_bit 4 (pict_ar avi AND 0x03) OR
         push_bit 0 (active_fmt_ar avi AND 0x0f)),
      reg_write bus 0x57
        (push_bit 7 (itc avi AND 0x01) OR push_bit 4 (colorimetry_ext avi AND 0x07) OR
         push_bit 2 (quant avi AND 0x03) OR push_bit 0 (scaling avi AND 0x03)),
      reg_write bus 0x59 (push_bit 4 (yq1yq0 avi AND 0x0f)),
      reg_write bus 0x5a (top_e (avi_bar avi) AND 0xff),
      reg_write bus 0x5b (drop_bit 8 (top_e (avi_bar avi)) AND 0xff),
      reg_write bus 0x5c (bottom_s (avi_bar avi) AND 0xff),
      reg_write bus 0x5d (drop_bit 8 (bottom_s (avi_bar avi)) AND 0xff),
      reg_write bus 0x5e (left_e (avi_bar avi) AND 0xff),
      reg_write bus 0x5f (drop_bit 8 (left_e (avi_bar avi)) AND 0xff),
      reg_write bus 0x60 (right_s (avi_bar avi) AND 0xff),
      reg_write bus 0x61 (drop_bit 8 (right_s (avi_bar avi)) AND 0xff),
      reg_clear_bits bus 0x4a 0x40]"

definition avi_defaults :: avi_infoframe where
  "avi_defaults = \<lparr>scan_info = 2, bar_info = 1, active_fmt = 1, rgb_ycbcr = 0, active_fmt_ar = 8,
     pict_ar = 1, colorimetry = 0, scaling = 0, quant = 0, colorimetry_ext = 0, itc = 0, vic = 1,
     pr = 0, yq1yq0 = 0, avi_bar = \<lparr>top_e = 0, bottom_s = 0, left_e = 0, right_s = 0\<rparr>\<rparr>"

definition adv7513_avi_infoframe :: "'d bus \<Rightarrow> ('d mach, int) drv" where
  "adv7513_avi_infoframe bus =
     bnd (set_ec (\<lambda>ec. ec\<lparr>avi_if := avi_defaults\<rparr>)) (\<lambda>_.
     bnd (gets (\<lambda>s. avi_if (adv7513_encoder s))) (avi_write bus))"

text \<open>A code outside both switches leaves the picture aspect ratio as it was.\<close>

definition avi_defaults_3d :: "int \<Rightarrow> avi_infoframe \<Rightarrow> avi_infoframe" where
  "avi_defaults_3d v old = avi_defaults\<lparr>bar_info := 0, pr := 1, vic := v,
     pict_ar := (if v \<in> set vic_4_3 then 1 else if v \<in> set vic_16_9 then 2 else pict_ar old)\<rparr>"

definition adv7513_avi_infoframe_3d :: "'d bus \<Rightarrow> int \<Rightarrow> ('d mach, int) drv" where
  "adv7513_avi_infoframe_3d bus vic_code =
     bnd (set_ec (\<lambda>ec. ec\<lparr>avi_if := avi_defaults_3d vic_code (avi_if ec)\<rparr>)) (\<lambda>_.
     bnd (gets (\<lambda>s. avi_if (adv7513_encoder s))) (avi_write bus))"

section \<open>Three-dimensional video\<close>

text \<open>\<open>aspect0\<close> is the value of the local \<open>aspect\<close> when no case of the switch applies.\<close>

definition adv7513_video_in_format_3d ::
  "'d bus \<Rightarrow> int \<Rightarrow> int \<Rightarrow> int \<Rightarrow> int \<Rightarrow> int \<Rightarrow> int \<Rightarrow> ('d mach, int) drv" where
  "adv7513_video_in_format_3d bus inid depth color_space style vic_code aspect0 = run_checked
     [reg_update_bits bus 0x15 0x0f inid,
      reg_update_bits bus 0x16 0x3d (video_in_regv depth style color_space),
      (let aspect = (if vic_code \<in> set vic_4_3 then aspect_val ADV7513_INPUT_ASPECT_4V3
                     else if vic_code \<in> set vic_16_9 then aspect_val ADV7513_INPUT_ASPECT_16V9
                     else aspect0) in
       reg_update_bits bus 0x17 0x02 (push_bit 1 (aspect AND 0x01)))]"

definition adv7513_vendor_infoframe_3d :: "int \<Rightarrow> ('d mach, int) drv" where
  "adv7513_vendor_infoframe_3d vic_code =
     bnd (set_ec (\<lambda>ec. ec\<lparr>vendor_if := \<lparr>struct_3d = 8, ext_data_3d = 1\<rparr>\<rparr>)) (\<lambda>_. ret 0)"

definition adv7513_video_out_format_3d :: "'d bus \<Rightarrow> int \<Rightarrow> int \<Rightarrow> ('d mach, int) drv" where
  "adv7513_video_out_format_3d bus format vic_code = run_checked
     [reg_update_bits bus 0x16 0x80 (push_bit 7 (format AND 0x01)),
      adv7513_config_csc bus 0,
      reg_update_bits bus 0xaf 0x82 (push_bit 1 (1 AND 0x01)),
      reg_update_bits bus 0x40 0x80 (push_bit 7 (1 AND 0x01)),
      reg_update_bits bus 0x4c 0x0f (4 AND 0x0f),
      reg_update_bits bus 0x3b 0x7e (push_bit 5 2 OR push_bit 3 0 OR push_bit 1 0),
      reg_update_bits bus 0x3c 0x3f vic_code]"

section \<open>Chip initialisation\<close>

definition adv7513_video_init :: "'d bus \<Rightarrow> int \<Rightarrow> ('d mach, int) drv" where
  "adv7513_video_init bus dvi = run_checked
     [adv7513_video_in_format bus (input_id_val ADV7513_INPUT_ID_24BIT_RGB444_YCBCR444)
        (color_depth_val ADV7513_INPUT_COLOR_DEPTH_8BIT)
        (color_space_val ADV7513_INPUT_COLOR_SPACE_RGB)
        (aspect_val ADV7513_INPUT_ASPECT_4V3) (style_val ADV7513_INPUT_INVALID),
      (if dvi \<noteq> 0 then
         adv7513_video_out_format bus (output_format_val ADV7513_OUTPUT_444) (hdmi_dvi_val ADV7513_MODE_DVI)
       else
         adv7513_video_out_format bus (output_format_val ADV7513_OUTPUT_444) (hdmi_dvi_val ADV7513_MODE_HDMI)),
      adv7513_avi_infoframe bus]"

definition adv7513_video_init_3d :: "'d bus \<Rightarrow> int \<Rightarrow> int \<Rightarrow> ('d mach, int) drv" where
  "adv7513_video_init_3d bus vic_code aspect0 = run_checked
     [adv7513_video_in_format_3d bus (input_id_val ADV7513_INPUT_ID_24BIT_RGB444_YCBCR444)
        (color_depth_val ADV7513_INPUT_COLOR_DEPTH_8BIT)
        (color_space_val ADV7513_INPUT_COLOR_SPACE_RGB) (style_val ADV7513_INPUT_INVALID) vic_code aspect0,
      adv7513_video_out_format_3d bus (output_format_val ADV7513_OUTPUT_444) vic_code,
      adv7513_avi_infoframe_3d bus vic_code]"

definition adv7513_chip_init :: "'d bus \<Rightarrow> int \<Rightarrow> ('d mach, int) drv" where
  "adv7513_chip_init bus dvi = run_checked [adv7513_video_init bus dvi]"

definition adv7513_chip_init_3d :: "'d bus \<Rightarrow> int \<Rightarrow> int \<Rightarrow> ('d mach, int) drv" where
  "adv7513_chip_init_3d bus vic_code aspect0 = run_checked [adv7513_video_init_3d bus vic_code aspect0]"

section \<open>Interrupt handler\<close>

definition both_sense :: "u8 \<Rightarrow> bool" where
  "both_sense regv \<longleftrightarrow>
     regv AND (ADV7513_STATUS_HPD OR ADV7513_STATUS_MONITOR_SENSE) =
       ADV7513_STATUS_HPD OR ADV7513_STATUS_MONITOR_SENSE"

text \<open>
  The loop on \<open>m_sense_retry_count\<close>: read the status until both signals are there or the count
  is used up.  The result is the last value read; \<open>None\<close> is the jump on a read error.
\<close>

fun m_sense_loop :: "'d bus \<Rightarrow> nat \<Rightarrow> u8 \<Rightarrow> ('d mach, u8 option) drv" where
  "m_sense_loop bus 0 regv = ret (Some regv)"
| "m_sense_loop bus (Suc n) regv =
     bnd (reg_read bus ADV7513_REG_STATUS regv) (\<lambda>(r, regv).
     if r \<noteq> 0 then ret None
     else if both_sense regv then ret (Some regv)
     else m_sense_loop bus n regv)"

text \<open>The loop on \<open>pwron_retry_count\<close>; the result is \<open>pwr_state\<close>, or \<open>None\<close> for the jump.\<close>

fun pwron_loop :: "'d bus \<Rightarrow> int \<Rightarrow> nat \<Rightarrow> int \<Rightarrow> ('d mach, int option) drv" where
  "pwron_loop bus dvi_mode 0 pwr_state = ret (Some pwr_state)"
| "pwron_loop bus dvi_mode (Suc n) pwr_state =
     bnd (adv7513_chip_init bus dvi_mode) (\<lambda>r.
     if r \<noteq> 0 then ret None
     else
       bnd (adv7513_power_state bus pwr_state) (\<lambda>(r, pwr_state).
       if r \<noteq> 0 then ret None
       else if pwr_state \<noteq> 0 then ret (Some pwr_state)
       else pwron_loop bus dvi_mode n pwr_state))"

text \<open>
  The hot-plug block; the result says whether the handler leaves through
  \<open>__plugged_iret\<close>.  \<open>edid0\<close> is the uninitialised buffer.
\<close>

definition hotplug :: "'d bus \<Rightarrow> u8 list \<Rightarrow> u8 \<Rightarrow> ('d mach, bool) drv" where
  "hotplug bus edid0 regv =
     bnd (m_sense_loop bus 30 regv) (\<lambda>m. case m of None \<Rightarrow> ret False | Some regv \<Rightarrow>
     if \<not> both_sense regv then ret False else
     bnd (adv7513_do_hpd_powerup bus) (\<lambda>r.
     if r \<noteq> 0 then ret False else
     bnd (adv7513_edid_read bus edid0 0) (\<lambda>(r, edid).
     let dvi_mode = (if r \<noteq> 0 \<or> edid ! 0x7e = 0 then 1 else 0) in
     bnd (pwron_loop bus dvi_mode 200 0) (\<lambda>p. case p of None \<Rightarrow> ret False | Some pwr_state \<Rightarrow>
     bnd (adv7513_power_state bus pwr_state) (\<lambda>(r, pwr_state).
     if r \<noteq> 0 then ret False
     else if pwr_state = 0 then ret False
     else ret True)))))"

definition restore_ints :: "'d bus \<Rightarrow> adv7513_int_mask \<Rightarrow> ('d mach, unit) drv" where
  "restore_ints bus m =
     bnd (reg_write bus 0x92 (uint (reg92 m))) (\<lambda>_.
     bnd (reg_write bus 0x94 (uint (reg94 m))) (\<lambda>_.
     bnd (reg_write bus 0x95 (uint (reg95 m))) (\<lambda>_. ret ())))"

definition handler_status :: "'d bus \<Rightarrow> u8 \<Rightarrow> ('d mach, (adv7513_int_status \<times> u8) option) drv" where
  "handler_status bus regv0 =
     bnd (reg_read bus 0x93 regv0) (\<lambda>(r, v93).
     if r \<noteq> 0 then ret None else
     bnd (reg_read bus 0x96 v93) (\<lambda>(r, v96).
     if r \<noteq> 0 then ret None else
     bnd (reg_read bus 0x97 v96) (\<lambda>(r, v97).
     if r \<noteq> 0 then ret None
     else ret (Some (\<lparr>reg93 = ucast v93, reg96 = ucast v96, reg97 = ucast v97\<rparr>, v97)))))"

definition clear_if :: "'d bus \<Rightarrow> u32 \<Rightarrow> int \<Rightarrow> ('d mach, unit) drv" where
  "clear_if bus flags reg =
     (if flags \<noteq> 0 then bnd (reg_write bus reg 0xff) (\<lambda>_. ret ()) else ret ())"

definition adv7513_int_handler :: "'d bus \<Rightarrow> u8 \<Rightarrow> u8 list \<Rightarrow> ('d mach, unit) drv" where
  "adv7513_int_handler bus regv0 edid0 =
     bnd (GET_HDMI_IRQ_STATUS bus) (\<lambda>irq_status.
     bnd (CLEAR_HDMI_IRQ_FLAG bus) (\<lambda>_.
     bnd (gets (\<lambda>s. adv7513_long_to_int_mask (int_mask (adv7513_encoder s)))) (\<lambda>m.
     bnd (handler_status bus regv0) (\<lambda>h. case h of None \<Rightarrow> ret () | Some (st, regv) \<Rightarrow>
     bnd (reg_write bus 0x92 0) (\<lambda>_.
     bnd (reg_write bus 0x94 0) (\<lambda>_.
     bnd (reg_write bus 0x95 0) (\<lambda>_.
     bnd (clear_if bus (reg93 st) 0x93) (\<lambda>_.
     bnd (clear_if bus (reg96 st) 0x96) (\<lambda>_.
     bnd (clear_if bus (reg97 st) 0x97) (\<lambda>_.
     bnd (if bit (reg96 st) INT_MONITOR_SENSE_BIT \<or> bit (reg96 st) INT_HPD_BIT
          then hotplug bus edid0 regv else ret False) (\<lambda>plugged.
     if plugged then restore_ints bus (m\<lparr>reg94 := reg94 m AND 0xbf\<rparr>)
     else restore_ints bus m)))))))))))"

section \<open>Interrupt setup and driver initialisation\<close>

definition checked_writes :: "'d bus \<Rightarrow> (int \<times> int) list \<Rightarrow> ('d mach, int) drv" where
  "checked_writes bus ws = run_checked (map (\<lambda>(reg, data). reg_write bus reg data) ws)"

definition adv7513_int_setup :: "'d bus \<Rightarrow> adv7513_int_mask \<Rightarrow> isr option \<Rightarrow> ('d mach, int) drv" where
  "adv7513_int_setup bus m isr =
     bnd (set_ec (\<lambda>ec. ec\<lparr>int_mask := adv7513_int_mask_to_long m\<rparr>)) (\<lambda>_.
     bnd DISABLE_HDMI_IRQ (\<lambda>_.
     bnd (checked_writes bus [(0x92, 0), (0x94, 0), (0x95, 0)]) (\<lambda>r.
     if r \<noteq> 0 then ret (- 1) else
     bnd (CLEAR_HDMI_IRQ_FLAG bus) (\<lambda>_.
     bnd (checked_writes bus [(0x93, 0xff), (0x96, 0xff), (0x97, 0xff)]) (\<lambda>r.
     if r \<noteq> 0 then ret (- 1) else
     bnd (gets (\<lambda>s. int_mask (adv7513_encoder s))) (\<lambda>im.
     if im > 0 then
       bnd (if isr \<noteq> None then REGISTER_HDMI_ISR isr else ret 0) (\<lambda>r.
       if r \<noteq> 0 then ret (- 1) else
       bnd (checked_writes bus [(0x92, uint (reg92 m)), (0x94, uint (reg94 m)),
                                (0x95, uint (reg95 m))]) (\<lambda>r.
       if r \<noteq> 0 then ret (- 1) else
       bnd (ENABLE_HDMI_IRQ bus) (\<lambda>_. ret 0)))
     else ret 0))))))"

definition adv7513_init :: "'d bus \<Rightarrow> ('d mach, int) drv" where
  "adv7513_init bus =
     bnd (set_ec (\<lambda>ec. ec\<lparr>slave_addr := ADV7513_SALVE_ADDR8, edid_addr := ADV7513_EDID_ADDR8,
            hpd := 0\<rparr>)) (\<lambda>_.
     bnd (printf (''[adv7513_init] Identifying Chip'' @ [CHR 0x0A]) []) (\<lambda>_.
     bnd (adv7513_chip_identify bus) (\<lambda>r.
     if r \<noteq> 0 then
       bnd (printf (''[adv7513_init][error] failed to do chip-identification! (%d)'' @ [CHR 0x0A]) [r])
         (\<lambda>_. ret (- 1))
     else
     bnd (gets adv7513_encoder) (\<lambda>ec.
     bnd (if chip_id ec ! 0 = 0x11 \<and> chip_id ec ! 1 = 0x75
          then printf (''[adv7513_init] encoder chip : ADV%02x%02x rev: 0x%02x'' @ [CHR 0x0A])
                 [uint (chip_id ec ! 1), uint (chip_id ec ! 0), uint (chip_rev ec ! 0)]
          else printf (''[adv7513_init] encoder chip : unknown (id: 0x%02x 0x%02x rev: 0x%02x)'' @ [CHR 0x0A])
                 [uint (chip_id ec ! 0), uint (chip_id ec ! 1), uint (chip_rev ec ! 0)]) (\<lambda>_.
     bnd (adv7513_int_setup bus
            \<lparr>reg92 = 0, reg94 = push_bit INT_HPD_BIT 1 OR push_bit INT_MONITOR_SENSE_BIT 1, reg95 = 0\<rparr>
            (Some Adv7513_int_handler)) (\<lambda>r.
     if r \<noteq> 0 then
       bnd (printf (''[adv7513_init][error] failed to do HDMI_TX_INT interrupt setup! (%d)'' @ [CHR 0x0A]) [r])
         (\<lambda>_. ret (- 1))
     else
     bnd (printf (''[adv7513_init]success to setup HDMI_TX_INT interrupt handler.'' @ [CHR 0x0A]) []) (\<lambda>_.
     bnd (adv7513_kick_up bus) (\<lambda>_.
     bnd (printf (''[adv7513_init] Device Ready'' @ [CHR 0x0A]) []) (\<lambda>_. ret 0)))))))))"

end
