(* ===== verification/Adv7513_Props.thy ===== *)
theory Adv7513_Props
  imports Adv7513
begin

text \<open>
  Properties of the HDMI driver inside the locales that state what it relies on: under
  \<open>i2c_live\<close> every function returns; under \<open>adv_board\<close> (a responding ADV7513, and a PIO core
  that keeps to itself) the functions act on the register file of the chip as described here.
\<close>

section \<open>Every call returns\<close>

lemmas adv_defs = adv7513_chip_identify_def adv7513_hpd_probe_def adv7513_do_hpd_powerup_def
  adv7513_kick_up_def adv7513_do_hpd_powerdown_def adv7513_power_state_def adv7513_mode_state_def
  adv7513_config_csc_def adv7513_video_in_format_def adv7513_video_out_format_def avi_write_def
  adv7513_avi_infoframe_def adv7513_avi_infoframe_3d_def adv7513_video_in_format_3d_def
  adv7513_vendor_infoframe_3d_def adv7513_video_out_format_3d_def adv7513_video_init_def
  adv7513_video_init_3d_def adv7513_chip_init_def adv7513_chip_init_3d_def

context i2c_live
begin

lemma keeps_set_ec [inv_intros]: "keeps alive (set_ec f)"
  unfolding set_ec_def by (intro inv_intros) simp

lemma keeps_case_option [inv_intros]:
  "keeps alive n \<Longrightarrow> (\<And>x. keeps alive (f x)) \<Longrightarrow>
   keeps alive (case m of None \<Rightarrow> n | Some x \<Rightarrow> f x)"
  by (simp split: option.split)

lemma keeps_irq [inv_intros]:
  "keeps alive (alt_ic_irq_enable ic irq)" "keeps alive (alt_ic_irq_disable ic irq)"
  "keeps alive (alt_ic_isr_register ic irq isr)"
  unfolding alt_ic_irq_enable_def alt_ic_irq_disable_def alt_irq_enable_def alt_irq_disable_def
    alt_ic_isr_register_def alt_iic_isr_register_def
  by (intro inv_intros; simp)+

lemma keeps_hdmi_line [inv_intros]:
  "keeps alive (GET_HDMI_IRQ_STATUS bus)" "keeps alive (CLEAR_HDMI_IRQ_FLAG bus)"
  "keeps alive DISABLE_HDMI_IRQ" "keeps alive (REGISTER_HDMI_ISR isr)"
  "keeps alive (ENABLE_HDMI_IRQ bus)"
  unfolding GET_HDMI_IRQ_STATUS_def CLEAR_HDMI_IRQ_FLAG_def DISABLE_HDMI_IRQ_def
    REGISTER_HDMI_ISR_def ENABLE_HDMI_IRQ_def pio_macros
  by (intro inv_intros)+

lemma keeps_avi_write [inv_intros]: "keeps alive (avi_write bus avi)"
  unfolding avi_write_def by (intro inv_intros)

lemma keeps_config_csc [inv_intros]: "keeps alive (adv7513_config_csc bus e)"
  unfolding adv7513_config_csc_def by (intro inv_intros)

lemma keeps_video_formats [inv_intros]:
  "keeps alive (adv7513_video_in_format bus i dp cs asp st)"
  "keeps alive (adv7513_video_out_format bus fmt dvi)"
  "keeps alive (adv7513_avi_infoframe bus)"
  unfolding adv7513_video_in_format_def adv7513_video_out_format_def adv7513_avi_infoframe_def
  by (intro inv_intros)+

lemma keeps_chip_init [inv_intros]: "keeps alive (adv7513_chip_init bus dvi)"
  unfolding adv7513_chip_init_def adv7513_video_init_def by (intro inv_intros)

lemma keeps_formats_3d [inv_intros]:
  "keeps alive (adv7513_video_in_format_3d bus i dp cs st v asp)"
  "keeps alive (adv7513_video_out_format_3d bus fmt v)"
  "keeps alive (adv7513_avi_infoframe_3d bus v)"
  unfolding adv7513_video_in_format_3d_def adv7513_video_out_format_3d_def
    adv7513_avi_infoframe_3d_def Let_def
  by (intro inv_intros)+

lemma keeps_chip_init_3d [inv_intros]: "keeps alive (adv7513_chip_init_3d bus v asp)"
  unfolding adv7513_chip_init_3d_def adv7513_video_init_3d_def by (intro inv_intros)

lemma keeps_power [inv_intros]:
  "keeps alive (adv7513_do_hpd_powerup bus)" "keeps alive (adv7513_do_hpd_powerdown bus)"
  "keeps alive (adv7513_kick_up bus)" "keeps alive (adv7513_power_state bus p)"
  "keeps alive (adv7513_chip_identify bus)" "keeps alive (adv7513_hpd_probe bus)"
  "keeps alive (adv7513_mode_state bus v md)"
  unfolding adv_defs by (intro inv_intros)+

lemma keeps_read_bytes [inv_intros]: "keeps alive (read_bytes bus addr is k buf)"
  by (induction "is" arbitrary: k buf) (auto intro!: inv_intros)

lemma keeps_edid_read [inv_intros]: "keeps alive (adv7513_edid_read bus edid seg)"
  unfolding adv7513_edid_read_def by (intro inv_intros)

lemma keeps_regmap_dump [inv_intros]: "keeps alive (adv7513_regmap_dump bus data off)"
  unfolding adv7513_regmap_dump_def by (intro inv_intros)

lemma keeps_m_sense_loop [inv_intros]: "keeps alive (m_sense_loop bus n regv)"
  by (induction n arbitrary: regv) (auto intro!: inv_intros)

lemma keeps_pwron_loop [inv_intros]: "keeps alive (pwron_loop bus dvi n p)"
  by (induction n arbitrary: p) (auto intro!: inv_intros)

lemma keeps_hotplug [inv_intros]: "keeps alive (hotplug bus edid regv)"
  unfolding hotplug_def by (intro inv_intros)

lemma keeps_handler_parts [inv_intros]:
  "keeps alive (restore_ints bus m)" "keeps alive (handler_status bus regv)"
  "keeps alive (clear_if bus flags reg)"
  unfolding restore_ints_def handler_status_def clear_if_def by (intro inv_intros)+

lemma keeps_int_handler [inv_intros]: "keeps alive (adv7513_int_handler bus regv edid)"
  unfolding adv7513_int_handler_def by (intro inv_intros)

lemma keeps_checked_writes [inv_intros]: "keeps alive (checked_writes bus ws)"
  unfolding checked_writes_def
  by (intro inv_intros) (auto simp: list_all_iff intro!: inv_intros)

lemma keeps_int_setup [inv_intros]: "keeps alive (adv7513_int_setup bus m isr)"
  unfolding adv7513_int_setup_def by (intro inv_intros)

lemma keeps_adv7513_init [inv_intros]: "keeps alive (adv7513_init bus)"
  unfolding adv7513_init_def by (intro inv_intros)

end

section \<open>The power state\<close>

lemma and_40_not_1: "(x :: u8) AND 0x40 \<noteq> 1"
proof
  assume "x AND 0x40 = 1"
  then have "odd (x AND 0x40)" by simp
  then show False by (simp add: even_and_iff)
qed

lemma power_state_cases:
  "adv7513_power_state bus p s = Some ((r, p'), s') \<Longrightarrow> p' = (if r = 0 then 1 else p) \<and> (r = 0 \<or> r = - 1)"
  by (auto simp: adv7513_power_state_def bnd_def ret_def and_40_not_1
      split: option.splits prod.splits if_splits)

text \<open>So the loop that waits for power never takes a second turn.\<close>

lemma pwron_loop_once:
  "pwron_loop bus dvi (Suc n) p s = pwron_loop bus dvi 1 p s"
  by (auto simp: bnd_def ret_def dest: power_state_cases split: option.splits prod.splits)

section \<open>Interrupt masks as words\<close>

lemma and_ff: "(x :: u32) AND 0xff = take_bit 8 x"
  by (simp add: take_bit_eq_mask mask_eq_exp_minus_1)

lemma long_to_int_mask_bytes:
  "adv7513_long_to_int_mask v =
     \<lparr>reg92 = take_bit 8 (drop_bit 16 v), reg94 = take_bit 8 (drop_bit 8 v), reg95 = take_bit 8 v\<rparr>"
  by (simp add: adv7513_long_to_int_mask_def and_ff)

lemma int_mask_long_round_trip:
  assumes "reg92 m < 256" "reg94 m < 256" "reg95 m < 256"
  shows "adv7513_long_to_int_mask (adv7513_int_mask_to_long m) = m"
proof -
  have b: "bit x n \<Longrightarrow> n < 8" if "x < 256" for x :: u32 and n
  proof -
    have "take_bit 8 x = x" using that by (intro take_bit_small) (simp add: word_less_nat_alt)
    then show "bit x n \<Longrightarrow> n < 8" by (metis bit_take_bit_iff)
  qed
  note b = b [OF assms(1)] b [OF assms(2)] b [OF assms(3)]
  have "take_bit 8 (drop_bit 16 (push_bit 16 (reg92 m) OR push_bit 8 (reg94 m) OR reg95 m)) = reg92 m"
    by (rule bit_word_eqI) (auto simp: bit_simps dest: b)
  moreover have "take_bit 8 (drop_bit 8 (push_bit 16 (reg92 m) OR push_bit 8 (reg94 m) OR reg95 m)) = reg94 m"
    by (rule bit_word_eqI) (auto simp: bit_simps dest: b)
  moreover have "take_bit 8 (push_bit 16 (reg92 m) OR push_bit 8 (reg94 m) OR reg95 m) = reg95 m"
    by (rule bit_word_eqI) (auto simp: bit_simps dest: b)
  ultimately show ?thesis
    by (simp add: long_to_int_mask_bytes adv7513_int_mask_to_long_def)
qed

section \<open>Chip initialisation on the register file\<close>

definition adv_upd :: "u8 \<Rightarrow> u8 \<Rightarrow> u8 \<Rightarrow> (u8 \<Rightarrow> u8) \<Rightarrow> u8 \<Rightarrow> u8" where
  "adv_upd r msk v f = f(r := upd_bits msk v (f r))"

definition adv_cfg :: "u8 set" where
  "adv_cfg = {0x15, 0x16, 0x17, 0x18, 0x3b, 0x3c, 0x40, 0x41, 0x44, 0x4a, 0x4c, 0x55, 0x56, 0x57,
     0x59, 0x5a, 0x5b, 0x5c, 0x5d, 0x5e, 0x5f, 0x60, 0x61, 0x92, 0x94, 0x95, 0x98, 0x9a, 0x9c,
     0x9d, 0xa2, 0xa3, 0xaf, 0xe0}"

definition powerup_regs :: "(u8 \<Rightarrow> u8) \<Rightarrow> u8 \<Rightarrow> u8" where
  "powerup_regs f = (adv_upd 0x9d 0x03 0x01 ((adv_upd 0x9a 0xe0 0xe0
     ((adv_upd 0x41 0x40 0 f)(0x98 := 0x03)))(0x9c := 0x30)))(0xa2 := 0xa4, 0xa3 := 0xa4, 0xe0 := 0xd0)"

definition avi_regs :: "(u8 \<Rightarrow> u8) \<Rightarrow> u8 \<Rightarrow> u8" where
  "avi_regs f =
     (let g = (adv_upd 0x55 0x70 0x16 (adv_upd 0x4a 0xc0 0xc0 (adv_upd 0x44 0x10 0x10 f)))
            (0x56 := 0x18, 0x57 := 0, 0x59 := 0, 0x5a := 0, 0x5b := 0, 0x5c := 0, 0x5d := 0,
             0x5e := 0, 0x5f := 0, 0x60 := 0, 0x61 := 0)
      in g(0x4a := g 0x4a AND NOT 0x40))"

definition chip_init_regs :: "bool \<Rightarrow> (u8 \<Rightarrow> u8) \<Rightarrow> u8 \<Rightarrow> u8" where
  "chip_init_regs hdmi f = avi_regs (adv_upd 0x4c 0x0f 0x04
     (adv_upd 0x40 0x80 (if hdmi then 0x80 else 0)
     (adv_upd 0xaf 0x82 (if hdmi then 0x02 else 0)
     (adv_upd 0x18 0x80 0 (adv_upd 0x16 0x80 0
     (adv_upd 0x17 0x02 0 (adv_upd 0x16 0x3d 0x30 (adv_upd 0x15 0x0f 0 f))))))))"

context adv_chip
begin

lemma update_does:
  assumes "adv_cfg \<subseteq> rw" "word_of_int reg = r" "r \<in> adv_cfg" "word_of_int msk = m" "word_of_int data = v"
  shows "does adv_ready adv_file (reg_update_bits bus reg msk data) (adv_upd r m v)"
  by (rule does_eq [OF reg_update_bits_does]) (use assms in \<open>auto simp: adv_upd_def\<close>)

lemma write_does:
  assumes "adv_cfg \<subseteq> rw" "word_of_int reg = r" "r \<in> adv_cfg" "word_of_int data = v"
  shows "does adv_ready adv_file (reg_write bus reg data) (\<lambda>f. f(r := v))"
  using reg_write_does [of reg data] assms by auto

lemma clear_does:
  assumes "adv_cfg \<subseteq> rw" "word_of_int reg = r" "r \<in> adv_cfg" "word_of_int msk = m"
  shows "does adv_ready adv_file (reg_clear_bits bus reg msk) (\<lambda>f. f(r := f r AND NOT m))"
  using reg_clear_bits_does [of reg msk] assms by auto

lemma avi_write_does:
  assumes "adv_cfg \<subseteq> rw"
  shows "does adv_ready adv_file (avi_write bus avi_defaults) avi_regs"
proof -
  note regs = update_does [OF assms refl] write_does [OF assms refl] clear_does [OF assms refl]
  show ?thesis
    unfolding avi_write_def
    by (rule does_eq, (rule does_Cons does_Nil regs refl | simp add: adv_cfg_def; fail)+)
      (simp add: avi_regs_def avi_defaults_def Let_def fun_eq_iff)
qed

lemma set_ec_wp [wp_simps]:
  "wp (set_ec f) Q s = Q () (s\<lparr>adv7513_encoder := f (adv7513_encoder s)\<rparr>)"
  by (simp add: set_ec_def wp_simps)

lemma avi_infoframe_does:
  assumes "adv_cfg \<subseteq> rw"
  shows "does adv_ready adv_file (adv7513_avi_infoframe bus) avi_regs"
proof (rule doesI)
  fix s assume s: "adv_ready s"
  have "adv_ready (s\<lparr>adv7513_encoder := (adv7513_encoder s)\<lparr>avi_if := avi_defaults\<rparr>\<rparr>)"
    using s by (simp add: adv_ready_def ready_def)
  from does_wp [OF avi_write_does [OF assms] this]
  show "wp (adv7513_avi_infoframe bus) (\<lambda>r s'. r = 0 \<and> adv_ready s' \<and>
      adv_file s' = avi_regs (adv_file s)) s"
    by (simp add: adv7513_avi_infoframe_def wp_simps)
qed

lemma csc_does:
  assumes "adv_cfg \<subseteq> rw"
  shows "does adv_ready adv_file (adv7513_config_csc bus 0) (adv_upd 0x18 0x80 0)"
  unfolding adv7513_config_csc_def
  by (rule does_eq, (rule does_Cons does_Nil update_does [OF assms refl] refl
        | simp add: adv_cfg_def; fail)+)

lemma chip_init_does:
  assumes "adv_cfg \<subseteq> rw"
  shows "does adv_ready adv_file (adv7513_chip_init bus dvi) (chip_init_regs (dvi = 0))"
proof -
  note regs = update_does [OF assms refl] csc_does [OF assms]
  have i: "does adv_ready adv_file (adv7513_video_in_format bus 0 3 0 0 0)
      (\<lambda>f. adv_upd 0x17 0x02 0 (adv_upd 0x16 0x3d 0x30 (adv_upd 0x15 0x0f 0 f)))"
    unfolding adv7513_video_in_format_def video_in_regv_def
    by (rule does_eq, (rule does_Cons does_Nil regs refl | simp add: adv_cfg_def; fail)+)
  have clr: "does adv_ready adv_file (reg_clear_bits bus 0x40 0x80) (adv_upd 0x40 0x80 0)"
    by (rule does_eq [OF clear_does [OF assms refl _ refl]])
      (simp_all add: adv_cfg_def adv_upd_def upd_bits_def)
  have o0: "does adv_ready adv_file (adv7513_video_out_format bus 0 0)
      (\<lambda>f. adv_upd 0x4c 0x0f 0x04 (adv_upd 0x40 0x80 0 (adv_upd 0xaf 0x82 0
        (adv_upd 0x18 0x80 0 (adv_upd 0x16 0x80 0 f)))))"
    unfolding adv7513_video_out_format_def adv_enums
    by (simp del: run_checked.simps, rule does_eq,
        (rule does_Cons does_Nil regs clr refl | simp add: adv_cfg_def; fail)+)
  have o1: "does adv_ready adv_file (adv7513_video_out_format bus 0 1)
      (\<lambda>f. adv_upd 0x4c 0x0f 0x04 (adv_upd 0x40 0x80 0x80 (adv_upd 0xaf 0x82 0x02
        (adv_upd 0x18 0x80 0 (adv_upd 0x16 0x80 0 f)))))"
    unfolding adv7513_video_out_format_def adv_enums
    by (simp del: run_checked.simps, rule does_eq,
        (rule does_Cons does_Nil regs refl | simp add: adv_cfg_def; fail)+)
  show ?thesis
    unfolding adv7513_chip_init_def adv7513_video_init_def adv_enums
    by (cases "dvi = 0"; simp del: run_checked.simps, rule does_eq,
        (rule does_Cons does_Nil i o0 o1 avi_infoframe_does [OF assms])+)
      (simp_all add: chip_init_regs_def)
qed

lemma powerup_does:
  assumes "adv_cfg \<subseteq> rw" "0x96 \<notin> rw"
  shows "does adv_ready adv_file (adv7513_do_hpd_powerup bus) powerup_regs"
proof -
  note regs = update_does [OF assms(1) refl] write_does [OF assms(1) refl]
  have w: "does adv_ready adv_file (reg_write bus 0x96 0xff) (\<lambda>f. f)"
    using assms(2) by (intro reg_write_other_does) simp
  show ?thesis
    unfolding adv7513_do_hpd_powerup_def
    by (rule does_eq, (rule does_Cons does_Nil w regs refl | simp add: adv_cfg_def; fail)+)
      (simp add: powerup_regs_def fun_eq_iff)
qed

end

section \<open>The interrupt handler on the register file\<close>

definition hdmi_pio :: "u32 set" where
  "hdmi_pio = {0x201048, 0x20104C}"

text \<open>
  The PIO core of the interrupt line takes no part in I2C traffic; its mask register keeps the one
  bit it has, and its edge-capture register ignores a zero.
\<close>

locale adv_board = adv_chip bus live view swr srd rfile asel rw
  for bus :: "'d bus" and live :: "'d \<Rightarrow> bool" and view :: "'d \<Rightarrow> 'c ctl"
    and swr :: "'c slave_wr" and srd :: "'c slave_rd"
    and rfile :: "'c \<Rightarrow> u8 \<Rightarrow> u8" and asel :: "'c \<Rightarrow> u8" and rw :: "u8 set" +
  assumes pio_rd: "live d \<Longrightarrow> \<not> i2c_busy bus d \<Longrightarrow> a \<in> hdmi_pio \<Longrightarrow>
      chips (view (snd (io_rd bus a d))) = chips (view d) \<and> \<not> i2c_busy bus (snd (io_rd bus a d))"
    and pio_wr: "live d \<Longrightarrow> \<not> i2c_busy bus d \<Longrightarrow> a \<in> hdmi_pio \<Longrightarrow>
      chips (view (io_wr bus a v d)) = chips (view d) \<and> \<not> i2c_busy bus (io_wr bus a v d)"
    and mask_wr: "live d \<Longrightarrow> \<not> i2c_busy bus d \<Longrightarrow>
      regs (view (io_wr bus 0x201048 v d)) = (regs (view d))(0x201048 := v AND 1)"
    and edge_wr0: "live d \<Longrightarrow> \<not> i2c_busy bus d \<Longrightarrow>
      regs (view (io_wr bus 0x20104C 0 d)) = regs (view d)"
    and cfg_rw: "adv_cfg \<subseteq> rw"
    and flags_volatile: "0x93 \<notin> rw" "0x96 \<notin> rw" "0x97 \<notin> rw"
begin

definition hdmi_ready :: "(u8 \<Rightarrow> u8) \<Rightarrow> 'd mach \<Rightarrow> bool" where
  "hdmi_ready f s \<longleftrightarrow> adv_ready s \<and> adv_file s = f"

lemma hdmi_readyI:
  "hdmi_ready f s \<Longrightarrow> live d' \<Longrightarrow> \<not> i2c_busy bus d' \<Longrightarrow> rfile (chips (view d')) = g \<Longrightarrow>
   hdmi_ready g (s\<lparr>dev := d', adv7513_i2c_bffr := v\<rparr>)"
  by (simp add: hdmi_ready_def adv_ready_def ready_def)

text \<open>Two calls in a row, as functions on the register file.\<close>

lemma wp_hdmi_read:
  assumes "hdmi_ready f s" and "\<And>b s'. hdmi_ready f s' \<Longrightarrow> Q (0, b) s'"
  shows "wp (reg_read bus reg old) Q s"
  using assms by (intro wp_reg_read) (auto simp: hdmi_ready_def adv_ready_def ready_def)

lemma wp_hdmi_write:
  assumes "hdmi_ready f s"
    and "\<And>s'. hdmi_ready (if word_of_int reg \<in> rw then f(word_of_int reg := word_of_int data) else f) s' \<Longrightarrow>
      int_mask (adv7513_encoder s') = int_mask (adv7513_encoder s) \<Longrightarrow> Q 0 s'"
  shows "wp (reg_write bus reg data) Q s"
  using assms by (intro wp_reg_write) (auto simp: hdmi_ready_def adv_ready_def ready_def)

lemma wp_m_sense:
  "hdmi_ready f s \<Longrightarrow> wp (m_sense_loop bus n regv) (\<lambda>m s'. hdmi_ready f s' \<and> m \<noteq> None) s"
proof (induction n arbitrary: regv s)
  case 0
  then show ?case by (simp add: wp_simps)
next
  case (Suc n)
  then show ?case by (auto simp: wp_simps intro!: wp_hdmi_read)
qed

lemma xtn_other:
  assumes "hdmi_ready f s" "n \<le> 4" "unat n \<le> length data" "a AND 0xFE \<noteq> 0x72"
  shows "wp (i2c_xtn_write bus a data n st sp) (\<lambda>r s'. hdmi_ready f s') s"
    and "wp (i2c_xtn_read bus a data n st sp) (\<lambda>r s'. hdmi_ready f s') s"
proof -
  obtain ack c' where x: "swr (a AND 0xFE) (take (unat n) data) (bit st 0) (bit sp 0) (chips_of s) = (ack, c')"
    by (cases "swr (a AND 0xFE) (take (unat n) data) (bit st 0) (bit sp 0) (chips_of s)")
  then have "rfile c' = f"
    using other_write [OF assms(4)] assms(1) by (metis hdmi_ready_def snd_conv)
  then show "wp (i2c_xtn_write bus a data n st sp) (\<lambda>r s'. hdmi_ready f s') s"
    using assms x by (intro wp_i2c_xtn_write [where ack = ack and c' = c'])
      (auto simp: hdmi_ready_def adv_ready_def ready_def)
next
  obtain ack bs c' where x: "srd (a AND 0xFE) (unat n) (bit st 0) (bit sp 0) (chips_of s) = (ack, bs, c')"
    by (cases "srd (a AND 0xFE) (unat n) (bit st 0) (bit sp 0) (chips_of s)")
  then have "rfile c' = f"
    using other_read [OF assms(4)] assms(1) by (metis hdmi_ready_def snd_conv)
  then show "wp (i2c_xtn_read bus a data n st sp) (\<lambda>r s'. hdmi_ready f s') s"
    using assms x by (intro wp_i2c_xtn_read [where ack = ack and bs = bs and c' = c'])
      (auto simp: hdmi_ready_def adv_ready_def ready_def)
qed

lemma keeps_edid_byte [inv_intros]: "keeps (hdmi_ready f) (i2c_read_byte bus 0x7e i old)"
proof (rule keepsI)
  fix s assume s: "hdmi_ready f s"
  have m: "hdmi_ready f (set_bffr_byte0 b s)" for b
    using s by (simp add: set_bffr_byte0_def hdmi_ready_def adv_ready_def ready_def)
  have v: "hdmi_ready f (s'\<lparr>adv7513_i2c_bffr := w\<rparr>) = hdmi_ready f s'" for s' w
    by (simp add: hdmi_ready_def adv_ready_def ready_def)
  show "wp (i2c_read_byte bus 0x7e i old) (\<lambda>_ s'. hdmi_ready f s') s"
    unfolding i2c_read_byte_def wp_bnd wp_modify wp_gets
    by (rule wp_mono [OF xtn_other(1) [OF m]])
      (auto simp: wp_simps v intro!: wp_mono [OF xtn_other(2)])
qed

lemma keeps_edid_read: "keeps (hdmi_ready f) (read_bytes bus ec_edid is k buf)"
proof (induction "is" arbitrary: k buf)
  case Nil
  show ?case by (simp add: inv_intros)
next
  case (Cons i js)
  show ?case
  proof (rule keepsI)
    fix s assume s: "hdmi_ready f s"
    then have e: "ec_edid s = 0x7e" by (simp add: hdmi_ready_def adv_ready_def ec_edid_def)
    show "wp (read_bytes bus ec_edid (i # js) k buf) (\<lambda>_ s'. hdmi_ready f s') s"
      unfolding read_bytes.simps wp_bnd wp_gets e
      by (rule wp_mono [OF keepsD [OF keeps_edid_byte s]])
        (auto simp: wp_simps dest: keepsD [OF Cons.IH])
  qed
qed

lemma wp_does:
  assumes "does adv_ready adv_file m e" "hdmi_ready f s" "\<And>s'. hdmi_ready (e f) s' \<Longrightarrow> Q 0 s'"
  shows "wp m Q s"
  using assms(2,3) by (intro wp_mono [OF does_wp [OF assms(1)]]) (auto simp: hdmi_ready_def)

lemma wp_power_state:
  assumes "hdmi_ready f s" "\<And>s'. hdmi_ready f s' \<Longrightarrow> Q (0, 1) s'"
  shows "wp (adv7513_power_state bus p) Q s"
  unfolding adv7513_power_state_def wp_bnd
  using assms by (intro wp_hdmi_read) (auto simp: wp_simps and_40_not_1)

lemma wp_pwron:
  assumes "hdmi_ready f s"
  shows "wp (pwron_loop bus dvi (Suc n) p) (\<lambda>p s'. p = Some 1 \<and> hdmi_ready (chip_init_regs (dvi = 0) f) s') s"
  unfolding pwron_loop.simps wp_bnd
  by (rule wp_does [OF chip_init_does [OF cfg_rw] assms])
    (auto simp: wp_simps intro!: wp_power_state)

text \<open>
  The hot-plug block either finds no monitor and has written nothing, or has powered the chip up
  and initialised it once, as DVI or as HDMI.
\<close>

lemma wp_hotplug:
  assumes "hdmi_ready f s"
  shows "wp (hotplug bus edid0 regv) (\<lambda>plugged s'.
    if plugged then \<exists>hdmi. hdmi_ready (chip_init_regs hdmi (powerup_regs f)) s'
    else hdmi_ready f s') s"
proof -
  have p: "wp (pwron_loop bus dvi 200 0) Q s'"
    if "hdmi_ready g s'" "\<And>s''. hdmi_ready (chip_init_regs (dvi = 0) g) s'' \<Longrightarrow> Q (Some 1) s''"
    for dvi g s' Q
    using wp_mono [OF wp_pwron [OF that(1), of dvi 199 0], of Q] that(2) by (simp add: numeral_eq_Suc)
  have e: "wp (adv7513_edid_read bus edid0 0) Q s'"
    if "hdmi_ready g s'" "\<And>x s''. hdmi_ready g s'' \<Longrightarrow> Q x s''" for g s' Q
    unfolding adv7513_edid_read_def
    using that by (intro wp_mono [OF keepsD [OF keeps_edid_read that(1)]]) auto
  show ?thesis
    unfolding hotplug_def wp_bnd
    by (rule wp_mono [OF wp_m_sense [OF assms]])
      (auto simp: wp_simps Let_def split: option.split
        intro!: wp_does [OF powerup_does [OF cfg_rw flags_volatile(2)]] e p wp_power_state)
qed

lemma wp_restore:
  assumes "hdmi_ready f s"
  shows "wp (restore_ints bus m) (\<lambda>_ s'.
    hdmi_ready (f(0x92 := ucast (reg92 m), 0x94 := ucast (reg94 m), 0x95 := ucast (reg95 m))) s') s"
proof -
  have r: "(0x92 :: u8) \<in> rw" "(0x94 :: u8) \<in> rw" "(0x95 :: u8) \<in> rw"
    using cfg_rw by (auto simp: adv_cfg_def)
  have u: "word_of_int (uint (x :: u32)) = (ucast x :: u8)" for x
    by (rule bit_word_eqI) (auto simp: bit_simps)
  show ?thesis
    unfolding restore_ints_def wp_bnd wp_ret
    by (intro wp_hdmi_write [OF assms] wp_hdmi_write) (auto simp: r u)
qed

lemma wp_pio:
  assumes "hdmi_ready f s"
  shows "wp (GET_HDMI_IRQ_STATUS bus) (\<lambda>_ s'. hdmi_ready f s' \<and> adv7513_encoder s' = adv7513_encoder s) s"
    and "wp (CLEAR_HDMI_IRQ_FLAG bus) (\<lambda>_ s'. hdmi_ready f s' \<and> adv7513_encoder s' = adv7513_encoder s) s"
proof -
  have p: "(0x20104C :: u32) \<in> hdmi_pio" by (simp add: hdmi_pio_def)
  have l: "live (dev s)" "\<not> i2c_busy bus (dev s)"
    using assms by (auto simp: hdmi_ready_def adv_ready_def ready_def)
  show "wp (GET_HDMI_IRQ_STATUS bus) (\<lambda>_ s'. hdmi_ready f s' \<and> adv7513_encoder s' = adv7513_encoder s) s"
    using assms pio_rd [OF l p] live_rd [OF l(1), of "0x20104C"]
    by (simp add: GET_HDMI_IRQ_STATUS_def pio_macros wp_simps HDMI_TX_INT_N_BASE_def
        hdmi_ready_def adv_ready_def ready_def)
  show "wp (CLEAR_HDMI_IRQ_FLAG bus) (\<lambda>_ s'. hdmi_ready f s' \<and> adv7513_encoder s' = adv7513_encoder s) s"
    using assms pio_wr [OF l p, of 0] live_wr [OF l(1), of "0x20104C" 0]
    by (simp add: CLEAR_HDMI_IRQ_FLAG_def pio_macros wp_simps HDMI_TX_INT_N_BASE_def
        hdmi_ready_def adv_ready_def ready_def)
qed

lemma wp_handler_status:
  "hdmi_ready f s \<Longrightarrow> wp (handler_status bus regv) (\<lambda>h s'. h \<noteq> None \<and> hdmi_ready f s') s"
  unfolding handler_status_def wp_bnd
  by (intro wp_hdmi_read) (auto simp: wp_simps intro!: wp_hdmi_read)

lemma wp_clear_if:
  assumes "hdmi_ready f s" "word_of_int reg \<notin> rw"
  shows "wp (clear_if bus flags reg) (\<lambda>_ s'. hdmi_ready f s') s"
  unfolding clear_if_def
  using assms by (auto simp: wp_simps intro!: wp_hdmi_write)

lemma wp_clears:
  assumes "hdmi_ready f s" "\<And>s'. hdmi_ready f s' \<Longrightarrow> wp m Q s'"
  shows "wp (bnd (clear_if bus a 0x93) (\<lambda>_. bnd (clear_if bus b 0x96) (\<lambda>_.
      bnd (clear_if bus c 0x97) (\<lambda>_. m)))) Q s"
proof -
  have v: "word_of_int 0x93 \<notin> rw" "word_of_int 0x96 \<notin> rw" "word_of_int 0x97 \<notin> rw"
    using flags_volatile by simp_all
  show ?thesis
    unfolding wp_bnd
    by (rule wp_mono [OF wp_clear_if [OF assms(1) v(1)]], rule wp_mono [OF wp_clear_if [OF _ v(2)]],
        assumption, rule wp_mono [OF wp_clear_if [OF _ v(3)]], assumption) (rule assms(2))
qed

lemma wp_disable_ints:
  assumes "hdmi_ready f s" "\<And>s'. hdmi_ready (f(0x92 := 0, 0x94 := 0, 0x95 := 0)) s' \<Longrightarrow> wp m Q s'"
  shows "wp (bnd (reg_write bus 0x92 0) (\<lambda>_. bnd (reg_write bus 0x94 0) (\<lambda>_.
      bnd (reg_write bus 0x95 0) (\<lambda>_. m)))) Q s"
proof -
  have r: "(0x92 :: u8) \<in> rw" "(0x94 :: u8) \<in> rw" "(0x95 :: u8) \<in> rw"
    using cfg_rw by (auto simp: adv_cfg_def)
  show ?thesis
    unfolding wp_bnd
    by (intro wp_hdmi_write [OF assms(1)] wp_hdmi_write) (auto simp: r intro: assms(2))
qed

text \<open>
  The handler leaves the chip with the interrupt masks of \<open>ec->int_mask\<close>, less monitor sense
  when a monitor was found, and then configured as after a power up and one initialisation.
\<close>

lemma wp_int_handler:
  assumes "hdmi_ready f s"
  defines "m \<equiv> adv7513_long_to_int_mask (int_mask (adv7513_encoder s))"
    and "g \<equiv> f(0x92 := 0, 0x94 := 0, 0x95 := 0)"
  shows "wp (adv7513_int_handler bus regv0 edid0) (\<lambda>_ s'.
    hdmi_ready (g(0x92 := ucast (reg92 m), 0x94 := ucast (reg94 m), 0x95 := ucast (reg95 m))) s' \<or>
    (\<exists>hdmi. hdmi_ready ((chip_init_regs hdmi (powerup_regs g))
       (0x92 := ucast (reg92 m), 0x94 := ucast (reg94 m AND 0xbf), 0x95 := ucast (reg95 m))) s')) s"
    (is "wp _ ?Q s")
proof -
  have fin: "wp (if plugged then restore_ints bus (m\<lparr>reg94 := reg94 m AND 0xbf\<rparr>) else restore_ints bus m) ?Q s'"
    if pl: "if plugged then \<exists>hdmi. hdmi_ready (chip_init_regs hdmi (powerup_regs g)) s' else hdmi_ready g s'"
    for plugged s'
  proof (cases plugged)
    case True
    then obtain hdmi where h: "hdmi_ready (chip_init_regs hdmi (powerup_regs g)) s'"
      using pl by auto
    show ?thesis using True by (simp, rule_tac wp_mono [OF wp_restore [OF h]]) auto
  next
    case False
    then have h: "hdmi_ready g s'" using pl by simp
    show ?thesis using False by (simp, rule_tac wp_mono [OF wp_restore [OF h]]) auto
  qed
  have hot: "wp (bnd (if b then hotplug bus edid0 regv else ret False) (\<lambda>plugged.
       if plugged then restore_ints bus (m\<lparr>reg94 := reg94 m AND 0xbf\<rparr>) else restore_ints bus m)) ?Q s'"
    if "hdmi_ready g s'" for b regv s'
    unfolding wp_bnd
    using fin [of False] that by (auto simp: wp_ret intro!: wp_mono [OF wp_hotplug [OF that]] fin)
  have tail: "wp (case h of None \<Rightarrow> ret () | Some (st, regv) \<Rightarrow>
     bnd (reg_write bus 0x92 0) (\<lambda>_. bnd (reg_write bus 0x94 0) (\<lambda>_. bnd (reg_write bus 0x95 0) (\<lambda>_.
     bnd (clear_if bus (reg93 st) 0x93) (\<lambda>_. bnd (clear_if bus (reg96 st) 0x96) (\<lambda>_.
     bnd (clear_if bus (reg97 st) 0x97) (\<lambda>_.
     bnd (if bit (reg96 st) INT_MONITOR_SENSE_BIT \<or> bit (reg96 st) INT_HPD_BIT
          then hotplug bus edid0 regv else ret False) (\<lambda>plugged.
     if plugged then restore_ints bus (m\<lparr>reg94 := reg94 m AND 0xbf\<rparr>)
     else restore_ints bus m)))))))) ?Q s'"
    if hs: "h \<noteq> None" "hdmi_ready f s'" for h s'
  proof -
    obtain st regv where h: "h = Some (st, regv)" using hs(1) by auto
    show ?thesis
      unfolding h option.case prod.case
      by (rule wp_disable_ints [OF hs(2)], rule wp_clears, assumption)
        (rule hot, simp only: g_def)
  qed
  show ?thesis
    unfolding adv7513_int_handler_def wp_bnd [of "GET_HDMI_IRQ_STATUS bus"]
      wp_bnd [of "CLEAR_HDMI_IRQ_FLAG bus"] wp_bnd [of "gets _"] wp_bnd [of "handler_status bus regv0"]
      wp_gets
    by (rule wp_mono [OF wp_pio(1) [OF assms(1)]], elim conjE,
        rule wp_mono [OF wp_pio(2)], assumption, elim conjE,
        rule wp_mono [OF wp_handler_status], assumption)
      (simp only: m_def [symmetric], rule tail, simp_all)
qed

end

end
