(* ===== verification/Ledos.thy ===== *)
theory Ledos
  imports Cortex_Dev Adv7513_Props
begin

text \<open>
  The application above the drivers: reset and initialisation of the CORTEX
  (\<^verbatim>\<open>cortex.c\<close>, \<^verbatim>\<open>rst_cntrl.h\<close>), of LEDOS (\<^verbatim>\<open>ledos.c\<close>), the audio test and \<^verbatim>\<open>main\<close>
  (\<^verbatim>\<open>hello_world_small.c\<close>), and the proof that the initialisation ends.
\<close>

section \<open>Definitions\<close>

definition RESET_CNTRL_REG_ADDR :: u32 where "RESET_CNTRL_REG_ADDR = 0x40000"

definition IOWR_RESET_CNTRL :: "'d bus \<Rightarrow> u32 \<Rightarrow> ('d mach, unit) drv" where
  "IOWR_RESET_CNTRL bus v = IOWR_32DIRECT bus CORTEX_BASE RESET_CNTRL_REG_ADDR v"

text \<open>
  \<^verbatim>\<open>init_cortex\<close> is declared without parameters and calls \<^verbatim>\<open>init_acortex()\<close> without an argument,
  although that function has one: its value is undetermined, and is the parameter \<open>junk\<close> here.
\<close>

definition init_cortex :: "'d bus \<Rightarrow> u32 \<Rightarrow> ('d mach, unit) drv" where
  "init_cortex bus junk =
     bnd (IOWR_RESET_CNTRL bus 0x0) (\<lambda>_.
     bnd (IOWR_RESET_CNTRL bus 0x1f) (\<lambda>_.
     init_acortex bus junk))"

definition init_ledos :: "'d bus \<Rightarrow> u32 \<Rightarrow> BPS_T \<Rightarrow> ('d mach, unit) drv" where
  "init_ledos bus junk bps =
     bnd (init_cortex bus junk) (\<lambda>_.
     bnd (aud_codec_init bus bps) (\<lambda>_.
     bnd (adv7513_init bus) (\<lambda>_. ret ())))"

definition main :: "'d bus \<Rightarrow> u32 \<Rightarrow> ('d mach, int) drv" where
  "main bus junk =
     bnd (alt_putstr (''Hello from Nios II!'' @ [CHR 0x0A])) (\<lambda>_.
     bnd (init_ledos bus junk BPS_24) (\<lambda>_.
     ret 0))"

text \<open>The audio test up to its event loop, which never exits.\<close>

definition test_audio_setup :: "'d bus \<Rightarrow> ('d mach, unit) drv" where
  "test_audio_setup bus =
     bnd (alt_putstr (''Hello from Nios II!'' @ [CHR 0x0A])) (\<lambda>_.
     bnd (enable_fgyrus bus) (\<lambda>_.
     bnd (disable_adc_drvr bus) (\<lambda>_.
     bnd (disable_dac_drvr bus) (\<lambda>_.
     bnd (disable_audio_path bus) (\<lambda>_.
     bnd (update_acache_mode bus PCM_BFFR_MODE_NORMAL) (\<lambda>_.
     bnd (enable_audio_path bus FS_44KHZ BPS_24) (\<lambda>_.
     bnd (enable_adc_drvr bus) (\<lambda>_.
     bnd (enable_dac_drvr bus) (\<lambda>_.
     bnd (dump_drvr_regs bus) (\<lambda>_.
     aud_codec_dump_regs bus))))))))))"

definition test_audio_fft :: "'d bus \<Rightarrow> ('d mach, int) drv" where
  "test_audio_fft bus = bnd (test_audio_setup bus) (\<lambda>_ s. None)"

section \<open>Everything before the event loop ends\<close>

context i2c_live
begin

lemma keeps_codec_write [inv_intros]: "keeps alive (aud_codec_write_reg bus r v)"
proof -
  have "keeps alive (lift_opt (byte_rev_i2c_arry (bytes_of w) 2))" for w
    by (simp add: byte_rev_pair keeps_def wp_simps)
  then show ?thesis
    unfolding aud_codec_write_reg_def by (intro inv_intros) simp_all
qed

lemma keeps_codec_read [inv_intros]: "keeps alive (aud_codec_read_reg bus r)"
  unfolding aud_codec_read_reg_def by (intro inv_intros) simp_all

lemma keeps_update_field [inv_intros]: "keeps alive (aud_codec_update_field bus v field)"
  unfolding aud_codec_update_field_def by (intro inv_intros) simp_all

lemma keeps_codec_init [inv_intros]: "keeps alive (aud_codec_init bus bps)"
  unfolding aud_codec_init_def aud_codec_reset_def aud_codec_update_iwl_def by (intro inv_intros)

lemma keeps_codec_dump [inv_intros]: "keeps alive (aud_codec_dump_regs bus)"
proof -
  have "keeps alive (codec_dump_loop bus is)" for "is"
    by (induction "is") (auto intro!: inv_intros simp: codec_dump_reg_def)
  then show ?thesis unfolding aud_codec_dump_regs_def by (intro inv_intros)
qed

lemma keeps_drvr [inv_intros]:
  "keeps alive (disable_dac_drvr bus)" "keeps alive (enable_dac_drvr bus)"
  "keeps alive (disable_adc_drvr bus)" "keeps alive (enable_adc_drvr bus)"
  "keeps alive (configure_drvr_bps bus v)" "keeps alive (configure_drvr_fs_div bus fd)"
  "keeps alive (configure_drvr_bclk_div bus bd)" "keeps alive (dump_drvr_regs bus)"
  "keeps alive (update_acache_mode bus pm)" "keeps alive (enable_fgyrus bus)"
  unfolding disable_dac_drvr_def enable_dac_drvr_def disable_adc_drvr_def enable_adc_drvr_def
    configure_drvr_bps_def configure_drvr_fs_div_def configure_drvr_bclk_div_def dump_drvr_regs_def
    update_acache_mode_def enable_fgyrus_def ssm_macros pcm_macros fgyrus_macros
  by (intro inv_intros)+

lemma keeps_audio_path [inv_intros]:
  "keeps alive (enable_audio_path bus fs bps)" "keeps alive (disable_audio_path bus)"
  unfolding enable_audio_path_def disable_audio_path_def by (intro inv_intros)+

lemma keeps_init_ledos [inv_intros]: "keeps alive (init_ledos bus junk bps)"
  unfolding init_ledos_def init_cortex_def init_acortex_def IOWR_RESET_CNTRL_def
    configure_i2c_clk_def i2c_macros
  by (intro inv_intros)

lemma keeps_main: "keeps alive (main bus junk)"
  unfolding main_def by (intro inv_intros)

lemma keeps_test_audio_setup: "keeps alive (test_audio_setup bus)"
  unfolding test_audio_setup_def by (intro inv_intros)

end

end
