(* ===== verification/Board.thy ===== *)
theory Board
  imports Ledos
begin

text \<open>
  A board: the fabric of \<open>Cortex_Dev\<close> with an SSM2603 codec at I2C address \<open>0x34\<close>, an ADV7513
  at \<open>0x72\<close> and its EDID memory at \<open>0x7e\<close>.  The chips are not part of the sources; this is
  the concrete instance on which the contracts the drivers rely on are shown to hold.  The
  duration of a transfer is a parameter.
\<close>

section \<open>The chips\<close>

record board =
  b_codec :: "u8 \<Rightarrow> u16"
  b_codec_sel :: u8
  b_adv :: "u8 \<Rightarrow> u8"
  b_adv_sel :: u8
  b_flags :: "u8 \<Rightarrow> u8"
  b_edid :: "u8 list"
  b_edid_sel :: u8

text \<open>The reset values of the codec, after its data sheet.\<close>

definition codec_defaults :: "u8 \<Rightarrow> u16" where
  "codec_defaults = (\<lambda>_. 0)(0x00 := 0x097, 0x01 := 0x097, 0x02 := 0x079, 0x03 := 0x079,
     0x04 := 0x00a, 0x05 := 0x008, 0x06 := 0x09f, 0x07 := 0x00a, 0x10 := 0x07b, 0x11 := 0x032)"

text \<open>A register outside \<open>adv_cfg\<close> keeps flags of its own; a write to it clears the bits set.\<close>

definition board_wr :: "board slave_wr" where
  "board_wr a bs start stop c =
     (if a = 0x34 then
        (if length bs = 2 then
           (let (r, v) = codec_decode bs in
            (True, if r = 0x0f then c\<lparr>b_codec := codec_defaults\<rparr>
                   else if r \<in> codec_rw then c\<lparr>b_codec := (b_codec c)(r := v)\<rparr> else c))
         else if length bs = 1 then (True, c\<lparr>b_codec_sel := drop_bit 1 (bs ! 0)\<rparr>)
         else (False, c))
      else if a = 0x72 then
        (if length bs = 2 then
           (True, if bs ! 0 \<in> adv_cfg then c\<lparr>b_adv := (b_adv c)(bs ! 0 := bs ! 1)\<rparr>
                  else c\<lparr>b_flags := (b_flags c)(bs ! 0 := b_flags c (bs ! 0) AND NOT (bs ! 1))\<rparr>)
         else if length bs = 1 then (True, c\<lparr>b_adv_sel := bs ! 0\<rparr>)
         else (False, c))
      else if a = 0x7e \<and> length bs = 1 then (True, c\<lparr>b_edid_sel := bs ! 0\<rparr>)
      else (False, c))"

definition board_rd :: "u8 \<Rightarrow> nat \<Rightarrow> bool \<Rightarrow> bool \<Rightarrow> board \<Rightarrow> bool \<times> (nat \<Rightarrow> u8) \<times> board" where
  "board_rd a n start stop c =
     (if a = 0x34 then
        (True, \<lambda>i. if i < 2 then bytes_of (b_codec c (b_codec_sel c)) ! i else 0xff, c)
      else if a = 0x72 then
        (True, \<lambda>i. if b_adv_sel c \<in> adv_cfg then b_adv c (b_adv_sel c) else b_flags c (b_adv_sel c), c)
      else if a = 0x7e then
        (True, \<lambda>i. if unat (b_edid_sel c) < length (b_edid c) then b_edid c ! unat (b_edid_sel c) else 0xff, c)
      else (False, \<lambda>i. 0xff, c))"

definition board_env :: "nat \<Rightarrow> board env" where
  "board_env lat = \<lparr>env_wr = board_wr, env_rd = board_rd, env_lat = \<lambda>a n. lat\<rparr>"

lemma board_env_simps [simp]:
  "env_wr (board_env lat) = board_wr" "env_rd (board_env lat) = board_rd"
  "env_lat (board_env lat) a n = lat"
  by (simp_all add: board_env_def)

lemma board_srd: "cx_srd (board_env lat) a n st sp c =
    (let (ack, f, c') = board_rd a n st sp c in (ack, map f [0..<n], c'))"
  by (simp add: cx_srd_def)

section \<open>The contracts of the chips\<close>

lemma bytes_of_upt: "map (\<lambda>i. if i < 2 then bytes_of v ! i else x) [0..<2] = bytes_of v"
  by (simp add: bytes_of_def upt_conv_Cons numeral_2_eq_2)

lemma board_codec: "codec_slave board_wr (cx_srd (board_env lat)) b_codec b_codec_sel codec_defaults"
proof
  fix b0 b1 :: u8 and r v c
  assume d: "codec_decode [b0, b1] = (r, v)" and r: "r \<in> insert 0x0f codec_rw"
  show "\<exists>c'. board_wr 0x34 [b0, b1] True True c = (True, c') \<and>
      b_codec c' = (if r = 0x0f then codec_defaults else (b_codec c)(r := v))"
    using d r by (auto simp: board_wr_def)
next
  fix b :: u8 and c
  show "\<exists>c'. board_wr 0x34 [b] True False c = (True, c') \<and>
      b_codec c' = b_codec c \<and> b_codec_sel c' = drop_bit 1 b"
    by (simp add: board_wr_def)
next
  fix c
  show "\<exists>c'. cx_srd (board_env lat) 0x34 2 True True c =
        (True, bytes_of (b_codec c (b_codec_sel c)), c') \<and> b_codec c' = b_codec c"
    by (simp only: board_srd board_rd_def) (simp add: bytes_of_upt del: upt_rec_numeral)
qed

lemma board_adv: "adv_slave board_wr (cx_srd (board_env lat)) b_adv b_adv_sel adv_cfg"
proof
  fix r v :: u8 and c
  show "\<exists>c'. board_wr 0x72 [r, v] True True c = (True, c') \<and>
      b_adv c' = (if r \<in> adv_cfg then (b_adv c)(r := v) else b_adv c)"
    by (simp add: board_wr_def)
next
  fix r :: u8 and c
  show "\<exists>c'. board_wr 0x72 [r] True False c = (True, c') \<and> b_adv_sel c' = r \<and> b_adv c' = b_adv c"
    by (simp add: board_wr_def)
next
  fix c
  show "\<exists>b c'. cx_srd (board_env lat) 0x72 (Suc 0) True True c = (True, [b], c') \<and>
      (b_adv_sel c \<in> adv_cfg \<longrightarrow> b = b_adv c (b_adv_sel c)) \<and> b_adv c' = b_adv c"
    by (simp add: board_srd board_rd_def)
next
  fix a :: u8 and bs :: "u8 list" and st sp and c
  assume "a \<noteq> 0x72"
  then show "b_adv (snd (board_wr a bs st sp c)) = b_adv c"
    by (simp add: board_wr_def split: prod.split)
next
  fix a :: u8 and n st sp and c
  assume "a \<noteq> 0x72"
  then show "b_adv (snd (snd (cx_srd (board_env lat) a n st sp c))) = b_adv c"
    by (simp add: board_srd board_rd_def)
qed

section \<open>Chips behind the fabric\<close>

lemma codec_on_cx:
  "codec_slave (env_wr env) (cx_srd env) creg csel dflt \<Longrightarrow>
   codec_chip (cx_bus env) cx_live ctl.truncate (env_wr env) (cx_srd env) cx_plain cx_wmask creg csel dflt"
  using cx.cortex_regs_axioms by (rule codec_chip.intro)

lemma adv_on_cx:
  assumes "adv_slave (env_wr env) (cx_srd env) rfile asel rw" "adv_cfg \<subseteq> rw"
    "0x93 \<notin> rw" "0x96 \<notin> rw" "0x97 \<notin> rw"
  shows "adv_board (cx_bus env) cx_live ctl.truncate (env_wr env) (cx_srd env) rfile asel rw"
proof -
  have "adv_chip (cx_bus env) cx_live ctl.truncate (env_wr env) (cx_srd env) rfile asel rw"
    using cx.i2c_master_axioms assms(1) by (rule adv_chip.intro)
  moreover have "adv_board_axioms (cx_bus env) cx_live ctl.truncate rw"
  proof
    fix d :: "'a cortex_dev" and a v
    assume "cx_live d" "\<not> i2c_busy (cx_bus env) d" "a \<in> hdmi_pio"
    then show "chips (ctl.truncate (io_wr (cx_bus env) a v d)) = chips (ctl.truncate d) \<and>
        \<not> i2c_busy (cx_bus env) (io_wr (cx_bus env) a v d)"
      by (auto simp: hdmi_pio_def cx_wr_def HDMI_EDGE_CAP_ADDR_def HDMI_IRQ_MASK_ADDR_def cx_plain_def)
  next
    fix d :: "'a cortex_dev" and v
    show "regs (ctl.truncate (io_wr (cx_bus env) 0x201048 v d)) =
        (regs (ctl.truncate d))(0x201048 := v AND 1)"
      by (simp add: cx_wr_def HDMI_EDGE_CAP_ADDR_def HDMI_IRQ_MASK_ADDR_def cx_plain_def cx_wmask_def)
    show "regs (ctl.truncate (io_wr (cx_bus env) 0x20104C 0 d)) = regs (ctl.truncate d)"
      by (simp add: cx_wr_def HDMI_EDGE_CAP_ADDR_def)
  qed (use assms in auto)
  ultimately show ?thesis by (rule adv_board.intro)
qed

interpretation bd: codec_chip "cx_bus (board_env lat)" cx_live ctl.truncate board_wr
    "cx_srd (board_env lat)" cx_plain cx_wmask b_codec b_codec_sel codec_defaults
  for lat
  using codec_on_cx [of "board_env lat"] board_codec [of lat] by simp

interpretation bd: adv_board "cx_bus (board_env lat)" cx_live ctl.truncate board_wr
    "cx_srd (board_env lat)" b_adv b_adv_sel adv_cfg
  for lat
  using adv_on_cx [of "board_env lat"] board_adv [of lat] by (auto simp: adv_cfg_def)

text \<open>A board at rest, with given EDID bytes.\<close>

definition board_chips :: "u8 list \<Rightarrow> board" where
  "board_chips edid = \<lparr>b_codec = codec_defaults, b_codec_sel = 0, b_adv = (\<lambda>_. 0), b_adv_sel = 0,
     b_flags = (\<lambda>_. 0), b_edid = edid, b_edid_sel = 0\<rparr>"

definition board_at_rest :: "u8 list \<Rightarrow> board cortex_dev mach" where
  "board_at_rest edid =
     \<lparr>dev = \<lparr>areg = 0, cache = [0, 0, 0, 0], nack = False, chips = board_chips edid,
        regs = (\<lambda>_. 0), busy_ms = 0, pcm_sel = 0, pcm_mem = (\<lambda>a. a), fft_ram = (\<lambda>a. a)\<rparr>,
      console = [], aud_codec_i2c_bffr = 0, adv7513_i2c_bffr = 0,
      adv7513_encoder = \<lparr>slave_addr = 0x72, edid_addr = 0x7e, hpd_prev = 0, hpd_latest = 0,
        hpd_event = 0, hpd = 0, int_mask = 0xC000, chip_id = [0, 0], chip_rev = [0],
        avi_if = avi_defaults, vendor_if = \<lparr>struct_3d = 0, ext_data_3d = 0\<rparr>\<rparr>,
      alt_irq = (\<lambda>_. None), alt_irq_active = 0, ienable = 0\<rparr>"

lemma board_at_rest_sel [simp]:
  "chips (dev (board_at_rest edid)) = board_chips edid"
  "regs (dev (board_at_rest edid)) = (\<lambda>_. 0)"
  "b_codec (board_chips edid) = codec_defaults" "b_edid (board_chips edid) = edid"
  "b_edid_sel (board_chips edid) = 0" "fft_ram (dev (board_at_rest edid)) = (\<lambda>a. a)"
  "pcm_mem (dev (board_at_rest edid)) = (\<lambda>a. a)"
  by (simp_all add: board_at_rest_def board_chips_def)

lemma board_at_rest_ready [simp]: "cx_ready (board_at_rest edid)"
  by (simp add: cx_ready_def cx_live_def board_at_rest_def)

lemma board_env_codec [simp]:
  "codec_slave (env_wr (board_env lat)) (cx_srd (board_env lat)) b_codec b_codec_sel codec_defaults"
  by (simp add: board_codec)

end
