(* ===== verification/Audio_System.thy ===== *)
theory Audio_System
  imports Board
begin

text \<open>
  The I2C driver, the codec driver and the audio cortex on the fabric of \<open>Cortex_Dev\<close>.  The
  chips behind the I2C wires and the duration of transfers are arbitrary (\<open>env\<close>), up to the
  contract of the codec where one is relied on.  Each property is an instance of what is proved
  in the locales, with its statement written over the firmware's functions; the concrete board
  of \<open>Board\<close> shows that the hypotheses can be met.
\<close>

section \<open>Transfers\<close>

text \<open>
  C6.  A write transfer on the fabric, whatever the slaves do and however long they take: the
  call returns, the addressed slave has seen exactly the given bytes in one transaction, and the
  result says whether they were acknowledged.
\<close>

theorem i2c_xtn_write_delivers:
  assumes "cx_ready s" "n \<le> 4" "unat n \<le> length data"
    and "env_wr env (addr AND 0xFE) (take (unat n) data) (bit start 0) (bit stop 0) (chips (dev s)) = (ack, c')"
  shows "\<exists>s'. i2c_xtn_write (cx_bus env) addr data n start stop s =
      Some (if ack then I2C_OK else I2C_NACK_DETECTED, s') \<and>
    cx_ready s' \<and> chips (dev s') = c' \<and> regs (dev s') = regs (dev s) \<and>
    (console s' = console s \<or> \<not> ack)"
proof -
  have "wp (i2c_xtn_write (cx_bus env) addr data n start stop) (\<lambda>r s'.
      r = (if ack then I2C_OK else I2C_NACK_DETECTED) \<and> cx_ready s' \<and> chips (dev s') = c' \<and>
      regs (dev s') = regs (dev s) \<and> (console s' = console s \<or> \<not> ack)) s"
    by (rule cx.wp_i2c_xtn_write [where c' = c' and ack = ack])
      (use assms in \<open>auto simp: cx_ready_iff cx_ready_def\<close>)
  then show ?thesis by (auto simp: wp_run)
qed

theorem i2c_xtn_write_delivers_witness:
  "\<exists>s'. i2c_xtn_write (cx_bus (board_env 7)) 0x34 [0x12, 0x01] 2 1 1 (board_at_rest []) =
     Some (I2C_OK, s') \<and> b_codec (chips (dev s')) 9 = 1"
  using i2c_xtn_write_delivers [where env = "board_env 7" and s = "board_at_rest []" and n = 2
      and data = "[0x12, 0x01]" and addr = "0x34" and start = 1 and stop = 1 and ack = True
      and c' = "(board_chips [])\<lparr>b_codec := codec_defaults(9 := 1)\<rparr>"]
  by (auto simp: board_wr_def codec_decode_def codec_rw_def)

text \<open>
  C7.  A read transfer: the call returns, and on success the first bytes of the caller's buffer
  are those the slave sent and the rest is untouched; after a missing acknowledge the whole
  buffer is untouched.
\<close>

theorem i2c_xtn_read_fetches:
  assumes "cx_ready s" "n \<le> 4" "unat n \<le> length bffr"
    and "cx_srd env (addr AND 0xFE) (unat n) (bit start 0) (bit stop 0) (chips (dev s)) = (ack, bs, c')"
  shows "\<exists>s'. i2c_xtn_read (cx_bus env) addr bffr n start stop s =
      Some (if ack then (I2C_OK, bs @ drop (unat n) bffr) else (I2C_NACK_DETECTED, bffr), s') \<and>
    cx_ready s' \<and> chips (dev s') = c' \<and> regs (dev s') = regs (dev s)"
proof -
  have "wp (i2c_xtn_read (cx_bus env) addr bffr n start stop) (\<lambda>r s'.
      r = (if ack then (I2C_OK, bs @ drop (unat n) bffr) else (I2C_NACK_DETECTED, bffr)) \<and>
      cx_ready s' \<and> chips (dev s') = c' \<and> regs (dev s') = regs (dev s)) s"
    by (rule cx.wp_i2c_xtn_read [where c' = c' and ack = ack and bs = bs])
      (use assms in \<open>auto simp: cx_ready_iff cx_ready_def\<close>)
  then show ?thesis by (auto simp: wp_run)
qed

theorem i2c_xtn_read_fetches_witness:
  "\<exists>s'. i2c_xtn_read (cx_bus (board_env 3)) 0x7e [0, 1] 1 1 1 (board_at_rest [0xAB]) =
     Some ((I2C_OK, [0xAB, 1]), s')"
  using i2c_xtn_read_fetches [where env = "board_env 3" and s = "board_at_rest [0xAB]" and n = 1
      and bffr = "[0, 1]" and addr = "0x7e" and start = 1 and stop = 1 and ack = True and bs = "[0xAB]"
      and c' = "board_chips [0xAB]"]
  by (auto simp: board_srd board_rd_def)

text \<open>
  C39.  A transfer of more than four bytes is refused before anything is sent: the result is
  \<open>I2C_ERROR\<close>, a read leaves the caller's buffer alone, and the hardware is not touched.
\<close>

theorem i2c_xtn_too_long:
  assumes "4 < n"
  shows "(\<exists>s'. i2c_xtn_write bus addr data n start stop s = Some (I2C_ERROR, s') \<and>
      dev s' = dev s \<and> length (console s') = Suc (length (console s))) \<and>
    (\<exists>s'. i2c_xtn_read bus addr bffr n start stop s = Some ((I2C_ERROR, bffr), s') \<and>
      dev s' = dev s \<and> length (console s') = Suc (length (console s)))"
  using assms
  by (simp add: i2c_xtn_write_def i2c_xtn_read_def I2C_MAX_XTN_LEN_def i2c_len_error_def
      alt_printf_def bnd_def ret_def modify_def)

section \<open>Codec and audio path\<close>

text \<open>
  C4.  \<open>enable_audio_path\<close>: with a codec that keeps its contract, at any sample rate and width,
  the call returns; the codec is active, powered and unmuted, its word length, rate and
  oversampling fields are those of the request, and the interface in the fabric has the same
  width and the divider of the same rate.  Every other field of the codec and every other register
  of the fabric keeps its value.
\<close>

theorem enable_audio_path_configures:
  assumes "codec_slave (env_wr env) (cx_srd env) creg csel dflt" "cx_ready s"
  shows "\<exists>s'. enable_audio_path (cx_bus env) fs bps s = Some ((), s') \<and> cx_ready s' \<and>
    (let f = creg (chips (dev s)); f' = creg (chips (dev s')); g = regs (dev s); g' = regs (dev s') in
     map (\<lambda>F. codec_get F f') [AUD_CODEC_ACTIVE, AUD_CODEC_OUTPD, AUD_CODEC_LIN_MUTE,
        AUD_CODEC_RIN_MUTE, AUD_CODEC_ADCPD, AUD_CODEC_DACPD] = [1, 0, 0, 0, 0, 0] \<and>
     codec_get AUD_CODEC_IWL f' = of_nat (bps_val bps) \<and>
     codec_get AUD_CODEC_SR f' = sr_sel_val (fs2sr_lookup fs) \<and>
     codec_get AUD_CODEC_BOSR f' = fs2bosr_lookup fs \<and>
     (\<forall>F. wf_field F \<longrightarrow> list_all (disjoint_fields F) path_fields \<longrightarrow> codec_get F f' = codec_get F f) \<and>
     g' = g(SSM2603_DRVR_CONFIG_REG_ADDR :=
              (g SSM2603_DRVR_CONFIG_REG_ADDR AND 0x3) OR push_bit 2 (of_nat (bps_val bps)),
            SSM2603_DRVR_FS_VAL_REG_ADDR := fs_div_val (fs2fs_div_lookup fs)))"
proof -
  have w: "ssm_bps_set (of_nat (bps_val bps)) v AND 0xF = (v AND 0x3) OR push_bit 2 (of_nat (bps_val bps))" for v
    by (cases bps) (simp_all add: ssm_bps_set_def ssm_consts bps_val_def bit.conj_disj_distrib2 and.assoc)
  have d: "fs_div_val (fs2fs_div_lookup fs) AND 0xFFFF = fs_div_val (fs2fs_div_lookup fs)"
    by (cases fs) (simp_all add: fs2fs_div_lookup_def fs_div_val_def)
  obtain s' where "enable_audio_path (cx_bus env) fs bps s = Some ((), s')" "cx_ready s'"
    "creg (chips (dev s')) = audio_on fs bps (creg (chips (dev s)))"
    "regs (dev s') = set_reg cx_wmask SSM2603_DRVR_FS_VAL_REG_ADDR (\<lambda>_. fs_div_val (fs2fs_div_lookup fs))
       (set_reg cx_wmask SSM2603_DRVR_CONFIG_REG_ADDR (ssm_bps_set (of_nat (bps_val bps))) (regs (dev s)))"
    using refines_cx [OF codec_chip.enable_audio_path_refines [OF codec_on_cx [OF assms(1)] ssm_plain]
        assms(2), of fs bps]
    by auto
  then show ?thesis
    by (intro exI [of _ s'])
      (auto simp: Let_def audio_on_power audio_on_format audio_path_frame set_reg_def ssm_consts
        cx_wmask_def w d)
qed

theorem i2c_xtn_too_long_witness:
  "\<exists>s'. i2c_xtn_read (cx_bus (board_env 3)) 0x7e [9] 5 1 1 (board_at_rest []) =
     Some ((I2C_ERROR, [9]), s') \<and> dev s' = dev (board_at_rest [])"
  using i2c_xtn_too_long [where n = 5 and bus = "cx_bus (board_env 3)" and bffr = "[9]"
      and addr = "0x7e" and start = 1 and stop = 1 and s = "board_at_rest []"]
  by auto

theorem enable_audio_path_configures_witness:
  "\<exists>s'. enable_audio_path (cx_bus (board_env 5)) FS_48KHZ BPS_24 (board_at_rest []) = Some ((), s') \<and>
     regs (dev s') SSM2603_DRVR_CONFIG_REG_ADDR = 8 \<and> regs (dev s') SSM2603_DRVR_FS_VAL_REG_ADDR = 208 \<and>
     codec_get AUD_CODEC_IWL (b_codec (chips (dev s'))) = 2"
  using enable_audio_path_configures [OF board_env_codec board_at_rest_ready, of 5 FS_48KHZ BPS_24 "[]"]
  by (auto simp: Let_def ssm_consts bps_val_def fs_div_val_def fs2fs_div_lookup_def)



text \<open>
  C26.  \<open>aud_codec_init\<close> ends, whatever was in the codec before, with the codec reset and
  then powered, in DSP format with the requested word length, USB clocking, the DAC selected
  and not muted, the bypass off and the digital core active.
\<close>

theorem aud_codec_init_configures:
  assumes "codec_slave (env_wr env) (cx_srd env) creg csel dflt" "cx_ready s"
  shows "\<exists>s'. aud_codec_init (cx_bus env) bps s = Some ((), s') \<and> cx_ready s' \<and>
    (let f' = creg (chips (dev s')) in
     map (\<lambda>F. codec_get F f') [AUD_CODEC_PWROFF, AUD_CODEC_LINEINPD, AUD_CODEC_OUTPD, AUD_CODEC_LRP,
       AUD_CODEC_FORMAT, AUD_CODEC_USB_NORM, AUD_CODEC_DAC_SEL, AUD_CODEC_BYPASS, AUD_CODEC_DAC_MU,
       AUD_CODEC_ACTIVE] = [0, 0, 0, 1, 3, 1, 1, 0, 0, 1] \<and>
     codec_get AUD_CODEC_IWL f' = of_nat (bps_val bps) \<and>
     codec_get AUD_CODEC_SR f' = codec_get AUD_CODEC_SR dflt) \<and>
    regs (dev s') = regs (dev s)"
proof -
  obtain r s' where run: "aud_codec_init (cx_bus env) bps s = Some (r, s')" "cx_ready s'"
    "creg (chips (dev s')) = codec_init_regs (of_nat (bps_val bps)) dflt" "regs (dev s') = regs (dev s)"
    using refines_cx [OF codec_chip.aud_codec_init_refines [OF codec_on_cx [OF assms(1)]] assms(2), of bps]
    by auto
  have "of_nat (bps_val bps) AND 3 = (of_nat (bps_val bps) :: u16)"
    by (cases bps) (simp_all add: bps_val_def)
  moreover have "codec_get AUD_CODEC_SR (codec_init_regs iwl dflt) = codec_get AUD_CODEC_SR dflt" for iwl
    unfolding codec_init_regs_def by (simp add: field_laws)
  ultimately show ?thesis
    using run by (intro exI [of _ s']) (simp add: Let_def codec_init_fields)
qed

theorem aud_codec_init_configures_witness:
  "\<exists>s'. aud_codec_init (cx_bus (board_env 0)) BPS_20 (board_at_rest []) = Some ((), s') \<and>
     codec_get AUD_CODEC_IWL (b_codec (chips (dev s'))) = 1"
  using aud_codec_init_configures [OF board_env_codec board_at_rest_ready, of 0 BPS_20 "[]"]
  by (auto simp: Let_def bps_val_def)

lemma codec_set_other: "r \<noteq> fst F \<Longrightarrow> codec_set v F f r = f r"
  by (cases F) (simp add: codec_set_def)

text \<open>
  C27.  \<open>aud_codec_update_field\<close> on a field that fits its nine-bit register: the field reads back
  as the value cut to its width, every field disjoint from it is unchanged, and so are all
  other registers.
\<close>

theorem aud_codec_update_field_law:
  assumes "codec_slave (env_wr env) (cx_srd env) creg csel dflt" "cx_ready s"
    and "fst F \<in> codec_rw" "wf_field F"
  shows "\<exists>s'. aud_codec_update_field (cx_bus env) v F s = Some ((), s') \<and> cx_ready s' \<and>
    codec_get F (creg (chips (dev s'))) = v AND ucast (snd (snd F)) \<and>
    (\<forall>G. wf_field G \<longrightarrow> disjoint_fields G F \<longrightarrow>
       codec_get G (creg (chips (dev s'))) = codec_get G (creg (chips (dev s)))) \<and>
    (\<forall>r. r \<noteq> fst F \<longrightarrow> creg (chips (dev s')) r = creg (chips (dev s)) r) \<and>
    regs (dev s') = regs (dev s)"
proof -
  obtain s' where "aud_codec_update_field (cx_bus env) v F s = Some ((), s')" "cx_ready s'"
    "creg (chips (dev s')) = codec_set v F (creg (chips (dev s)))" "regs (dev s') = regs (dev s)"
    using refines_cx [OF codec_chip.update_field_refines [OF codec_on_cx [OF assms(1)] assms(3)] assms(2), of v]
    by auto
  then show ?thesis
    using assms(4)
    by (intro exI [of _ s']) (auto simp: codec_get_set codec_set_other)
qed

theorem aud_codec_update_field_law_witness:
  "\<exists>s'. aud_codec_update_field (cx_bus (board_env 1)) 0x1f AUD_CODEC_SR (board_at_rest []) = Some ((), s') \<and>
     codec_get AUD_CODEC_SR (b_codec (chips (dev s'))) = 0xf"
  using aud_codec_update_field_law [OF board_env_codec board_at_rest_ready, of AUD_CODEC_SR 1 "0x1f" "[]"]
  by (auto simp: codec_fields codec_rw_def wf_field_def)

section \<open>Samples, spectra and partitions\<close>

text \<open>
  C33.  Capture read-out: after the buffer has been switched to capture mode the two buffers of
  the caller receive, sample by sample, the lower and the upper half of the capture memory.
\<close>

theorem capture_read_out:
  fixes s :: "'c cortex_dev mach"
  assumes "length l = 128" "length r = 128"
  shows "\<exists>s'. bnd (update_acache_mode (cx_bus env) PCM_BFFR_MODE_CAPTURE)
      (\<lambda>_. dump_acache_cap_data (cx_bus env) l r) s =
    Some ((map (\<lambda>i. pcm_mem (dev s) (of_nat i)) [0..<128],
           map (\<lambda>i. pcm_mem (dev s) (of_nat (i + 128))) [0..<128]), s')"
proof -
  have "wp (update_acache_mode (cx_bus env) PCM_BFFR_MODE_CAPTURE)
     (\<lambda>_ s'. bit (regs (dev s') 0x2000) 0 \<and> pcm_mem (dev s') = pcm_mem (dev s)) s"
    by (simp add: update_acache_mode_def pcm_macros wp_simps cx_wr_def cx_plain_def cx_wmask_def
        pcm_mode_val_def PCM_BFFR_MODE_MSK_def PCM_BFFR_CONTROL_REG_ADDR_def HDMI_EDGE_CAP_ADDR_def)
  then have "wp (bnd (update_acache_mode (cx_bus env) PCM_BFFR_MODE_CAPTURE)
      (\<lambda>_. dump_acache_cap_data (cx_bus env) l r)) (\<lambda>b _.
      b = (map (\<lambda>i. pcm_mem (dev s) (of_nat i)) [0..<128],
           map (\<lambda>i. pcm_mem (dev s) (of_nat (i + 128))) [0..<128])) s"
    unfolding wp_bnd
  proof (rule wp_mono, elim conjE)
    fix x :: unit and s' :: "'c cortex_dev mach"
    assume "bit (regs (dev s') 0x2000) 0" "pcm_mem (dev s') = pcm_mem (dev s)"
    then show "wp (dump_acache_cap_data (cx_bus env) l r) (\<lambda>b _.
        b = (map (\<lambda>i. pcm_mem (dev s) (of_nat i)) [0..<128],
             map (\<lambda>i. pcm_mem (dev s) (of_nat (i + 128))) [0..<128])) s'"
      using wp_mono [OF cx.wp_dump_acache_cap_data [OF assms, of s' env]] by auto
  qed
  then show ?thesis by (auto simp: wp_run)
qed

theorem capture_read_out_witness:
  "\<exists>l r s'. bnd (update_acache_mode (cx_bus (board_env 0)) PCM_BFFR_MODE_CAPTURE)
      (\<lambda>_. dump_acache_cap_data (cx_bus (board_env 0)) (replicate 128 0) (replicate 128 0))
      (board_at_rest []) = Some ((l, r), s') \<and> l ! 5 = 5 \<and> r ! 5 = 133"
  using capture_read_out [of "replicate 128 0" "replicate 128 0" "board_env 0" "board_at_rest []"]
  by (auto simp del: upt_rec_numeral)



text \<open>
  C38.  The partition table of the memory interface: a request with a partition number and both
  addresses in range changes exactly the two entries of that partition, whose values are the
  addresses cut to the 27 bits the fabric implements; any other request leaves the hardware
  alone and prints one message.
\<close>

theorem partition_table_update:
  "\<exists>s'. configure_sys_mem_intf_part (cx_bus env) p a e s = Some ((), s') \<and>
    (if p < 32 \<and> a \<le> 0xFFFFFFF \<and> e \<le> 0xFFFFFFF
     then dev s' = (dev s)\<lparr>regs := (regs (dev s))(0x21000 + 16 * ucast p := take_bit 27 a,
                                                 0x21200 + 16 * ucast p := take_bit 27 e)\<rparr> \<and>
       console s' = console s
     else dev s' = dev s \<and> length (console s') = Suc (length (console s)))"
proof (cases "p < 32 \<and> a \<le> 0xFFFFFFF \<and> e \<le> 0xFFFFFFF")
  case True
  define A :: u32 where "A = 0x21000 + 16 * ucast p"
  define E :: u32 where "E = 0x21200 + 16 * ucast p"
  have r: "0x21000 \<le> A" "A < 0x21200" "0x21200 \<le> E" "E < 0x21400"
    using part_entry [of p] True by (simp_all add: A_def E_def)
  have AE: "0x21000 \<le> A \<and> A < 0x21400" "0x21000 \<le> E \<and> E < 0x21400"
    using r by (auto simp: word_le_nat_alt word_less_nat_alt)
  then have pl: "A \<in> cx_plain" "E \<in> cx_plain" by (simp_all add: cx_plain_def)
  have m: "x AND 0x7FFFFFF = take_bit 27 x" for x :: u32
    by (simp add: take_bit_eq_mask mask_eq_exp_minus_1)
  have wm: "cx_wmask A = 0x7FFFFFF" "cx_wmask E = 0x7FFFFFF"
    using AE by (auto simp: cx_wmask_def word_le_nat_alt word_less_nat_alt)
  have w: "cx_wr env A v d = d\<lparr>regs := (regs d)(A := take_bit 27 v)\<rparr>"
    "cx_wr env E v d = d\<lparr>regs := (regs d)(E := take_bit 27 v)\<rparr>" for v d
    using pl wm cx_regs_neq [OF pl(1)] cx_regs_neq [OF pl(2)] by (simp_all add: cx_wr_def m)
  show ?thesis
    using True configure_sys_mem_intf_part_run [of "cx_bus env" p a e s]
    by (auto simp: w A_def [symmetric] E_def [symmetric])
next
  case False
  then show ?thesis
    using configure_sys_mem_intf_part_run [of "cx_bus env" p a e s] by auto
qed

end
