(* ===== verification/Hdmi_System.thy ===== *)
theory Hdmi_System
  imports Audio_System
begin

text \<open>
  The HDMI driver on the fabric: initialisation, the interrupt handler, the power state and the
  read-out of the EDID, for every chip that keeps the contract of the ADV7513.
\<close>

section \<open>The registers of the transmitter\<close>

lemma board_env_adv [simp]:
  "adv_slave (env_wr (board_env lat)) (cx_srd (board_env lat)) b_adv b_adv_sel adv_cfg"
  by (simp add: board_adv)

lemma adv_cfg_volatile [simp]: "0x93 \<notin> adv_cfg" "0x96 \<notin> adv_cfg" "0x97 \<notin> adv_cfg"
  by (simp_all add: adv_cfg_def)

definition ec_ready :: "'d mach \<Rightarrow> bool" where
  "ec_ready s \<longleftrightarrow> slave_addr (adv7513_encoder s) = 0x72 \<and> edid_addr (adv7513_encoder s) = 0x7e"

lemma hdmi_ready_cx:
  assumes "adv_board (cx_bus env) cx_live ctl.truncate (env_wr env) (cx_srd env) rfile asel rw"
  shows "adv_board.hdmi_ready (cx_bus env) cx_live ctl.truncate rfile f s \<longleftrightarrow>
    cx_ready s \<and> ec_ready s \<and> rfile (chips (dev s)) = f"
  using assms
  by (auto simp: adv_board.hdmi_ready_def adv_chip.adv_ready_def [OF adv_board.axioms(1)] ec_ready_def cx_ready_iff)

lemma adv_ready_cx:
  assumes "adv_board (cx_bus env) cx_live ctl.truncate (env_wr env) (cx_srd env) rfile asel rw"
  shows "adv_chip.adv_ready (cx_bus env) cx_live s \<longleftrightarrow> cx_ready s \<and> ec_ready s"
  using assms
  by (auto simp: adv_chip.adv_ready_def [OF adv_board.axioms(1)] ec_ready_def cx_ready_iff)


lemma board_at_rest_ec [simp]: "ec_ready (board_at_rest edid)"
  "adv7513_long_to_int_mask (int_mask (adv7513_encoder (board_at_rest edid))) =
     \<lparr>reg92 = 0, reg94 = 0xC0, reg95 = 0\<rparr>"
  by (simp_all add: ec_ready_def board_at_rest_def adv7513_long_to_int_mask_def)


section \<open>Initialisation\<close>

context adv_board
begin

text \<open>
  The state the setup is about: the register file of the transmitter, the handler table and the
  enabled interrupts of the HAL, the driver's copy of the masks and the fabric's registers.
\<close>

definition irq_view :: "'d mach \<Rightarrow>
    (nat \<Rightarrow> isr option) \<times> u32 \<times> u32 \<times> u32 \<times> (u32 \<Rightarrow> u32)" where
  "irq_view s = (alt_irq s, alt_irq_active s, ienable s, int_mask (adv7513_encoder s), regs_of s)"

definition hdmi_at where
  "hdmi_at f q s \<longleftrightarrow> hdmi_ready f s \<and> irq_view s = q"

lemma hdmi_at_dev:
  "hdmi_at f q s \<Longrightarrow> live d' \<Longrightarrow> \<not> i2c_busy bus d' \<Longrightarrow> rfile (chips (view d')) = g \<Longrightarrow>
   regs (view d') = regs_of s \<Longrightarrow> hdmi_at g q (s\<lparr>dev := d', adv7513_i2c_bffr := v\<rparr>)"
  by (simp add: hdmi_at_def hdmi_ready_def adv_ready_def ready_def irq_view_def)

lemma wp_at_read:
  assumes "hdmi_at f q s" "\<And>b s'. hdmi_at f q s' \<Longrightarrow> Q (0, b) s'"
  shows "wp (reg_read bus reg old) Q s"
  using assms by (intro wp_reg_read)
    (auto simp: hdmi_at_def hdmi_ready_def adv_ready_def ready_def irq_view_def)

lemma wp_at_write:
  assumes "hdmi_at f q s"
    and "\<And>s'. hdmi_at (if word_of_int reg \<in> rw then f(word_of_int reg := word_of_int data) else f) q s' \<Longrightarrow> Q 0 s'"
  shows "wp (reg_write bus reg data) Q s"
  using assms by (intro wp_reg_write)
    (auto simp: hdmi_at_def hdmi_ready_def adv_ready_def ready_def irq_view_def)

lemma wp_chip_identify:
  assumes "hdmi_at f q s"
  shows "wp (adv7513_chip_identify bus) (\<lambda>r s'. r = 0 \<and> hdmi_at f q s') s"
proof -
  have e: "hdmi_at f q (s\<lparr>adv7513_encoder := (adv7513_encoder s)\<lparr>chip_rev := x\<rparr>\<rparr>) = hdmi_at f q s"
    "hdmi_at f q (s\<lparr>adv7513_encoder := (adv7513_encoder s)\<lparr>chip_id := x\<rparr>\<rparr>) = hdmi_at f q s" for s x
    by (simp_all add: hdmi_at_def hdmi_ready_def adv_ready_def ready_def irq_view_def)
  show ?thesis
    unfolding adv7513_chip_identify_def
    using assms by (auto simp: wp_simps e intro!: wp_at_read)
qed

lemma wp_at_writes:
  assumes "hdmi_at f q s" "\<And>s'. hdmi_at (fold (\<lambda>(reg, data) g.
       if word_of_int reg \<in> rw then g(word_of_int reg := word_of_int data) else g) ws f) q s' \<Longrightarrow> Q 0 s'"
  shows "wp (checked_writes bus ws) Q s"
  using assms unfolding checked_writes_def
proof (induction ws arbitrary: f s)
  case Nil
  then show ?case by (simp add: wp_simps)
next
  case (Cons w ws)
  obtain reg data where w: "w = (reg, data)" by (cases w)
  show ?case
    unfolding w list.map prod.case run_checked.simps wp_bnd
    by (rule wp_at_write [OF Cons.prems(1)])
      (use Cons in \<open>simp add: w wp_simps\<close>)
qed

lemma wp_at_power_on:
  assumes "hdmi_at f q s" "\<And>r s'. hdmi_at (adv_upd 0x41 0x40 0 f) q s' \<Longrightarrow> Q r s'"
  shows "wp (adv7513_kick_up bus) Q s"
proof -
  have r: "(0x41 :: u8) \<in> rw" using cfg_rw by (auto simp: adv_cfg_def)
  have "wp (reg_update_bits bus 0x41 0x40 0) (\<lambda>r s'. r = 0 \<and> hdmi_at (adv_upd 0x41 0x40 0 f) q s') s"
    unfolding reg_update_bits_def wp_bnd
    by (rule wp_reg_read, use assms(1) in \<open>simp add: hdmi_at_def hdmi_ready_def\<close>)
      (use assms(1) r in \<open>auto simp: wp_simps hdmi_at_def hdmi_ready_def adv_ready_def ready_def
        irq_view_def adv_upd_def upd_bits_def intro!: wp_reg_write\<close>)
  then show ?thesis
    unfolding adv7513_kick_up_def run_checked.simps wp_bnd
    by (rule wp_mono) (use assms(2) in \<open>auto simp: wp_simps\<close>)
qed

lemma wp_at_clear:
  assumes "hdmi_at f q s" "\<And>s'. hdmi_at f q s' \<Longrightarrow> Q () s'"
  shows "wp (CLEAR_HDMI_IRQ_FLAG bus) Q s"
proof -
  have p: "(0x20104C :: u32) \<in> hdmi_pio" by (simp add: hdmi_pio_def)
  have l: "live (dev s)" "\<not> i2c_busy bus (dev s)"
    using assms(1) by (auto simp: hdmi_at_def hdmi_ready_def adv_ready_def ready_def)
  have "hdmi_at f q (s\<lparr>dev := io_wr bus 0x20104C 0 (dev s)\<rparr>)"
    using assms(1) pio_wr [OF l p, of 0] live_wr [OF l(1), of "0x20104C" 0] edge_wr0 [OF l]
    by (simp add: hdmi_at_def hdmi_ready_def adv_ready_def ready_def irq_view_def)
  then show ?thesis
    using assms(2) by (simp add: CLEAR_HDMI_IRQ_FLAG_def pio_macros wp_simps HDMI_TX_INT_N_BASE_def)
qed

lemma wp_at_enable:
  assumes "hdmi_at f (ai, aa, ie, im, g) s"
    and "\<And>s'. hdmi_at f (ai, aa OR 0x10, aa OR 0x10, im, g(0x201048 := 1)) s' \<Longrightarrow> Q 0 s'"
  shows "wp (ENABLE_HDMI_IRQ bus) Q s"
proof -
  have p: "(0x201048 :: u32) \<in> hdmi_pio" by (simp add: hdmi_pio_def)
  have l: "live (dev s)" "\<not> i2c_busy bus (dev s)"
    using assms(1) by (auto simp: hdmi_at_def hdmi_ready_def adv_ready_def ready_def)
  show ?thesis
    unfolding ENABLE_HDMI_IRQ_def pio_macros wp_simps HDMI_TX_INT_N_BASE_def HDMI_TX_INT_N_IRQ_def
      HDMI_TX_INT_MASK_def
    by (rule assms(2)) (use assms(1) pio_wr [OF l p, of 1] live_wr [OF l(1), of "0x201048" 1]
        mask_wr [OF l, of 1] in
      \<open>simp add: hdmi_at_def hdmi_ready_def adv_ready_def ready_def irq_view_def push_bit_eq_mult\<close>)
qed

lemma set_bit4: "((aa :: u32) AND NOT 0x10) OR 0x10 = aa OR 0x10"
  by (rule bit_word_eqI) (auto simp: bit_simps)

lemma word_of_uint: "word_of_int (uint (x :: u32)) = (ucast x :: u8)"
  by (rule bit_word_eqI) (auto simp: bit_simps)

lemma masks_rw: "(0x92 :: u8) \<in> rw" "(0x94 :: u8) \<in> rw" "(0x95 :: u8) \<in> rw"
  using cfg_rw by (auto simp: adv_cfg_def)

lemma wp_at_arm:
  assumes s: "hdmi_at f (ai, aa AND NOT 0x10, ie, im, g) s"
    and Q: "\<And>s'. hdmi_at (f(0x92 := ucast (reg92 m), 0x94 := ucast (reg94 m), 0x95 := ucast (reg95 m)))
       (ai(4 := Some h), aa OR 0x10, aa OR 0x10, im, g(0x201048 := 1)) s' \<Longrightarrow> Q 0 s'"
  shows "wp (bnd (REGISTER_HDMI_ISR (Some h)) (\<lambda>r. if r \<noteq> 0 then ret (- 1) else
       bnd (checked_writes bus [(0x92, uint (reg92 m)), (0x94, uint (reg94 m)), (0x95, uint (reg95 m))])
         (\<lambda>r. if r \<noteq> 0 then ret (- 1) else bnd (ENABLE_HDMI_IRQ bus) (\<lambda>_. ret 0)))) Q s"
proof -
  have "hdmi_at f (ai(4 := Some h), aa OR 0x10, aa OR 0x10, im, g)
      (s\<lparr>alt_irq := (alt_irq s)(4 := Some h), alt_irq_active := alt_irq_active s OR 0x10,
         ienable := alt_irq_active s OR 0x10\<rparr>)"
    using s by (simp add: hdmi_at_def hdmi_ready_def adv_ready_def ready_def irq_view_def set_bit4 [simplified])
  then show ?thesis
    unfolding wp_bnd REGISTER_HDMI_ISR_def HDMI_TX_INT_N_IRQ_def wp_alt_ic_isr_register
    using Q
    by (auto simp: wp_simps masks_rw word_of_uint push_bit_eq_mult intro!: wp_at_writes wp_at_enable)
qed

lemma wp_int_setup:
  assumes s: "hdmi_at f (ai, aa, ie, im, g) s" and m: "adv7513_int_mask_to_long m \<noteq> 0"
    and Q: "\<And>s'. hdmi_at (f(0x92 := ucast (reg92 m), 0x94 := ucast (reg94 m), 0x95 := ucast (reg95 m)))
       (ai(4 := Some h), aa OR 0x10, aa OR 0x10, adv7513_int_mask_to_long m, g(0x201048 := 1)) s' \<Longrightarrow> Q 0 s'"
  shows "wp (adv7513_int_setup bus m (Some h)) Q s"
proof -
  let ?q = "(ai, aa AND NOT 0x10, aa AND NOT 0x10, adv7513_int_mask_to_long m, g)"
  have start: "hdmi_at f ?q (s\<lparr>adv7513_encoder := (adv7513_encoder s)\<lparr>int_mask := adv7513_int_mask_to_long m\<rparr>,
      alt_irq_active := alt_irq_active s AND NOT 0x10, ienable := alt_irq_active s AND NOT 0x10\<rparr>)"
    using s by (simp add: hdmi_at_def hdmi_ready_def adv_ready_def ready_def irq_view_def)
  have im: "int_mask (adv7513_encoder s') = adv7513_int_mask_to_long m" if "hdmi_at f' ?q s'" for f' s'
    using that by (simp add: hdmi_at_def irq_view_def)
  let ?f = "f(0x92 := 0, 0x94 := 0, 0x95 := 0)"
  have "wp (checked_writes bus [(0x93, 0xff), (0x96, 0xff), (0x97, 0xff)]) (\<lambda>r s'. if r \<noteq> 0 then Q (- 1) s'
      else hdmi_at ?f ?q s') s'"
    if "hdmi_at ?f ?q s'" for s'
    by (rule wp_at_writes [OF that]) (simp add: flags_volatile)
  note flags = wp_mono [OF this]
  have clr: "wp (checked_writes bus [(0x92, 0), (0x94, 0), (0x95, 0)]) (\<lambda>r s'. if r \<noteq> 0 then Q (- 1) s'
      else hdmi_at ?f ?q s') s'"
    if "hdmi_at f ?q s'" for s'
    by (rule wp_at_writes [OF that]) (simp add: masks_rw)
  show ?thesis
    unfolding adv7513_int_setup_def DISABLE_HDMI_IRQ_def HDMI_TX_INT_N_IRQ_def wp_bnd set_ec_wp
      wp_alt_ic_irq_disable
  proof (rule wp_mono [OF clr])
    show "hdmi_at f ?q (s\<lparr>adv7513_encoder := (adv7513_encoder s)\<lparr>int_mask := adv7513_int_mask_to_long m\<rparr>,
      alt_irq_active := alt_irq_active (s\<lparr>adv7513_encoder := (adv7513_encoder s)\<lparr>int_mask := adv7513_int_mask_to_long m\<rparr>\<rparr>) AND NOT (push_bit 4 1),
      ienable := alt_irq_active (s\<lparr>adv7513_encoder := (adv7513_encoder s)\<lparr>int_mask := adv7513_int_mask_to_long m\<rparr>\<rparr>) AND NOT (push_bit 4 1)\<rparr>)"
      using start by (simp add: push_bit_eq_mult)
  next
    fix rr :: int and s'
    assume "if rr \<noteq> 0 then Q (- 1) s' else hdmi_at ?f ?q s'"
    then show "wp (if rr \<noteq> 0 then ret (- 1) else
        bnd (CLEAR_HDMI_IRQ_FLAG bus) (\<lambda>_.
        bnd (checked_writes bus [(0x93, 0xff), (0x96, 0xff), (0x97, 0xff)]) (\<lambda>r.
        if r \<noteq> 0 then ret (- 1) else
        bnd (gets (\<lambda>s. int_mask (adv7513_encoder s))) (\<lambda>im.
        if 0 < im then
          bnd (if Some h \<noteq> None then REGISTER_HDMI_ISR (Some h) else ret 0) (\<lambda>r.
          if r \<noteq> 0 then ret (- 1) else
          bnd (checked_writes bus [(0x92, uint (reg92 m)), (0x94, uint (reg94 m)), (0x95, uint (reg95 m))])
            (\<lambda>r. if r \<noteq> 0 then ret (- 1) else bnd (ENABLE_HDMI_IRQ bus) (\<lambda>_. ret 0)))
        else ret 0)))) Q s'"
      using m im Q
      by (auto simp: wp_simps(1) wp_bnd [of "CLEAR_HDMI_IRQ_FLAG bus"] wp_bnd [of "checked_writes bus _"]
          wp_bnd [of "gets _"] wp_gets word_gt_0 intro!: wp_at_clear flags wp_at_arm [where aa = aa] split: if_splits)
  qed
qed

lemma wp_adv7513_init:
  assumes s: "ready s"
    and Q: "\<And>s'. hdmi_at (adv_upd 0x41 0x40 0 ((adv_file s)(0x92 := 0, 0x94 := 0xC0, 0x95 := 0)))
      ((alt_irq s)(4 := Some Adv7513_int_handler), alt_irq_active s OR 0x10, alt_irq_active s OR 0x10,
       0xC000, (regs_of s)(0x201048 := 1)) s' \<Longrightarrow> Q 0 s'"
  shows "wp (adv7513_init bus) Q s"
proof -
  let ?m = "\<lparr>reg92 = 0, reg94 = push_bit INT_HPD_BIT 1 OR push_bit INT_MONITOR_SENSE_BIT 1, reg95 = 0\<rparr>"
  let ?q = "(alt_irq s, alt_irq_active s, ienable s, int_mask (adv7513_encoder s), regs_of s)"
  have m: "adv7513_int_mask_to_long ?m = 0xC000" "(ucast (reg94 ?m) :: u8) = 0xC0"
    "reg92 ?m = 0" "reg95 ?m = 0"
    by (simp_all add: adv7513_int_mask_to_long_def INT_HPD_BIT_def INT_MONITOR_SENSE_BIT_def push_bit_eq_mult)
  have c: "hdmi_at f q (s\<lparr>console := x\<rparr>) = hdmi_at f q s" for f q s x
    by (simp add: hdmi_at_def hdmi_ready_def adv_ready_def ready_def irq_view_def)
  have start: "hdmi_at (adv_file s) ?q (s\<lparr>adv7513_encoder := (adv7513_encoder s)
      \<lparr>slave_addr := ADV7513_SALVE_ADDR8, edid_addr := ADV7513_EDID_ADDR8, hpd := 0\<rparr>\<rparr>)"
    using s by (simp add: hdmi_at_def hdmi_ready_def adv_ready_def ready_def irq_view_def adv_consts)
  have pw: "wp (printf fmt args) R s' = R () (s'\<lparr>console := console s' @ [Printf fmt args]\<rparr>)" for fmt args R s'
    by (simp add: printf_def wp_simps)
  have arm: "wp (adv7513_int_setup bus ?m (Some Adv7513_int_handler)) R s'"
    if "hdmi_at (adv_file s) ?q s'"
      and "\<And>s''. hdmi_at ((adv_file s)(0x92 := 0, 0x94 := 0xC0, 0x95 := 0))
        ((alt_irq s)(4 := Some Adv7513_int_handler), alt_irq_active s OR 0x10, alt_irq_active s OR 0x10,
         0xC000, (regs_of s)(0x201048 := 1)) s'' \<Longrightarrow> R 0 s''" for R s'
    by (rule wp_int_setup [OF that(1)]) (use that(2) m in \<open>simp_all add: m\<close>)
  show ?thesis
    unfolding adv7513_init_def wp_bnd set_ec_wp pw
    by (rule wp_mono [OF wp_chip_identify [where f = "adv_file s" and q = ?q]])
      (use start Q in \<open>auto simp: wp_simps pw c simp del: push_bit_of_1 intro!: arm wp_at_power_on\<close>)
qed

end

text \<open>
  C8.  Driver initialisation: with a responding transmitter \<open>adv7513_init\<close> returns 0, whatever
  the encoder structure held.  Afterwards the slave addresses are set, the chip is powered and
  unmasks exactly hot plug and monitor sense, the driver's copy of the masks agrees, the handler
  is entered in the table of the HAL, its interrupt is enabled there and in the line's PIO core, and
  no other interrupt and no other register of the fabric has changed.
\<close>

theorem adv7513_init_arms_interrupt:
  assumes "adv_slave (env_wr env) (cx_srd env) rfile asel rw"
    and "adv_cfg \<subseteq> rw" "0x93 \<notin> rw" "0x96 \<notin> rw" "0x97 \<notin> rw" "cx_ready s"
  shows "\<exists>s'. adv7513_init (cx_bus env) s = Some (0, s') \<and> cx_ready s' \<and> ec_ready s' \<and>
    rfile (chips (dev s')) = (rfile (chips (dev s)))
      (0x92 := 0, 0x94 := 0xC0, 0x95 := 0, 0x41 := rfile (chips (dev s)) 0x41 AND NOT 0x40) \<and>
    adv7513_long_to_int_mask (int_mask (adv7513_encoder s')) = \<lparr>reg92 = 0, reg94 = 0xC0, reg95 = 0\<rparr> \<and>
    alt_irq s' = (alt_irq s)(HDMI_TX_INT_N_IRQ := Some Adv7513_int_handler) \<and>
    ienable s' = alt_irq_active s OR push_bit HDMI_TX_INT_N_IRQ 1 \<and>
    regs (dev s') = (regs (dev s))(HDMI_IRQ_MASK_ADDR := HDMI_TX_INT_MASK)"
proof -
  note ab = adv_on_cx [OF assms(1-5)]
  have "wp (adv7513_init (cx_bus env)) (\<lambda>r s'. r = 0 \<and> cx_ready s' \<and> ec_ready s' \<and>
    rfile (chips (dev s')) = (rfile (chips (dev s)))
      (0x92 := 0, 0x94 := 0xC0, 0x95 := 0, 0x41 := rfile (chips (dev s)) 0x41 AND NOT 0x40) \<and>
    int_mask (adv7513_encoder s') = 0xC000 \<and> alt_irq s' = (alt_irq s)(4 := Some Adv7513_int_handler) \<and>
    ienable s' = alt_irq_active s OR 0x10 \<and> regs (dev s') = (regs (dev s))(0x201048 := 1)) s"
    by (rule adv_board.wp_adv7513_init [OF ab])
      (use assms(6) in \<open>auto simp: cx_ready_iff adv_board.hdmi_at_def [OF ab] hdmi_ready_cx [OF ab]
        adv_board.irq_view_def [OF ab] adv_upd_def upd_bits_def\<close>)
  then show ?thesis
    by (auto simp: wp_run adv7513_long_to_int_mask_def HDMI_IRQ_MASK_ADDR_def HDMI_TX_INT_MASK_def
        HDMI_TX_INT_N_IRQ_def push_bit_eq_mult)
qed

theorem adv7513_init_arms_interrupt_witness:
  "\<exists>s'. adv7513_init (cx_bus (board_env 1)) (board_at_rest []) = Some (0, s') \<and> ienable s' = 16 \<and>
     b_adv (chips (dev s')) 0x94 = 0xC0"
  using adv7513_init_arms_interrupt [OF board_env_adv order_refl adv_cfg_volatile board_at_rest_ready, of 1 "[]"]
  by (auto simp: HDMI_TX_INT_N_IRQ_def board_at_rest_def)

section \<open>Power state and interrupt flag\<close>

text \<open>
  The power state is never reported as off: after the driver itself has powered the
  transmitter down, and the register says so, \<open>adv7513_power_state\<close> answers success and
  \<open>1\<close>.  The source compares the masked register with 1 where the bit has the value \<open>0x40\<close>.
\<close>

lemma power_down_reported_as_on:
  assumes "adv_slave (env_wr env) (cx_srd env) rfile asel rw"
    and "adv_cfg \<subseteq> rw" "0x93 \<notin> rw" "0x96 \<notin> rw" "0x97 \<notin> rw" "cx_ready s" "ec_ready s"
  shows "\<exists>s'. bnd (adv7513_do_hpd_powerdown (cx_bus env)) (\<lambda>_. adv7513_power_state (cx_bus env) p) s =
      Some ((0, 1), s') \<and> rfile (chips (dev s')) 0x41 AND 0x40 = 0x40"
proof -
  note ab = adv_on_cx [OF assms(1-5)]
  note ch = adv_board.axioms(1) [OF ab]
  have down: "does (adv_chip.adv_ready (cx_bus env) cx_live) (\<lambda>s. rfile (chips (ctl.truncate (dev s))))
      (adv7513_do_hpd_powerdown (cx_bus env)) (adv_upd 0x41 0x40 0x40)"
    unfolding adv7513_do_hpd_powerdown_def
    by (rule does_eq [OF does_Cons [OF adv_chip.update_does [OF ch assms(2) refl _ refl refl] does_Nil]])
      (simp_all add: adv_cfg_def)
  have h: "adv_board.hdmi_ready (cx_bus env) cx_live ctl.truncate rfile (rfile (chips (dev s))) s"
    using assms(6,7) by (simp add: hdmi_ready_cx [OF ab])
  have "wp (bnd (adv7513_do_hpd_powerdown (cx_bus env)) (\<lambda>_. adv7513_power_state (cx_bus env) p))
     (\<lambda>r s'. r = (0, 1) \<and> rfile (chips (dev s')) 0x41 AND 0x40 = 0x40) s"
    unfolding wp_bnd
    by (rule adv_board.wp_does [OF ab down h], rule adv_board.wp_power_state [OF ab], assumption)
      (simp add: hdmi_ready_cx [OF ab] adv_upd_def upd_bits_in)
  then show ?thesis by (auto simp: wp_run)
qed

text \<open>
  Clearing the interrupt flag has no effect: the driver stores 0 in the edge-capture register,
  which the PIO core clears only for bits written as 1, so a pending edge is still pending and
  nothing else has changed either.
\<close>

lemma clear_hdmi_irq_flag_no_effect:
  "CLEAR_HDMI_IRQ_FLAG (cx_bus env) s = Some ((), s) \<and>
   (\<exists>s'. bnd (CLEAR_HDMI_IRQ_FLAG (cx_bus env)) (\<lambda>_. GET_HDMI_IRQ_STATUS (cx_bus env)) s =
     Some (regs (dev s) HDMI_EDGE_CAP_ADDR AND 1, s'))"
  by (simp add: CLEAR_HDMI_IRQ_FLAG_def GET_HDMI_IRQ_STATUS_def pio_macros HDMI_TX_INT_N_BASE_def
      HDMI_TX_INT_MASK_def IOWR_32DIRECT_def IORD_32DIRECT_def modify_def bnd_def ret_def cx_wr_def
      cx_rd_def HDMI_EDGE_CAP_ADDR_def cx_cache_idx_def)

section \<open>The EDID\<close>

text \<open>
  What the driver relies on of the EDID memory of the transmitter at address \<open>0x7e\<close>: a one-byte
  write selects one of 256 bytes and a one-byte read returns it.
\<close>

locale edid_slave =
  fixes swr :: "'c slave_wr" and srd :: "'c slave_rd"
    and img :: "'c \<Rightarrow> u8 list" and esel :: "'c \<Rightarrow> u8"
  assumes img_len: "length (img c) = 256"
    and edid_select: "\<exists>c'. swr 0x7e [b] True False c = (True, c') \<and> esel c' = b \<and> img c' = img c"
    and edid_fetch: "\<exists>c'. srd 0x7e (Suc 0) True True c = (True, [img c ! unat (esel c)], c') \<and> img c' = img c"

locale edid_chip = i2c_master bus live view swr srd + edid_slave swr srd img esel
  for bus :: "'d bus" and live :: "'d \<Rightarrow> bool" and view :: "'d \<Rightarrow> 'c ctl"
    and swr :: "'c slave_wr" and srd :: "'c slave_rd" and img :: "'c \<Rightarrow> u8 list" and esel :: "'c \<Rightarrow> u8"
begin

lemma wp_edid_byte:
  assumes "ready s"
    and Q: "\<And>d' v. live d' \<Longrightarrow> \<not> i2c_busy bus d' \<Longrightarrow> img (chips (view d')) = img (chips_of s) \<Longrightarrow>
      Q (0, img (chips_of s) ! unat (word_of_int i :: u8)) (s\<lparr>dev := d', adv7513_i2c_bffr := v\<rparr>)"
  shows "wp (i2c_read_byte bus 0x7e i old) Q s"
proof -
  let ?r = "word_of_int i :: u8"
  define b where "b = (bytes_of (adv7513_i2c_bffr s))[0 := ?r]"
  have b: "length b = 2" "bytes_of (val_of b) = b" "take (Suc 0) b = [?r]"
    by (simp_all add: b_def bytes_of_val_of) (simp add: bytes_of_def)
  have set: "set_bffr_byte0 (word_of_int (i AND 0xff)) s = s\<lparr>adv7513_i2c_bffr := val_of b\<rparr>"
    by (simp add: set_bffr_byte0_def b_def byte_and_ff)
  obtain c1 where c1: "swr 0x7e (take (Suc 0) b) True False (chips_of s) = (True, c1)"
      "esel c1 = ?r" "img c1 = img (chips_of s)"
    using edid_select [of ?r "chips_of s"] unfolding b(3) by blast
  obtain c2 where c2: "srd 0x7e (Suc 0) True True c1 = (True, [img (chips_of s) ! unat ?r], c2)"
      "img c2 = img (chips_of s)"
    using edid_fetch [of c1] c1 by auto
  have x: "bytes_of (val_of (x # drop (Suc 0) b)) ! 0 = x" for x
    using b(1) by (simp add: bytes_of_val_of)
  show ?thesis
    unfolding i2c_read_byte_def wp_bnd wp_modify wp_gets set
    using assms(1) c1 c2 Q b(1,2) x
    by (auto simp: wp_simps ready_def
        intro!: wp_i2c_xtn_write [where ack = True and c' = c1]
          wp_i2c_xtn_read [where ack = True and c' = c2 and bs = "[img (chips_of s) ! unat ?r]"])
qed

lemma wp_read_edid:
  assumes "ready s" "edid_addr (adv7513_encoder s) = 0x7e" "k + length is \<le> length buf"
  shows "wp (read_bytes bus ec_edid is k buf) (\<lambda>r s'. ready s' \<and>
    r = (0, take k buf @ map (\<lambda>i. img (chips_of s) ! unat (word_of_int i :: u8)) is @ drop (k + length is) buf)) s"
  using assms
proof (induction "is" arbitrary: k buf s)
  case Nil
  then show ?case by (simp add: wp_simps)
next
  case (Cons i js)
  have e: "ec_edid s = 0x7e" using Cons.prems by (simp add: ec_edid_def)
  have buf: "take (Suc k) (buf[k := x]) = take k buf @ [x]" for x
    using Cons.prems by (simp add: take_Suc_conv_app_nth)
  show ?case
    unfolding read_bytes.simps wp_bnd wp_gets e
  proof (rule wp_edid_byte [OF Cons.prems(1)])
    fix d' v
    let ?x = "img (chips_of s) ! unat (word_of_int i :: u8)"
    let ?s = "s\<lparr>dev := d', adv7513_i2c_bffr := v\<rparr>"
    assume d: "live d'" "\<not> i2c_busy bus d'" "img (chips (view d')) = img (chips_of s)"
    have "wp (read_bytes bus ec_edid js (Suc k) (buf[k := ?x])) (\<lambda>r s'. ready s' \<and>
      r = (0, take (Suc k) (buf[k := ?x]) @ map (\<lambda>i. img (chips_of ?s) ! unat (word_of_int i :: u8)) js @
        drop (Suc k + length js) (buf[k := ?x]))) ?s"
      using Cons.prems d by (intro Cons.IH) (auto simp: ready_def)
    then show "wp (case (0, ?x) of (r, v) \<Rightarrow> if r \<noteq> 0 then ret (- 1, buf)
        else read_bytes bus ec_edid js (Suc k) (buf[k := v])) (\<lambda>r s'. ready s' \<and>
        r = (0, take k buf @ map (\<lambda>i. img (chips_of s) ! unat (word_of_int i :: u8)) (i # js) @
          drop (k + length (i # js)) buf)) ?s"
      using d by (simp add: buf)
  qed
qed

end

lemma edid_on_cx:
  "edid_slave (env_wr env) (cx_srd env) img esel \<Longrightarrow>
   edid_chip (cx_bus env) cx_live ctl.truncate (env_wr env) (cx_srd env) img esel"
  using cx.i2c_master_axioms by (rule edid_chip.intro)

definition b_edid_img :: "board \<Rightarrow> u8 list" where
  "b_edid_img c = map (\<lambda>i. if i < length (b_edid c) then b_edid c ! i else 0xff) [0..<256]"

lemma board_edid: "edid_slave board_wr (cx_srd (board_env lat)) b_edid_img b_edid_sel"
proof
  fix c :: board
  have "unat (b_edid_sel c) < 256" using unsigned_less [of "b_edid_sel c", where 'a = nat] by simp
  then show "\<exists>c'. cx_srd (board_env lat) 0x7e (Suc 0) True True c =
      (True, [b_edid_img c ! unat (b_edid_sel c)], c') \<and> b_edid_img c' = b_edid_img c"
    by (simp add: board_srd board_rd_def b_edid_img_def del: upt_rec_numeral)
qed (simp_all add: board_wr_def b_edid_img_def)

interpretation bd: edid_chip "cx_bus (board_env lat)" cx_live ctl.truncate board_wr
    "cx_srd (board_env lat)" b_edid_img b_edid_sel
  for lat
  using edid_on_cx [of "board_env lat"] board_edid [of lat] by simp

lemma segment_image:
  assumes "length xs = 256"
  shows "map (\<lambda>i. xs ! unat (word_of_int i :: u8)) [seg * 256..(seg + 1) * 256 - 1] = xs"
proof (rule nth_equalityI)
  have l: "length [seg * 256..(seg + 1) * 256 - 1] = 256" by simp
  show "length (map (\<lambda>i. xs ! unat (word_of_int i :: u8)) [seg * 256..(seg + 1) * 256 - 1]) = length xs"
    using assms by simp
  fix k assume "k < length (map (\<lambda>i. xs ! unat (word_of_int i :: u8)) [seg * 256..(seg + 1) * 256 - 1])"
  then have k: "k < 256" by simp
  have "unat (word_of_int (seg * 256 + int k) :: u8) = k"
    using k by (simp add: unat_eq_nat_uint uint_word_of_int del: of_int_add of_int_mult)
  then show "map (\<lambda>i. xs ! unat (word_of_int i :: u8)) [seg * 256..(seg + 1) * 256 - 1] ! k = xs ! k"
    using k by (simp add: nth_upto del: of_int_add of_int_mult)
qed



section \<open>Hot plug\<close>

text \<open>The four values of the two sense bits.\<close>

definition sense_values :: "int set" where
  "sense_values = {0, 0x20, 0x40, 0x60}"

lemma sense_masked: "uint (regv :: u8) AND 0x60 \<in> sense_values"
proof -
  have "list_all (\<lambda>x :: int. x AND 0x60 \<in> sense_values) [0..255]"
    by code_simp
  moreover have "uint regv \<in> set [0..255]"
    using unsigned_less [of regv, where 'a = int] by simp
  ultimately show ?thesis by (simp add: list_all_iff del: set_upto)
qed

lemma sense_class:
  "list_all (\<lambda>now. list_all (\<lambda>prev :: int.
     (if now XOR prev \<noteq> 0 \<and> now AND 0x60 = 0x60 then 1 :: int
      else if (now XOR prev) AND 0x20 \<noteq> 0 \<and> now AND 0x20 = 0 then - 1
      else if (now XOR prev) AND 0x40 \<noteq> 0 \<and> now AND 0x40 = 0 then - 1 else 0) =
     (if now = 0x60 \<and> prev \<noteq> 0x60 then 1 else if prev AND NOT now \<noteq> 0 then - 1 else 0))
     [0, 0x20, 0x40, 0x60]) [0, 0x20, 0x40, 0x60]"
  by code_simp

lemma hpd_refresh_class:
  fixes regv :: u8
  assumes "hpd_prev ec \<in> sense_values"
  defines "now \<equiv> uint regv AND 0x60"
  shows "hpd_refresh regv ec = ec\<lparr>hpd_latest := now, hpd_event := now XOR hpd_prev ec,
    hpd := (if now = 0x60 \<and> hpd_prev ec \<noteq> 0x60 then 1
            else if hpd_prev ec AND NOT now \<noteq> 0 then - 1 else 0)\<rparr>"
proof -
  have "now \<in> set [0, 0x20, 0x40, 0x60]" "hpd_prev ec \<in> set [0, 0x20, 0x40, 0x60]"
    using sense_masked [of regv] assms(1) by (auto simp: now_def sense_values_def)
  note cl = sense_class [unfolded list_all_iff, THEN bspec, OF this(1), THEN bspec, OF this(2)]
  have c: "HPD_MS = 0x60" "uint ADV7513_STATUS_HPD = 0x40" "uint ADV7513_STATUS_MONITOR_SENSE = 0x20"
    by (simp_all add: HPD_MS_def adv_consts)
  show ?thesis
    unfolding hpd_refresh_def Let_def c now_def [symmetric] cl [symmetric]
    ..
qed



section \<open>Video format\<close>

text \<open>Masked bits and rest of the registers chip initialisation updates.\<close>

definition chip_init_fields :: "bool \<Rightarrow> (u8 \<times> u8 \<times> u8) list" where
  "chip_init_fields hdmi =
     [(0x15, 0x0f, 0), (0x16, 0xbd, 0x30), (0x17, 0x02, 0), (0x18, 0x80, 0),
      (0xaf, 0x82, if hdmi then 0x02 else 0), (0x40, 0x80, if hdmi then 0x80 else 0),
      (0x4c, 0x0f, 0x04), (0x44, 0x10, 0x10), (0x4a, 0xc0, 0x80), (0x55, 0x70, 0x10),
      (0x56, 0xff, 0x18), (0x57, 0xff, 0), (0x59, 0xff, 0), (0x5a, 0xff, 0), (0x5b, 0xff, 0),
      (0x5c, 0xff, 0), (0x5d, 0xff, 0), (0x5e, 0xff, 0), (0x5f, 0xff, 0), (0x60, 0xff, 0), (0x61, 0xff, 0)]"

lemma upd_bits_twice:
  "upd_bits m v (upd_bits k u w) AND (m OR k) = (v AND m) OR (u AND k AND NOT m)"
  "upd_bits m v (upd_bits k u w) AND NOT (m OR k) = w AND NOT (m OR k)"
  by (rule bit_word_eqI; auto simp: upd_bits_def bit_simps)+

lemma upd_bits_clear:
  "(upd_bits m v w AND NOT k) AND (m OR k) = v AND m AND NOT k"
  "(upd_bits m v w AND NOT k) AND NOT (m OR k) = w AND NOT (m OR k)"
  by (rule bit_word_eqI; auto simp: upd_bits_def bit_simps)+

lemma chip_init_regs_fields:
  "list_all (\<lambda>(r, m, v). chip_init_regs hdmi f r AND m = v \<and>
     chip_init_regs hdmi f r AND NOT m = f r AND NOT m) (chip_init_fields hdmi)"
proof -
  have out: "upd_bits m v w AND NOT m = w AND NOT m" for m v w :: u8 by (rule upd_bits_out)
  have full: "(x :: u8) AND - 256 = 0" for x
  proof -
    have "(- 256 :: u8) = 0" by simp
    then show ?thesis by (simp only: and_zero_eq)
  qed
  show ?thesis
    using upd_bits_twice [of "0x80" 0 "0x3d" "0x30" "f 0x16"] upd_bits_clear [of "0xc0" "0xc0" "f 0x4a" "0x40"]
    by (simp add: chip_init_fields_def chip_init_regs_def avi_regs_def Let_def adv_upd_def full
        upd_bits_in out [of "0x0f", simplified] out [of "0x02", simplified] out [of "0x80", simplified]
        out [of "0x82", simplified] out [of "0x10", simplified] out [of "0x70", simplified])
qed

lemma chip_init_regs_frame:
  "r \<notin> fst ` set (chip_init_fields hdmi) \<Longrightarrow> chip_init_regs hdmi f r = f r"
  by (simp add: chip_init_fields_def chip_init_regs_def avi_regs_def Let_def adv_upd_def)



end
