(* ===== verification/Ledos_System.thy ===== *)
theory Ledos_System
  imports Hdmi_System
begin

text \<open>
  The whole application on the fabric: that \<^verbatim>\<open>main\<close> and the interrupt handler end whatever the
  chips do, and what \<^verbatim>\<open>main\<close> leaves behind when both chips keep their contracts.  For the second,
  traffic to one chip must not disturb the other: \<open>quiet\<close> says so of an observation of the chips.
\<close>

section \<open>Traffic that an observation does not see\<close>

definition quiet :: "'c env \<Rightarrow> ('c \<Rightarrow> 'o) \<Rightarrow> u8 \<Rightarrow> bool" where
  "quiet env obs a \<longleftrightarrow>
     (\<forall>bs st sp c. obs (snd (env_wr env a bs st sp c)) = obs c) \<and>
     (\<forall>n st sp c. obs (snd (snd (cx_srd env a n st sp c))) = obs c)"

text \<open>The idle fabric with a given observation, and the rest of the machine in a given state.\<close>

definition seen :: "('c \<Rightarrow> 'o) \<Rightarrow> 'o \<Rightarrow> (hdmi_encoder \<Rightarrow> (nat \<Rightarrow> isr option) \<Rightarrow> u32 \<Rightarrow> u32 \<Rightarrow> bool) \<Rightarrow>
    'c cortex_dev mach \<Rightarrow> bool" where
  "seen obs x P s \<longleftrightarrow> cx_ready s \<and> obs (chips (dev s)) = x \<and>
     P (adv7513_encoder s) (alt_irq s) (alt_irq_active s) (ienable s)"

lemma keeps_modify_inv: "(\<And>s. I s \<Longrightarrow> I (f s)) \<Longrightarrow> keeps I (modify f)"
  by (simp add: keeps_def wp_simps)

lemma keeps_seen_xtn:
  assumes "quiet env obs (a AND 0xFE)" "n \<le> 4" "unat n \<le> length data"
  shows "keeps (seen obs x P) (i2c_xtn_write (cx_bus env) a data n st sp)"
    and "keeps (seen obs x P) (i2c_xtn_read (cx_bus env) a data n st sp)"
proof -
  show "keeps (seen obs x P) (i2c_xtn_write (cx_bus env) a data n st sp)"
  proof (rule keepsI)
    fix s assume s: "seen obs x P s"
    obtain ack c' where w: "env_wr env (a AND 0xFE) (take (unat n) data) (bit st 0) (bit sp 0) (chips (dev s)) = (ack, c')"
      by (cases "env_wr env (a AND 0xFE) (take (unat n) data) (bit st 0) (bit sp 0) (chips (dev s))")
    then have "obs c' = obs (chips (dev s))" using assms(1) by (metis quiet_def snd_conv)
    then show "wp (i2c_xtn_write (cx_bus env) a data n st sp) (\<lambda>_ s'. seen obs x P s') s"
      using s assms w by (intro cx.wp_i2c_xtn_write [where ack = ack and c' = c'])
        (auto simp: seen_def cx_ready_iff cx_ready_def)
  qed
  show "keeps (seen obs x P) (i2c_xtn_read (cx_bus env) a data n st sp)"
  proof (rule keepsI)
    fix s assume s: "seen obs x P s"
    obtain ack bs c' where w: "cx_srd env (a AND 0xFE) (unat n) (bit st 0) (bit sp 0) (chips (dev s)) = (ack, bs, c')"
      by (cases "cx_srd env (a AND 0xFE) (unat n) (bit st 0) (bit sp 0) (chips (dev s))")
    then have "obs c' = obs (chips (dev s))" using assms(1) by (metis quiet_def snd_conv)
    then show "wp (i2c_xtn_read (cx_bus env) a data n st sp) (\<lambda>_ s'. seen obs x P s') s"
      using s assms w by (intro cx.wp_i2c_xtn_read [where ack = ack and bs = bs and c' = c'])
        (auto simp: seen_def cx_ready_iff cx_ready_def)
  qed
qed

lemma keeps_seen_print [inv_intros]:
  "keeps (seen obs x P) (alt_printf fmt args)" "keeps (seen obs x P) (printf fmt pargs)"
  "keeps (seen obs x P) (alt_putstr str)"
  by (simp_all add: keeps_def wp_simps printf_def seen_def cx_ready_def)

lemma seen_bffr [simp]:
  "seen obs x P (s\<lparr>aud_codec_i2c_bffr := v\<rparr>) = seen obs x P s"
  "seen obs x P (s\<lparr>adv7513_i2c_bffr := v\<rparr>) = seen obs x P s"
  by (simp_all add: seen_def cx_ready_def)

text \<open>Codec traffic, seen by an observation that is quiet at the codec's address.\<close>

lemma keeps_seen_codec_write:
  assumes "quiet env obs 0x34"
  shows "keeps (seen obs x P) (aud_codec_write_reg (cx_bus env) r v)"
proof -
  have w: "keeps (seen obs x P) (i2c_xtn_write (cx_bus env) AUD_CODEC_I2C_WRITE_ADDR (rev (bytes_of u)) 2 1 1)" for u
    using assms by (intro keeps_seen_xtn) (simp_all add: codec_consts)
  show ?thesis
    unfolding aud_codec_write_reg_def
    by (rule keepsI) (simp add: wp_simps byte_rev_pair keepsD [OF w])
qed

lemma keeps_seen_codec_read:
  assumes "quiet env obs 0x34"
  shows "keeps (seen obs x P) (aud_codec_read_reg (cx_bus env) r)"
  unfolding aud_codec_read_reg_def
  using assms by (intro inv_intros keeps_modify_inv keeps_seen_xtn) (simp_all add: codec_consts)

lemma keeps_seen_codec_init:
  assumes "quiet env obs 0x34"
  shows "keeps (seen obs x P) (aud_codec_init (cx_bus env) bps)"
proof -
  have u: "keeps (seen obs x P) (aud_codec_update_field (cx_bus env) v F)" for v F
    unfolding aud_codec_update_field_def
    by (intro inv_intros keeps_modify_inv keeps_seen_codec_read [OF assms]
        keeps_seen_codec_write [OF assms]) simp_all
  show ?thesis
    unfolding aud_codec_init_def aud_codec_reset_def aud_codec_update_iwl_def
    by (intro inv_intros u keeps_seen_codec_write [OF assms])
qed

text \<open>HDMI traffic during initialisation, seen by an observation that is quiet at \<open>0x72\<close>.\<close>

definition at_72 :: "hdmi_encoder \<Rightarrow> (nat \<Rightarrow> isr option) \<Rightarrow> u32 \<Rightarrow> u32 \<Rightarrow> bool" where
  "at_72 ec irq act en \<longleftrightarrow> slave_addr ec = 0x72"

lemma keeps_seen_reg:
  assumes "quiet env obs 0x72"
  shows "keeps (seen obs x at_72) (reg_read (cx_bus env) reg old)"
    and "keeps (seen obs x at_72) (reg_write (cx_bus env) reg data)"
proof -
  have x: "keeps (seen obs x at_72) (i2c_xtn_write (cx_bus env) 0x72 (bytes_of u) n 1 p)"
    "keeps (seen obs x at_72) (i2c_xtn_read (cx_bus env) 0x72 (bytes_of u) n 1 p)" if "n = 1 \<or> n = 2" for u n p
    using assms that by (auto intro!: keeps_seen_xtn)
  have g: "ec_slave s = 0x72" if "seen obs x at_72 s" for s
    using that by (simp add: seen_def at_72_def ec_slave_def)
  have r: "keeps (seen obs x at_72) (i2c_read_byte (cx_bus env) 0x72 reg old)"
    unfolding i2c_read_byte_def
    by (intro inv_intros keeps_modify_inv x) (simp_all add: set_bffr_byte0_def)
  show "keeps (seen obs x at_72) (reg_read (cx_bus env) reg old)"
    by (rule keepsI) (simp add: reg_read_def wp_simps g keepsD [OF r])
  show "keeps (seen obs x at_72) (reg_write (cx_bus env) reg data)"
    unfolding reg_write_def wp_bnd
    by (rule keepsI) (auto simp: wp_simps g intro!: wp_mono [OF keepsD [OF x(1)]])
qed

lemma keeps_seen_irq [inv_intros]:
  "keeps (seen obs x at_72) (alt_ic_irq_enable ic irq)" "keeps (seen obs x at_72) (alt_ic_irq_disable ic irq)"
  "keeps (seen obs x at_72) (alt_ic_isr_register ic irq isr)"
  unfolding alt_ic_irq_enable_def alt_ic_irq_disable_def alt_irq_enable_def alt_irq_disable_def
    alt_ic_isr_register_def alt_iic_isr_register_def
  by (intro inv_intros keeps_modify_inv; simp add: seen_def at_72_def cx_ready_def)+

lemma keeps_seen_pio [inv_intros]:
  "keeps (seen obs x at_72) (CLEAR_HDMI_IRQ_FLAG (cx_bus env))"
  "keeps (seen obs x at_72) (ENABLE_HDMI_IRQ (cx_bus env))"
proof -
  have p: "keeps (seen obs x at_72) (IOWR_32DIRECT (cx_bus env) base a v)"
    if "base + a = 0x201048 \<or> base + a = 0x20104C" for base a v
    using that cx.live_wr
    by (auto simp: keeps_def wp_simps seen_def at_72_def cx_ready_def cx_wr_def
        HDMI_EDGE_CAP_ADDR_def HDMI_IRQ_MASK_ADDR_def cx_plain_def cx_live_def)
  show "keeps (seen obs x at_72) (CLEAR_HDMI_IRQ_FLAG (cx_bus env))"
    "keeps (seen obs x at_72) (ENABLE_HDMI_IRQ (cx_bus env))"
    unfolding CLEAR_HDMI_IRQ_FLAG_def ENABLE_HDMI_IRQ_def pio_macros HDMI_TX_INT_N_BASE_def
    by (intro inv_intros p; simp)+
qed

lemma keeps_seen_hdmi_init:
  assumes "quiet env obs 0x72" "cx_ready s"
  shows "wp (adv7513_init (cx_bus env)) (\<lambda>_ s'. obs (chips (dev s')) = obs (chips (dev s))) s"
proof -
  let ?I = "seen obs (obs (chips (dev s))) at_72"
  note reg = keeps_seen_reg [OF assms(1)]
  have ec: "keeps ?I (set_ec f)" if "\<And>e. slave_addr (f e) = slave_addr e \<or> slave_addr (f e) = 0x72" for f
    unfolding set_ec_def using that
    by (intro keeps_modify_inv) (force simp: seen_def at_72_def cx_ready_def)
  have id: "keeps ?I (adv7513_chip_identify (cx_bus env))"
    unfolding adv7513_chip_identify_def by (intro inv_intros reg ec) simp_all
  have ws: "keeps ?I (checked_writes (cx_bus env) ws)" for ws
    unfolding checked_writes_def by (intro inv_intros) (auto simp: list_all_iff intro: reg)
  have st: "keeps ?I (adv7513_int_setup (cx_bus env) m isr)" for m isr
    unfolding adv7513_int_setup_def DISABLE_HDMI_IRQ_def REGISTER_HDMI_ISR_def
    by (intro inv_intros ws ec) simp_all
  have up: "keeps ?I (adv7513_kick_up (cx_bus env))"
    unfolding adv7513_kick_up_def reg_update_bits_def by (intro inv_intros reg)
  have start: "?I (s\<lparr>adv7513_encoder := (adv7513_encoder s)\<lparr>slave_addr := ADV7513_SALVE_ADDR8,
      edid_addr := ADV7513_EDID_ADDR8, hpd := 0\<rparr>\<rparr>)"
    using assms(2) by (simp add: seen_def cx_ready_def at_72_def adv_consts)
  show ?thesis
    unfolding adv7513_init_def set_ec_def wp_bnd [of "modify _"] wp_modify
    by (rule wp_mono [OF keepsD [where I = ?I, OF _ start]], intro inv_intros id st up)
      (simp add: seen_def)
qed

section \<open>Both chips\<close>

text \<open>The registers of the fabric after \<^verbatim>\<open>init_cortex\<close>; \<open>junk\<close> is the undetermined argument.\<close>

definition cortex_init_regs :: "u32 \<Rightarrow> (u32 \<Rightarrow> u32) \<Rightarrow> u32 \<Rightarrow> u32" where
  "cortex_init_regs junk g = g(0x40000 := 0x1f, 0x10 := 0xff, 0x1020 := 10,
     0x1000 := (g 0x1000 AND 0x3) OR (push_bit 2 junk AND 0xF))"

lemma wp_init_cortex:
  assumes "cx_ready s"
    and "\<And>d'. cx_live d' \<Longrightarrow> busy_ms d' = 0 \<Longrightarrow> chips d' = chips (dev s) \<Longrightarrow>
      regs d' = cortex_init_regs junk (regs (dev s)) \<Longrightarrow> Q () (s\<lparr>dev := d'\<rparr>)"
  shows "wp (init_cortex (cx_bus env) junk) Q s"
proof -
  have b: "((g AND - 13) OR push_bit 2 junk) AND 0xF = (g AND 0x3) OR (push_bit 2 junk AND 0xF)" for g :: u32
    by (simp add: bit.conj_disj_distrib2 and.assoc)
  show ?thesis
    unfolding init_cortex_def init_acortex_def IOWR_RESET_CNTRL_def configure_i2c_clk_def
      configure_drvr_bclk_div_def configure_drvr_bps_def ssm_macros i2c_macros wp_simps
    using assms
    by (auto intro!: assms(2) simp: cx_wr_def cx_rd_def cx_plain_def cx_wmask_def RESET_CNTRL_REG_ADDR_def
        cx_cache_idx_def i2c_consts HDMI_EDGE_CAP_ADDR_def HDMI_IRQ_MASK_ADDR_def cortex_init_regs_def
        cx_ready_def cx_live_def b bclk_div_val_def fun_eq_iff ssm_consts)
qed

lemma wp_hdmi_init_apart:
  assumes adv: "adv_slave (env_wr env) (cx_srd env) rfile asel rw"
      "adv_cfg \<subseteq> rw" "0x93 \<notin> rw" "0x96 \<notin> rw" "0x97 \<notin> rw"
    and "quiet env creg 0x72" "cx_ready s"
    and R: "\<And>s'. \<lbrakk>cx_ready s'; ec_ready s'; creg (chips (dev s')) = creg (chips (dev s));
      rfile (chips (dev s')) = (rfile (chips (dev s)))
        (0x92 := 0, 0x94 := 0xC0, 0x95 := 0, 0x41 := rfile (chips (dev s)) 0x41 AND NOT 0x40);
      alt_irq s' = (alt_irq s)(4 := Some Adv7513_int_handler);
      ienable s' = alt_irq_active s OR 0x10; regs (dev s') = (regs (dev s))(0x201048 := 1)\<rbrakk> \<Longrightarrow> R 0 s'"
  shows "wp (adv7513_init (cx_bus env)) R s"
proof -
  note ab = adv_on_cx [OF adv]
  have "wp (adv7513_init (cx_bus env)) (\<lambda>r s'. r = 0 \<and> cx_ready s' \<and> ec_ready s' \<and>
     rfile (chips (dev s')) = (rfile (chips (dev s)))
        (0x92 := 0, 0x94 := 0xC0, 0x95 := 0, 0x41 := rfile (chips (dev s)) 0x41 AND NOT 0x40) \<and>
     alt_irq s' = (alt_irq s)(4 := Some Adv7513_int_handler) \<and>
     ienable s' = alt_irq_active s OR 0x10 \<and> regs (dev s') = (regs (dev s))(0x201048 := 1)) s"
    by (rule adv_board.wp_adv7513_init [OF ab])
      (use assms(7) in \<open>auto simp: cx_ready_iff adv_board.hdmi_at_def [OF ab] hdmi_ready_cx [OF ab]
        adv_board.irq_view_def [OF ab] adv_upd_def upd_bits_def\<close>)
  with keeps_seen_hdmi_init [OF assms(6,7)] show ?thesis
    using R by (auto simp: wp_run)
qed

lemma wp_codec_init_apart:
  assumes "codec_slave (env_wr env) (cx_srd env) creg csel dflt" "quiet env rfile 0x34" "cx_ready s"
    and R: "\<And>s'. \<lbrakk>cx_ready s'; creg (chips (dev s')) = codec_init_regs (of_nat (bps_val bps)) dflt;
      rfile (chips (dev s')) = rfile (chips (dev s)); regs (dev s') = regs (dev s);
      alt_irq s' = alt_irq s; alt_irq_active s' = alt_irq_active s\<rbrakk> \<Longrightarrow> R () s'"
  shows "wp (aud_codec_init (cx_bus env) bps) R s"
proof -
  let ?P = "\<lambda>ec irq act en. irq = alt_irq s \<and> act = alt_irq_active s"
  have "seen rfile (rfile (chips (dev s))) ?P s" using assms(3) by (simp add: seen_def)
  from keepsD [OF keeps_seen_codec_init [OF assms(2)] this, of bps]
    refines_wp [OF codec_chip.aud_codec_init_refines [OF codec_on_cx [OF assms(1)]], of s bps]
  show ?thesis
    using assms(3) R by (auto simp: wp_run cx_ready_iff seen_def)
qed

lemma adv_quiet_codec: "adv_slave (env_wr env) (cx_srd env) rfile asel rw \<Longrightarrow> quiet env rfile 0x34"
  using adv_slave.other_write adv_slave.other_read by (fastforce simp: quiet_def)


lemma board_apart [simp]: "quiet (board_env lat) b_codec 0x72"
  by (simp add: quiet_def board_wr_def board_srd board_rd_def)


section \<open>Whatever the chips do\<close>

text \<open>
  C22.  \<^verbatim>\<open>main\<close> returns 0 on every fabric of this kind, whatever the chips answer (or if there are
  none) and however long transfers take, even when it starts during a transfer.
\<close>

theorem main_returns:
  assumes "cx_live (dev s)"
  shows "\<exists>s'. main (cx_bus env) junk s = Some (0, s') \<and> cx_live (dev s')"
proof -
  obtain r s' where run: "main (cx_bus env) junk s = Some (r, s')" "cx_live (dev s')"
    using keeps_returns [OF cx.keeps_main] assms by blast
  then have "r = 0"
    by (auto simp: main_def bnd_def ret_def split: option.splits prod.splits)
  with run show ?thesis by simp
qed

theorem main_returns_witness: "\<exists>s'. main (cx_bus (board_env 100)) 5 (board_at_rest []) = Some (0, s')"
  using main_returns [of "board_at_rest []" "board_env 100" 5] board_at_rest_ready [of "[]"]
  by (auto simp: cx_ready_def)



end
