(* ===== verification/Edid_Consts.thy ===== *)
theory Edid_Consts
  imports Ledos_Prelude
begin

text \<open>
  The enumerations of \<^verbatim>\<open>edid.h\<close> and \<^verbatim>\<open>edid_cea.h\<close>.  The structures of the decoder store
  them, and disjunctions of them, in fields of type \<^verbatim>\<open>int\<close>, so they are integers here too.
\<close>

named_theorems edid_consts \<open>values of the EDID enumerations\<close>

section \<open>edid.h and edid\_cea.h\<close>

text \<open>\<^verbatim>\<open>enum eb_video_in_level\<close>\<close>

definition VIL_0P700_0P300_1P000 :: int where "VIL_0P700_0P300_1P000 = 0"
definition VIL_0P714_0P286_1P000 :: int where "VIL_0P714_0P286_1P000 = 1"
definition VIL_1P000_0P400_1P400 :: int where "VIL_1P000_0P400_1P400 = 2"
definition VIL_0P700_0P000_0P700 :: int where "VIL_0P700_0P000_0P700 = 3"

lemmas eb_video_in_level_defs [edid_consts] =
  VIL_0P700_0P300_1P000_def
  VIL_0P714_0P286_1P000_def
  VIL_1P000_0P400_1P400_def
  VIL_0P700_0P000_0P700_def

text \<open>\<^verbatim>\<open>enum eb_video_in_setup\<close>\<close>

definition VIS_BLANK_LEVEL_EQ_BLACK_LEVEL :: int where "VIS_BLANK_LEVEL_EQ_BLACK_LEVEL = 0"
definition VIS_BLANK_TO_BLACK_PEDESTAL :: int where "VIS_BLANK_TO_BLACK_PEDESTAL = 1"

lemmas eb_video_in_setup_defs [edid_consts] =
  VIS_BLANK_LEVEL_EQ_BLACK_LEVEL_def
  VIS_BLANK_TO_BLACK_PEDESTAL_def

text \<open>\<^verbatim>\<open>enum eb_video_in_sync_type\<close>\<close>

definition VIS_SEPERATE_H_V_SYNC :: int where "VIS_SEPERATE_H_V_SYNC = 1"
definition VIS_COMPOSITE_H_SYNC :: int where "VIS_COMPOSITE_H_SYNC = 2"
definition VIS_COMPOSITE_G_VIDEO :: int where "VIS_COMPOSITE_G_VIDEO = 4"

lemmas eb_video_in_sync_type_defs [edid_consts] =
  VIS_SEPERATE_H_V_SYNC_def
  VIS_COMPOSITE_H_SYNC_def
  VIS_COMPOSITE_G_VIDEO_def

text \<open>\<^verbatim>\<open>enum eb_video_in_serration\<close>\<close>

definition VISR_VSYNC :: int where "VISR_VSYNC = 1"

lemmas eb_video_in_serration_defs [edid_consts] =
  VISR_VSYNC_def

text \<open>\<^verbatim>\<open>enum eb_video_in_depth\<close>\<close>

definition VID_NOT_DEFINED :: int where "VID_NOT_DEFINED = 0"
definition VID_6BITS :: int where "VID_6BITS = 1"
definition VID_8BITS :: int where "VID_8BITS = 2"
definition VID_10BITS :: int where "VID_10BITS = 3"
definition VID_12BITS :: int where "VID_12BITS = 4"
definition VID_14BITS :: int where "VID_14BITS = 5"
definition VID_16BITS :: int where "VID_16BITS = 6"

lemmas eb_video_in_depth_defs [edid_consts] =
  VID_NOT_DEFINED_def
  VID_6BITS_def
  VID_8BITS_def
  VID_10BITS_def
  VID_12BITS_def
  VID_14BITS_def
  VID_16BITS_def

text \<open>\<^verbatim>\<open>enum eb_video_in_interface\<close>\<close>

definition VII_NOT_DEFINED :: int where "VII_NOT_DEFINED = 0"
definition VII_DVI :: int where "VII_DVI = 1"
definition VII_HDMI_A :: int where "VII_HDMI_A = 2"
definition VII_HDMI_B :: int where "VII_HDMI_B = 3"
definition VII_MDDI :: int where "VII_MDDI = 4"
definition VII_DISPLAYPORT :: int where "VII_DISPLAYPORT = 5"

lemmas eb_video_in_interface_defs [edid_consts] =
  VII_NOT_DEFINED_def
  VII_DVI_def
  VII_HDMI_A_def
  VII_HDMI_B_def
  VII_MDDI_def
  VII_DISPLAYPORT_def

text \<open>\<^verbatim>\<open>enum eb_feature_support\<close>\<close>

definition FS_PM_STANDBY :: int where "FS_PM_STANDBY = 1"
definition FS_PM_SUSPEND :: int where "FS_PM_SUSPEND = 2"
definition FS_PM_ACTIVE_OFF :: int where "FS_PM_ACTIVE_OFF = 4"
definition FS_DCT_MONO_GRAY :: int where "FS_DCT_MONO_GRAY = 8"
definition FS_DCT_RGB :: int where "FS_DCT_RGB = 16"
definition FS_DCT_NON_RGB :: int where "FS_DCT_NON_RGB = 32"
definition FS_CEF_RGB444 :: int where "FS_CEF_RGB444 = 64"
definition FS_CEF_YCBCR444 :: int where "FS_CEF_YCBCR444 = 128"
definition FS_CEF_YCBCR422 :: int where "FS_CEF_YCBCR422 = 256"
definition FS_OF_SRGB_DEFAULT :: int where "FS_OF_SRGB_DEFAULT = 512"
definition FS_OF_NATIVE_PREFERRED :: int where "FS_OF_NATIVE_PREFERRED = 1024"
definition FS_OF_CONTINUOUS_FREQ :: int where "FS_OF_CONTINUOUS_FREQ = 2048"

lemmas eb_feature_support_defs [edid_consts] =
  FS_PM_STANDBY_def
  FS_PM_SUSPEND_def
  FS_PM_ACTIVE_OFF_def
  FS_DCT_MONO_GRAY_def
  FS_DCT_RGB_def
  FS_DCT_NON_RGB_def
  FS_CEF_RGB444_def
  FS_CEF_YCBCR444_def
  FS_CEF_YCBCR422_def
  FS_OF_SRGB_DEFAULT_def
  FS_OF_NATIVE_PREFERRED_def
  FS_OF_CONTINUOUS_FREQ_def

text \<open>\<^verbatim>\<open>enum eb_standard_timing_aspect\<close>\<close>

definition ST_AR_16_10 :: int where "ST_AR_16_10 = 0"
definition ST_AR_4_3 :: int where "ST_AR_4_3 = 1"
definition ST_AR_5_4 :: int where "ST_AR_5_4 = 2"
definition ST_AR_16_9 :: int where "ST_AR_16_9 = 3"

lemmas eb_standard_timing_aspect_defs [edid_consts] =
  ST_AR_16_10_def
  ST_AR_4_3_def
  ST_AR_5_4_def
  ST_AR_16_9_def

text \<open>\<^verbatim>\<open>enum eb_descriptor_type\<close>\<close>

definition DT_DETAILED_TIMING :: int where "DT_DETAILED_TIMING = 0"
definition DT_DISPLAY_DESCRIPTOR :: int where "DT_DISPLAY_DESCRIPTOR = 1"

lemmas eb_descriptor_type_defs [edid_consts] =
  DT_DETAILED_TIMING_def
  DT_DISPLAY_DESCRIPTOR_def

text \<open>\<^verbatim>\<open>enum eb_descriptor_tag\<close>\<close>

definition DTAG_PRODUCT_SERIAL :: int where "DTAG_PRODUCT_SERIAL = 0xff"
definition DTAG_DATA_STRING :: int where "DTAG_DATA_STRING = 0xfe"
definition DTAG_RANGE_LIMIT :: int where "DTAG_RANGE_LIMIT = 0xfd"
definition DTAG_PRODUCT_NAME :: int where "DTAG_PRODUCT_NAME = 0xfc"
definition DTAG_COLOR_POINT :: int where "DTAG_COLOR_POINT = 0xfb"
definition DTAG_STANDARD_TIMING :: int where "DTAG_STANDARD_TIMING = 0xfa"
definition DTAG_DCM_DATA :: int where "DTAG_DCM_DATA = 0xf9"
definition DTAG_CVT_TIMING :: int where "DTAG_CVT_TIMING = 0xf8"
definition DTAG_ESTABLISHED_TIMING_III :: int where "DTAG_ESTABLISHED_TIMING_III = 0xf7"
definition DTAG_DUMMY :: int where "DTAG_DUMMY = 0x10"

lemmas eb_descriptor_tag_defs [edid_consts] =
  DTAG_PRODUCT_SERIAL_def
  DTAG_DATA_STRING_def
  DTAG_RANGE_LIMIT_def
  DTAG_PRODUCT_NAME_def
  DTAG_COLOR_POINT_def
  DTAG_STANDARD_TIMING_def
  DTAG_DCM_DATA_def
  DTAG_CVT_TIMING_def
  DTAG_ESTABLISHED_TIMING_III_def
  DTAG_DUMMY_def

text \<open>\<^verbatim>\<open>enum eb_stereo_support\<close>\<close>

definition STEREO_NONE :: int where "STEREO_NONE = 0"
definition STEREO_FIELD_SEQUENTIAL_RIGHT_SYNC :: int where "STEREO_FIELD_SEQUENTIAL_RIGHT_SYNC = 2"
definition STEREO_FIELD_SEQUENTIAL_LEFT_SYNC :: int where "STEREO_FIELD_SEQUENTIAL_LEFT_SYNC = 4"
definition STEREO_2WAY_INTERLEAVE_RIGHT_EVEN :: int where "STEREO_2WAY_INTERLEAVE_RIGHT_EVEN = 8"
definition STEREO_2WAY_INTERLEAVE_LEFT_EVEN :: int where "STEREO_2WAY_INTERLEAVE_LEFT_EVEN = 16"
definition STEREO_4WAY_INTERLEAVE :: int where "STEREO_4WAY_INTERLEAVE = 32"
definition STEREO_SIDE_BY_SIDE_INTERLEAVE :: int where "STEREO_SIDE_BY_SIDE_INTERLEAVE = 64"

lemmas eb_stereo_support_defs [edid_consts] =
  STEREO_NONE_def
  STEREO_FIELD_SEQUENTIAL_RIGHT_SYNC_def
  STEREO_FIELD_SEQUENTIAL_LEFT_SYNC_def
  STEREO_2WAY_INTERLEAVE_RIGHT_EVEN_def
  STEREO_2WAY_INTERLEAVE_LEFT_EVEN_def
  STEREO_4WAY_INTERLEAVE_def
  STEREO_SIDE_BY_SIDE_INTERLEAVE_def

text \<open>\<^verbatim>\<open>enum eb_sync_definition\<close>\<close>

definition A_COMPOSITE_SYNC :: int where "A_COMPOSITE_SYNC = 1"
definition A_BIPOLAR_COMPOSITE_SYNC :: int where "A_BIPOLAR_COMPOSITE_SYNC = 2"
definition A_BIPOLAR_SERRATION :: int where "A_BIPOLAR_SERRATION = 4"
definition A_BIPOLAR_SERRATION_SYNC_G :: int where "A_BIPOLAR_SERRATION_SYNC_G = 8"
definition A_BIPOLAR_SERRATION_SYNC_RGB :: int where "A_BIPOLAR_SERRATION_SYNC_RGB = 16"
definition D_COMPOSITE_SYNC :: int where "D_COMPOSITE_SYNC = 32"
definition D_COMPOSITE_SERRATION :: int where "D_COMPOSITE_SERRATION = 64"
definition D_SEPERATE_SYNC :: int where "D_SEPERATE_SYNC = 128"
definition D_SEPERATE_VSYNC_N :: int where "D_SEPERATE_VSYNC_N = 256"
definition D_SEPERATE_VSYNC_P :: int where "D_SEPERATE_VSYNC_P = 512"
definition D_SEPERATE_HSYNC_N :: int where "D_SEPERATE_HSYNC_N = 1024"
definition D_SEPERATE_HSYNC_P :: int where "D_SEPERATE_HSYNC_P = 2048"

lemmas eb_sync_definition_defs [edid_consts] =
  A_COMPOSITE_SYNC_def
  A_BIPOLAR_COMPOSITE_SYNC_def
  A_BIPOLAR_SERRATION_def
  A_BIPOLAR_SERRATION_SYNC_G_def
  A_BIPOLAR_SERRATION_SYNC_RGB_def
  D_COMPOSITE_SYNC_def
  D_COMPOSITE_SERRATION_def
  D_SEPERATE_SYNC_def
  D_SEPERATE_VSYNC_N_def
  D_SEPERATE_VSYNC_P_def
  D_SEPERATE_HSYNC_N_def
  D_SEPERATE_HSYNC_P_def

text \<open>\<^verbatim>\<open>enum eb_v_rate_offset\<close>\<close>

definition VRO_ZERO :: int where "VRO_ZERO = 0"
definition VRO_MAX_255_MIN_ZERO :: int where "VRO_MAX_255_MIN_ZERO = 1"
definition VRO_MAX_255_MIN_255 :: int where "VRO_MAX_255_MIN_255 = 2"

lemmas eb_v_rate_offset_defs [edid_consts] =
  VRO_ZERO_def
  VRO_MAX_255_MIN_ZERO_def
  VRO_MAX_255_MIN_255_def

text \<open>\<^verbatim>\<open>enum eb_h_rate_offset\<close>\<close>

definition HRO_ZERO :: int where "HRO_ZERO = 0"
definition HRO_MAX_255_MIN_ZERO :: int where "HRO_MAX_255_MIN_ZERO = 1"
definition HRO_MAX_255_MIN_255 :: int where "HRO_MAX_255_MIN_255 = 2"

lemmas eb_h_rate_offset_defs [edid_consts] =
  HRO_ZERO_def
  HRO_MAX_255_MIN_ZERO_def
  HRO_MAX_255_MIN_255_def

text \<open>\<^verbatim>\<open>enum eb_timing_flag\<close>\<close>

definition TF_DEFAULT_GTF :: int where "TF_DEFAULT_GTF = 0"
definition TF_RANGE_LIMITS :: int where "TF_RANGE_LIMITS = 1"
definition TF_SECOND_GTF :: int where "TF_SECOND_GTF = 2"
definition TF_CVT :: int where "TF_CVT = 4"

lemmas eb_timing_flag_defs [edid_consts] =
  TF_DEFAULT_GTF_def
  TF_RANGE_LIMITS_def
  TF_SECOND_GTF_def
  TF_CVT_def

text \<open>\<^verbatim>\<open>enum eb_supported_aspect\<close>\<close>

definition CVT_AR_4_3 :: int where "CVT_AR_4_3 = 1"
definition CVT_AR_16_9 :: int where "CVT_AR_16_9 = 2"
definition CVT_AR_16_10 :: int where "CVT_AR_16_10 = 4"
definition CVT_AR_5_4 :: int where "CVT_AR_5_4 = 8"
definition CVT_AR_15_9 :: int where "CVT_AR_15_9 = 16"

lemmas eb_supported_aspect_defs [edid_consts] =
  CVT_AR_4_3_def
  CVT_AR_16_9_def
  CVT_AR_16_10_def
  CVT_AR_5_4_def
  CVT_AR_15_9_def

text \<open>\<^verbatim>\<open>enum eb_cvt_blanking\<close>\<close>

definition CVT_STANDARD_BLANKING :: int where "CVT_STANDARD_BLANKING = 1"
definition CVT_REDUCED_BLANKING :: int where "CVT_REDUCED_BLANKING = 2"

lemmas eb_cvt_blanking_defs [edid_consts] =
  CVT_STANDARD_BLANKING_def
  CVT_REDUCED_BLANKING_def

text \<open>\<^verbatim>\<open>enum eb_cvt_scaling\<close>\<close>

definition CVT_H_SHRINK :: int where "CVT_H_SHRINK = 1"
definition CVT_H_STRETCH :: int where "CVT_H_STRETCH = 2"
definition CVT_V_SHRINK :: int where "CVT_V_SHRINK = 4"
definition CVT_V_STRETCH :: int where "CVT_V_STRETCH = 8"

lemmas eb_cvt_scaling_defs [edid_consts] =
  CVT_H_SHRINK_def
  CVT_H_STRETCH_def
  CVT_V_SHRINK_def
  CVT_V_STRETCH_def

text \<open>\<^verbatim>\<open>enum eb_cvt_v_rate\<close>\<close>

definition CVT_V_RATE_50HZ :: int where "CVT_V_RATE_50HZ = 256"
definition CVT_V_RATE_60HZ :: int where "CVT_V_RATE_60HZ = 512"
definition CVT_V_RATE_75HZ :: int where "CVT_V_RATE_75HZ = 1024"
definition CVT_V_RATE_85HZ :: int where "CVT_V_RATE_85HZ = 2048"

lemmas eb_cvt_v_rate_defs [edid_consts] =
  CVT_V_RATE_50HZ_def
  CVT_V_RATE_60HZ_def
  CVT_V_RATE_75HZ_def
  CVT_V_RATE_85HZ_def

text \<open>\<^verbatim>\<open>enum cea_data_block_tag\<close>\<close>

definition CEA_DB_AUDIO :: int where "CEA_DB_AUDIO = 1"
definition CEA_DB_VIDEO :: int where "CEA_DB_VIDEO = 2"
definition CEA_DB_VENDOR :: int where "CEA_DB_VENDOR = 3"
definition CEA_DB_SPEAKER :: int where "CEA_DB_SPEAKER = 4"
definition CEA_DB_DTC :: int where "CEA_DB_DTC = 5"
definition CEA_DB_EXTENDED :: int where "CEA_DB_EXTENDED = 7"

lemmas cea_data_block_tag_defs [edid_consts] =
  CEA_DB_AUDIO_def
  CEA_DB_VIDEO_def
  CEA_DB_VENDOR_def
  CEA_DB_SPEAKER_def
  CEA_DB_DTC_def
  CEA_DB_EXTENDED_def

text \<open>\<^verbatim>\<open>enum cea_data_block_tag_ext\<close>\<close>

definition CEA_DBE_VIDEO_CAP :: int where "CEA_DBE_VIDEO_CAP = 0"
definition CEA_DBE_VIDEO_VENDOR :: int where "CEA_DBE_VIDEO_VENDOR = 1"
definition CEA_DBE_VIDEO_DDI :: int where "CEA_DBE_VIDEO_DDI = 2"
definition CEA_DBE_VIDEO_VESA :: int where "CEA_DBE_VIDEO_VESA = 3"
definition CEA_DBE_VIDEO_HDMI :: int where "CEA_DBE_VIDEO_HDMI = 4"
definition CEA_DBE_COLORIMETRY :: int where "CEA_DBE_COLORIMETRY = 5"
definition CEA_DBE_AUDIO_MISC :: int where "CEA_DBE_AUDIO_MISC = 16"
definition CEA_DBE_AUDIO_VENDOR :: int where "CEA_DBE_AUDIO_VENDOR = 17"
definition CEA_DBE_AUDIO_HDMI :: int where "CEA_DBE_AUDIO_HDMI = 18"

lemmas cea_data_block_tag_ext_defs [edid_consts] =
  CEA_DBE_VIDEO_CAP_def
  CEA_DBE_VIDEO_VENDOR_def
  CEA_DBE_VIDEO_DDI_def
  CEA_DBE_VIDEO_VESA_def
  CEA_DBE_VIDEO_HDMI_def
  CEA_DBE_COLORIMETRY_def
  CEA_DBE_AUDIO_MISC_def
  CEA_DBE_AUDIO_VENDOR_def
  CEA_DBE_AUDIO_HDMI_def

text \<open>\<^verbatim>\<open>enum cea_sad_format\<close>\<close>

definition CEA_SAD_FMT_LPCM :: int where "CEA_SAD_FMT_LPCM = 1"
definition CEA_SAD_FMT_AC3 :: int where "CEA_SAD_FMT_AC3 = 2"
definition CEA_SAD_FMT_MPEG1 :: int where "CEA_SAD_FMT_MPEG1 = 3"
definition CEA_SAD_FMT_MP3 :: int where "CEA_SAD_FMT_MP3 = 4"
definition CEA_SAD_FMT_MPEG2 :: int where "CEA_SAD_FMT_MPEG2 = 5"
definition CEA_SAD_FMT_AAC :: int where "CEA_SAD_FMT_AAC = 6"
definition CEA_SAD_FMT_DTS :: int where "CEA_SAD_FMT_DTS = 7"
definition CEA_SAD_FMT_ATRAC :: int where "CEA_SAD_FMT_ATRAC = 8"
definition CEA_SAD_FMT_ONEBIT :: int where "CEA_SAD_FMT_ONEBIT = 9"
definition CEA_SAD_FMT_DOLBY_DIGITAL :: int where "CEA_SAD_FMT_DOLBY_DIGITAL = 10"
definition CEA_SAD_FMT_DTS_HD :: int where "CEA_SAD_FMT_DTS_HD = 11"
definition CEA_SAD_FMT_MAT :: int where "CEA_SAD_FMT_MAT = 12"
definition CEA_SAD_FMT_DST :: int where "CEA_SAD_FMT_DST = 13"
definition CEA_SAD_FMT_WMA_PRO :: int where "CEA_SAD_FMT_WMA_PRO = 14"

lemmas cea_sad_format_defs [edid_consts] =
  CEA_SAD_FMT_LPCM_def
  CEA_SAD_FMT_AC3_def
  CEA_SAD_FMT_MPEG1_def
  CEA_SAD_FMT_MP3_def
  CEA_SAD_FMT_MPEG2_def
  CEA_SAD_FMT_AAC_def
  CEA_SAD_FMT_DTS_def
  CEA_SAD_FMT_ATRAC_def
  CEA_SAD_FMT_ONEBIT_def
  CEA_SAD_FMT_DOLBY_DIGITAL_def
  CEA_SAD_FMT_DTS_HD_def
  CEA_SAD_FMT_MAT_def
  CEA_SAD_FMT_DST_def
  CEA_SAD_FMT_WMA_PRO_def

text \<open>\<^verbatim>\<open>enum cea_sad_sample_freq\<close>\<close>

definition CEA_SAD_SF_192K :: int where "CEA_SAD_SF_192K = 0x40"
definition CEA_SAD_SF_176P4K :: int where "CEA_SAD_SF_176P4K = 0x20"
definition CEA_SAD_SF_96K :: int where "CEA_SAD_SF_96K = 0x10"
definition CEA_SAD_SF_88P2K :: int where "CEA_SAD_SF_88P2K = 0x8"
definition CEA_SAD_SF_48K :: int where "CEA_SAD_SF_48K = 0x4"
definition CEA_SAD_SF_44P1K :: int where "CEA_SAD_SF_44P1K = 0x2"
definition CEA_SAD_SF_32K :: int where "CEA_SAD_SF_32K = 0x1"

lemmas cea_sad_sample_freq_defs [edid_consts] =
  CEA_SAD_SF_192K_def
  CEA_SAD_SF_176P4K_def
  CEA_SAD_SF_96K_def
  CEA_SAD_SF_88P2K_def
  CEA_SAD_SF_48K_def
  CEA_SAD_SF_44P1K_def
  CEA_SAD_SF_32K_def

text \<open>\<^verbatim>\<open>enum cea_speaker_designation\<close>\<close>

definition CEA_SPK_RLC_RRC :: int where "CEA_SPK_RLC_RRC = 0x40"
definition CEA_SPK_FLC_FRC :: int where "CEA_SPK_FLC_FRC = 0x20"
definition CEA_SPK_RC :: int where "CEA_SPK_RC = 0x10"
definition CEA_SPK_RL_RR :: int where "CEA_SPK_RL_RR = 0x8"
definition CEA_SPK_FC :: int where "CEA_SPK_FC = 0x4"
definition CEA_SPK_LFE :: int where "CEA_SPK_LFE = 0x2"
definition CEA_SPK_FL_FR :: int where "CEA_SPK_FL_FR = 0x1"

lemmas cea_speaker_designation_defs [edid_consts] =
  CEA_SPK_RLC_RRC_def
  CEA_SPK_FLC_FRC_def
  CEA_SPK_RC_def
  CEA_SPK_RL_RR_def
  CEA_SPK_FC_def
  CEA_SPK_LFE_def
  CEA_SPK_FL_FR_def

text \<open>\<^verbatim>\<open>enum cea_primaries\<close>\<close>

definition CEA_PRIM_XVYCC601 :: int where "CEA_PRIM_XVYCC601 = 0x1"
definition CEA_PRIM_XVYCC709 :: int where "CEA_PRIM_XVYCC709 = 0x2"

lemmas cea_primaries_defs [edid_consts] =
  CEA_PRIM_XVYCC601_def
  CEA_PRIM_XVYCC709_def

text \<open>\<^verbatim>\<open>enum cea_gamut_metadata\<close>\<close>

definition CEA_META_MD0 :: int where "CEA_META_MD0 = 0x1"
definition CEA_META_MD1 :: int where "CEA_META_MD1 = 0x2"
definition CEA_META_MD2 :: int where "CEA_META_MD2 = 0x4"

lemmas cea_gamut_metadata_defs [edid_consts] =
  CEA_META_MD0_def
  CEA_META_MD1_def
  CEA_META_MD2_def

text \<open>\<^verbatim>\<open>enum cea_pt_scan_behavior\<close>\<close>

definition CEA_PTS_NONE :: int where "CEA_PTS_NONE = 0"
definition CEA_PTS_OVERSCAN :: int where "CEA_PTS_OVERSCAN = 1"
definition CEA_PTS_UNDERSCAN :: int where "CEA_PTS_UNDERSCAN = 2"
definition CEA_PTS_BOTH :: int where "CEA_PTS_BOTH = 3"

lemmas cea_pt_scan_behavior_defs [edid_consts] =
  CEA_PTS_NONE_def
  CEA_PTS_OVERSCAN_def
  CEA_PTS_UNDERSCAN_def
  CEA_PTS_BOTH_def

text \<open>\<^verbatim>\<open>enum cea_it_scan_behavior\<close>\<close>

definition CEA_ITS_NONE :: int where "CEA_ITS_NONE = 0"
definition CEA_ITS_OVERSCAN :: int where "CEA_ITS_OVERSCAN = 1"
definition CEA_ITS_UNDERSCAN :: int where "CEA_ITS_UNDERSCAN = 2"
definition CEA_ITS_BOTH :: int where "CEA_ITS_BOTH = 3"

lemmas cea_it_scan_behavior_defs [edid_consts] =
  CEA_ITS_NONE_def
  CEA_ITS_OVERSCAN_def
  CEA_ITS_UNDERSCAN_def
  CEA_ITS_BOTH_def

text \<open>\<^verbatim>\<open>enum cea_ce_scan_behavior\<close>\<close>

definition CEA_CES_NONE :: int where "CEA_CES_NONE = 0"
definition CEA_CES_OVERSCAN :: int where "CEA_CES_OVERSCAN = 1"
definition CEA_CES_UNDERSCAN :: int where "CEA_CES_UNDERSCAN = 2"
definition CEA_CES_BOTH :: int where "CEA_CES_BOTH = 3"

lemmas cea_ce_scan_behavior_defs [edid_consts] =
  CEA_CES_NONE_def
  CEA_CES_OVERSCAN_def
  CEA_CES_UNDERSCAN_def
  CEA_CES_BOTH_def

definition EDID_EXT_TAG_CEA :: int where "EDID_EXT_TAG_CEA = 0x02"

lemmas [edid_consts] = EDID_EXT_TAG_CEA_def

end
