(* ===== verification/Checked.thy ===== *)
theory Checked
  imports Ledos_Prelude
begin

text \<open>
  Computations that may leave an array.  A \<open>fault\<close>, the left side of a sum, stands for an access
  outside the bounds, which is undefined behaviour of the C code; a proof that a call gives no fault is
  a proof of memory safety.  \<open>ok_res m P\<close> says that \<open>m\<close> ends without a fault, with a result that
  satisfies \<open>P\<close>; the equations in \<open>ok_simps\<close> push it through the combinators.  Two more faults are
  a dereference of a pointer that was never set (\<open>Wild_pointer\<close>) and a read of a union member that is
  not the one written last (\<open>Other_member\<close>), whose value the model does not know.
\<close>

section \<open>Checked accesses\<close>

datatype fault = Bad_read nat | Bad_write nat | Wild_pointer | Other_member

type_synonym 'a res = "fault + 'a"

fun ebind :: "'a res \<Rightarrow> ('a \<Rightarrow> 'b res) \<Rightarrow> 'b res" where
  "ebind (Inl e) f = Inl e"
| "ebind (Inr x) f = f x"

lemma ebind_cong [fundef_cong]:
  "m = m' \<Longrightarrow> (\<And>x. m' = Inr x \<Longrightarrow> f x = f' x) \<Longrightarrow> ebind m f = ebind m' f'"
  by (cases m') auto

fun fold_res :: "('i \<Rightarrow> 's \<Rightarrow> 's res) \<Rightarrow> 'i list \<Rightarrow> 's \<Rightarrow> 's res" where
  "fold_res f [] s = Inr s"
| "fold_res f (i # is) s = ebind (f i s) (fold_res f is)"

definition get_res :: "'a list \<Rightarrow> nat \<Rightarrow> 'a res" where
  "get_res xs i = (if i < length xs then Inr (xs ! i) else Inl (Bad_read i))"

definition upd_res :: "nat \<Rightarrow> ('a \<Rightarrow> 'a res) \<Rightarrow> 'a list \<Rightarrow> 'a list res" where
  "upd_res i f xs =
     (if i < length xs then ebind (f (xs ! i)) (\<lambda>v. Inr (xs[i := v])) else Inl (Bad_write i))"

definition put_res :: "nat \<Rightarrow> 'a \<Rightarrow> 'a list \<Rightarrow> 'a list res" where
  "put_res i v = upd_res i (\<lambda>_. Inr v)"

section \<open>Results without a fault\<close>

named_theorems ok_simps \<open>equations that push ok_res through checked computations\<close>

fun ok_res :: "'a res \<Rightarrow> ('a \<Rightarrow> bool) \<Rightarrow> bool" where
  "ok_res (Inl e) P = False"
| "ok_res (Inr x) P = P x"

lemmas [ok_simps] = ok_res.simps

lemma ok_ebind [ok_simps]: "ok_res (ebind m f) P = ok_res m (\<lambda>x. ok_res (f x) P)"
  by (cases m) simp_all

lemma ok_get [ok_simps]: "ok_res (get_res xs i) P \<longleftrightarrow> i < length xs \<and> P (xs ! i)"
  by (simp add: get_res_def)

lemma ok_upd [ok_simps]:
  "ok_res (upd_res i f xs) P \<longleftrightarrow> i < length xs \<and> ok_res (f (xs ! i)) (\<lambda>v. P (xs[i := v]))"
  by (simp add: upd_res_def ok_simps)

lemma ok_put [ok_simps]: "ok_res (put_res i v xs) P \<longleftrightarrow> i < length xs \<and> P (xs[i := v])"
  by (simp add: put_res_def ok_simps)

lemma ok_if [ok_simps]: "ok_res (if b then m else n) P = (if b then ok_res m P else ok_res n P)"
  by simp

lemma ok_let [ok_simps]: "ok_res (Let e f) P = (let x = e in ok_res (f x) P)"
  by simp

lemma ok_case_prod [ok_simps]:
  "ok_res (case p of (a, b) \<Rightarrow> f a b) P = (case p of (a, b) \<Rightarrow> ok_res (f a b) P)"
  by (simp split: prod.split)

lemma ok_mono: "ok_res m P \<Longrightarrow> (\<And>x. P x \<Longrightarrow> Q x) \<Longrightarrow> ok_res m Q"
  by (cases m) auto

lemma ok_ex: "ok_res m P \<longleftrightarrow> (\<exists>x. m = Inr x \<and> P x)"
  by (cases m) auto

lemma ok_fold_inv:
  assumes "I s" and "\<And>i s. i \<in> set is \<Longrightarrow> I s \<Longrightarrow> ok_res (f i s) I"
  shows "ok_res (fold_res f is s) I"
  using assms
proof (induction "is" arbitrary: s)
  case (Cons i js)
  have "ok_res (f i s) I" using Cons.prems by simp
  then show ?case
    unfolding fold_res.simps ok_ebind by (rule ok_mono) (use Cons in auto)
qed simp

section \<open>Loops\<close>

lemma fold_res_append: "fold_res f (xs @ ys) s = ebind (fold_res f xs s) (fold_res f ys)"
proof (induction xs arbitrary: s)
  case (Cons x xs)
  then show ?case by (cases "f x s") simp_all
qed simp

lemma fold_upd_res:
  assumes "n \<le> length xs" "\<And>i. i < n \<Longrightarrow> f i (xs ! i) = Inr (g i)"
  shows "fold_res (\<lambda>i. upd_res i (f i)) [0..<n] xs = Inr (map g [0..<n] @ drop n xs)"
  using assms
proof (induction n)
  case (Suc n)
  then have "fold_res (\<lambda>i. upd_res i (f i)) [0..<n] xs = Inr (map g [0..<n] @ drop n xs)" by simp
  moreover have "upd_res n (f n) (map g [0..<n] @ drop n xs) = Inr (map g [0..<Suc n] @ drop (Suc n) xs)"
    using Suc.prems
    by (simp add: upd_res_def nth_append list_update_append Cons_nth_drop_Suc [symmetric])
  ultimately show ?case by (simp add: fold_res_append)
qed simp

lemma fold_upd_fails:
  assumes "i < n" "\<And>y. length xs \<le> i \<or> (\<exists>e. f i y = Inl e)"
  shows "\<exists>e. fold_res (\<lambda>i. upd_res i (f i)) [0..<n] xs = Inl e"
proof -
  have s: "[0..<n] = [0..<i] @ i # [Suc i..<n]"
    using assms(1) upt_add_eq_append [of 0 i "n - i"] by (simp add: upt_conv_Cons [of i n])
  have l: "length ys = length zs" if "fold_res (\<lambda>i. upd_res i (f i)) js zs = Inr ys" for js zs ys
    using that
  proof (induction js arbitrary: zs)
    case (Cons j js)
    then show ?case
      by (cases "f j (zs ! j)") (auto simp: upd_res_def split: if_splits)
  qed simp
  show ?thesis
  proof (cases "fold_res (\<lambda>i. upd_res i (f i)) [0..<i] xs")
    case (Inr ys)
    have "\<exists>e. upd_res i (f i) ys = Inl e"
      using assms(2) [of "ys ! i"] l [OF Inr] by (auto simp: upd_res_def)
    then show ?thesis by (auto simp: s fold_res_append Inr)
  qed (simp add: s fold_res_append)
qed

end
