(* ===== verification/Edid_Types.thy ===== *)
theory Edid_Types
  imports Edid_Consts Checked
begin

text \<open>
  The data of the EDID decoder (\<^verbatim>\<open>edid.h\<close>, \<^verbatim>\<open>edid_cea.h\<close>): one record per structure, in the
  order of the fields.  A field that C names like a field of another structure carries a
  prefix (\<open>et_\<close>, \<open>st_\<close>, \<open>dt_\<close>, ...).

  A C union is a datatype whose constructors are the members: writing a member makes it the
  current one.  The character arrays that share storage with other members are lists of
  \<open>u8 option\<close>, where \<open>None\<close> is a byte the decoder does not write, so that its value is
  whatever the storage held.

  The decoder follows offsets found in the data, without checking them.  Every access whose
  index is not a constant goes through \<open>byte\<close> (a read of the EDID image) or \<open>upd_res\<close> (a write
  to an array of the structures), which give a \<open>fault\<close> outside the bounds: a fault stands for
  undefined behaviour of the C code, and a proof that a call gives no fault is a proof of
  memory safety.
\<close>

section \<open>Reads of the image\<close>

definition byte :: "u8 list \<Rightarrow> nat \<Rightarrow> int res" where
  "byte bin i = (if i < length bin then Inr (uint (bin ! i)) else Inl (Bad_read i))"

text \<open>\<open>nz x\<close>: a C condition on an integer; \<open>flag x\<close>: \<^verbatim>\<open>(x) ? 1 : 0\<close>.\<close>

definition nz :: "int \<Rightarrow> bool" where "nz x \<longleftrightarrow> x \<noteq> 0"

definition flag :: "int \<Rightarrow> int" where "flag x = (if nz x then 1 else 0)"

section \<open>Single-precision numbers\<close>

text \<open>
  \<open>F32 m e\<close> is the number \<open>m * 2 ^ e\<close>.  \<open>f32_round n d k\<close> rounds \<open>n / d * 2 ^ k\<close> (\<open>n\<close>,
  \<open>d\<close> positive) to 24 significant bits, to nearest, ties to even.  The decoder only computes
  numbers between 1/4 and 64, far from the ends of the exponent range.
\<close>

datatype f32 = F32 int int

definition round_even :: "int \<Rightarrow> int \<Rightarrow> int" where
  "round_even n d =
     (let q = n div d; r = n mod d in
      if 2 * r < d then q else if 2 * r > d then q + 1 else if even q then q else q + 1)"

definition scale_up :: "int \<Rightarrow> int \<Rightarrow> int \<Rightarrow> int \<times> int" where
  "scale_up n d s = (if s \<ge> 0 then (n * 2 ^ nat s, d) else (n, d * 2 ^ nat (- s)))"

fun bit_len :: "nat \<Rightarrow> nat" where
  "bit_len n = (if n = 0 then 0 else Suc (bit_len (n div 2)))"

declare bit_len.simps [simp del]

definition f32_round :: "int \<Rightarrow> int \<Rightarrow> int \<Rightarrow> f32" where
  "f32_round n d k =
     (if n = 0 then F32 0 0
      else
        (let s = 24 + int (bit_len (nat d)) - int (bit_len (nat n));
             (a, b) = scale_up n d s;
             s' = (if a div b \<ge> 2 ^ 24 then s - 1 else s);
             (a', b') = scale_up n d s'
         in F32 (round_even a' b') (k - s')))"

definition f32_of_int :: "int \<Rightarrow> f32" where
  "f32_of_int n = f32_round n 1 0"

fun f32_mul :: "f32 \<Rightarrow> f32 \<Rightarrow> f32" where
  "f32_mul (F32 m e) (F32 m' e') = f32_round (m * m') 1 (e + e')"

fun f32_div :: "f32 \<Rightarrow> f32 \<Rightarrow> f32" where
  "f32_div (F32 m e) (F32 m' e') = f32_round m m' (e - e')"

fun f32_add :: "f32 \<Rightarrow> f32 \<Rightarrow> f32" where
  "f32_add (F32 m e) (F32 m' e') =
     (let k = min e e' in f32_round (m * 2 ^ nat (e - k) + m' * 2 ^ nat (e' - k)) 1 k)"

section \<open>Structures of edid.h\<close>

record eb_established_timing =
  et_valid :: int
  et_width :: int
  et_height :: int
  et_refresh :: int
  et_interlaced :: int
  et_rb :: int

definition eb_establish_timing :: "int \<Rightarrow> int \<Rightarrow> int \<Rightarrow> int \<Rightarrow> eb_established_timing" where
  "eb_establish_timing x y r valid =
     (if nz valid then
        \<lparr>et_valid = 1, et_width = x, et_height = y, et_refresh = r, et_interlaced = 0, et_rb = 0\<rparr>
      else
        \<lparr>et_valid = 0, et_width = 0, et_height = 0, et_refresh = 0, et_interlaced = 0, et_rb = 0\<rparr>)"

definition eb_establish_timing_i :: "int \<Rightarrow> int \<Rightarrow> int \<Rightarrow> int \<Rightarrow> eb_established_timing" where
  "eb_establish_timing_i x y r valid =
     (if nz valid then
        \<lparr>et_valid = 1, et_width = x, et_height = y, et_refresh = r, et_interlaced = 1, et_rb = 0\<rparr>
      else
        \<lparr>et_valid = 0, et_width = 0, et_height = 0, et_refresh = 0, et_interlaced = 0, et_rb = 0\<rparr>)"

definition eb_establish_timing_rb :: "int \<Rightarrow> int \<Rightarrow> int \<Rightarrow> int \<Rightarrow> eb_established_timing" where
  "eb_establish_timing_rb x y r valid =
     (if nz valid then
        \<lparr>et_valid = 1, et_width = x, et_height = y, et_refresh = r, et_interlaced = 0, et_rb = 1\<rparr>
      else
        \<lparr>et_valid = 0, et_width = 0, et_height = 0, et_refresh = 0, et_interlaced = 0, et_rb = 0\<rparr>)"

record eb_standard_timing =
  st_horizontal :: int
  st_aspect_ratio :: int
  st_refresh_rate :: int

record eb_detailed_timing_desc =
  dt_pixel_clock :: int
  dt_width :: int
  dt_height :: int
  dt_h_blank :: int
  dt_v_blank :: int
  dt_h_fp :: int
  dt_v_fp :: int
  dt_h_sync :: int
  dt_v_sync :: int
  dt_h_size :: int
  dt_v_size :: int
  dt_border_lr :: int
  dt_border_tb :: int
  dt_interlaced :: int
  dt_stereo :: int
  dt_sync :: int

section \<open>Structures of edid\_cea.h\<close>

record cea_flags =
  fl_underscan :: int
  fl_audio :: int
  fl_ycbcr444 :: int
  fl_ycbcr422 :: int

record svd =
  svd_native :: int
  svd_vic :: int

record db_video =
  nr_svd :: int
  svds :: "svd list"

record sad =
  sad_format :: int
  sad_channels :: int
  sad_freq :: int
  sad_resolution :: int
  sad_bitrate :: int

record db_audio =
  nr_sad :: int
  sads :: "sad list"

record vic_3d =
  v3_vic_2d :: int
  v3_struct_3d :: int
  v3_detail_3d :: int

record db_vsdb_hdmi =
  ext_len :: int
  ieee_reg_id :: int
  addr_a :: int
  addr_b :: int
  addr_c :: int
  addr_d :: int
  ai :: int
  bpp30 :: int
  bpp36 :: int
  bpp48 :: int
  vs_ycbcr444 :: int
  dvi_dual :: int
  p_latency :: int
  i_latency :: int
  hdmi_video :: int
  max_tmds_clk :: int
  vid_latency_p :: int
  aud_latency_p :: int
  vid_latency_i :: int
  aud_latency_i :: int
  present_3d :: int
  multi_3d :: int
  image_size :: int
  hdmi_xx_len :: int
  hdmi_3d_len :: int
  struct_all_3d :: int
  mask_3d :: int
  nr_vic_3d :: int
  vics_3d :: "vic_3d list"

record db_colorimetry =
  xvYCC :: int
  metadata :: int

record db_vcdb =
  quant_range_sel :: int
  pt_scan_behavior :: int
  it_scan_behavior :: int
  ce_scan_behavior :: int

record edid_cea =
  cea_rev :: int
  flags :: cea_flags
  off_dtd :: int
  nr_dtd :: int
  nr_dbcs :: int
  dbc_tags :: "int list"
  dbe_tags :: "int list"
  cea_video :: db_video
  cea_audio :: db_audio
  speaker_designation :: int
  cea_vsdb :: db_vsdb_hdmi
  cea_colorimetry :: db_colorimetry
  cea_vcdb :: db_vcdb
  cea_timing :: "eb_detailed_timing_desc list"

text \<open>The sizes of the arrays.\<close>

definition wf_cea :: "edid_cea \<Rightarrow> bool" where
  "wf_cea cea \<longleftrightarrow> length (dbc_tags cea) = 62 \<and> length (dbe_tags cea) = 62 \<and>
     length (svds (cea_video cea)) = 32 \<and> length (sads (cea_audio cea)) = 10 \<and>
     length (vics_3d (cea_vsdb cea)) = 16 \<and> length (cea_timing cea) = 8"

record ext_data =
  ext_tag :: int
  cea_ext :: edid_cea

section \<open>The base structure\<close>

datatype video_in =
    Analog int int int int  \<comment> \<open>level, setup, sync\_type, serrations\<close>
  | Digital int int  \<comment> \<open>depth, interface\<close>

datatype screen_dim =
    Screen_size int int  \<comment> \<open>horizontal, vertical\<close>
  | Screen_aspect f32 f32  \<comment> \<open>landscape, portrait\<close>

record chromaticity =
  r_x :: int
  r_y :: int
  g_x :: int
  g_y :: int
  b_x :: int
  b_y :: int
  w_x :: int
  w_y :: int

record gtf_2nd_curve =
  break_freq :: int
  gtf_C :: int
  gtf_M :: int
  gtf_K :: int
  gtf_J :: int

record range_cvt =
  cvt_ver_mj :: int
  cvt_ver_mn :: int
  extra_pclk :: f32
  line_max :: int
  aspect_ratios :: int
  preferred_ar :: int
  cvt_blanking :: int
  cvt_scaling :: int
  v_refresh :: int

datatype range_ext = Range_unset | Range_gtf gtf_2nd_curve | Range_cvt range_cvt

record range_limits =
  v_offset :: int
  h_offset :: int
  v_min :: int
  v_max :: int
  h_min :: int
  h_max :: int
  p_max :: int
  timing_flags :: int
  range_ext :: range_ext

record white_point =
  wp_index :: int
  wp_x :: int
  wp_y :: int
  wp_gamma :: f32

datatype desc_body =
    Desc_unset
  | Desc_detailed eb_detailed_timing_desc
  | Desc_serial "u8 option list"
  | Desc_string "u8 option list"
  | Desc_range range_limits
  | Desc_name "u8 option list"
  | Desc_white white_point white_point

record dcm =
  dcm_ver :: int
  r_a2 :: int
  r_a3 :: int
  g_a2 :: int
  g_a3 :: int
  b_a2 :: int
  b_a3 :: int

record cvt_timing =
  cvt_lines :: int
  cvt_aspect :: int
  preferred_v_rate :: int
  supported_v_rate_blank :: int

record descriptor =
  desc_type :: int
  desc_tag :: int
  desc_body :: desc_body
  extra_standard_timings :: "eb_standard_timing list"
  desc_dcm :: dcm
  desc_cvt :: "cvt_timing list"
  timing_3 :: "eb_established_timing list"

record base_edid =
  id_mfg :: "int list"
  id_prod :: int
  id_sn :: u32
  mfg_week :: int
  mfg_year :: int
  model_year :: int
  ver_mj :: int
  ver_mn :: int
  digital_if :: int
  input :: video_in
  size_defined :: int
  aspect_defined :: int
  screen :: screen_dim
  gamma :: f32
  feature :: int
  chroma :: chromaticity
  timing_1_2 :: "eb_established_timing list"
  standard_timings :: "eb_standard_timing list"
  descriptors :: "descriptor list"
  extensions :: int
  checksum :: int
  ext_datas :: "ext_data list"

definition wf_descriptor :: "descriptor \<Rightarrow> bool" where
  "wf_descriptor d \<longleftrightarrow> length (extra_standard_timings d) = 6 \<and> length (desc_cvt d) = 4 \<and>
     length (timing_3 d) = 48"

definition wf_edid :: "base_edid \<Rightarrow> bool" where
  "wf_edid e \<longleftrightarrow> length (timing_1_2 e) = 17 \<and> length (standard_timings e) = 8 \<and>
     length (descriptors e) = 4 \<and> list_all wf_descriptor (descriptors e) \<and>
     length (ext_datas e) = 8 \<and> list_all (\<lambda>x. wf_cea (cea_ext x)) (ext_datas e)"

end
