(* ===== verification/Edid_Cea.thy ===== *)
theory Edid_Cea
  imports Edid_Types
begin

text \<open>
  The decoder of the CEA-861 extension block (\<^verbatim>\<open>edid_decode_cea\<close> of \<^verbatim>\<open>edid.c\<close>): the walk
  over the data block collection, one definition per kind of block, and the detailed timing
  descriptors after it.  The pointers \<^verbatim>\<open>c\<close>, \<^verbatim>\<open>hv\<close>, \<^verbatim>\<open>d\<close>, \<^verbatim>\<open>vic\<close> and \<^verbatim>\<open>dtd\<close> into the EDID image
  are indexes into it; the null pointer of \<^verbatim>\<open>dtd\<close> is \<open>None\<close>.
\<close>

section \<open>Detailed timing descriptors\<close>

text \<open>The fields of an 18-byte descriptor \<open>c\<close>, as both decoders of \<^verbatim>\<open>edid.c\<close> compute them.\<close>

definition dtd_stereo :: "int \<Rightarrow> int" where
  "dtd_stereo c17 =
     (let v = c17 AND 0x61 in
      if v = 0x20 then STEREO_FIELD_SEQUENTIAL_RIGHT_SYNC
      else if v = 0x40 then STEREO_FIELD_SEQUENTIAL_LEFT_SYNC
      else if v = 0x21 then STEREO_2WAY_INTERLEAVE_RIGHT_EVEN
      else if v = 0x41 then STEREO_2WAY_INTERLEAVE_LEFT_EVEN
      else if v = 0x60 then STEREO_4WAY_INTERLEAVE
      else if v = 0x61 then STEREO_SIDE_BY_SIDE_INTERLEAVE
      else STEREO_NONE)"

definition dtd_analog_sync :: "int \<Rightarrow> int" where
  "dtd_analog_sync c17 =
     (if nz (c17 AND 0x80) then
        A_BIPOLAR_COMPOSITE_SYNC OR
        (if nz (c17 AND 0x40) then
           A_BIPOLAR_SERRATION OR
           (if nz (c17 AND 0x20) then A_BIPOLAR_SERRATION_SYNC_RGB else A_BIPOLAR_SERRATION_SYNC_G)
         else 0)
      else A_COMPOSITE_SYNC)"

definition dtd_composite_sync :: "int \<Rightarrow> int" where
  "dtd_composite_sync c17 =
     D_COMPOSITE_SYNC OR (if nz (c17 AND 0x04) then D_COMPOSITE_SERRATION else 0)"

text \<open>The extension decoder does not report the polarity of the horizontal sync.\<close>

definition cea_dtd_sync :: "int \<Rightarrow> int" where
  "cea_dtd_sync c17 =
     (if nz (c17 AND 0x10) then
        (if nz (c17 AND 0x08) then
           D_SEPERATE_SYNC OR
           (if nz (c17 AND 0x04) then D_SEPERATE_VSYNC_P else D_SEPERATE_VSYNC_N)
         else dtd_composite_sync c17)
      else dtd_analog_sync c17)"

definition dtd_fields :: "(nat \<Rightarrow> int) \<Rightarrow> int \<Rightarrow> eb_detailed_timing_desc" where
  "dtd_fields c sync =
     \<lparr>dt_pixel_clock = (push_bit 8 (c 1) OR c 0) * 10000,
      dt_width = (push_bit 4 (c 4) AND 0xf00) OR c 2,
      dt_height = (push_bit 4 (c 7) AND 0xf00) OR c 5,
      dt_h_blank = (push_bit 8 (c 4) AND 0xf00) OR c 3,
      dt_v_blank = (push_bit 8 (c 7) AND 0xf00) OR c 6,
      dt_h_fp = (push_bit 2 (c 11) AND 0x300) OR c 8,
      dt_v_fp = (push_bit 2 (c 11) AND 0x30) OR drop_bit 4 (c 10),
      dt_h_sync = (push_bit 4 (c 11) AND 0x300) OR c 9,
      dt_v_sync = (push_bit 4 (c 11) AND 0x30) OR (c 10 AND 0x0f),
      dt_h_size = (push_bit 4 (c 14) AND 0xf00) OR c 12,
      dt_v_size = (push_bit 8 (c 14) AND 0xf00) OR c 13,
      dt_border_lr = c 15,
      dt_border_tb = c 16,
      dt_interlaced = flag (c 17 AND 0x80),
      dt_stereo = dtd_stereo (c 17),
      dt_sync = sync\<rparr>"

definition cea_dtd :: "u8 list \<Rightarrow> nat \<Rightarrow> eb_detailed_timing_desc res" where
  "cea_dtd bin p =
     (if p + 17 < length bin then
        (let c = (\<lambda>k. uint (bin ! (p + k))) in Inr (dtd_fields c (cea_dtd_sync (c 17))))
      else Inl (Bad_read (p + 17)))"

definition cea_dtds :: "u8 list \<Rightarrow> nat \<Rightarrow> edid_cea \<Rightarrow> edid_cea res" where
  "cea_dtds bin dtd cea =
     ebind (fold_res (\<lambda>i ts. upd_res i (\<lambda>_. cea_dtd bin (dtd + 18 * i)) ts)
              [0..<nat (nr_dtd cea)] (cea_timing cea))
       (\<lambda>ts. Inr (cea\<lparr>cea_timing := ts\<rparr>))"

section \<open>Data blocks\<close>

definition blk_len :: "int \<Rightarrow> int" where
  "blk_len b = b AND 0x1f"

definition push_tag :: "int \<Rightarrow> edid_cea \<Rightarrow> edid_cea res" where
  "push_tag t cea =
     ebind (put_res (nat (nr_dbcs cea)) t (dbc_tags cea))
       (\<lambda>ts. Inr (cea\<lparr>dbc_tags := ts, nr_dbcs := nr_dbcs cea + 1\<rparr>))"

subsection \<open>Audio\<close>

definition cea_sad :: "u8 list \<Rightarrow> nat \<Rightarrow> sad \<Rightarrow> sad res" where
  "cea_sad bin p old =
     ebind (byte bin p) (\<lambda>b0.
     ebind (byte bin (p + 1)) (\<lambda>b1.
     let s = old\<lparr>sad_format := drop_bit 3 b0 AND 0xf, sad_channels := (b0 AND 0x7) + 1,
                 sad_freq := b1 AND 0x7f\<rparr> in
     if sad_format s = CEA_SAD_FMT_LPCM then
       ebind (byte bin (p + 2)) (\<lambda>b2. Inr (s\<lparr>sad_resolution := b2 AND 0x07\<rparr>))
     else if sad_format s \<noteq> 0 then
       (if sad_format s \<le> CEA_SAD_FMT_ATRAC then
          ebind (byte bin (p + 2)) (\<lambda>b2. Inr (s\<lparr>sad_bitrate := b2 * 8\<rparr>))
        else Inr s)
     else Inr s))"

definition cea_audio_block :: "u8 list \<Rightarrow> nat \<Rightarrow> int \<Rightarrow> edid_cea \<Rightarrow> edid_cea res" where
  "cea_audio_block bin c b cea0 =
     ebind (push_tag CEA_DB_AUDIO cea0) (\<lambda>cea.
     let n = blk_len b div 3 in
     ebind (fold_res (\<lambda>i. upd_res i (cea_sad bin (c + 1 + 3 * i))) [0..<nat n]
              (sads (cea_audio cea))) (\<lambda>ss.
     Inr (cea\<lparr>cea_audio := \<lparr>nr_sad = n, sads = ss\<rparr>\<rparr>)))"

subsection \<open>Video\<close>

definition cea_svd :: "u8 list \<Rightarrow> nat \<Rightarrow> svd \<Rightarrow> svd res" where
  "cea_svd bin p old =
     ebind (byte bin p) (\<lambda>b. Inr \<lparr>svd_native = flag (b AND 0x80), svd_vic = b AND 0x7f\<rparr>)"

definition cea_video_block :: "u8 list \<Rightarrow> nat \<Rightarrow> int \<Rightarrow> edid_cea \<Rightarrow> edid_cea res" where
  "cea_video_block bin c b cea0 =
     ebind (push_tag CEA_DB_VIDEO cea0) (\<lambda>cea.
     let n = blk_len b in
     ebind (fold_res (\<lambda>i. upd_res i (cea_svd bin (c + 1 + i))) [0..<nat n]
              (svds (cea_video cea))) (\<lambda>vs.
     Inr (cea\<lparr>cea_video := \<lparr>nr_svd = n, svds = vs\<rparr>\<rparr>)))"

subsection \<open>Vendor specific (HDMI)\<close>

text \<open>The registration identifier is made of the three bytes that were just compared.\<close>

definition vsdb_addr :: "u8 list \<Rightarrow> nat \<Rightarrow> int \<Rightarrow> db_vsdb_hdmi \<Rightarrow> db_vsdb_hdmi res" where
  "vsdb_addr bin c b v =
     ebind (byte bin (c + 4)) (\<lambda>c4.
     ebind (byte bin (c + 5)) (\<lambda>c5.
     Inr (v\<lparr>ext_len := blk_len b, ieee_reg_id := push_bit 16 0x00 OR (push_bit 8 0x0c OR 0x03),
            addr_a := drop_bit 4 c4, addr_b := c4 AND 0x0f,
            addr_c := drop_bit 4 c5, addr_d := c5 AND 0x0f\<rparr>)))"

definition vsdb_caps :: "u8 list \<Rightarrow> nat \<Rightarrow> int \<Rightarrow> db_vsdb_hdmi \<Rightarrow> db_vsdb_hdmi res" where
  "vsdb_caps bin c b v =
     (if blk_len b \<ge> 6 then
        ebind (byte bin (c + 6)) (\<lambda>c6.
        Inr (v\<lparr>ai := flag (c6 AND 0x80), bpp48 := flag (c6 AND 0x40), bpp36 := flag (c6 AND 0x20),
               bpp30 := flag (c6 AND 0x10), vs_ycbcr444 := flag (c6 AND 0x08),
               dvi_dual := flag (c6 AND 0x01)\<rparr>))
      else
        Inr (v\<lparr>ai := 0, bpp48 := 0, bpp36 := 0, bpp30 := 0, vs_ycbcr444 := 0, dvi_dual := 0\<rparr>))"

definition vsdb_clk :: "u8 list \<Rightarrow> nat \<Rightarrow> int \<Rightarrow> db_vsdb_hdmi \<Rightarrow> db_vsdb_hdmi res" where
  "vsdb_clk bin c b v =
     (if blk_len b \<ge> 7 then
        ebind (byte bin (c + 7)) (\<lambda>c7. Inr (v\<lparr>max_tmds_clk := c7 * 5\<rparr>))
      else Inr (v\<lparr>max_tmds_clk := 0\<rparr>))"

text \<open>The latency fields; the result carries \<^verbatim>\<open>hv\<close>, the position after them.\<close>

definition vsdb_latency_p :: "u8 list \<Rightarrow> int \<Rightarrow> nat \<Rightarrow> db_vsdb_hdmi \<Rightarrow> (nat \<times> db_vsdb_hdmi) res" where
  "vsdb_latency_p bin c8 hv v =
     (if nz (c8 AND 0x80) then
        ebind (byte bin hv) (\<lambda>h0.
        ebind (byte bin (hv + 1)) (\<lambda>h1.
        Inr (hv + 2, v\<lparr>p_latency := 1, vid_latency_p := (h0 - 1) * 2, aud_latency_p := (h1 - 1) * 2\<rparr>)))
      else Inr (hv, v))"

definition vsdb_latency_i :: "u8 list \<Rightarrow> int \<Rightarrow> nat \<Rightarrow> db_vsdb_hdmi \<Rightarrow> (nat \<times> db_vsdb_hdmi) res" where
  "vsdb_latency_i bin c8 hv v =
     (if nz (c8 AND 0x40) then
        ebind (byte bin hv) (\<lambda>h0.
        ebind (byte bin (hv + 1)) (\<lambda>h1.
        Inr (hv + 2, v\<lparr>i_latency := 1, vid_latency_i := (h0 - 1) * 2, aud_latency_i := (h1 - 1) * 2\<rparr>)))
      else Inr (hv, v))"

definition vsdb_latency :: "u8 list \<Rightarrow> nat \<Rightarrow> int \<Rightarrow> db_vsdb_hdmi \<Rightarrow> (nat \<times> db_vsdb_hdmi) res" where
  "vsdb_latency bin c b v0 =
     (let v = v0\<lparr>p_latency := 0, i_latency := 0, hdmi_video := 0, vid_latency_p := 0,
                 aud_latency_p := 0, vid_latency_i := 0, aud_latency_i := 0\<rparr> in
      if blk_len b \<ge> 8 then
        ebind (byte bin (c + 8)) (\<lambda>c8.
        ebind (vsdb_latency_p bin c8 (c + 9) v) (\<lambda>(hv, v).
        ebind (vsdb_latency_i bin c8 hv v) (\<lambda>(hv, v).
        Inr (hv, if nz (c8 AND 0x20) then v\<lparr>hdmi_video := 1\<rparr> else v))))
      else Inr (0, v))"

definition vsdb_video :: "u8 list \<Rightarrow> nat \<Rightarrow> db_vsdb_hdmi \<Rightarrow> db_vsdb_hdmi res" where
  "vsdb_video bin hv v =
     (if hdmi_video v > 0 then
        ebind (byte bin hv) (\<lambda>h0.
        ebind (byte bin (hv + 1)) (\<lambda>h1.
        Inr (v\<lparr>present_3d := flag (h0 AND 0x80), multi_3d := drop_bit 5 h0 AND 0x03,
               image_size := drop_bit 3 h0 AND 0x03, hdmi_xx_len := drop_bit 5 h1,
               hdmi_3d_len := h1 AND 0x1f\<rparr>)))
      else
        Inr (v\<lparr>present_3d := 0, multi_3d := 0, image_size := 0, hdmi_xx_len := 0,
               hdmi_3d_len := 0\<rparr>))"

function vic_3d_loop ::
  "u8 list \<Rightarrow> nat \<Rightarrow> int \<Rightarrow> db_vsdb_hdmi \<Rightarrow> db_vsdb_hdmi res" where
  "vic_3d_loop bin vic vic_l v =
     (if vic_l > 0 then
        ebind (byte bin vic) (\<lambda>b0.
        if b0 AND 0x0f \<ge> 0x08 then
          ebind (byte bin (vic + 1)) (\<lambda>b1.
          ebind (put_res (nat (nr_vic_3d v))
                   \<lparr>v3_vic_2d = drop_bit 4 b0, v3_struct_3d = b0 AND 0x0f,
                    v3_detail_3d = drop_bit 4 b1\<rparr> (vics_3d v)) (\<lambda>vs.
          vic_3d_loop bin (vic + 2) (vic_l - 2)
            (v\<lparr>vics_3d := vs, nr_vic_3d := nr_vic_3d v + 1\<rparr>)))
        else
          ebind (put_res (nat (nr_vic_3d v))
                   \<lparr>v3_vic_2d = drop_bit 4 b0, v3_struct_3d = b0 AND 0x0f, v3_detail_3d = 0\<rparr>
                   (vics_3d v)) (\<lambda>vs.
          vic_3d_loop bin (vic + 1) (vic_l - 1)
            (v\<lparr>vics_3d := vs, nr_vic_3d := nr_vic_3d v + 1\<rparr>)))
      else Inr v)"
  by pat_completeness auto
termination by (relation "measure (\<lambda>(bin, vic, vic_l, v). nat vic_l)") auto

declare vic_3d_loop.simps [simp del]

definition vsdb_3d :: "u8 list \<Rightarrow> nat \<Rightarrow> db_vsdb_hdmi \<Rightarrow> db_vsdb_hdmi res" where
  "vsdb_3d bin hv v =
     (if hdmi_3d_len v > 0 then
        (let d = hv + 2 + nat (hdmi_xx_len v) in
         if multi_3d v = 2 then
           ebind (byte bin d) (\<lambda>d0. ebind (byte bin (d + 1)) (\<lambda>d1.
           ebind (byte bin (d + 2)) (\<lambda>d2. ebind (byte bin (d + 3)) (\<lambda>d3.
           vic_3d_loop bin (d + 4) (hdmi_3d_len v - 4)
             (v\<lparr>struct_all_3d := push_bit 8 d0 OR d1, mask_3d := push_bit 8 d2 OR d3,
                nr_vic_3d := 0\<rparr>)))))
         else if multi_3d v = 1 then
           ebind (byte bin d) (\<lambda>d0. ebind (byte bin (d + 1)) (\<lambda>d1.
           vic_3d_loop bin (d + 2) (hdmi_3d_len v - 2)
             (v\<lparr>struct_all_3d := push_bit 8 d0 OR d1, mask_3d := 0, nr_vic_3d := 0\<rparr>)))
         else Inr (v\<lparr>struct_all_3d := 0, mask_3d := 0, nr_vic_3d := 0\<rparr>))
      else Inr (v\<lparr>struct_all_3d := 0, mask_3d := 0\<rparr>))"

definition vsdb_hdmi :: "u8 list \<Rightarrow> nat \<Rightarrow> int \<Rightarrow> db_vsdb_hdmi \<Rightarrow> db_vsdb_hdmi res" where
  "vsdb_hdmi bin c b v =
     ebind (vsdb_addr bin c b v) (\<lambda>v.
     ebind (vsdb_caps bin c b v) (\<lambda>v.
     ebind (vsdb_clk bin c b v) (\<lambda>v.
     ebind (vsdb_latency bin c b v) (\<lambda>(hv, v).
     ebind (vsdb_video bin hv v) (\<lambda>v.
     vsdb_3d bin hv v)))))"

text \<open>The condition stops at the first byte that differs.\<close>

definition not_hdmi_oui :: "u8 list \<Rightarrow> nat \<Rightarrow> bool res" where
  "not_hdmi_oui bin c =
     ebind (byte bin (c + 1)) (\<lambda>c1. if c1 \<noteq> 0x03 then Inr True else
     ebind (byte bin (c + 2)) (\<lambda>c2. if c2 \<noteq> 0x0c then Inr True else
     ebind (byte bin (c + 3)) (\<lambda>c3. Inr (c3 \<noteq> 0x00))))"

definition cea_vendor_block :: "u8 list \<Rightarrow> nat \<Rightarrow> int \<Rightarrow> edid_cea \<Rightarrow> edid_cea res" where
  "cea_vendor_block bin c b cea0 =
     ebind (push_tag CEA_DB_VENDOR cea0) (\<lambda>cea.
     ebind (not_hdmi_oui bin c) (\<lambda>other.
     if other then Inr (cea\<lparr>cea_vsdb := (cea_vsdb cea)\<lparr>ieee_reg_id := 0\<rparr>\<rparr>)
     else ebind (vsdb_hdmi bin c b (cea_vsdb cea)) (\<lambda>v. Inr (cea\<lparr>cea_vsdb := v\<rparr>))))"

subsection \<open>Speaker allocation and extended tags\<close>

definition cea_speaker_block :: "u8 list \<Rightarrow> nat \<Rightarrow> edid_cea \<Rightarrow> edid_cea res" where
  "cea_speaker_block bin c cea0 =
     ebind (push_tag CEA_DB_SPEAKER cea0) (\<lambda>cea.
     ebind (byte bin (c + 1)) (\<lambda>c1. Inr (cea\<lparr>speaker_designation := c1 AND 0x7f\<rparr>)))"

definition put_ext_tag :: "int \<Rightarrow> edid_cea \<Rightarrow> edid_cea res" where
  "put_ext_tag t cea =
     ebind (put_res (nat (nr_dbcs cea)) t (dbe_tags cea)) (\<lambda>ts. Inr (cea\<lparr>dbe_tags := ts\<rparr>))"

definition cea_ext_body :: "u8 list \<Rightarrow> nat \<Rightarrow> int \<Rightarrow> edid_cea \<Rightarrow> edid_cea res" where
  "cea_ext_body bin c c1 cea0 =
     (if c1 = CEA_DBE_VIDEO_CAP then
        ebind (put_ext_tag c1 cea0) (\<lambda>cea.
        ebind (byte bin (c + 2)) (\<lambda>c2.
        Inr (cea\<lparr>cea_vcdb := \<lparr>quant_range_sel = flag (c2 AND 0x40),
                   pt_scan_behavior = drop_bit 4 c2 AND 0x03,
                   it_scan_behavior = drop_bit 2 c2 AND 0x03,
                   ce_scan_behavior = c2 AND 0x03\<rparr>\<rparr>)))
      else if c1 = CEA_DBE_COLORIMETRY then
        ebind (put_ext_tag c1 cea0) (\<lambda>cea.
        ebind (byte bin (c + 2)) (\<lambda>c2.
        ebind (byte bin (c + 3)) (\<lambda>c3.
        Inr (cea\<lparr>cea_colorimetry := \<lparr>xvYCC = c2 AND 0x03, metadata = c3 AND 0x07\<rparr>\<rparr>))))
      else if c1 \<in> {CEA_DBE_VIDEO_VENDOR, CEA_DBE_VIDEO_DDI, CEA_DBE_VIDEO_VESA,
                    CEA_DBE_VIDEO_HDMI, CEA_DBE_AUDIO_MISC, CEA_DBE_AUDIO_VENDOR,
                    CEA_DBE_AUDIO_HDMI} then put_ext_tag c1 cea0
      else Inr cea0)"

definition cea_ext_block :: "u8 list \<Rightarrow> nat \<Rightarrow> edid_cea \<Rightarrow> edid_cea res" where
  "cea_ext_block bin c cea =
     ebind (byte bin (c + 1)) (\<lambda>c1.
     ebind (cea_ext_body bin c c1 cea) (push_tag CEA_DB_EXTENDED))"

section \<open>The walk over the data block collection\<close>

definition known_tag :: "int \<Rightarrow> bool" where
  "known_tag t \<longleftrightarrow> t \<in> {CEA_DB_AUDIO, CEA_DB_VIDEO, CEA_DB_VENDOR, CEA_DB_SPEAKER, CEA_DB_DTC,
     CEA_DB_EXTENDED}"

definition cea_block :: "u8 list \<Rightarrow> nat \<Rightarrow> int \<Rightarrow> edid_cea \<Rightarrow> edid_cea res" where
  "cea_block bin c b cea =
     (let t = drop_bit 5 b in
      if t = CEA_DB_AUDIO then cea_audio_block bin c b cea
      else if t = CEA_DB_VIDEO then cea_video_block bin c b cea
      else if t = CEA_DB_VENDOR then cea_vendor_block bin c b cea
      else if t = CEA_DB_SPEAKER then cea_speaker_block bin c cea
      else if t = CEA_DB_DTC then push_tag CEA_DB_DTC cea
      else if t = CEA_DB_EXTENDED then cea_ext_block bin c cea
      else Inr cea)"

text \<open>Where the next block starts: an unknown tag ends the walk (\<^verbatim>\<open>c = dtd\<close>).\<close>

definition cea_next :: "int \<Rightarrow> nat \<Rightarrow> nat \<Rightarrow> nat" where
  "cea_next b c dtd = (if known_tag (drop_bit 5 b) then c + nat (blk_len b) + 1 else dtd)"

function cea_walk :: "u8 list \<Rightarrow> nat \<Rightarrow> nat \<Rightarrow> edid_cea \<Rightarrow> edid_cea res" where
  "cea_walk bin c dtd cea =
     (if c < dtd then
        ebind (byte bin c) (\<lambda>b.
        ebind (cea_block bin c b cea) (\<lambda>cea'.
        cea_walk bin (cea_next b c dtd) dtd cea'))
      else Inr cea)"
  by pat_completeness auto
termination
  by (relation "measure (\<lambda>(bin, c, dtd, cea). dtd - c)") (auto simp: cea_next_def)

declare cea_walk.simps [simp del]

section \<open>The extension block\<close>

definition cea_header :: "int \<Rightarrow> int \<Rightarrow> int \<Rightarrow> edid_cea \<Rightarrow> edid_cea" where
  "cea_header r c0 c1 cea =
     cea\<lparr>cea_rev := r, off_dtd := c0, nr_dtd := c1 AND 0x0f,
         flags := \<lparr>fl_underscan = flag (c1 AND 0x80), fl_audio = flag (c1 AND 0x40),
                   fl_ycbcr444 = flag (c1 AND 0x20), fl_ycbcr422 = flag (c1 AND 0x10)\<rparr>,
         nr_dbcs := 0\<rparr>"

definition cea_dtd_ptr :: "nat \<Rightarrow> int \<Rightarrow> nat option" where
  "cea_dtd_ptr ext c0 = (if c0 > 4 then Some (ext + nat c0) else None)"

definition edid_decode_cea :: "u8 list \<Rightarrow> nat \<Rightarrow> ext_data \<Rightarrow> (int \<times> ext_data) res" where
  "edid_decode_cea bin ext_idx x =
     (let ext = 128 * (ext_idx + 1) in
      ebind (byte bin (ext + 1)) (\<lambda>r.
      if r \<noteq> 0x03 then Inr (- 1, x)
      else
        ebind (byte bin (ext + 2)) (\<lambda>c0.
        ebind (byte bin (ext + 3)) (\<lambda>c1.
        let cea = cea_header r c0 c1 (cea_ext x) in
        case cea_dtd_ptr ext c0 of
          None \<Rightarrow> Inr (0, x\<lparr>ext_tag := EDID_EXT_TAG_CEA, cea_ext := cea\<rparr>)
        | Some dtd \<Rightarrow>
            ebind (cea_walk bin (ext + 4) dtd cea) (\<lambda>cea.
            ebind (cea_dtds bin dtd cea) (\<lambda>cea.
            Inr (0, x\<lparr>ext_tag := EDID_EXT_TAG_CEA, cea_ext := cea\<rparr>)))))))"

end
