(* ===== verification/Edid_V14.thy ===== *)
theory Edid_V14
  imports Edid_Cea
begin

text \<open>
  The decoder of the EDID 1.4 base block (\<^verbatim>\<open>edid_decode_v14\<close> of \<^verbatim>\<open>edid.c\<close>), one definition per
  section of the function, and the dispatch over the extension blocks
  (\<^verbatim>\<open>edid_decode_extensions\<close>).  The base block is read at constant offsets below 128; in a
  section, \<open>c\<close> gives the bytes from the start of that section, as the pointer \<^verbatim>\<open>c\<close> does.
\<close>

definition at :: "u8 list \<Rightarrow> nat \<Rightarrow> nat \<Rightarrow> int" where
  "at bin p k = uint (bin ! (p + k))"

section \<open>Header, checksum and identification\<close>

definition edid_header_bytes :: "u8 list" where
  "edid_header_bytes = [0x00, 0xff, 0xff, 0xff, 0xff, 0xff, 0xff, 0x00]"

definition edid_checksum :: "u8 list \<Rightarrow> u8" where
  "edid_checksum bin = fold (\<lambda>s sum. sum + bin ! s) [0..<127] 0"

definition v14_ident :: "u8 list \<Rightarrow> base_edid \<Rightarrow> base_edid" where
  "v14_ident bin e =
     (let c = at bin 8; p = at bin 0x0a; n = at bin 0x0c; y = at bin 0x10; v = at bin 0x12 in
      e\<lparr>checksum := at bin 127 0,
        id_mfg := [0x40 + (drop_bit 2 (c 0) AND 0x1f),
                   0x40 + ((push_bit 3 (c 0) OR drop_bit 5 (c 1)) AND 0x1f),
                   0x40 + (c 1 AND 0x1f), 0],
        id_prod := push_bit 8 (p 1) OR p 0,
        id_sn := word_of_int (push_bit 24 (n 3) OR push_bit 16 (n 2) OR push_bit 8 (n 1) OR n 0),
        mfg_week := (if y 0 \<ge> 0x01 \<and> y 0 \<le> 0x36 then y 0 else 0),
        model_year := (if y 0 = 0xff then 1990 + y 1 else 0),
        mfg_year := (if y 0 = 0xff then 0 else 1990 + y 1),
        ver_mj := v 0, ver_mn := v 1\<rparr>)"

section \<open>Basic display parameters\<close>

definition in_depth :: "int \<Rightarrow> int" where
  "in_depth b =
     (let v = drop_bit 4 b AND 0x7 in
      if v = 1 then VID_6BITS else if v = 2 then VID_8BITS else if v = 3 then VID_10BITS
      else if v = 4 then VID_12BITS else if v = 5 then VID_14BITS else if v = 6 then VID_16BITS
      else VID_NOT_DEFINED)"

definition in_interface :: "int \<Rightarrow> int" where
  "in_interface b =
     (let v = b AND 0xf in
      if v = 1 then VII_DVI else if v = 2 then VII_HDMI_A else if v = 3 then VII_HDMI_B
      else if v = 4 then VII_MDDI else if v = 5 then VII_DISPLAYPORT else VII_NOT_DEFINED)"

definition in_level :: "int \<Rightarrow> int" where
  "in_level b =
     (let v = drop_bit 5 b AND 0x3 in
      if v = 0 then VIL_0P700_0P300_1P000 else if v = 1 then VIL_0P714_0P286_1P000
      else if v = 2 then VIL_1P000_0P400_1P400 else VIL_0P700_0P000_0P700)"

definition v14_input :: "u8 list \<Rightarrow> base_edid \<Rightarrow> base_edid" where
  "v14_input bin e =
     (let b = at bin 0x14 0 in
      if nz (b AND 0x80) then
        e\<lparr>digital_if := 1, input := Digital (in_depth b) (in_interface b)\<rparr>
      else
        e\<lparr>digital_if := 0,
          input := Analog (in_level b)
            (if nz (b AND 0x10) then VIS_BLANK_TO_BLACK_PEDESTAL
             else VIS_BLANK_LEVEL_EQ_BLACK_LEVEL)
            ((if nz (b AND 0x08) then VIS_SEPERATE_H_V_SYNC else 0) OR
             (if nz (b AND 0x04) then VIS_COMPOSITE_H_SYNC else 0) OR
             (if nz (b AND 0x02) then VIS_COMPOSITE_G_VIDEO else 0))
            (if nz (b AND 0x01) then VISR_VSYNC else 0)\<rparr>)"

text \<open>\<^verbatim>\<open>0.01f\<close> is the single-precision number nearest to 1/100.\<close>

definition f32_hundredth :: f32 where
  "f32_hundredth = f32_round 1 100 0"

definition v14_screen :: "u8 list \<Rightarrow> base_edid \<Rightarrow> base_edid" where
  "v14_screen bin e0 =
     (let c = at bin 0x15;
          z = f32_of_int 0;
          e = e0\<lparr>size_defined := 0, aspect_defined := 0, screen := Screen_aspect z z\<rparr> in
      if c 0 \<noteq> 0 then
        (if c 1 \<noteq> 0 then e\<lparr>size_defined := 1, screen := Screen_size (c 0) (c 1)\<rparr>
         else e\<lparr>aspect_defined := 1,
                screen := Screen_aspect
                  (f32_mul (f32_add (f32_of_int (c 0)) (f32_of_int 99)) f32_hundredth) z\<rparr>)
      else if c 1 \<noteq> 0 then
        e\<lparr>aspect_defined := 2,
          screen := Screen_aspect z
            (f32_div (f32_of_int 100) (f32_add (f32_of_int (c 1)) (f32_of_int 99)))\<rparr>
      else e)"

definition v14_gamma :: "u8 list \<Rightarrow> base_edid \<Rightarrow> base_edid" where
  "v14_gamma bin e =
     (let b = at bin 0x17 0 in
      e\<lparr>gamma := (if b < 0xff
                  then f32_div (f32_add (f32_of_int b) (f32_of_int 100)) (f32_of_int 100)
                  else f32_of_int 0)\<rparr>)"

definition color_feature :: "int \<Rightarrow> int \<Rightarrow> int" where
  "color_feature dig b =
     (let v = drop_bit 3 b AND 0x03 in
      if nz dig then
        (if v = 0 then FS_CEF_RGB444
         else if v = 1 then FS_CEF_RGB444 OR FS_CEF_YCBCR444
         else if v = 2 then FS_CEF_RGB444 OR FS_CEF_YCBCR422
         else FS_CEF_RGB444 OR FS_CEF_YCBCR444 OR FS_CEF_YCBCR422)
      else
        (if v = 0 then FS_DCT_MONO_GRAY else if v = 1 then FS_DCT_RGB
         else if v = 2 then FS_DCT_NON_RGB else 0))"

definition v14_feature :: "u8 list \<Rightarrow> base_edid \<Rightarrow> base_edid" where
  "v14_feature bin e =
     (let b = at bin 0x18 0 in
      e\<lparr>feature :=
         (if nz (b AND 0x80) then FS_PM_STANDBY else 0) OR
         (if nz (b AND 0x40) then FS_PM_SUSPEND else 0) OR
         (if nz (b AND 0x20) then FS_PM_ACTIVE_OFF else 0) OR
         color_feature (digital_if e) b OR
         (if nz (b AND 0x04) then FS_OF_SRGB_DEFAULT else 0) OR
         (if nz (b AND 0x02) then FS_OF_NATIVE_PREFERRED else 0) OR
         (if nz (b AND 0x01) then FS_OF_CONTINUOUS_FREQ else 0)\<rparr>)"

definition v14_chroma :: "u8 list \<Rightarrow> base_edid \<Rightarrow> base_edid" where
  "v14_chroma bin e =
     (let c = at bin 0x19 in
      e\<lparr>chroma :=
        \<lparr>r_x = push_bit 2 (c 2) OR (drop_bit 6 (c 0) AND 0x3),
         r_y = push_bit 2 (c 3) OR (drop_bit 4 (c 0) AND 0x3),
         g_x = push_bit 2 (c 4) OR (drop_bit 2 (c 0) AND 0x3),
         g_y = push_bit 2 (c 5) OR (c 0 AND 0x3),
         b_x = push_bit 2 (c 6) OR (drop_bit 6 (c 1) AND 0x3),
         b_y = push_bit 2 (c 7) OR (drop_bit 4 (c 1) AND 0x3),
         w_x = push_bit 2 (c 8) OR (drop_bit 2 (c 1) AND 0x3),
         w_y = push_bit 2 (c 9) OR (c 1 AND 0x3)\<rparr>\<rparr>)"

section \<open>Established and standard timings\<close>

definition v14_established :: "u8 list \<Rightarrow> base_edid \<Rightarrow> base_edid" where
  "v14_established bin e =
     (let c = at bin 0x23 in
      e\<lparr>timing_1_2 :=
     [eb_establish_timing 720 400 70 (c 0 AND 0x80),
      eb_establish_timing 720 400 88 (c 0 AND 0x40),
      eb_establish_timing 640 480 60 (c 0 AND 0x20),
      eb_establish_timing 640 480 67 (c 0 AND 0x10),
      eb_establish_timing 640 480 72 (c 0 AND 0x08),
      eb_establish_timing 640 480 75 (c 0 AND 0x04),
      eb_establish_timing 800 600 56 (c 0 AND 0x02),
      eb_establish_timing 800 600 60 (c 0 AND 0x01),
      eb_establish_timing 800 600 72 (c 1 AND 0x80),
      eb_establish_timing 800 600 75 (c 1 AND 0x40),
      eb_establish_timing 823 624 75 (c 1 AND 0x20),
      eb_establish_timing_i 1024 768 87 (c 1 AND 0x10),
      eb_establish_timing 1024 768 60 (c 1 AND 0x08),
      eb_establish_timing 1024 768 70 (c 1 AND 0x04),
      eb_establish_timing 1024 768 75 (c 1 AND 0x02),
      eb_establish_timing 1280 1024 75 (c 1 AND 0x01),
      eb_establish_timing 1152 870 75 (c 2 AND 0x80)]\<rparr>)"

definition st_aspect :: "int \<Rightarrow> int" where
  "st_aspect b =
     (let v = drop_bit 6 b AND 0x3 in
      if v = 0 then ST_AR_16_10 else if v = 1 then ST_AR_4_3 else if v = 2 then ST_AR_5_4
      else ST_AR_16_9)"

text \<open>An entry whose first byte is zero is skipped: the old value stays.\<close>

definition standard_timing :: "int \<Rightarrow> int \<Rightarrow> eb_standard_timing \<Rightarrow> eb_standard_timing" where
  "standard_timing c0 c1 old =
     (if c0 = 0 then old
      else \<lparr>st_horizontal = (c0 + 31) * 8, st_aspect_ratio = st_aspect c1,
            st_refresh_rate = (c1 AND 0x3f) + 60\<rparr>)"

definition v14_standard :: "u8 list \<Rightarrow> base_edid \<Rightarrow> base_edid" where
  "v14_standard bin e =
     (let c = at bin 0x26 in
      e\<lparr>standard_timings :=
        fold (\<lambda>i ts. ts[i := standard_timing (c (2 * i)) (c (2 * i + 1)) (ts ! i)]) [0..<8]
          (standard_timings e)\<rparr>)"

section \<open>Descriptors\<close>

definition v14_dtd_sync :: "int \<Rightarrow> int" where
  "v14_dtd_sync c17 =
     (if nz (c17 AND 0x10) then
        (if nz (c17 AND 0x08) then
           D_SEPERATE_SYNC OR
           (if nz (c17 AND 0x04) then D_SEPERATE_VSYNC_P else D_SEPERATE_VSYNC_N) OR
           (if nz (c17 AND 0x02) then D_SEPERATE_HSYNC_P else D_SEPERATE_HSYNC_N)
         else dtd_composite_sync c17)
      else dtd_analog_sync c17)"

definition v14_dtd :: "(nat \<Rightarrow> int) \<Rightarrow> eb_detailed_timing_desc" where
  "v14_dtd c = dtd_fields c (v14_dtd_sync (c 17))"

text \<open>
  The text descriptors: thirteen bytes are copied, line feeds become zero, and byte 18 is set
  to zero.  Bytes 13 to 17 of the array are not written.
\<close>

definition desc_text :: "(nat \<Rightarrow> int) \<Rightarrow> u8 option list" where
  "desc_text c =
     map (\<lambda>s. Some (if c (5 + s) = 0x0a then 0 else word_of_int (c (5 + s)))) [0..<18 - 5] @
     replicate 5 None @ [Some 0] @ replicate 13 None"

subsection \<open>Range limits\<close>

definition h_offset_of :: "int \<Rightarrow> int" where
  "h_offset_of c4 =
     (let v = c4 AND 0xfc in
      if v = 0x08 then HRO_MAX_255_MIN_ZERO else if v = 0x0c then HRO_MAX_255_MIN_255
      else HRO_ZERO)"

definition v_offset_of :: "int \<Rightarrow> int" where
  "v_offset_of c4 =
     (let v = c4 AND 0xf3 in
      if v = 0x02 then VRO_MAX_255_MIN_ZERO else if v = 0x03 then VRO_MAX_255_MIN_255
      else VRO_ZERO)"

text \<open>A limit byte \<open>b\<close> with the offset bits \<open>m\<close> of byte 4.\<close>

definition rate_limit :: "int \<Rightarrow> int \<Rightarrow> int \<Rightarrow> int" where
  "rate_limit c4 m b = (if b \<noteq> 0 then (if c4 AND m = m then b + 255 else b) else 0)"

definition cvt_preferred :: "int \<Rightarrow> int" where
  "cvt_preferred c15 =
     (let v = c15 AND 0xe0 in
      if v = 0x00 then CVT_AR_4_3 else if v = 0x20 then CVT_AR_16_9
      else if v = 0x40 then CVT_AR_16_10 else if v = 0x60 then CVT_AR_5_4
      else if v = 0x80 then CVT_AR_15_9 else 0)"

definition range_cvt_of :: "(nat \<Rightarrow> int) \<Rightarrow> range_cvt" where
  "range_cvt_of c =
     \<lparr>cvt_ver_mj = drop_bit 4 (c 11), cvt_ver_mn = c 11 AND 0x0f,
      extra_pclk = f32_mul (f32_of_int (drop_bit 2 (c 12))) (f32_round 1 4 0),
      line_max = (if c 13 \<noteq> 0 then (push_bit 8 (c 12 AND 0x03) OR c 13) * 8 else 0),
      aspect_ratios =
        (if nz (c 14 AND 0x80) then CVT_AR_4_3 else 0) OR
        (if nz (c 14 AND 0x40) then CVT_AR_16_9 else 0) OR
        (if nz (c 14 AND 0x20) then CVT_AR_16_10 else 0) OR
        (if nz (c 14 AND 0x10) then CVT_AR_5_4 else 0) OR
        (if nz (c 14 AND 0x08) then CVT_AR_15_9 else 0),
      preferred_ar = cvt_preferred (c 15),
      cvt_blanking =
        (if nz (c 15 AND 0x08) then CVT_STANDARD_BLANKING else 0) OR
        (if nz (c 15 AND 0x10) then CVT_REDUCED_BLANKING else 0),
      cvt_scaling =
        (if nz (c 16 AND 0x80) then CVT_H_SHRINK else 0) OR
        (if nz (c 16 AND 0x40) then CVT_H_STRETCH else 0) OR
        (if nz (c 16 AND 0x20) then CVT_V_SHRINK else 0) OR
        (if nz (c 16 AND 0x10) then CVT_V_STRETCH else 0),
      v_refresh = c 17\<rparr>"

definition range_gtf_of :: "(nat \<Rightarrow> int) \<Rightarrow> gtf_2nd_curve" where
  "range_gtf_of c =
     \<lparr>break_freq = c 12 * 2, gtf_C = c 13 div 2, gtf_M = push_bit 8 (c 15) OR c 14,
      gtf_K = c 16, gtf_J = c 17 div 2\<rparr>"

definition range_timing :: "int \<Rightarrow> (nat \<Rightarrow> int) \<Rightarrow> int \<times> range_ext" where
  "range_timing feat c =
     (if c 10 = 0 \<and> nz (feat AND FS_OF_CONTINUOUS_FREQ) then (TF_DEFAULT_GTF, Range_unset)
      else if c 10 = 0x04 \<and> nz (feat AND FS_OF_CONTINUOUS_FREQ) then
        (TF_CVT, Range_cvt (range_cvt_of c))
      else if c 10 = 0x01 then (TF_RANGE_LIMITS, Range_unset)
      else if c 10 = 0x02 then (TF_SECOND_GTF, Range_gtf (range_gtf_of c))
      else (0, Range_unset))"

definition range_limits_of :: "int \<Rightarrow> (nat \<Rightarrow> int) \<Rightarrow> range_limits" where
  "range_limits_of feat c =
     \<lparr>v_offset = v_offset_of (c 4), h_offset = h_offset_of (c 4),
      v_min = rate_limit (c 4) 0x03 (c 5), v_max = rate_limit (c 4) 0x02 (c 6),
      h_min = rate_limit (c 4) 0x0c (c 7), h_max = rate_limit (c 4) 0x08 (c 8),
      p_max = c 9 * 10,
      timing_flags = fst (range_timing feat c), range_ext = snd (range_timing feat c)\<rparr>"

subsection \<open>The other display descriptors\<close>

definition white_point_of :: "(nat \<Rightarrow> int) \<Rightarrow> nat \<Rightarrow> white_point" where
  "white_point_of c k =
     \<lparr>wp_index = c k,
      wp_x = push_bit 2 (c (k + 2)) OR (drop_bit 2 (c (k + 1)) AND 0x3),
      wp_y = push_bit 2 (c (k + 3)) OR (c (k + 1) AND 0x3),
      wp_gamma = (if c (k + 4) < 0xff
                  then f32_mul (f32_add (f32_of_int (c (k + 4))) (f32_of_int 100)) f32_hundredth
                  else f32_of_int 0)\<rparr>"

definition dcm_of :: "(nat \<Rightarrow> int) \<Rightarrow> dcm" where
  "dcm_of c =
     \<lparr>dcm_ver = c 5,
      r_a2 = push_bit 8 (c 9) OR c 8, r_a3 = push_bit 8 (c 7) OR c 6,
      g_a2 = push_bit 8 (c 13) OR c 12, g_a3 = push_bit 8 (c 11) OR c 10,
      b_a2 = push_bit 8 (c 17) OR c 16, b_a3 = push_bit 8 (c 15) OR c 14\<rparr>"

text \<open>The aspect and the preferred rate are or-ed into the old values.\<close>

definition cvt_timing_of :: "int \<Rightarrow> int \<Rightarrow> int \<Rightarrow> cvt_timing \<Rightarrow> cvt_timing" where
  "cvt_timing_of d0 d1 d2 old =
     \<lparr>cvt_lines = push_bit 4 (d1 AND 0xf0) OR d0,
      cvt_aspect = cvt_aspect old OR
        (let v = d1 AND 0x0c in
         if v = 0x00 then CVT_AR_4_3 else if v = 0x04 then CVT_AR_16_9
         else if v = 0x08 then CVT_AR_16_10 else CVT_AR_15_9),
      preferred_v_rate = preferred_v_rate old OR
        (let v = d2 AND 0x60 in
         if v = 0x00 then CVT_V_RATE_50HZ else if v = 0x20 then CVT_V_RATE_60HZ
         else if v = 0x40 then CVT_V_RATE_75HZ else CVT_V_RATE_85HZ),
      supported_v_rate_blank =
        (if nz (d2 AND 0x10) then CVT_V_RATE_50HZ OR CVT_STANDARD_BLANKING else 0) OR
        (if nz (d2 AND 0x08) then CVT_V_RATE_60HZ OR CVT_STANDARD_BLANKING else 0) OR
        (if nz (d2 AND 0x04) then CVT_V_RATE_75HZ OR CVT_STANDARD_BLANKING else 0) OR
        (if nz (d2 AND 0x02) then CVT_V_RATE_85HZ OR CVT_STANDARD_BLANKING else 0) OR
        (if nz (d2 AND 0x01) then CVT_V_RATE_60HZ OR CVT_REDUCED_BLANKING else 0)\<rparr>"

definition extra_standard_of ::
  "(nat \<Rightarrow> int) \<Rightarrow> eb_standard_timing list \<Rightarrow> eb_standard_timing list" where
  "extra_standard_of c =
     fold (\<lambda>s ts. ts[s := standard_timing (c (5 + 2 * s)) (c (5 + 2 * s + 1)) (ts ! s)]) [0..<6]"

definition cvt_timings_of :: "(nat \<Rightarrow> int) \<Rightarrow> cvt_timing list \<Rightarrow> cvt_timing list" where
  "cvt_timings_of c =
     fold (\<lambda>s ts. ts[s := cvt_timing_of (c (6 + s * 3)) (c (6 + s * 3 + 1)) (c (6 + s * 3 + 2))
                           (ts ! s)]) [0..<4]"

text \<open>The last four entries of the array are not written.\<close>

definition established_3 :: "(nat \<Rightarrow> int) \<Rightarrow> eb_established_timing list" where
  "established_3 c =
     [eb_establish_timing 640 350 85 (c 6 AND 0x80),
      eb_establish_timing 640 400 85 (c 6 AND 0x40),
      eb_establish_timing 720 400 85 (c 6 AND 0x20),
      eb_establish_timing 640 480 85 (c 6 AND 0x10),
      eb_establish_timing 848 480 60 (c 6 AND 0x08),
      eb_establish_timing 800 600 85 (c 6 AND 0x04),
      eb_establish_timing 1024 768 85 (c 6 AND 0x02),
      eb_establish_timing 1152 864 75 (c 6 AND 0x01),
      eb_establish_timing_rb 1280 768 60 (c 7 AND 0x80),
      eb_establish_timing 1280 768 60 (c 7 AND 0x40),
      eb_establish_timing 1280 768 75 (c 7 AND 0x20),
      eb_establish_timing 1280 768 85 (c 7 AND 0x10),
      eb_establish_timing 1280 960 60 (c 7 AND 0x08),
      eb_establish_timing 1280 960 85 (c 7 AND 0x04),
      eb_establish_timing 1280 1024 60 (c 7 AND 0x02),
      eb_establish_timing 1280 1024 85 (c 7 AND 0x01),
      eb_establish_timing 1360 768 60 (c 8 AND 0x80),
      eb_establish_timing_rb 1440 900 60 (c 8 AND 0x40),
      eb_establish_timing 1440 900 60 (c 8 AND 0x20),
      eb_establish_timing 1440 900 75 (c 8 AND 0x10),
      eb_establish_timing 1440 900 85 (c 8 AND 0x08),
      eb_establish_timing_rb 1400 1050 60 (c 8 AND 0x04),
      eb_establish_timing 1400 1050 60 (c 8 AND 0x02),
      eb_establish_timing 1400 1050 75 (c 8 AND 0x01),
      eb_establish_timing 1400 1050 85 (c 9 AND 0x80),
      eb_establish_timing 1680 1050 60 (c 9 AND 0x40),
      eb_establish_timing 1680 1050 60 (c 9 AND 0x20),
      eb_establish_timing 1680 1050 75 (c 9 AND 0x10),
      eb_establish_timing 1680 1050 85 (c 9 AND 0x08),
      eb_establish_timing 1600 1200 60 (c 9 AND 0x04),
      eb_establish_timing 1600 1200 65 (c 9 AND 0x02),
      eb_establish_timing 1600 1200 70 (c 9 AND 0x01),
      eb_establish_timing 1600 1200 75 (c 10 AND 0x80),
      eb_establish_timing 1600 1200 85 (c 10 AND 0x40),
      eb_establish_timing 1792 1344 60 (c 10 AND 0x20),
      eb_establish_timing 1792 1344 75 (c 10 AND 0x10),
      eb_establish_timing 1856 1392 60 (c 10 AND 0x08),
      eb_establish_timing 1856 1392 75 (c 10 AND 0x04),
      eb_establish_timing_rb 1920 1200 60 (c 10 AND 0x02),
      eb_establish_timing 1920 1200 60 (c 10 AND 0x01),
      eb_establish_timing 1920 1200 75 (c 11 AND 0x80),
      eb_establish_timing 1920 1200 85 (c 11 AND 0x40),
      eb_establish_timing 1920 1440 65 (c 11 AND 0x20),
      eb_establish_timing 1920 1440 75 (c 11 AND 0x10)]"

definition display_descriptor :: "int \<Rightarrow> (nat \<Rightarrow> int) \<Rightarrow> descriptor \<Rightarrow> descriptor" where
  "display_descriptor feat c d0 =
     (let d = d0\<lparr>desc_type := DT_DISPLAY_DESCRIPTOR\<rparr>; t = c 3 in
      if t = 0xff then d\<lparr>desc_tag := DTAG_PRODUCT_SERIAL, desc_body := Desc_serial (desc_text c)\<rparr>
      else if t = 0xfe then d\<lparr>desc_tag := DTAG_DATA_STRING, desc_body := Desc_string (desc_text c)\<rparr>
      else if t = 0xfd then
        d\<lparr>desc_tag := DTAG_RANGE_LIMIT, desc_body := Desc_range (range_limits_of feat c)\<rparr>
      else if t = 0xfc then d\<lparr>desc_tag := DTAG_PRODUCT_NAME, desc_body := Desc_name (desc_text c)\<rparr>
      else if t = 0xfb then
        d\<lparr>desc_tag := DTAG_COLOR_POINT,
          desc_body := Desc_white (white_point_of c 5) (white_point_of c 10)\<rparr>
      else if t = 0xfa then
        d\<lparr>desc_tag := DTAG_STANDARD_TIMING,
          extra_standard_timings := extra_standard_of c (extra_standard_timings d)\<rparr>
      else if t = 0xf9 then d\<lparr>desc_tag := DTAG_DCM_DATA, desc_dcm := dcm_of c\<rparr>
      else if t = 0xf8 then
        d\<lparr>desc_tag := DTAG_CVT_TIMING, desc_cvt := cvt_timings_of c (desc_cvt d)\<rparr>
      else if t = 0xf7 then
        d\<lparr>desc_tag := DTAG_ESTABLISHED_TIMING_III,
          timing_3 := established_3 c @ drop 44 (timing_3 d)\<rparr>
      else if t = 0x10 then d\<lparr>desc_tag := DTAG_DUMMY\<rparr>
      else d)"

definition v14_descriptor :: "int \<Rightarrow> (nat \<Rightarrow> int) \<Rightarrow> descriptor \<Rightarrow> descriptor" where
  "v14_descriptor feat c d =
     (if c 0 \<noteq> 0 \<or> c 1 \<noteq> 0 then
        d\<lparr>desc_type := DT_DETAILED_TIMING, desc_body := Desc_detailed (v14_dtd c)\<rparr>
      else display_descriptor feat c d)"

definition v14_descriptors :: "u8 list \<Rightarrow> base_edid \<Rightarrow> base_edid" where
  "v14_descriptors bin e =
     e\<lparr>descriptors :=
       fold (\<lambda>i ds. ds[i := v14_descriptor (feature e) (at bin (0x36 + 18 * i)) (ds ! i)]) [0..<4]
         (descriptors e)\<rparr>"

section \<open>Extension blocks\<close>

definition decode_extension :: "u8 list \<Rightarrow> nat \<Rightarrow> base_edid \<Rightarrow> (int \<times> base_edid) res" where
  "decode_extension bin i e =
     ebind (byte bin (128 + 128 * i)) (\<lambda>t.
     if t = EDID_EXT_TAG_CEA then
       (if i < length (ext_datas e) then
          ebind (edid_decode_cea bin i (ext_datas e ! i)) (\<lambda>(r, x).
          Inr (r, e\<lparr>ext_datas := (ext_datas e)[i := x]\<rparr>))
        else Inl (Bad_write i))
     else Inr (0, e))"

fun decode_ext_loop :: "u8 list \<Rightarrow> nat list \<Rightarrow> base_edid \<Rightarrow> (int \<times> base_edid) res" where
  "decode_ext_loop bin [] e = Inr (0, e)"
| "decode_ext_loop bin (i # is) e =
     ebind (decode_extension bin i e) (\<lambda>(r, e').
     if r \<noteq> 0 then Inr (- 1, e') else decode_ext_loop bin is e')"

definition edid_decode_extensions :: "u8 list \<Rightarrow> base_edid \<Rightarrow> (int \<times> base_edid) res" where
  "edid_decode_extensions bin e =
     ebind (byte bin 0x7e) (\<lambda>n.
     let nr_ext = (if n > 1 then 1 else n) in
     decode_ext_loop bin [0..<nat nr_ext] e)"

section \<open>The whole decoder\<close>

definition v14_base :: "u8 list \<Rightarrow> base_edid \<Rightarrow> base_edid" where
  "v14_base bin e =
     (v14_descriptors bin \<circ> v14_standard bin \<circ> v14_established bin \<circ> v14_chroma bin \<circ>
      v14_feature bin \<circ> v14_gamma bin \<circ> v14_screen bin \<circ> v14_input bin \<circ> v14_ident bin) e"

definition edid_decode_v14 :: "u8 list \<Rightarrow> base_edid \<Rightarrow> (int \<times> base_edid) res" where
  "edid_decode_v14 bin e =
     (if length bin < 8 then Inl (Bad_read (length bin))
      else if take 8 bin \<noteq> edid_header_bytes then Inr (- 1, e)
      else if length bin < 128 then Inl (Bad_read (length bin))
      else if edid_checksum bin + bin ! 127 \<noteq> 0x00 then Inr (- 1, e)
      else
        (let e1 = v14_base bin e;
             e2 = e1\<lparr>extensions := at bin 0x7e 0\<rparr> in
         if extensions e2 \<noteq> 0 then
           ebind (edid_decode_extensions bin e2) (\<lambda>(r, e3). Inr (0, e3))
         else Inr (0, e2)))"

end
