(* ===== verification/Edid_Safety.thy ===== *)
theory Edid_Safety
  imports Edid_V14
begin

text \<open>
  Memory safety of the EDID decoder.  \<open>cea_fits\<close> is an executable condition on a 256-byte image (base block and one
  extension) under which no access of the decoder leaves its array; the decoder itself tests
  nothing of it, and the last section shows images on which it leaves them.
\<close>

lemma ok_byte [ok_simps]: "ok_res (byte bin i) P \<longleftrightarrow> i < length bin \<and> P (uint (bin ! i))"
  by (simp add: byte_def)

section \<open>The condition on the image\<close>

abbreviation ub :: "u8 list \<Rightarrow> nat \<Rightarrow> int" where
  "ub bin i \<equiv> uint (bin ! i)"

definition blen :: "u8 list \<Rightarrow> nat \<Rightarrow> nat" where
  "blen bin c = nat (blk_len (ub bin c))"

text \<open>
  An HDMI vendor block that announces latencies or video formats contains them, and its list
  of 3D formats ends inside the block and has at most sixteen bytes.
\<close>

definition hv_of :: "u8 list \<Rightarrow> nat \<Rightarrow> nat" where
  "hv_of bin c = c + 9 + (if nz (ub bin (c + 8) AND 0x80) then 2 else 0)
     + (if nz (ub bin (c + 8) AND 0x40) then 2 else 0)"

definition vsdb_fits :: "u8 list \<Rightarrow> nat \<Rightarrow> bool" where
  "vsdb_fits bin c \<longleftrightarrow> 5 \<le> blen bin c \<and>
     (8 \<le> blen bin c \<longrightarrow>
        hv_of bin c \<le> c + blen bin c + 1 \<and>
        (nz (ub bin (c + 8) AND 0x20) \<longrightarrow>
           (let hv = hv_of bin c; xx = nat (drop_bit 5 (ub bin (hv + 1)));
                l3 = nat (ub bin (hv + 1) AND 0x1f) in
            hv + 2 \<le> c + blen bin c + 1 \<and>
            (0 < l3 \<longrightarrow> l3 \<le> 16 \<and> (drop_bit 5 (ub bin hv) AND 3 = 2 \<longrightarrow> 4 \<le> l3) \<and>
               (drop_bit 5 (ub bin hv) AND 3 = 1 \<longrightarrow> 2 \<le> l3) \<and>
               hv + 2 + xx + l3 \<le> c + blen bin c + 1))))"

definition hdmi_oui :: "u8 list \<Rightarrow> nat \<Rightarrow> bool" where
  "hdmi_oui bin c \<longleftrightarrow> ub bin (c + 1) = 0x03 \<and> ub bin (c + 2) = 0x0c \<and> ub bin (c + 3) = 0"

definition block_fits :: "u8 list \<Rightarrow> nat \<Rightarrow> nat \<Rightarrow> bool" where
  "block_fits bin c dtd \<longleftrightarrow> c + blen bin c + 1 \<le> dtd \<and>
     (let t = drop_bit 5 (ub bin c) in
      (t = CEA_DB_VENDOR \<longrightarrow> 3 \<le> blen bin c \<and> (hdmi_oui bin c \<longrightarrow> vsdb_fits bin c)) \<and>
      (t = CEA_DB_SPEAKER \<longrightarrow> 1 \<le> blen bin c) \<and>
      (t = CEA_DB_EXTENDED \<longrightarrow> 1 \<le> blen bin c \<and>
         (ub bin (c + 1) = CEA_DBE_VIDEO_CAP \<longrightarrow> 2 \<le> blen bin c) \<and>
         (ub bin (c + 1) = CEA_DBE_COLORIMETRY \<longrightarrow> 3 \<le> blen bin c)))"

function blocks_fit :: "u8 list \<Rightarrow> nat \<Rightarrow> nat \<Rightarrow> nat \<Rightarrow> bool" where
  "blocks_fit bin c dtd n =
     (if c < dtd then
        (if known_tag (drop_bit 5 (ub bin c)) then
           n < 62 \<and> block_fits bin c dtd \<and> blocks_fit bin (c + blen bin c + 1) dtd (n + 1)
         else True)
      else True)"
  by pat_completeness auto
termination by (relation "measure (\<lambda>(bin, c, dtd, n). dtd - c)") auto

declare blocks_fit.simps [simp del]

definition cea_fits :: "u8 list \<Rightarrow> bool" where
  "cea_fits bin \<longleftrightarrow> 256 \<le> length bin \<and>
     (let off = nat (ub bin 130); nr = nat (ub bin 131 AND 0x0f) in
      ub bin 129 \<noteq> 3 \<or> off \<le> 4 \<or>
      off + 18 * nr \<le> 128 \<and> off \<le> 127 \<and> blocks_fit bin 132 (128 + off) 0)"

section \<open>Each block is decoded without a fault\<close>

definition cea_state :: "nat \<Rightarrow> edid_cea \<Rightarrow> bool" where
  "cea_state n cea \<longleftrightarrow> wf_cea cea \<and> nr_dbcs cea = int n"

lemma blk_len_range: "0 \<le> blk_len b" "blk_len b \<le> 31"
proof -
  show "0 \<le> blk_len b" by (simp add: blk_len_def)
  have "b AND 0x1f \<le> 0x1f" by (rule AND_upper2) simp
  then show "blk_len b \<le> 31" by (simp add: blk_len_def)
qed

lemma int_blen [simp]: "int (blen bin c) = blk_len (ub bin c)"
  by (simp add: blen_def blk_len_range)

lemma blen_le: "blen bin c \<le> 31"
  using blk_len_range(2) [of "ub bin c"] by (simp add: blen_def)

lemma nat_blk_len [simp]: "nat (blk_len (ub bin c)) = blen bin c"
  by (simp add: blen_def)

lemma blk_len_ge [simp]: "numeral k \<le> blk_len (ub bin c) \<longleftrightarrow> numeral k \<le> blen bin c"
  using int_blen [of bin c] by (metis of_nat_le_iff of_nat_numeral)

lemma ok_push_tag:
  assumes "cea_state n cea" "n < 62"
  shows "ok_res (push_tag t cea) (cea_state (n + 1))"
  using assms by (simp add: push_tag_def ok_simps cea_state_def wf_cea_def)

lemma ok_push_tag_then:
  assumes "cea_state n cea" "n < 62" and "\<And>x. cea_state (n + 1) x \<Longrightarrow> ok_res (f x) P"
  shows "ok_res (ebind (push_tag t cea) f) P"
  unfolding ok_ebind using ok_push_tag [OF assms(1, 2)] by (rule ok_mono) (rule assms(3))

lemma ok_cea_sad:
  "p + 2 < length bin \<Longrightarrow> ok_res (cea_sad bin p old) (\<lambda>_. True)"
  by (simp add: cea_sad_def ok_simps Let_def)

lemma ok_cea_svd: "p < length bin \<Longrightarrow> ok_res (cea_svd bin p old) (\<lambda>_. True)"
  by (simp add: cea_svd_def ok_simps)

text \<open>A loop that rewrites the first \<open>n\<close> elements of an array keeps its length.\<close>

lemma ok_fold_upd:
  fixes xs :: "'a list"
  assumes "n \<le> length xs" and "\<And>i x. i < n \<Longrightarrow> ok_res (f i x) (\<lambda>_. True)"
  shows "ok_res (fold_res (\<lambda>i. upd_res i (f i)) [0..<n] xs) (\<lambda>ys. length ys = length xs)"
proof (rule ok_fold_inv)
  fix i and ys :: "'a list" assume i: "i \<in> set [0..<n]" and l: "length ys = length xs"
  then have "ok_res (f i (ys ! i)) (\<lambda>v. length (ys[i := v]) = length xs)"
    using assms(2) by (auto elim: ok_mono)
  with i l assms(1) show "ok_res (upd_res i (f i) ys) (\<lambda>ys. length ys = length xs)"
    by (simp add: ok_upd)
qed simp

lemma ok_audio_block:
  assumes "cea_state n cea" "n < 62" "c + blen bin c < length bin"
  shows "ok_res (cea_audio_block bin c (ub bin c) cea) (cea_state (n + 1))"
  unfolding cea_audio_block_def
proof (rule ok_push_tag_then [OF assms(1, 2)])
  fix cea assume s: "cea_state (n + 1) cea"
  let ?n = "nat (blk_len (ub bin c) div 3)"
  have n: "?n = blen bin c div 3" by (simp add: nat_div_distrib blk_len_range)
  have "?n \<le> length (sads (cea_audio cea))"
    using s blen_le [of bin c] by (simp add: n cea_state_def wf_cea_def)
  moreover have "ok_res (cea_sad bin (c + 1 + 3 * i) x) (\<lambda>_. True)" if "i < ?n" for i x
    using that assms(3) by (intro ok_cea_sad) (simp add: n)
  ultimately have "ok_res (fold_res (\<lambda>i. upd_res i (cea_sad bin (c + 1 + 3 * i))) [0..<?n]
      (sads (cea_audio cea))) (\<lambda>ss. length ss = length (sads (cea_audio cea)))"
    by (rule ok_fold_upd)
  then show "ok_res (let n = blk_len (ub bin c) div 3 in
      ebind (fold_res (\<lambda>i. upd_res i (cea_sad bin (c + 1 + 3 * i))) [0..<nat n]
              (sads (cea_audio cea))) (\<lambda>ss.
      Inr (cea\<lparr>cea_audio := \<lparr>nr_sad = n, sads = ss\<rparr>\<rparr>))) (cea_state (n + 1))"
    unfolding Let_def ok_ebind
    by (rule ok_mono) (use s in \<open>simp add: cea_state_def wf_cea_def\<close>)
qed

lemma ok_video_block:
  assumes "cea_state n cea" "n < 62" "c + blen bin c < length bin"
  shows "ok_res (cea_video_block bin c (ub bin c) cea) (cea_state (n + 1))"
  unfolding cea_video_block_def
proof (rule ok_push_tag_then [OF assms(1, 2)])
  fix cea assume s: "cea_state (n + 1) cea"
  have "blen bin c \<le> length (svds (cea_video cea))"
    using s blen_le [of bin c] by (simp add: cea_state_def wf_cea_def)
  moreover have "ok_res (cea_svd bin (c + 1 + i) x) (\<lambda>_. True)" if "i < blen bin c" for i x
    using that assms(3) by (intro ok_cea_svd) simp
  ultimately have "ok_res (fold_res (\<lambda>i. upd_res i (cea_svd bin (c + 1 + i))) [0..<blen bin c]
      (svds (cea_video cea))) (\<lambda>ss. length ss = length (svds (cea_video cea)))"
    by (rule ok_fold_upd)
  then show "ok_res (let n = blk_len (ub bin c) in
      ebind (fold_res (\<lambda>i. upd_res i (cea_svd bin (c + 1 + i))) [0..<nat n]
              (svds (cea_video cea))) (\<lambda>vs.
      Inr (cea\<lparr>cea_video := \<lparr>nr_svd = n, svds = vs\<rparr>\<rparr>))) (cea_state (n + 1))"
    unfolding Let_def ok_ebind nat_blk_len
    by (rule ok_mono) (use s in \<open>simp add: cea_state_def wf_cea_def\<close>)
qed

lemma ok_speaker_block:
  assumes "cea_state n cea" "n < 62" "c + 1 < length bin"
  shows "ok_res (cea_speaker_block bin c cea) (cea_state (n + 1))"
  unfolding cea_speaker_block_def
  by (rule ok_push_tag_then [OF assms(1, 2)])
    (use assms(3) in \<open>simp add: ok_simps cea_state_def wf_cea_def\<close>)

lemma ok_ext_block:
  assumes "cea_state n cea" "n < 62" "c + 1 < length bin"
    and "ub bin (c + 1) = CEA_DBE_VIDEO_CAP \<Longrightarrow> c + 2 < length bin"
    and "ub bin (c + 1) = CEA_DBE_COLORIMETRY \<Longrightarrow> c + 3 < length bin"
  shows "ok_res (cea_ext_block bin c cea) (cea_state (n + 1))"
proof -
  have "ok_res (cea_ext_body bin c (ub bin (c + 1)) cea) (cea_state n)"
    using assms by (auto simp: cea_ext_body_def put_ext_tag_def ok_simps cea_state_def wf_cea_def)
  then have "ok_res (cea_ext_body bin c (ub bin (c + 1)) cea)
      (\<lambda>x. ok_res (push_tag CEA_DB_EXTENDED x) (cea_state (n + 1)))"
    by (rule ok_mono) (rule ok_push_tag [OF _ assms(2)])
  then show ?thesis using assms(3) by (simp add: cea_ext_block_def ok_simps)
qed

subsection \<open>The HDMI vendor block\<close>

text \<open>
  The parts of the vendor block only read bytes of the block; the 3D part is safe when the list
  of formats ends inside the image and has at most as many entries as the array has free places.
\<close>

lemma ok_vic_3d_loop:
  assumes "vic_l > 0 \<Longrightarrow> vic + nat vic_l < length bin" "0 \<le> nr_vic_3d v"
    "nr_vic_3d v + vic_l \<le> 16 \<or> vic_l \<le> 0" "length (vics_3d v) = 16"
  shows "ok_res (vic_3d_loop bin vic vic_l v) (\<lambda>w. length (vics_3d w) = 16)"
  using assms
proof (induction bin vic vic_l v rule: vic_3d_loop.induct)
  case (1 bin vic vic_l v)
  show ?case
  proof (cases "vic_l > 0")
    case False
    with "1.prems" show ?thesis by (simp add: vic_3d_loop.simps [of bin vic vic_l])
  next
    case True
    with "1.prems" have l: "vic + nat vic_l < length bin" "nr_vic_3d v + vic_l \<le> 16" by auto
    have i: "nat (nr_vic_3d v) < 16" using True "1.prems" l by linarith
    have b: "byte bin vic = Inr (ub bin vic)" "byte bin (vic + 1) = Inr (ub bin (vic + 1))"
      using True l by (simp_all add: byte_def)
    show ?thesis
    proof (cases "ub bin vic AND 0x0f \<ge> 0x08")
      case big: True
      let ?x = "\<lparr>v3_vic_2d = drop_bit 4 (ub bin vic), v3_struct_3d = ub bin vic AND 0x0f,
        v3_detail_3d = drop_bit 4 (ub bin (vic + 1))\<rparr>"
      have "ok_res (vic_3d_loop bin (vic + 2) (vic_l - 2)
          (v\<lparr>vics_3d := (vics_3d v)[nat (nr_vic_3d v) := ?x], nr_vic_3d := nr_vic_3d v + 1\<rparr>))
          (\<lambda>w. length (vics_3d w) = 16)"
        by (rule "1.IH"(1) [OF True b(1) big b(2)])
          (use True l i "1.prems" in \<open>auto simp: put_res_def upd_res_def\<close>)
      then show ?thesis
        using True l i "1.prems" big
        by (subst vic_3d_loop.simps) (simp add: ok_simps)
    next
      case small: False
      let ?x = "\<lparr>v3_vic_2d = drop_bit 4 (ub bin vic), v3_struct_3d = ub bin vic AND 0x0f,
        v3_detail_3d = 0\<rparr>"
      have "ok_res (vic_3d_loop bin (vic + 1) (vic_l - 1)
          (v\<lparr>vics_3d := (vics_3d v)[nat (nr_vic_3d v) := ?x], nr_vic_3d := nr_vic_3d v + 1\<rparr>))
          (\<lambda>w. length (vics_3d w) = 16)"
        by (rule "1.IH"(2) [OF True b(1) small])
          (use True l i "1.prems" in \<open>auto simp: put_res_def upd_res_def\<close>)
      then show ?thesis
        using True l i "1.prems" small
        by (subst vic_3d_loop.simps) (simp add: ok_simps)
    qed
  qed
qed

lemma ok_vsdb_3d:
  assumes "length (vics_3d v) = 16" "0 \<le> hdmi_xx_len v"
    and "hdmi_3d_len v > 0 \<Longrightarrow> hdmi_3d_len v \<le> 16 \<and>
       hv + 2 + nat (hdmi_xx_len v) + nat (hdmi_3d_len v) < length bin \<and>
       (multi_3d v = 2 \<longrightarrow> 4 \<le> hdmi_3d_len v) \<and> (multi_3d v = 1 \<longrightarrow> 2 \<le> hdmi_3d_len v)"
  shows "ok_res (vsdb_3d bin hv v) (\<lambda>w. length (vics_3d w) = 16)"
proof (cases "hdmi_3d_len v > 0")
  case False
  then show ?thesis using assms(1) by (simp add: vsdb_3d_def ok_simps)
next
  case True
  note l = assms(3) [OF True]
  let ?d = "hv + 2 + nat (hdmi_xx_len v)"
  have two: "ok_res (vic_3d_loop bin (?d + 4) (hdmi_3d_len v - 4)
      (v\<lparr>struct_all_3d := a, mask_3d := m, nr_vic_3d := 0\<rparr>)) (\<lambda>w. length (vics_3d w) = 16)"
    for a m
    by (rule ok_vic_3d_loop) (use l assms(1) in auto)
  have one: "ok_res (vic_3d_loop bin (?d + 2) (hdmi_3d_len v - 2)
      (v\<lparr>struct_all_3d := a, mask_3d := m, nr_vic_3d := 0\<rparr>)) (\<lambda>w. length (vics_3d w) = 16)"
    for a m
    by (rule ok_vic_3d_loop) (use l assms(1) in auto)
  consider "multi_3d v = 2" | "multi_3d v = 1" | "multi_3d v \<noteq> 2" "multi_3d v \<noteq> 1" by blast
  then show ?thesis
  proof cases
    case 1
    with l have "?d + 3 < length bin" by auto
    with 1 True two show ?thesis by (simp add: vsdb_3d_def ok_simps Let_def)
  next
    case 2
    with l have "?d + 1 < length bin" by auto
    with 2 True one show ?thesis by (simp add: vsdb_3d_def ok_simps Let_def)
  next
    case 3
    with True assms(1) show ?thesis by (simp add: vsdb_3d_def ok_simps Let_def)
  qed
qed

lemma ok_vsdb_latency:
  assumes "length (vics_3d v) = 16" "c + blen bin c + 1 < length bin"
    and "8 \<le> blen bin c \<Longrightarrow> hv_of bin c \<le> c + blen bin c + 1"
  shows "ok_res (vsdb_latency bin c (ub bin c) v) (\<lambda>(hv, w). length (vics_3d w) = 16 \<and>
    (hdmi_video w > 0 \<longrightarrow> 8 \<le> blen bin c \<and> hv = hv_of bin c \<and> nz (ub bin (c + 8) AND 0x20)))"
proof (cases "8 \<le> blen bin c")
  case False
  then show ?thesis using assms(1) by (simp add: vsdb_latency_def ok_simps Let_def)
next
  case True
  show ?thesis
    using assms(1, 2) assms(3) [OF True] True
    by (cases "nz (ub bin (c + 8) AND 0x80)"; cases "nz (ub bin (c + 8) AND 0x40)")
      (auto simp: vsdb_latency_def vsdb_latency_p_def vsdb_latency_i_def ok_simps Let_def hv_of_def)
qed

lemma ok_vsdb_hdmi:
  assumes "length (vics_3d v) = 16" "c + blen bin c + 1 < length bin" "vsdb_fits bin c"
  shows "ok_res (vsdb_hdmi bin c (ub bin c) v) (\<lambda>w. length (vics_3d w) = 16)"
proof -
  note f = assms(3) [unfolded vsdb_fits_def Let_def]
  have part: "ok_res (vsdb_addr bin c (ub bin c) v) (\<lambda>w. length (vics_3d w) = 16)"
    "length (vics_3d w) = 16 \<Longrightarrow> ok_res (vsdb_caps bin c (ub bin c) w) (\<lambda>w. length (vics_3d w) = 16)"
    "length (vics_3d w) = 16 \<Longrightarrow> ok_res (vsdb_clk bin c (ub bin c) w) (\<lambda>w. length (vics_3d w) = 16)"
    for w
    using conjunct1 [OF f] assms(1, 2)
    by (auto simp: vsdb_addr_def vsdb_caps_def vsdb_clk_def ok_simps)
  have lat: "ok_res (vsdb_latency bin c (ub bin c) w) (\<lambda>(hv, u). length (vics_3d u) = 16 \<and>
    (hdmi_video u > 0 \<longrightarrow> 8 \<le> blen bin c \<and> hv = hv_of bin c \<and> nz (ub bin (c + 8) AND 0x20)))"
    if "length (vics_3d w) = 16" for w
    by (rule ok_vsdb_latency [OF that assms(2)]) (use f in blast)
  have tail: "ok_res (vsdb_video bin hv u) (\<lambda>w. ok_res (vsdb_3d bin hv w) (\<lambda>w. length (vics_3d w) = 16))"
    if u: "length (vics_3d u) = 16"
      "hdmi_video u > 0 \<Longrightarrow> 8 \<le> blen bin c \<and> hv = hv_of bin c \<and> nz (ub bin (c + 8) AND 0x20)" for hv u
  proof (cases "hdmi_video u > 0")
    case False
    then show ?thesis using u(1) by (simp add: vsdb_video_def ok_simps vsdb_3d_def)
  next
    case True
    note t = u(2) [OF True]
    have hv: "hv + 1 < length bin" using t f assms(2) by auto
    have "ok_res (vsdb_3d bin hv (u\<lparr>present_3d := p, multi_3d := drop_bit 5 (ub bin hv) AND 0x03,
        image_size := i, hdmi_xx_len := drop_bit 5 (ub bin (hv + 1)),
        hdmi_3d_len := ub bin (hv + 1) AND 0x1f\<rparr>)) (\<lambda>w. length (vics_3d w) = 16)" for p i
      by (rule ok_vsdb_3d) (use t f u(1) assms(2) in \<open>auto simp: drop_bit_nonnegative_int_iff\<close>)
    with True hv show ?thesis by (simp add: vsdb_video_def ok_simps)
  qed
  show ?thesis
    unfolding vsdb_hdmi_def ok_ebind
    by (intro ok_mono [OF part(1)] ok_mono [OF part(2)] ok_mono [OF part(3)] ok_mono [OF lat])
      (auto simp: ok_simps tail)
qed

lemma ok_vendor_block:
  assumes "cea_state n cea" "n < 62" "c + blen bin c + 1 < length bin" "3 \<le> blen bin c"
    and "hdmi_oui bin c \<Longrightarrow> vsdb_fits bin c"
  shows "ok_res (cea_vendor_block bin c (ub bin c) cea) (cea_state (n + 1))"
  unfolding cea_vendor_block_def
proof (rule ok_push_tag_then [OF assms(1, 2)])
  fix cea assume s: "cea_state (n + 1) cea"
  have oui: "not_hdmi_oui bin c = Inr (\<not> hdmi_oui bin c)"
    using assms(3, 4) by (simp add: not_hdmi_oui_def byte_def hdmi_oui_def)
  show "ok_res (ebind (not_hdmi_oui bin c) (\<lambda>other.
      if other then Inr (cea\<lparr>cea_vsdb := (cea_vsdb cea)\<lparr>ieee_reg_id := 0\<rparr>\<rparr>)
      else ebind (vsdb_hdmi bin c (ub bin c) (cea_vsdb cea)) (\<lambda>v. Inr (cea\<lparr>cea_vsdb := v\<rparr>))))
      (cea_state (n + 1))"
  proof (cases "hdmi_oui bin c")
    case False
    then show ?thesis using s by (simp add: oui cea_state_def wf_cea_def)
  next
    case True
    have "ok_res (vsdb_hdmi bin c (ub bin c) (cea_vsdb cea)) (\<lambda>w. length (vics_3d w) = 16)"
      using s assms(3) assms(5) [OF True]
      by (intro ok_vsdb_hdmi) (auto simp: cea_state_def wf_cea_def)
    then have "ok_res (vsdb_hdmi bin c (ub bin c) (cea_vsdb cea))
        (\<lambda>v. cea_state (n + 1) (cea\<lparr>cea_vsdb := v\<rparr>))"
      by (rule ok_mono) (use s in \<open>simp add: cea_state_def wf_cea_def\<close>)
    then show ?thesis using True by (simp add: oui ok_simps)
  qed
qed

section \<open>The extension block is decoded without a fault\<close>

lemma ok_cea_block:
  assumes "cea_state n cea" "n < 62" "dtd < length bin" "block_fits bin c dtd"
    "known_tag (drop_bit 5 (ub bin c))"
  shows "ok_res (cea_block bin c (ub bin c) cea) (cea_state (n + 1))"
proof -
  note f = assms(4) [unfolded block_fits_def Let_def]
  have l: "c + blen bin c + 1 < length bin" using f assms(3) by auto
  have "drop_bit 5 (ub bin c) \<in> {CEA_DB_AUDIO, CEA_DB_VIDEO, CEA_DB_VENDOR, CEA_DB_SPEAKER,
      CEA_DB_DTC, CEA_DB_EXTENDED}" (is "?t \<in> _")
    using assms(5) by (simp add: known_tag_def)
  moreover have ?thesis if "?t = CEA_DB_AUDIO"
    using ok_audio_block [OF assms(1, 2)] l that by (simp add: cea_block_def)
  moreover have ?thesis if "?t = CEA_DB_VIDEO"
    using ok_video_block [OF assms(1, 2)] l that by (simp add: cea_block_def edid_consts)
  moreover have ?thesis if t: "?t = CEA_DB_VENDOR"
  proof -
    have "ok_res (cea_vendor_block bin c (ub bin c) cea) (cea_state (n + 1))"
      by (rule ok_vendor_block [OF assms(1, 2) l]) (use f t in auto)
    with t show ?thesis by (simp add: cea_block_def edid_consts)
  qed
  moreover have ?thesis if t: "?t = CEA_DB_SPEAKER"
  proof -
    have "ok_res (cea_speaker_block bin c cea) (cea_state (n + 1))"
      by (rule ok_speaker_block [OF assms(1, 2)]) (use f l t in auto)
    with t show ?thesis by (simp add: cea_block_def edid_consts)
  qed
  moreover have ?thesis if "?t = CEA_DB_DTC"
    using ok_push_tag [OF assms(1, 2)] that by (simp add: cea_block_def edid_consts)
  moreover have ?thesis if t: "?t = CEA_DB_EXTENDED"
  proof -
    have "ok_res (cea_ext_block bin c cea) (cea_state (n + 1))"
      by (rule ok_ext_block [OF assms(1, 2)]) (use f l t in auto)
    with t show ?thesis by (simp add: cea_block_def edid_consts)
  qed
  ultimately show ?thesis by blast
qed

lemma unknown_block: "\<not> known_tag (drop_bit 5 b) \<Longrightarrow> cea_block bin c b cea = Inr cea"
  by (simp add: cea_block_def known_tag_def Let_def)

lemma ok_cea_walk:
  assumes "cea_state n cea" "dtd < length bin" "blocks_fit bin c dtd n"
  shows "ok_res (cea_walk bin c dtd cea) wf_cea"
  using assms
proof (induction bin c dtd n arbitrary: cea rule: blocks_fit.induct)
  case (1 bin c dtd n)
  show ?case
  proof (cases "c < dtd")
    case False
    with "1.prems" show ?thesis by (simp add: cea_walk.simps [of bin c] cea_state_def)
  next
    case True
    then have b: "byte bin c = Inr (ub bin c)" using "1.prems" by (simp add: byte_def)
    show ?thesis
    proof (cases "known_tag (drop_bit 5 (ub bin c))")
      case False
      with True b "1.prems" show ?thesis
        by (simp add: cea_walk.simps [of bin c] cea_walk.simps [of bin dtd] unknown_block
            cea_next_def cea_state_def)
    next
      case known: True
      have f: "n < 62" "block_fits bin c dtd" "blocks_fit bin (c + blen bin c + 1) dtd (n + 1)"
        using "1.prems"(3) True known by (simp_all add: blocks_fit.simps [of bin c])
      have "ok_res (cea_block bin c (ub bin c) cea) (cea_state (n + 1))"
        using "1.prems" f known by (intro ok_cea_block)
      then have "ok_res (cea_block bin c (ub bin c) cea)
          (\<lambda>cea'. ok_res (cea_walk bin (c + blen bin c + 1) dtd cea') wf_cea)"
        by (rule ok_mono) (use "1.IH" [OF True known] "1.prems"(2) f(3) in blast)
      with True b known show ?thesis
        by (simp add: cea_walk.simps [of bin c] ok_simps cea_next_def)
    qed
  qed
qed

lemma ok_cea_dtds:
  assumes "wf_cea cea" "dtd + 18 * nat (nr_dtd cea) \<le> length bin" "nat (nr_dtd cea) \<le> 8"
  shows "ok_res (cea_dtds bin dtd cea) wf_cea"
proof -
  have "ok_res (fold_res (\<lambda>i. upd_res i (\<lambda>_. cea_dtd bin (dtd + 18 * i))) [0..<nat (nr_dtd cea)]
      (cea_timing cea)) (\<lambda>ts. length ts = length (cea_timing cea))"
  proof (rule ok_fold_upd)
    show "nat (nr_dtd cea) \<le> length (cea_timing cea)" using assms by (simp add: wf_cea_def)
    fix i and x :: eb_detailed_timing_desc assume "i < nat (nr_dtd cea)"
    then have "dtd + 18 * i + 17 < length bin" using assms(2) by linarith
    then show "ok_res (cea_dtd bin (dtd + 18 * i)) (\<lambda>_. True)" by (simp add: cea_dtd_def Let_def)
  qed
  then show ?thesis
    unfolding cea_dtds_def ok_ebind by (rule ok_mono) (use assms(1) in \<open>simp add: wf_cea_def\<close>)
qed

text \<open>The walk does not change the number of descriptors that the header announces.\<close>

definition keeps_nr :: "int \<Rightarrow> edid_cea res \<Rightarrow> bool" where
  "keeps_nr n m \<longleftrightarrow> (\<forall>cea. m = Inr cea \<longrightarrow> nr_dtd cea = n)"

lemma keeps_nr_ebind:
  "(\<And>x. m = Inr x \<Longrightarrow> keeps_nr n (f x)) \<Longrightarrow> keeps_nr n (ebind m f)"
  by (cases m) (auto simp: keeps_nr_def)

lemma keeps_nr_Inr: "nr_dtd x = n \<Longrightarrow> keeps_nr n (Inr x)"
  by (simp add: keeps_nr_def)

lemma push_tag_nr: "push_tag t cea = Inr x \<Longrightarrow> nr_dtd x = nr_dtd cea"
  by (cases "put_res (nat (nr_dbcs cea)) t (dbc_tags cea)") (auto simp: push_tag_def)

lemma put_ext_tag_nr: "put_ext_tag t cea = Inr x \<Longrightarrow> nr_dtd x = nr_dtd cea"
  by (cases "put_res (nat (nr_dbcs cea)) t (dbe_tags cea)") (auto simp: put_ext_tag_def)

lemma keeps_nr_tags:
  "nr_dtd cea = n \<Longrightarrow> keeps_nr n (push_tag t cea)"
  "nr_dtd cea = n \<Longrightarrow> keeps_nr n (put_ext_tag t cea)"
  by (simp_all add: keeps_nr_def push_tag_nr put_ext_tag_nr)

lemma keeps_nrD: "keeps_nr n m \<Longrightarrow> m = Inr x \<Longrightarrow> nr_dtd x = n"
  by (simp add: keeps_nr_def)

lemma cea_ext_body_nr: "keeps_nr (nr_dtd cea) (cea_ext_body bin c c1 cea)"
  unfolding cea_ext_body_def
  by (auto intro!: keeps_nr_ebind keeps_nr_Inr keeps_nr_tags dest!: put_ext_tag_nr)

lemma cea_block_nr: "keeps_nr (nr_dtd cea) (cea_block bin c b cea)"
proof -
  have "keeps_nr (nr_dtd cea) (cea_ext_block bin c cea)"
    unfolding cea_ext_block_def
    by (intro keeps_nr_ebind keeps_nr_tags) (rule keeps_nrD [OF cea_ext_body_nr])
  then show ?thesis
    unfolding cea_block_def cea_audio_block_def cea_video_block_def cea_vendor_block_def
      cea_speaker_block_def Let_def
    by (auto intro!: keeps_nr_ebind keeps_nr_Inr keeps_nr_tags dest!: push_tag_nr)
qed

lemma cea_walk_nr: "keeps_nr (nr_dtd cea) (cea_walk bin c dtd cea)"
proof (induction bin c dtd cea rule: cea_walk.induct)
  case (1 bin c dtd cea)
  show ?case
  proof (cases "c < dtd")
    case True
    have "keeps_nr (nr_dtd cea) (cea_walk bin (cea_next b c dtd) dtd cea')"
      if "byte bin c = Inr b" "cea_block bin c b cea = Inr cea'" for b cea'
      using "1.IH" [OF True that] cea_block_nr [of cea bin c b] that(2) by (simp add: keeps_nr_def)
    then show ?thesis
      by (subst cea_walk.simps) (auto simp: True intro!: keeps_nr_ebind)
  qed (simp add: cea_walk.simps [of bin c] keeps_nr_Inr)
qed

lemma ok_decode_cea:
  assumes "cea_fits bin" "wf_cea (cea_ext x)"
  shows "ok_res (edid_decode_cea bin 0 x) (\<lambda>(r, y). wf_cea (cea_ext y))"
proof -
  let ?off = "nat (ub bin 130)" and ?nr = "nat (ub bin 131 AND 0x0f)"
  let ?cea = "cea_header 3 (ub bin 130) (ub bin 131) (cea_ext x)"
  note f = assms(1) [unfolded cea_fits_def Let_def]
  have s: "cea_state 0 ?cea" using assms(2) by (simp add: cea_state_def cea_header_def wf_cea_def)
  consider "ub bin 129 \<noteq> 3" | "ub bin 129 = 3" "?off \<le> 4" |
    "ub bin 129 = 3" "4 < ?off" "?off + 18 * ?nr \<le> 128" "?off \<le> 127"
      "blocks_fit bin 132 (128 + ?off) 0"
    using f by linarith
  then show ?thesis
  proof cases
    case 1
    then show ?thesis using f assms(2) by (simp add: edid_decode_cea_def ok_simps)
  next
    case 2
    then have "\<not> 4 < ub bin 130" by linarith
    with 2 show ?thesis
      using f s by (simp add: edid_decode_cea_def ok_simps Let_def cea_dtd_ptr_def cea_state_def)
  next
    case 3
    have "ok_res (cea_walk bin 132 (128 + ?off) ?cea) wf_cea"
      by (rule ok_cea_walk [OF s]) (use 3 f in auto)
    moreover have "keeps_nr (ub bin 131 AND 0x0f) (cea_walk bin 132 (128 + ?off) ?cea)"
      using cea_walk_nr [of ?cea bin 132 "128 + ?off"] by (simp add: cea_header_def)
    ultimately have "ok_res (cea_walk bin 132 (128 + ?off) ?cea)
        (\<lambda>y. wf_cea y \<and> nr_dtd y = ub bin 131 AND 0x0f)"
      by (auto simp: ok_ex keeps_nr_def)
    then have "ok_res (cea_walk bin 132 (128 + ?off) ?cea)
        (\<lambda>y. ok_res (cea_dtds bin (128 + ?off) y) wf_cea)"
      by (rule ok_mono) (use 3 f in \<open>auto intro!: ok_cea_dtds\<close>)
    moreover have "4 < ub bin 130" using 3 by linarith
    ultimately show ?thesis
      using 3 f by (simp add: edid_decode_cea_def ok_simps Let_def cea_dtd_ptr_def)
  qed
qed

end
