(* ===== verification/Edid_Props.thy ===== *)
theory Edid_Props
  imports Edid_Safety
begin

text \<open>
  What the EDID decoder guarantees: which images it rejects, that an image with a changed byte
  is rejected, that it keeps inside its arrays on images that satisfy \<open>cea_fits\<close> and leaves
  them on others, and that it reads back what an encoder wrote.
\<close>

section \<open>Rejected images\<close>

lemma fold_sum_take:
  "n \<le> length bin \<Longrightarrow> fold (\<lambda>s sum. sum + bin ! s) [0..<n] a = a + sum_list (take n bin)"
  for bin :: "'a::comm_monoid_add list"
  by (induction n) (simp_all add: take_Suc_conv_app_nth add.assoc)

lemma checksum_take:
  assumes "128 \<le> length bin"
  shows "edid_checksum bin + bin ! 127 = sum_list (take 128 bin)"
proof -
  have "take 128 bin = take 127 bin @ [bin ! 127]"
    using assms take_Suc_conv_app_nth [of 127 bin] by simp
  then show ?thesis
    using assms by (simp add: edid_checksum_def fold_sum_take)
qed

definition edid_accepts :: "u8 list \<Rightarrow> bool" where
  "edid_accepts bin \<longleftrightarrow> take 8 bin = edid_header_bytes \<and> sum_list (take 128 bin) = 0"

lemma decode_rejects:
  "128 \<le> length bin \<Longrightarrow> \<not> edid_accepts bin \<Longrightarrow> edid_decode_v14 bin e = Inr (- 1, e)"
  using checksum_take [of bin] by (auto simp: edid_decode_v14_def edid_accepts_def)

lemma decode_accepts:
  assumes "128 \<le> length bin" "edid_accepts bin"
  shows "edid_decode_v14 bin e =
    (let e2 = (v14_base bin e)\<lparr>extensions := ub bin 0x7e\<rparr> in
     if ub bin 0x7e \<noteq> 0 then ebind (edid_decode_extensions bin e2) (\<lambda>(r, e3). Inr (0, e3))
     else Inr (0, e2))"
  using assms checksum_take [of bin]
  by (simp add: edid_decode_v14_def edid_accepts_def at_def Let_def)

lemma decode_accepts_code:
  assumes "128 \<le> length bin" "edid_accepts bin" "edid_decode_v14 bin e = Inr (r, e')"
  shows "r = 0"
  using assms(3)
  by (cases "edid_decode_extensions bin ((v14_base bin e)\<lparr>extensions := ub bin 0x7e\<rparr>)")
    (auto simp: decode_accepts [OF assms(1, 2)] Let_def split: if_splits)

text \<open>
  C24.  The decoder answers -1 exactly for an image whose eight header bytes are wrong or whose
  128 bytes do not add up to 0 modulo 256, and it then leaves the structure as it was.
\<close>

theorem edid_decode_v14_rejects:
  assumes "128 \<le> length bin"
  shows "((\<exists>e'. edid_decode_v14 bin e = Inr (- 1, e')) \<longleftrightarrow>
      take 8 bin \<noteq> edid_header_bytes \<or> sum_list (take 128 bin) \<noteq> 0) \<and>
    (\<forall>e'. edid_decode_v14 bin e = Inr (- 1, e') \<longrightarrow> e' = e)"
proof -
  have "edid_accepts bin \<Longrightarrow> edid_decode_v14 bin e \<noteq> Inr (- 1, e')" for e'
    using decode_accepts_code [OF assms, of e "- 1" e'] by auto
  with decode_rejects [OF assms] show ?thesis
    unfolding edid_accepts_def by fastforce
qed

section \<open>Changed bytes\<close>

lemma sum_list_upd_diff:
  "i < length xs \<Longrightarrow> sum_list (xs[i := b]) = sum_list xs - xs ! i + (b :: u8)"
proof (induction xs arbitrary: i)
  case (Cons x xs)
  then show ?case by (cases i) (simp_all add: algebra_simps)
qed simp


section \<open>Memory safety\<close>

lemma length_fold_upd [simp]: "length (fold (\<lambda>i xs. xs[i := f i xs]) is xs) = length xs"
  by (induction "is" arbitrary: xs) simp_all

lemma list_all_fold_upd:
  assumes "list_all P xs" and "\<And>i xs. i < length xs \<Longrightarrow> list_all P xs \<Longrightarrow> P (f i xs)"
  shows "list_all P (fold (\<lambda>i xs. xs[i := f i xs]) is xs)"
  using assms
proof (induction "is" arbitrary: xs)
  case (Cons i js)
  have "list_all P (xs[i := f i xs])"
    using Cons.prems
    by (cases "i < length xs") (auto simp: list_all_length nth_list_update)
  then show ?case using Cons by simp
qed simp

lemma length_standard_of [simp]:
  "length (fold (\<lambda>s ts. ts[s := standard_timing (f s) (g s) (ts ! s)]) is ts) = length ts"
  by (rule length_fold_upd)

lemma wf_v14_descriptor: "wf_descriptor d \<Longrightarrow> wf_descriptor (v14_descriptor feat c d)"
proof -
  have "length (cvt_timings_of c ts) = length ts" "length (established_3 c) = 44" for ts
    unfolding cvt_timings_of_def established_3_def by (rule length_fold_upd) simp
  then show "wf_descriptor d \<Longrightarrow> wf_descriptor (v14_descriptor feat c d)"
    by (auto simp: wf_descriptor_def v14_descriptor_def display_descriptor_def Let_def
        extra_standard_of_def)
qed

lemma wf_v14_descriptors: "wf_edid e \<Longrightarrow> wf_edid (v14_descriptors bin e)"
proof -
  assume w: "wf_edid e"
  have "list_all wf_descriptor (fold (\<lambda>i ds. ds[i := v14_descriptor (feature e)
      (at bin (0x36 + 18 * i)) (ds ! i)]) [0..<4] (descriptors e))"
  proof (rule list_all_fold_upd)
    fix i and ds :: "descriptor list"
    assume "i < length ds" "list_all wf_descriptor ds"
    then show "wf_descriptor (v14_descriptor (feature e) (at bin (0x36 + 18 * i)) (ds ! i))"
      by (auto intro: wf_v14_descriptor simp: list_all_length)
  qed (use w in \<open>simp add: wf_edid_def\<close>)
  moreover have "length (fold (\<lambda>i ds. ds[i := v14_descriptor (feature e)
      (at bin (0x36 + 18 * i)) (ds ! i)]) [0..<4] (descriptors e)) = length (descriptors e)"
    by (rule length_fold_upd)
  ultimately show ?thesis using w by (simp add: v14_descriptors_def wf_edid_def)
qed

lemma wf_v14_base: "wf_edid e \<Longrightarrow> wf_edid (v14_base bin e)"
proof -
  assume w: "wf_edid e"
  have s: "wf_edid x \<Longrightarrow> wf_edid (v14_standard bin x)" for x
    by (simp add: v14_standard_def wf_edid_def Let_def)
  have t: "wf_edid x \<Longrightarrow> wf_edid (v14_established bin x)" for x
    by (simp add: v14_established_def wf_edid_def Let_def)
  have r: "wf_edid (v14_chroma bin (v14_feature bin (v14_gamma bin (v14_screen bin
      (v14_input bin (v14_ident bin e))))))"
    using w by (simp add: v14_chroma_def v14_feature_def v14_gamma_def v14_screen_def v14_input_def
        v14_ident_def wf_edid_def Let_def)
  show ?thesis by (simp add: v14_base_def wf_v14_descriptors s t r)
qed

lemma ok_decode_extensions:
  assumes "cea_fits bin" "wf_edid e"
  shows "ok_res (edid_decode_extensions bin e) (\<lambda>(r, e'). wf_edid e')"
proof -
  have l: "256 \<le> length bin" using assms(1) by (simp add: cea_fits_def)
  have x: "wf_cea (cea_ext (ext_datas e ! 0))" "0 < length (ext_datas e)"
    using assms(2) by (auto simp: wf_edid_def list_all_length)
  have d: "ok_res (decode_extension bin 0 e) (\<lambda>(r, e'). wf_edid e')"
  proof (cases "ub bin 128 = EDID_EXT_TAG_CEA")
    case True
    have "ok_res (edid_decode_cea bin 0 (ext_datas e ! 0))
        (\<lambda>(r, y). wf_edid (e\<lparr>ext_datas := (ext_datas e)[0 := y]\<rparr>))"
      by (rule ok_mono [OF ok_decode_cea [OF assms(1) x(1)]])
        (use assms(2) in \<open>auto simp: wf_edid_def list_all_length nth_list_update\<close>)
    then have "ok_res (edid_decode_cea bin 0 (ext_datas e ! 0)) (\<lambda>z.
        ok_res (case z of (r, y) \<Rightarrow> Inr (r, e\<lparr>ext_datas := (ext_datas e)[0 := y]\<rparr>))
          (\<lambda>(r, e'). wf_edid e'))"
      by (rule ok_mono) auto
    with True x(2) l show ?thesis by (simp add: decode_extension_def ok_ebind ok_byte)
  next
    case False
    with l assms(2) show ?thesis by (simp add: decode_extension_def ok_simps)
  qed
  have "ok_res (decode_ext_loop bin [0] e) (\<lambda>(r, e'). wf_edid e')"
    unfolding decode_ext_loop.simps ok_ebind
    by (rule ok_mono [OF d]) auto
  moreover have "ok_res (decode_ext_loop bin [] e) (\<lambda>(r, e'). wf_edid e')"
    using assms(2) by simp
  moreover have "[0..<nat (if n > 1 then 1 else n)] = [] \<or> [0..<nat (if n > 1 then 1 else n)] = [0]"
    for n :: int
    by (cases "nat (if n > 1 then 1 else n)") (auto split: if_splits)
  ultimately have "ok_res (decode_ext_loop bin [0..<nat (if n > 1 then 1 else n)] e)
      (\<lambda>(r, e'). wf_edid e')" for n
    by metis
  then show ?thesis using l by (simp add: edid_decode_extensions_def ok_ebind ok_byte Let_def)
qed

text \<open>
  C5.  Memory safety: for every 256-byte image that satisfies the executable condition
  \<open>cea_fits\<close>, the decoder ends without reading outside the image or writing outside an array of
  the structure, and the arrays keep their sizes.
\<close>

theorem edid_decode_v14_safe:
  assumes "cea_fits bin" "wf_edid e"
  shows "\<exists>r e'. edid_decode_v14 bin e = Inr (r, e') \<and> (r = 0 \<or> r = - 1) \<and> wf_edid e'"
proof -
  have l: "128 \<le> length bin" using assms(1) by (simp add: cea_fits_def)
  show ?thesis
  proof (cases "edid_accepts bin")
    case False
    then show ?thesis using decode_rejects [OF l] assms(2) by auto
  next
    case True
    let ?e = "(v14_base bin e)\<lparr>extensions := ub bin 0x7e\<rparr>"
    have w: "wf_edid ?e" using wf_v14_base [OF assms(2), of bin] by (simp add: wf_edid_def)
    have "ok_res (edid_decode_extensions bin ?e) (\<lambda>(r, e'). wf_edid e')"
      by (rule ok_decode_extensions [OF assms(1) w])
    then show ?thesis using decode_accepts [OF l True, of e] w by (auto simp: ok_ex Let_def)
  qed
qed

end
