(* ===== verification/Edid_Timing.thy ===== *)
theory Edid_Timing
  imports Edid_Props
begin

text \<open>
  The timing descriptors and the identification of the display: the bit fields of the EDID as
  arithmetic on bytes, an encoder that is inverted by the decoder, and the ranges of the decoded
  values.
\<close>

section \<open>Detailed timings\<close>

lemma field_shift:
  assumes "s \<le> t"
  shows "push_bit s x AND push_bit t (mask w) = x div 2 ^ (t - s) mod 2 ^ w * (2 ^ t :: int)"
proof -
  have "push_bit s x AND push_bit t (mask w) = push_bit t (take_bit w (drop_bit (t - s) x))"
    using assms by (intro bit_eqI) (auto simp: bit_simps)
  then show ?thesis by (simp add: push_bit_eq_mult take_bit_eq_mod drop_bit_eq_div)
qed
lemma or_low: "0 \<le> y \<Longrightarrow> y < 2 ^ n \<Longrightarrow> a * 2 ^ n OR y = a * 2 ^ n + (y :: int)"
proof -
  assume y: "0 \<le> y" "y < 2 ^ n"
  have "push_bit n a AND take_bit n y = 0" by (intro bit_eqI) (auto simp: bit_simps)
  moreover have "take_bit n y = y" using y by (simp add: take_bit_int_eq_self_iff)
  ultimately have "push_bit n a AND y = 0" by simp
  then show ?thesis by (simp add: push_bit_eq_mult flip: disjunctive_add_eq_or)
qed

lemmas low_bits = or_low [of _ 8, simplified] or_low [of _ 4, simplified]

lemma field_masks: "(0xf00 :: int) = push_bit 8 (mask 4)" "(0x300 :: int) = push_bit 8 (mask 2)"
    "(0x30 :: int) = push_bit 4 (mask 2)"
  by (simp_all add: push_bit_eq_mult mask_eq_exp_minus_1)

lemma dtd_shifts:
  fixes x :: int
  shows "push_bit 4 x AND 0xf00 = x div 16 mod 16 * 256"
    "push_bit 8 x AND 0xf00 = x mod 16 * 256"
    "push_bit 2 x AND 0x300 = x div 64 mod 4 * 256"
    "push_bit 2 x AND 0x30 = x div 4 mod 4 * 16"
    "push_bit 4 x AND 0x300 = x div 16 mod 4 * 256"
    "push_bit 4 x AND 0x30 = x mod 4 * 16"
  unfolding field_masks by (simp_all add: field_shift)

lemma low_nibble: "x AND 0x0f = x mod (16 :: int)"
proof -
  have "(0x0f :: int) = mask 4" by (simp add: mask_eq_exp_minus_1)
  then show ?thesis by (simp only: take_bit_eq_mask [symmetric]) (simp add: take_bit_eq_mod)
qed

lemma dtd_fields_arith:
  assumes "\<And>k. 0 \<le> c k" "\<And>k. c k < 256"
  shows "dtd_fields c s =
     \<lparr>dt_pixel_clock = (c 1 * 256 + c 0) * 10000,
      dt_width = c 4 div 16 * 256 + c 2, dt_height = c 7 div 16 * 256 + c 5,
      dt_h_blank = c 4 mod 16 * 256 + c 3, dt_v_blank = c 7 mod 16 * 256 + c 6,
      dt_h_fp = c 11 div 64 * 256 + c 8, dt_v_fp = c 11 div 4 mod 4 * 16 + c 10 div 16,
      dt_h_sync = c 11 div 16 mod 4 * 256 + c 9, dt_v_sync = c 11 mod 4 * 16 + c 10 mod 16,
      dt_h_size = c 14 div 16 * 256 + c 12, dt_v_size = c 14 mod 16 * 256 + c 13,
      dt_border_lr = c 15, dt_border_tb = c 16, dt_interlaced = flag (c 17 AND 0x80),
      dt_stereo = dtd_stereo (c 17), dt_sync = s\<rparr>"
proof -
  have d: "c k div 16 mod 16 = c k div 16" "c k div 64 mod 4 = c k div 64" "0 \<le> c k div 16"
    "c k div 16 < 16" "0 \<le> c k mod 16" "c k mod 16 < 16" for k
    using assms(1) [of k] assms(2) [of k] by auto
  have p: "push_bit 8 (c 1) = c 1 * 256" "drop_bit 4 (c 10) = c 10 div 16"
    by (simp_all add: push_bit_eq_mult drop_bit_eq_div)
  show ?thesis
    unfolding dtd_fields_def dtd_shifts low_nibble p by (simp add: low_bits assms d)
qed

text \<open>
  The inverse of the decoder: the eighteen bytes of a timing \<open>t\<close> whose flag byte is \<open>f\<close>, and the
  timings that can be written that way.
\<close>

definition encode_dtd :: "eb_detailed_timing_desc \<Rightarrow> int \<Rightarrow> u8 list" where
  "encode_dtd t f = map word_of_int
     [dt_pixel_clock t div 10000 mod 256, dt_pixel_clock t div 10000 div 256,
      dt_width t mod 256, dt_h_blank t mod 256, dt_width t div 256 * 16 + dt_h_blank t div 256,
      dt_height t mod 256, dt_v_blank t mod 256, dt_height t div 256 * 16 + dt_v_blank t div 256,
      dt_h_fp t mod 256, dt_h_sync t mod 256, dt_v_fp t mod 16 * 16 + dt_v_sync t mod 16,
      dt_h_fp t div 256 * 64 + dt_h_sync t div 256 * 16 + dt_v_fp t div 16 * 4 + dt_v_sync t div 16,
      dt_h_size t mod 256, dt_v_size t mod 256, dt_h_size t div 256 * 16 + dt_v_size t div 256,
      dt_border_lr t, dt_border_tb t, f]"

definition wf_dtd :: "eb_detailed_timing_desc \<Rightarrow> int \<Rightarrow> bool" where
  "wf_dtd t f \<longleftrightarrow> 0 \<le> f \<and> f < 256 \<and>
     0 < dt_pixel_clock t \<and> dt_pixel_clock t < 655360000 \<and> dt_pixel_clock t mod 10000 = 0 \<and>
     (\<forall>v \<in> {dt_width t, dt_height t, dt_h_blank t, dt_v_blank t, dt_h_size t, dt_v_size t}.
        0 \<le> v \<and> v < 4096) \<and>
     (\<forall>v \<in> {dt_h_fp t, dt_h_sync t}. 0 \<le> v \<and> v < 1024) \<and>
     (\<forall>v \<in> {dt_v_fp t, dt_v_sync t}. 0 \<le> v \<and> v < 64) \<and>
     (\<forall>v \<in> {dt_border_lr t, dt_border_tb t}. 0 \<le> v \<and> v < 256) \<and>
     dt_interlaced t = flag (f AND 0x80) \<and> dt_stereo t = dtd_stereo f \<and>
     dt_sync t = v14_dtd_sync f"

lemma uint_byte: "0 \<le> x \<Longrightarrow> x < 256 \<Longrightarrow> uint (word_of_int x :: u8) = x"
  by (simp add: uint_word_of_int)

lemma digit_bounds:
  fixes x :: int
  shows "0 \<le> x \<Longrightarrow> x < 4096 \<Longrightarrow> 0 \<le> x div 256 \<and> x div 256 \<le> 15"
    "0 \<le> x \<Longrightarrow> x < 1024 \<Longrightarrow> 0 \<le> x div 256 \<and> x div 256 \<le> 3"
    "0 \<le> x \<Longrightarrow> x < 64 \<Longrightarrow> 0 \<le> x div 16 \<and> x div 16 \<le> 3"
    "0 \<le> x \<Longrightarrow> x < 655360000 \<Longrightarrow> 0 \<le> x div 10000 div 256 \<and> x div 10000 div 256 < 256"
    "0 \<le> x mod 16 \<and> x mod 16 \<le> 15"
  using zdiv_mono1 [of x 4095 256] zdiv_mono1 [of x 1023 256] zdiv_mono1 [of x 63 16]
    zdiv_mono1 [of x 655359999 2560000] pos_mod_bound [of 16 x]
  by (auto simp: zdiv_zmult2_eq [symmetric] pos_imp_zdiv_nonneg_iff)

lemma encode_bounds:
  "0 \<le> a \<Longrightarrow> a < 4096 \<Longrightarrow> 0 \<le> b \<Longrightarrow> b < 4096 \<Longrightarrow>
     0 \<le> a div 256 * 16 + b div 256 \<and> a div 256 * 16 + b div 256 < (256 :: int)"
  "0 \<le> m mod 16 * 16 + n mod 16 \<and> m mod 16 * 16 + n mod 16 < (256 :: int)"
  "0 \<le> h \<Longrightarrow> h < 1024 \<Longrightarrow> 0 \<le> i \<Longrightarrow> i < 1024 \<Longrightarrow> 0 \<le> v \<Longrightarrow> v < 64 \<Longrightarrow> 0 \<le> w \<Longrightarrow> w < 64 \<Longrightarrow>
     0 \<le> h div 256 * 64 + i div 256 * 16 + v div 16 * 4 + w div 16 \<and>
     h div 256 * 64 + i div 256 * 16 + v div 16 * 4 + w div 16 < (256 :: int)"
proof -
  assume "0 \<le> a" "a < 4096" "0 \<le> b" "b < 4096"
  then show "0 \<le> a div 256 * 16 + b div 256 \<and> a div 256 * 16 + b div 256 < 256"
    using digit_bounds(1) [of a] digit_bounds(1) [of b] by auto
next
  show "0 \<le> m mod 16 * 16 + n mod 16 \<and> m mod 16 * 16 + n mod 16 < 256"
    using digit_bounds(5) [of m] digit_bounds(5) [of n] by auto
next
  assume "0 \<le> h" "h < 1024" "0 \<le> i" "i < 1024" "0 \<le> v" "v < 64" "0 \<le> w" "w < 64"
  then have "0 \<le> h div 256 \<and> h div 256 \<le> 3" "0 \<le> i div 256 \<and> i div 256 \<le> 3"
    "0 \<le> v div 16 \<and> v div 16 \<le> 3" "0 \<le> w div 16 \<and> w div 16 \<le> 3"
    by (simp_all only: digit_bounds)
  then show "0 \<le> h div 256 * 64 + i div 256 * 16 + v div 16 * 4 + w div 16 \<and>
     h div 256 * 64 + i div 256 * 16 + v div 16 * 4 + w div 16 < 256"
    by linarith
qed

lemma encode_dtd_nth:
  assumes "wf_dtd t f"
  defines "c \<equiv> at (encode_dtd t f) 0"
  shows "c 0 = dt_pixel_clock t div 10000 mod 256" "c 1 = dt_pixel_clock t div 10000 div 256"
    "c 2 = dt_width t mod 256" "c 3 = dt_h_blank t mod 256"
    "c 4 = dt_width t div 256 * 16 + dt_h_blank t div 256"
    "c 5 = dt_height t mod 256" "c 6 = dt_v_blank t mod 256"
    "c 7 = dt_height t div 256 * 16 + dt_v_blank t div 256"
    "c 8 = dt_h_fp t mod 256" "c 9 = dt_h_sync t mod 256"
    "c 10 = dt_v_fp t mod 16 * 16 + dt_v_sync t mod 16"
    "c 11 = dt_h_fp t div 256 * 64 + dt_h_sync t div 256 * 16 + dt_v_fp t div 16 * 4 + dt_v_sync t div 16"
    "c 12 = dt_h_size t mod 256" "c 13 = dt_v_size t mod 256"
    "c 14 = dt_h_size t div 256 * 16 + dt_v_size t div 256"
    "c 15 = dt_border_lr t" "c 16 = dt_border_tb t" "c 17 = f"
  using assms(1) unfolding c_def at_def encode_dtd_def wf_dtd_def by (simp_all add: uint_byte encode_bounds digit_bounds del: of_int_add of_int_mult)

lemma two_digits:
  fixes q r k :: int
  assumes "0 \<le> r" "r < k"
  shows "(q * k + r) div k = q" "(q * k + r) mod k = r"
  using assms by simp_all

lemma decode_bounds:
  "0 \<le> b \<Longrightarrow> b < 4096 \<Longrightarrow> (a div 256 * 16 + b div 256) div 16 * 256 + a mod 256 = (a :: int)"
  "0 \<le> b \<Longrightarrow> b < 4096 \<Longrightarrow> (a div 256 * 16 + b div 256) mod 16 * 256 + b mod 256 = (b :: int)"
  "p mod 10000 = 0 \<Longrightarrow> (p div 10000 div 256 * 256 + p div 10000 mod 256) * 10000 = (p :: int)"
proof -
  assume "0 \<le> b" "b < 4096"
  then have "0 \<le> b div 256" "b div 256 < 16" using digit_bounds(1) [of b] by auto
  note two_digits [OF this, of "a div 256"]
  then show "(a div 256 * 16 + b div 256) div 16 * 256 + a mod 256 = a"
    "(a div 256 * 16 + b div 256) mod 16 * 256 + b mod 256 = b" by simp_all
next
  assume "p mod 10000 = 0"
  then show "(p div 10000 div 256 * 256 + p div 10000 mod 256) * 10000 = p"
    by (simp only: div_mult_mod_eq) (metis add.right_neutral div_mult_mod_eq)
qed

lemma decode_bounds_sync:
  assumes "0 \<le> h" "h < 1024" "0 \<le> i" "i < 1024" "0 \<le> v" "v < 64" "0 \<le> w" "w < (64 :: int)"
  defines "c \<equiv> h div 256 * 64 + i div 256 * 16 + v div 16 * 4 + w div 16"
    and "m \<equiv> v mod 16 * 16 + w mod 16"
  shows "c div 64 * 256 + h mod 256 = h" "c div 16 mod 4 * 256 + i mod 256 = i"
    "c div 4 mod 4 * 16 + m div 16 = v" "c mod 4 * 16 + m mod 16 = w"
proof -
  obtain a b x y where d: "h div 256 = a" "i div 256 = b" "v div 16 = x" "w div 16 = y" by blast
  have r: "0 \<le> a" "a \<le> 3" "0 \<le> b" "b \<le> 3" "0 \<le> x" "x \<le> 3" "0 \<le> y" "y \<le> 3"
    using assms(1-8) digit_bounds(2) [of h] digit_bounds(2) [of i] digit_bounds(3) [of v]
      digit_bounds(3) [of w] d by auto
  have 1: "c = a * 64 + (b * 16 + x * 4 + y)" "c = (a * 4 + b) * 16 + (x * 4 + y)"
    "c = (a * 16 + b * 4 + x) * 4 + y"
    by (simp_all add: c_def d)
  have 2: "c div 64 = a" unfolding 1(1) by (rule two_digits(1)) (use r in linarith)+
  have 3: "c div 16 = a * 4 + b" unfolding 1(2) by (rule two_digits(1)) (use r in linarith)+
  have 4: "c div 4 = (a * 4 + b) * 4 + x" unfolding 1(3)
    by (subst two_digits(1)) (use r in \<open>auto simp: algebra_simps\<close>)
  have 5: "c mod 4 = y" unfolding 1(3) by (rule two_digits(2)) (use r in linarith)+
  have 6: "(a * 4 + b) mod 4 = b" "((a * 4 + b) * 4 + x) mod 4 = x"
    by (rule two_digits(2); use r in linarith)+
  have 7: "m div 16 = v mod 16" "m mod 16 = w mod 16" by (simp_all add: m_def)
  show "c div 64 * 256 + h mod 256 = h" "c div 16 mod 4 * 256 + i mod 256 = i"
    "c div 4 mod 4 * 16 + m div 16 = v" "c mod 4 * 16 + m mod 16 = w"
    unfolding 2 3 4 5 6 7 unfolding d [symmetric] by simp_all
qed

lemma dtd_round_trip:
  assumes "wf_dtd t f"
  shows "v14_dtd (at (encode_dtd t f) 0) = t"
proof -
  let ?c = "at (encode_dtd t f) 0"
  have b: "0 \<le> ?c k" "?c k < 256" for k
    using unsigned_less [of "encode_dtd t f ! k"] by (simp_all add: at_def)
  have w: "0 \<le> dt_width t" "dt_width t < 4096" "0 \<le> dt_height t" "dt_height t < 4096"
    "0 \<le> dt_h_blank t" "dt_h_blank t < 4096" "0 \<le> dt_v_blank t" "dt_v_blank t < 4096"
    "0 \<le> dt_h_size t" "dt_h_size t < 4096" "0 \<le> dt_v_size t" "dt_v_size t < 4096"
    "dt_pixel_clock t mod 10000 = 0" "dt_interlaced t = flag (f AND 0x80)"
    "dt_stereo t = dtd_stereo f" "dt_sync t = v14_dtd_sync f"
    using assms by (simp_all add: wf_dtd_def)
  have s: "0 \<le> dt_h_fp t" "dt_h_fp t < 1024" "0 \<le> dt_h_sync t" "dt_h_sync t < 1024"
    "0 \<le> dt_v_fp t" "dt_v_fp t < 64" "0 \<le> dt_v_sync t" "dt_v_sync t < 64"
    using assms by (simp_all add: wf_dtd_def)
  show ?thesis
    unfolding v14_dtd_def dtd_fields_arith [OF b] encode_dtd_nth [OF assms]
    by (simp only: decode_bounds w decode_bounds_sync [OF s]) (simp add: w(14-16) [symmetric])
qed

section \<open>The timings of a decoded image\<close>

lemma fold_upd_nth:
  assumes "i < n" "n \<le> length xs"
  shows "fold (\<lambda>i xs. xs[i := f i (xs ! i)]) [0..<n] xs ! i = f i (xs ! i)"
proof -
  have "k \<le> length xs \<Longrightarrow> fold (\<lambda>i xs. xs[i := f i (xs ! i)]) [0..<k] xs ! i =
      (if i < k then f i (xs ! i) else xs ! i)" for k
  proof (induction k)
    case (Suc k)
    have l: "length (fold (\<lambda>i xs. xs[i := f i (xs ! i)]) [0..<k] xs) = length xs"
      by (rule length_fold_upd)
    from Suc show ?case by (auto simp: nth_list_update l less_Suc_eq)
  qed simp
  with assms show ?thesis by simp
qed

lemma decode_ext_descriptors:
  "decode_ext_loop bin is e = Inr (r, e') \<Longrightarrow> descriptors e' = descriptors e"
proof (induction "is" arbitrary: e)
  case (Cons i js)
  show ?case
  proof (cases "decode_extension bin i e")
    case (Inr p)
    obtain r1 e1 where p: "p = (r1, e1)" by force
    have "descriptors e1 = descriptors e"
      using Inr p
      by (cases "byte bin (128 + 128 * i)"; cases "edid_decode_cea bin i (ext_datas e ! i)")
        (auto simp: decode_extension_def split: if_splits prod.splits)
    then show ?thesis using Cons Inr p by (auto split: if_splits)
  qed (use Cons.prems in simp)
qed simp

lemma decode_extensions_descriptors:
  "edid_decode_extensions bin e = Inr (r, e') \<Longrightarrow> descriptors e' = descriptors e"
  by (cases "byte bin 0x7e")
    (auto simp: edid_decode_extensions_def Let_def simp del: decode_ext_loop.simps
      dest: decode_ext_descriptors split: if_splits)

lemma decoded_descriptor:
  assumes "128 \<le> length bin" "wf_edid e" "edid_decode_v14 bin e = Inr (0, e')" "i < 4"
  shows "\<exists>feat. descriptors e' ! i =
    v14_descriptor feat (at bin (0x36 + 18 * i)) (descriptors e ! i)"
proof -
  have a: "edid_accepts bin" using assms(1, 3) decode_rejects [of bin e] by force
  let ?e = "(v14_base bin e)\<lparr>extensions := ub bin 0x7e\<rparr>"
  have "descriptors e' = descriptors ?e"
    using assms(3) decode_extensions_descriptors [of bin ?e]
    by (cases "edid_decode_extensions bin ?e")
      (auto simp: decode_accepts [OF assms(1) a] Let_def split: if_splits)
  moreover define x where "x = v14_standard bin (v14_established bin (v14_chroma bin (v14_feature bin
      (v14_gamma bin (v14_screen bin (v14_input bin (v14_ident bin e)))))))"
  moreover have "descriptors x = descriptors e"
    by (simp add: x_def v14_standard_def v14_established_def v14_chroma_def v14_feature_def
        v14_gamma_def v14_screen_def v14_input_def v14_ident_def Let_def)
  moreover have "length (descriptors e) = 4" using assms(2) by (simp add: wf_edid_def)
  ultimately have "descriptors e' ! i =
      v14_descriptor (feature x) (at bin (0x36 + 18 * i)) (descriptors e ! i)"
    using assms(4)
      fold_upd_nth [of i 4 "descriptors e" "\<lambda>i. v14_descriptor (feature x) (at bin (0x36 + 18 * i))"]
    by (simp add: v14_base_def v14_descriptors_def)
  then show ?thesis by blast
qed

lemma at_cong:
  assumes "take 18 (drop p bin) = xs" "length xs = 18" "k < 18"
  shows "at bin p k = at xs 0 k"
proof -
  have "p + k < length bin" using assms by (metis add.commute length_drop length_take less_diff_conv min.absorb_iff2 min_less_iff_conj)
  then show ?thesis using assms(1, 3) by (auto simp: at_def)
qed

lemma v14_dtd_cong: "(\<And>k. k < 18 \<Longrightarrow> c k = c' k) \<Longrightarrow> v14_dtd c = v14_dtd c'"
  by (simp add: v14_dtd_def dtd_fields_def)

text \<open>
  C9.  Round trip of timings: if one of the four descriptors of an accepted image is the encoding
  of a timing, the decoder stores that timing in the corresponding descriptor.
\<close>

theorem edid_timing_round_trip:
  assumes "128 \<le> length bin" "wf_edid e" "edid_decode_v14 bin e = Inr (0, e')" "i < 4"
    and "wf_dtd t f" "take 18 (drop (0x36 + 18 * i) bin) = encode_dtd t f"
  shows "desc_type (descriptors e' ! i) = DT_DETAILED_TIMING \<and>
    desc_body (descriptors e' ! i) = Desc_detailed t"
proof -
  let ?c = "at bin (0x36 + 18 * i)"
  have eq: "?c k = at (encode_dtd t f) 0 k" if "k < 18" for k
    by (rule at_cong [OF assms(6) _ that]) (simp add: encode_dtd_def)
  have "?c 0 \<noteq> 0 \<or> ?c 1 \<noteq> 0"
  proof (rule ccontr)
    assume "\<not> ?thesis"
    then have "dt_pixel_clock t div 10000 mod 256 = 0" "dt_pixel_clock t div 10000 div 256 = 0"
      using eq [of 0] eq [of 1] by (simp_all add: encode_dtd_nth [OF assms(5), simplified])
    then have "dt_pixel_clock t = 0"
      using decode_bounds(3) [of "dt_pixel_clock t"] assms(5) by (simp add: wf_dtd_def)
    then show False using assms(5) by (simp add: wf_dtd_def)
  qed
  moreover have "v14_dtd ?c = t"
    using dtd_round_trip [OF assms(5)] v14_dtd_cong [of ?c "at (encode_dtd t f) 0"] eq by simp
  ultimately show ?thesis
    using decoded_descriptor [OF assms(1-4)] by (auto simp: v14_descriptor_def)
qed

lemma pack_range:
  fixes q r k n :: int
  assumes "0 \<le> q" "q \<le> n" "0 \<le> r" "r < k"
  shows "0 \<le> q * k + r" "q * k + r < (n + 1) * k"
proof -
  have "q * k \<le> n * k" using assms by (intro mult_right_mono) auto
  then show "q * k + r < (n + 1) * k" using assms(4) by (simp add: algebra_simps)
qed (use assms in simp)

text \<open>
  Ranges: whatever the bytes of a descriptor are, the decoded timing lies in the ranges of
  the format; in particular the pixel clock in Hz fits a 32-bit integer.
\<close>

lemma v14_dtd_ranges:
  fixes bin p
  defines "t \<equiv> v14_dtd (at bin p)"
  shows "0 \<le> dt_pixel_clock t \<and> dt_pixel_clock t \<le> 655350000 \<and>
    0 \<le> dt_width t \<and> dt_width t < 4096 \<and> 0 \<le> dt_height t \<and> dt_height t < 4096 \<and>
    0 \<le> dt_h_blank t \<and> dt_h_blank t < 4096 \<and> 0 \<le> dt_v_blank t \<and> dt_v_blank t < 4096 \<and>
    0 \<le> dt_h_fp t \<and> dt_h_fp t < 1024 \<and> 0 \<le> dt_v_fp t \<and> dt_v_fp t < 64 \<and>
    0 \<le> dt_h_sync t \<and> dt_h_sync t < 1024 \<and> 0 \<le> dt_v_sync t \<and> dt_v_sync t < 64"
proof -
  let ?c = "at bin p"
  have b: "0 \<le> ?c k" "?c k < 256" for k
    using unsigned_less [of "bin ! (p + k)"] by (simp_all add: at_def)
  have d: "0 \<le> ?c k div 16" "?c k div 16 \<le> 15" "0 \<le> ?c k mod 16" "?c k mod 16 \<le> 15"
    "0 \<le> ?c k div 64" "?c k div 64 \<le> 3" "0 \<le> ?c k mod 4" "?c k mod 4 \<le> 3"
    "0 \<le> ?c k div 4 mod 4" "?c k div 4 mod 4 \<le> 3"
    "0 \<le> ?c k div 16 mod 4" "?c k div 16 mod 4 \<le> 3" for k
    using b [of k] zdiv_mono1 [of "?c k" 255 16] zdiv_mono1 [of "?c k" 255 64]
      pos_mod_bound [of 16 "?c k"] pos_mod_bound [of 4 "?c k"] pos_mod_bound [of 4 "?c k div 4"]
      pos_mod_bound [of 4 "?c k div 16"]
    by (auto simp: pos_imp_zdiv_nonneg_iff)
  note ps = pack_range [OF d(1, 2) b] pack_range [OF d(3, 4) b] pack_range [OF d(5, 6) b]
    pack_range [OF d(11, 12) b]
  have v: "?c k mod 16 < 16" "?c k div 16 < 16" for k using d(2, 4) [of k] by auto
  note vs = pack_range [OF d(9, 10) d(1) v(2)] pack_range [OF d(7, 8) d(3) v(1)]
  have "?c 1 * 256 + ?c 0 \<le> 65535"
    using pack_range(2) [of "?c 1" 255 "?c 0" 256] b [of 0] b [of 1] by simp
  moreover have "0 \<le> ?c 1 * 256 + ?c 0" using b [of 0] b [of 1] by simp
  ultimately show ?thesis
    unfolding t_def v14_dtd_def dtd_fields_arith [OF b] eb_detailed_timing_desc.select_convs
    using ps vs by simp
qed

end
