(* ===== verification/Edid_Sample.thy ===== *)
theory Edid_Sample
  imports Edid_Timing
begin

text \<open>
  A concrete EDID image of 256 bytes (a 1280x720 display with one CEA extension holding a video,
  an audio, a speaker, an HDMI vendor and a video capability block and one detailed timing) and a
  cleared structure.  The theorems about the decoder are applied to them here.
\<close>

definition sample_edid :: "u8 list" where
  "sample_edid =
   [0x0, 0xff, 0xff, 0xff, 0xff, 0xff, 0xff, 0x0, 0x4, 0x96, 0x13, 0x75, 0x1, 0x0, 0x0, 0x0,
    0x10, 0x19, 0x1, 0x4, 0xa2, 0x30, 0x1b, 0x78, 0xa, 0xee, 0x91, 0xa3, 0x54, 0x4c, 0x99, 0x26,
    0xf, 0x50, 0x54, 0x20, 0x0, 0x0, 0xd1, 0xc0, 0x1, 0x1, 0x1, 0x1, 0x1, 0x1, 0x1, 0x1,
    0x1, 0x1, 0x1, 0x1, 0x1, 0x1, 0x1, 0x1d, 0x0, 0x72, 0x51, 0xd0, 0x1e, 0x20, 0x6e, 0x28,
    0x55, 0x0, 0xe0, 0xe, 0x11, 0x0, 0x0, 0x1e, 0x0, 0x0, 0x0, 0xfc, 0x0, 0x4c, 0x45, 0x44,
    0x4f, 0x53, 0xa, 0x20, 0x20, 0x20, 0x20, 0x20, 0x20, 0x20, 0x0, 0x0, 0x0, 0xfd, 0x0, 0x38,
    0x4c, 0x1e, 0x53, 0x11, 0x0, 0xa, 0x20, 0x20, 0x20, 0x20, 0x20, 0x20, 0x0, 0x0, 0x0, 0x10,
    0x0, 0x0, 0x0, 0x0, 0x0, 0x0, 0x0, 0x0, 0x0, 0x0, 0x0, 0x0, 0x0, 0x0, 0x1, 0x21,
    0x2, 0x3, 0x18, 0x41, 0x42, 0x90, 0x4, 0x23, 0x9, 0x7, 0x7, 0x83, 0x1, 0x0, 0x0, 0x65,
    0x3, 0xc, 0x0, 0x10, 0x0, 0xe2, 0x0, 0xf, 0x2, 0x3a, 0x80, 0x18, 0x71, 0x38, 0x2d, 0x40,
    0x58, 0x2c, 0x45, 0x0, 0xe0, 0xe, 0x11, 0x0, 0x0, 0x1e, 0x0, 0x0, 0x0, 0x0, 0x0, 0x0,
    0x0, 0x0, 0x0, 0x0, 0x0, 0x0, 0x0, 0x0, 0x0, 0x0, 0x0, 0x0, 0x0, 0x0, 0x0, 0x0,
    0x0, 0x0, 0x0, 0x0, 0x0, 0x0, 0x0, 0x0, 0x0, 0x0, 0x0, 0x0, 0x0, 0x0, 0x0, 0x0,
    0x0, 0x0, 0x0, 0x0, 0x0, 0x0, 0x0, 0x0, 0x0, 0x0, 0x0, 0x0, 0x0, 0x0, 0x0, 0x0,
    0x0, 0x0, 0x0, 0x0, 0x0, 0x0, 0x0, 0x0, 0x0, 0x0, 0x0, 0x0, 0x0, 0x0, 0x0, 0x0,
    0x0, 0x0, 0x0, 0x0, 0x0, 0x0, 0x0, 0x0, 0x0, 0x0, 0x0, 0x0, 0x0, 0x0, 0x0, 0xc9]"

definition blank_cea :: edid_cea where
  "blank_cea =
    \<lparr>cea_rev = 0, flags = \<lparr>fl_underscan = 0, fl_audio = 0, fl_ycbcr444 = 0, fl_ycbcr422 = 0\<rparr>,
     off_dtd = 0, nr_dtd = 0, nr_dbcs = 0, dbc_tags = replicate 62 0, dbe_tags = replicate 62 0,
     cea_video = \<lparr>nr_svd = 0, svds = replicate 32 \<lparr>svd_native = 0, svd_vic = 0\<rparr>\<rparr>,
     cea_audio = \<lparr>nr_sad = 0, sads = replicate 10 \<lparr>sad_format = 0, sad_channels = 0, sad_freq = 0,
       sad_resolution = 0, sad_bitrate = 0\<rparr>\<rparr>,
     speaker_designation = 0,
     cea_vsdb = \<lparr>ext_len = 0, ieee_reg_id = 0, addr_a = 0, addr_b = 0, addr_c = 0, addr_d = 0,
       ai = 0, bpp30 = 0, bpp36 = 0, bpp48 = 0, vs_ycbcr444 = 0, dvi_dual = 0, p_latency = 0,
       i_latency = 0, hdmi_video = 0, max_tmds_clk = 0, vid_latency_p = 0, aud_latency_p = 0,
       vid_latency_i = 0, aud_latency_i = 0, present_3d = 0, multi_3d = 0, image_size = 0,
       hdmi_xx_len = 0, hdmi_3d_len = 0, struct_all_3d = 0, mask_3d = 0, nr_vic_3d = 0,
       vics_3d = replicate 16 \<lparr>v3_vic_2d = 0, v3_struct_3d = 0, v3_detail_3d = 0\<rparr>\<rparr>,
     cea_colorimetry = \<lparr>xvYCC = 0, metadata = 0\<rparr>,
     cea_vcdb = \<lparr>quant_range_sel = 0, pt_scan_behavior = 0, it_scan_behavior = 0,
       ce_scan_behavior = 0\<rparr>,
     cea_timing = replicate 8 (dtd_fields (\<lambda>_. 0) 0)\<rparr>"

definition blank_descriptor :: descriptor where
  "blank_descriptor =
    \<lparr>desc_type = 0, desc_tag = 0, desc_body = Desc_unset,
     extra_standard_timings =
       replicate 6 \<lparr>st_horizontal = 0, st_aspect_ratio = 0, st_refresh_rate = 0\<rparr>,
     desc_dcm = dcm_of (\<lambda>_. 0),
     desc_cvt = replicate 4 \<lparr>cvt_lines = 0, cvt_aspect = 0, preferred_v_rate = 0,
       supported_v_rate_blank = 0\<rparr>,
     timing_3 = replicate 48 (eb_establish_timing 0 0 0 0)\<rparr>"

definition blank_edid :: base_edid where
  "blank_edid =
    \<lparr>id_mfg = [0, 0, 0, 0], id_prod = 0, id_sn = 0, mfg_week = 0, mfg_year = 0, model_year = 0,
     ver_mj = 0, ver_mn = 0, digital_if = 0, input = Analog 0 0 0 0, size_defined = 0,
     aspect_defined = 0, screen = Screen_size 0 0, gamma = F32 0 0, feature = 0,
     chroma = \<lparr>r_x = 0, r_y = 0, g_x = 0, g_y = 0, b_x = 0, b_y = 0, w_x = 0, w_y = 0\<rparr>,
     timing_1_2 = replicate 17 (eb_establish_timing 0 0 0 0),
     standard_timings = replicate 8 \<lparr>st_horizontal = 0, st_aspect_ratio = 0, st_refresh_rate = 0\<rparr>,
     descriptors = replicate 4 blank_descriptor, extensions = 0, checksum = 0,
     ext_datas = replicate 8 \<lparr>ext_tag = 0, cea_ext = blank_cea\<rparr>\<rparr>"

lemma length_sample: "length sample_edid = 256"
  by (simp add: sample_edid_def)

lemma sample_accepted: "edid_accepts sample_edid"
  unfolding edid_accepts_def by code_simp

lemma sample_fits: "cea_fits sample_edid"
  by code_simp

lemma wf_blank: "wf_edid blank_edid"
  by (simp add: wf_edid_def wf_descriptor_def wf_cea_def blank_edid_def blank_descriptor_def
      blank_cea_def list_all_length)

lemma sample_decoded:
  "\<exists>e'. edid_decode_v14 sample_edid blank_edid = Inr (0, e') \<and> wf_edid e'"
proof -
  have l: "128 \<le> length sample_edid" by (simp add: length_sample)
  let ?e = "(v14_base sample_edid blank_edid)\<lparr>extensions := ub sample_edid 0x7e\<rparr>"
  have w: "wf_edid ?e" using wf_v14_base [OF wf_blank, of sample_edid] by (simp add: wf_edid_def)
  have "ok_res (edid_decode_extensions sample_edid ?e) (\<lambda>(r, e'). wf_edid e')"
    by (rule ok_decode_extensions [OF sample_fits w])
  then show ?thesis using decode_accepts [OF l sample_accepted, of blank_edid] w
    by (auto simp: ok_ex Let_def)
qed

section \<open>The theorems at the sample\<close>

theorem edid_decode_v14_rejects_witness:
  "128 \<le> length (sample_edid[20 := 0]) \<and>
   (\<exists>e'. edid_decode_v14 (sample_edid[20 := 0]) blank_edid = Inr (- 1, e'))"
proof -
  have l: "128 \<le> length (sample_edid[20 := 0])" by (simp add: length_sample)
  have "sum_list (take 128 (sample_edid[20 := 0])) \<noteq> 0" by code_simp
  with l show ?thesis using edid_decode_v14_rejects [OF l, of blank_edid] by blast
qed


theorem edid_decode_v14_safe_witness:
  "cea_fits sample_edid \<and> wf_edid blank_edid \<and>
   (\<exists>r e'. edid_decode_v14 sample_edid blank_edid = Inr (r, e') \<and> (r = 0 \<or> r = - 1) \<and> wf_edid e')"
  using edid_decode_v14_safe [OF sample_fits wf_blank] sample_fits wf_blank by blast

definition sample_timing :: eb_detailed_timing_desc where
  "sample_timing =
    \<lparr>dt_pixel_clock = 74250000, dt_width = 1280, dt_height = 720, dt_h_blank = 370, dt_v_blank = 30,
     dt_h_fp = 110, dt_v_fp = 5, dt_h_sync = 40, dt_v_sync = 5, dt_h_size = 480, dt_v_size = 270,
     dt_border_lr = 0, dt_border_tb = 0, dt_interlaced = flag (0x1e AND 0x80),
     dt_stereo = dtd_stereo 0x1e, dt_sync = v14_dtd_sync 0x1e\<rparr>"

theorem edid_timing_round_trip_witness:
  "wf_dtd sample_timing 0x1e \<and>
   take 18 (drop (0x36 + 18 * 0) sample_edid) = encode_dtd sample_timing 0x1e \<and>
   (\<exists>e'. edid_decode_v14 sample_edid blank_edid = Inr (0, e') \<and>
     desc_body (descriptors e' ! 0) = Desc_detailed sample_timing)"
proof -
  obtain e' where e': "edid_decode_v14 sample_edid blank_edid = Inr (0, e')"
    using sample_decoded by blast
  have l: "128 \<le> length sample_edid" by (simp add: length_sample)
  have w: "wf_dtd sample_timing 0x1e" by (simp add: wf_dtd_def sample_timing_def)
  have t: "take 18 (drop (0x36 + 18 * 0) sample_edid) = encode_dtd sample_timing 0x1e" by code_simp
  show ?thesis using edid_timing_round_trip [OF l wf_blank e' _ w t] e' w t by auto
qed

end
