(* ===== verification/Edid_Blocks.thy ===== *)
theory Edid_Blocks
  imports Edid_Sample
begin

text \<open>
  The data block collection of the CEA extension as an abstract sequence of blocks.  \<open>enc_blk\<close> is the
  layout of a block in the image, \<open>apply_blk\<close> what a block means for the decoded structure, and the
  walk over the bytes refines the fold of \<open>apply_blk\<close> over the blocks.
\<close>

section \<open>Blocks and their layout\<close>

datatype cea_blk =
    Blk_audio "sad list"
  | Blk_video "svd list"
  | Blk_vendor "u8 list"
  | Blk_speaker int
  | Blk_dtc "u8 list"
  | Blk_vcap db_vcdb
  | Blk_color db_colorimetry

definition svd_byte :: "svd \<Rightarrow> u8" where
  "svd_byte s = word_of_int (svd_native s * 128 + svd_vic s)"

text \<open>The third byte of an audio descriptor depends on the format.\<close>

definition sad_bytes :: "sad \<Rightarrow> u8 list" where
  "sad_bytes s =
     [word_of_int (sad_format s * 8 + (sad_channels s - 1)), word_of_int (sad_freq s),
      word_of_int (if sad_format s = CEA_SAD_FMT_LPCM then sad_resolution s
                   else if sad_format s \<le> CEA_SAD_FMT_ATRAC then sad_bitrate s div 8 else 0)]"

definition vcap_byte :: "db_vcdb \<Rightarrow> u8" where
  "vcap_byte v = word_of_int (quant_range_sel v * 64 + pt_scan_behavior v * 16 +
     it_scan_behavior v * 4 + ce_scan_behavior v)"

fun blk_tag :: "cea_blk \<Rightarrow> int" where
  "blk_tag (Blk_audio ss) = CEA_DB_AUDIO"
| "blk_tag (Blk_video vs) = CEA_DB_VIDEO"
| "blk_tag (Blk_vendor ps) = CEA_DB_VENDOR"
| "blk_tag (Blk_speaker d) = CEA_DB_SPEAKER"
| "blk_tag (Blk_dtc ps) = CEA_DB_DTC"
| "blk_tag (Blk_vcap v) = CEA_DB_EXTENDED"
| "blk_tag (Blk_color k) = CEA_DB_EXTENDED"

fun blk_payload :: "cea_blk \<Rightarrow> u8 list" where
  "blk_payload (Blk_audio ss) = concat (map sad_bytes ss)"
| "blk_payload (Blk_video vs) = map svd_byte vs"
| "blk_payload (Blk_vendor ps) = ps"
| "blk_payload (Blk_speaker d) = [word_of_int d, 0, 0]"
| "blk_payload (Blk_dtc ps) = ps"
| "blk_payload (Blk_vcap v) = [word_of_int CEA_DBE_VIDEO_CAP, vcap_byte v]"
| "blk_payload (Blk_color k) =
     [word_of_int CEA_DBE_COLORIMETRY, word_of_int (xvYCC k), word_of_int (metadata k)]"

definition enc_blk :: "cea_blk \<Rightarrow> u8 list" where
  "enc_blk b = word_of_int (blk_tag b * 32 + int (length (blk_payload b))) # blk_payload b"

definition enc_blks :: "cea_blk list \<Rightarrow> u8 list" where
  "enc_blks bs = concat (map enc_blk bs)"

definition wf_svd :: "svd \<Rightarrow> bool" where
  "wf_svd s \<longleftrightarrow> svd_native s \<in> {0, 1} \<and> 0 \<le> svd_vic s \<and> svd_vic s < 128"

definition wf_sad :: "sad \<Rightarrow> bool" where
  "wf_sad s \<longleftrightarrow> 0 < sad_format s \<and> sad_format s < 16 \<and> 1 \<le> sad_channels s \<and> sad_channels s \<le> 8 \<and>
     0 \<le> sad_freq s \<and> sad_freq s < 128 \<and> 0 \<le> sad_resolution s \<and> sad_resolution s < 8 \<and>
     8 dvd sad_bitrate s \<and> 0 \<le> sad_bitrate s \<and> sad_bitrate s < 2048"

text \<open>A vendor block is here one of another vendor: its identifier is not that of HDMI.\<close>

fun wf_blk :: "cea_blk \<Rightarrow> bool" where
  "wf_blk (Blk_audio ss) \<longleftrightarrow> length ss \<le> 10 \<and> list_all wf_sad ss"
| "wf_blk (Blk_video vs) \<longleftrightarrow> length vs \<le> 31 \<and> list_all wf_svd vs"
| "wf_blk (Blk_vendor ps) \<longleftrightarrow> 3 \<le> length ps \<and> length ps \<le> 31 \<and> take 3 ps \<noteq> [0x03, 0x0c, 0x00]"
| "wf_blk (Blk_speaker d) \<longleftrightarrow> 0 \<le> d \<and> d < 128"
| "wf_blk (Blk_dtc ps) \<longleftrightarrow> length ps \<le> 31"
| "wf_blk (Blk_vcap v) \<longleftrightarrow> quant_range_sel v \<in> {0, 1} \<and> pt_scan_behavior v \<in> {0..3} \<and>
     it_scan_behavior v \<in> {0..3} \<and> ce_scan_behavior v \<in> {0..3}"
| "wf_blk (Blk_color k) \<longleftrightarrow> xvYCC k \<in> {0..3} \<and> metadata k \<in> {0..7}"

section \<open>What a block means\<close>

definition tagged :: "int \<Rightarrow> edid_cea \<Rightarrow> edid_cea" where
  "tagged t cea = cea\<lparr>dbc_tags := (dbc_tags cea)[nat (nr_dbcs cea) := t], nr_dbcs := nr_dbcs cea + 1\<rparr>"

definition ext_tagged :: "int \<Rightarrow> edid_cea \<Rightarrow> edid_cea" where
  "ext_tagged t cea = cea\<lparr>dbe_tags := (dbe_tags cea)[nat (nr_dbcs cea) := t]\<rparr>"

text \<open>The decoder stores the resolution or the bit rate, by format, and leaves the other alone.\<close>

definition sad_merge :: "sad \<Rightarrow> sad \<Rightarrow> sad" where
  "sad_merge old s = old\<lparr>sad_format := sad_format s, sad_channels := sad_channels s,
     sad_freq := sad_freq s,
     sad_resolution := (if sad_format s = CEA_SAD_FMT_LPCM then sad_resolution s else sad_resolution old),
     sad_bitrate := (if sad_format s \<noteq> CEA_SAD_FMT_LPCM \<and> sad_format s \<le> CEA_SAD_FMT_ATRAC
                     then sad_bitrate s else sad_bitrate old)\<rparr>"

fun apply_blk :: "cea_blk \<Rightarrow> edid_cea \<Rightarrow> edid_cea" where
  "apply_blk (Blk_audio ss) cea = (tagged CEA_DB_AUDIO cea)
     \<lparr>cea_audio := \<lparr>nr_sad = int (length ss),
        sads = map2 sad_merge (sads (cea_audio cea)) ss @ drop (length ss) (sads (cea_audio cea))\<rparr>\<rparr>"
| "apply_blk (Blk_video vs) cea = (tagged CEA_DB_VIDEO cea)
     \<lparr>cea_video := \<lparr>nr_svd = int (length vs), svds = vs @ drop (length vs) (svds (cea_video cea))\<rparr>\<rparr>"
| "apply_blk (Blk_vendor ps) cea = (tagged CEA_DB_VENDOR cea)
     \<lparr>cea_vsdb := (cea_vsdb cea)\<lparr>ieee_reg_id := 0\<rparr>\<rparr>"
| "apply_blk (Blk_speaker d) cea = (tagged CEA_DB_SPEAKER cea)\<lparr>speaker_designation := d\<rparr>"
| "apply_blk (Blk_dtc ps) cea = tagged CEA_DB_DTC cea"
| "apply_blk (Blk_vcap v) cea =
     tagged CEA_DB_EXTENDED ((ext_tagged CEA_DBE_VIDEO_CAP cea)\<lparr>cea_vcdb := v\<rparr>)"
| "apply_blk (Blk_color k) cea =
     tagged CEA_DB_EXTENDED ((ext_tagged CEA_DBE_COLORIMETRY cea)\<lparr>cea_colorimetry := k\<rparr>)"

section \<open>Bytes\<close>

lemma and_low: "x AND 0x1f = x mod 32" "x AND 0x7f = x mod 128" "x AND 0x7 = x mod 8"
  "x AND 0xf = x mod 16" "x AND 0x3 = x mod 4" for x :: int
proof -
  have m: "x AND mask n = x mod 2 ^ n" for n
    by (simp only: take_bit_eq_mask [symmetric]) (simp add: take_bit_eq_mod)
  show "x AND 0x1f = x mod 32" "x AND 0x7f = x mod 128" "x AND 0x7 = x mod 8"
    "x AND 0xf = x mod 16" "x AND 0x3 = x mod 4"
    using m [of 5] m [of 7] m [of 3] m [of 4] m [of 2] by (simp_all add: mask_eq_exp_minus_1)
qed

lemma flag_bits:
  "list_all (\<lambda>x :: int. flag (x AND 0x80) = x div 128 mod 2 \<and> flag (x AND 0x40) = x div 64 mod 2) [0..255]"
  by code_simp

lemma flag_byte:
  assumes "0 \<le> x" "x < 256"
  shows "flag (x AND 0x80) = x div 128" "flag (x AND 0x40) = x div 64 mod 2"
proof -
  have "x \<in> set [0..255]" using assms by simp
  moreover have "x div 128 mod 2 = x div 128" using assms by auto
  ultimately show "flag (x AND 0x80) = x div 128" "flag (x AND 0x40) = x div 64 mod 2"
    using flag_bits by (auto simp: list_all_iff simp del: set_upto)
qed

text \<open>The byte \<open>x\<close> of a block as the decoder takes it apart.\<close>

lemma svd_byte_decode:
  assumes "wf_svd s" "p < length bin" "bin ! p = svd_byte s"
  shows "cea_svd bin p old = Inr s"
proof -
  let ?x = "svd_native s * 128 + svd_vic s"
  have x: "0 \<le> ?x" "?x < 256" "?x div 128 = svd_native s" "?x mod 128 = svd_vic s"
    using assms by (auto simp: wf_svd_def)
  have "uint (bin ! p) = ?x"
    using assms(3) uint_byte [OF x(1,2)] by (simp add: svd_byte_def)
  then show ?thesis
    using assms(2) x flag_byte(1) [OF x(1,2)] by (simp add: cea_svd_def byte_def and_low)
qed

lemma sad_bytes_decode:
  assumes "wf_sad s" "p + 2 < length bin" "\<forall>i < 3. bin ! (p + i) = sad_bytes s ! i"
  shows "cea_sad bin p old = Inr (sad_merge old s)"
proof -
  let ?x = "sad_format s * 8 + (sad_channels s - 1)"
  have x: "0 \<le> ?x" "?x < 256" "?x div 8 = sad_format s" "?x mod 8 = sad_channels s - 1"
    "0 \<le> sad_freq s" "sad_freq s < 256"
    using assms(1) by (auto simp: wf_sad_def)
  let ?z = "if sad_format s = CEA_SAD_FMT_LPCM then sad_resolution s
    else if sad_format s \<le> CEA_SAD_FMT_ATRAC then sad_bitrate s div 8 else 0"
  have z: "0 \<le> ?z" "?z < 256" using assms(1) by (auto simp: wf_sad_def)
  have b: "uint (bin ! p) = ?x" "uint (bin ! (p + 1)) = sad_freq s" "uint (bin ! (p + 2)) = ?z"
    using assms(3) uint_byte [OF x(1,2)] uint_byte [OF x(5,6)] uint_byte [OF z]
    by (auto simp: sad_bytes_def dest: spec [where x = 0] spec [where x = 1] spec [where x = 2])
  have f: "?x div 8 mod 16 = sad_format s" using x(3) assms(1) by (simp add: wf_sad_def)
  show ?thesis
    using assms(1,2) x f
    by (auto simp: cea_sad_def byte_def b b [simplified] Let_def and_low drop_bit_eq_div sad_merge_def
        wf_sad_def)
qed

section \<open>Loops\<close>

lemma concat_blocks_nth:
  assumes "\<And>x. x \<in> set xs \<Longrightarrow> length (f x) = m" "i < length xs" "j < m"
  shows "concat (map f xs) ! (m * i + j) = f (xs ! i) ! j"
  using assms
proof (induction xs arbitrary: i)
  case (Cons x xs)
  show ?case
  proof (cases i)
    case 0
    with Cons.prems show ?thesis by (simp add: nth_append)
  next
    case (Suc k)
    with Cons show ?thesis by (simp add: nth_append)
  qed
qed simp

lemma length_concat_blocks:
  "(\<And>x. x \<in> set xs \<Longrightarrow> length (f x) = m) \<Longrightarrow> length (concat (map f xs)) = m * length xs"
  by (induction xs) simp_all

section \<open>One block\<close>

text \<open>The bytes of a block are in the image at \<open>c\<close>.\<close>

definition blk_at :: "u8 list \<Rightarrow> nat \<Rightarrow> cea_blk \<Rightarrow> bool" where
  "blk_at bin c b \<longleftrightarrow> c + length (enc_blk b) \<le> length bin \<and>
     (\<forall>i < length (enc_blk b). bin ! (c + i) = enc_blk b ! i)"

lemma length_payload: "wf_blk b \<Longrightarrow> length (blk_payload b) \<le> 31"
  by (cases b) (auto simp: length_concat_blocks [of _ sad_bytes 3] sad_bytes_def)

lemma blk_tag_range: "1 \<le> blk_tag b" "blk_tag b \<le> 7" "known_tag (blk_tag b)"
  by (cases b; simp add: known_tag_def edid_consts)+

lemma blk_header:
  assumes "wf_blk b" "blk_at bin c b"
  shows "uint (bin ! c) div 32 = blk_tag b" "blk_len (uint (bin ! c)) = int (length (blk_payload b))"
    "c < length bin" "c + length (blk_payload b) < length bin"
    "\<And>i. i < length (blk_payload b) \<Longrightarrow> bin ! (c + 1 + i) = blk_payload b ! i"
proof -
  let ?x = "blk_tag b * 32 + int (length (blk_payload b))"
  have x: "0 \<le> ?x" "?x < 256" "?x div 32 = blk_tag b" "?x mod 32 = int (length (blk_payload b))"
    using blk_tag_range(1,2) [of b] length_payload [OF assms(1)] by auto
  have "bin ! c = word_of_int ?x"
    using assms(2) by (auto simp: blk_at_def enc_blk_def dest: spec [where x = 0])
  then have u: "uint (bin ! c) = ?x" using uint_byte [OF x(1,2)] by simp
  show "uint (bin ! c) div 32 = blk_tag b" "blk_len (uint (bin ! c)) = int (length (blk_payload b))"
    using x by (simp_all add: u blk_len_def and_low)
  show "c < length bin" "c + length (blk_payload b) < length bin"
    using assms(2) by (simp_all add: blk_at_def enc_blk_def)
  show "bin ! (c + 1 + i) = blk_payload b ! i" if "i < length (blk_payload b)" for i
    using assms(2) that by (auto simp: blk_at_def enc_blk_def dest: spec [where x = "Suc i"])
qed

lemma push_tag_run:
  "cea_state n cea \<Longrightarrow> n < 62 \<Longrightarrow> push_tag t cea = Inr (tagged t cea)"
  by (simp add: push_tag_def put_res_def upd_res_def cea_state_def wf_cea_def tagged_def)

lemma put_ext_tag_run:
  "cea_state n cea \<Longrightarrow> n < 62 \<Longrightarrow> put_ext_tag t cea = Inr (ext_tagged t cea)"
  by (simp add: put_ext_tag_def put_res_def upd_res_def cea_state_def wf_cea_def ext_tagged_def)

lemma tagged_sel [simp]:
  "cea_audio (tagged t cea) = cea_audio cea" "cea_video (tagged t cea) = cea_video cea"
  "cea_vsdb (tagged t cea) = cea_vsdb cea" "nr_dtd (tagged t cea) = nr_dtd cea"
  "nr_dbcs (ext_tagged t cea) = nr_dbcs cea"
  by (simp_all add: tagged_def ext_tagged_def)

lemma apply_blk_state:
  assumes "cea_state n cea" "wf_blk b"
  shows "cea_state (Suc n) (apply_blk b cea)"
proof -
  have "length (map2 sad_merge xs ss @ drop (length ss) xs) = length xs" if "length ss \<le> length xs" for xs ss
    using that by simp
  then show ?thesis
    using assms by (cases b) (auto simp: cea_state_def wf_cea_def tagged_def ext_tagged_def)
qed

lemma blk_tag_at:
  "wf_blk b \<Longrightarrow> blk_at bin c b \<Longrightarrow> drop_bit 5 (uint (bin ! c)) = blk_tag b"
  using blk_header(1) by (simp add: drop_bit_eq_div)

lemma blk_byte:
  "wf_blk b \<Longrightarrow> blk_at bin c b \<Longrightarrow> i < length (blk_payload b) \<Longrightarrow>
   byte bin (c + Suc i) = Inr (uint (blk_payload b ! i))"
  using blk_header(4,5) [of b bin c] by (simp add: byte_def)

lemma video_block_run:
  assumes "cea_state n cea" "n < 62" "wf_blk (Blk_video vs)" "blk_at bin c (Blk_video vs)"
  shows "cea_block bin c (uint (bin ! c)) cea = Inr (apply_blk (Blk_video vs) cea)"
proof -
  note h = blk_header [OF assms(3,4), simplified]
  have "fold_res (\<lambda>i. upd_res i (cea_svd bin (c + 1 + i))) [0..<length vs] (svds (cea_video cea)) =
      Inr (map (\<lambda>i. vs ! i) [0..<length vs] @ drop (length vs) (svds (cea_video cea)))"
  proof (rule fold_upd_res)
    show "length vs \<le> length (svds (cea_video cea))"
      using assms(1,3) by (simp add: cea_state_def wf_cea_def)
    show "cea_svd bin (c + 1 + i) (svds (cea_video cea) ! i) = Inr (vs ! i)" if "i < length vs" for i
      using that h(4) h(5) [of i] assms(3) by (intro svd_byte_decode) (auto simp: list_all_length)
  qed
  then show ?thesis
    using blk_tag_at [OF assms(3,4)] h(2) push_tag_run [OF assms(1,2)]
    by (simp add: cea_block_def cea_video_block_def map_nth edid_consts)
qed

lemma audio_block_run:
  assumes "cea_state n cea" "n < 62" "wf_blk (Blk_audio ss)" "blk_at bin c (Blk_audio ss)"
  shows "cea_block bin c (uint (bin ! c)) cea = Inr (apply_blk (Blk_audio ss) cea)"
proof -
  note h = blk_header [OF assms(3,4), simplified]
  let ?xs = "sads (cea_audio cea)"
  have l: "length (concat (map sad_bytes ss)) = 3 * length ss"
    by (rule length_concat_blocks) (simp add: sad_bytes_def)
  have le: "length ss \<le> length ?xs" using assms(1,3) by (simp add: cea_state_def wf_cea_def)
  have "fold_res (\<lambda>i. upd_res i (cea_sad bin (c + 1 + 3 * i))) [0..<length ss] ?xs =
      Inr (map (\<lambda>i. sad_merge (?xs ! i) (ss ! i)) [0..<length ss] @ drop (length ss) ?xs)"
  proof (rule fold_upd_res [OF le], rule sad_bytes_decode)
    fix i assume i: "i < length ss"
    show "wf_sad (ss ! i)" using assms(3) i by (simp add: list_all_length)
    show "c + 1 + 3 * i + 2 < length bin" using h(4) i l by simp
    have "concat (map sad_bytes ss) ! (3 * i + j) = sad_bytes (ss ! i) ! j" if "j < 3" for j
      by (rule concat_blocks_nth [OF _ i that]) (simp add: sad_bytes_def)
    then show "\<forall>j < 3. bin ! (c + 1 + 3 * i + j) = sad_bytes (ss ! i) ! j"
      using h(5) i l by (simp add: add.assoc)
  qed
  moreover have "map (\<lambda>i. sad_merge (?xs ! i) (ss ! i)) [0..<length ss] = map2 sad_merge ?xs ss"
    using le by (intro nth_equalityI) auto
  ultimately show ?thesis
    using blk_tag_at [OF assms(3,4)] h(2) l push_tag_run [OF assms(1,2)]
    by (simp add: cea_block_def cea_audio_block_def edid_consts)
qed

lemma vendor_block_run:
  assumes "cea_state n cea" "n < 62" "wf_blk (Blk_vendor ps)" "blk_at bin c (Blk_vendor ps)"
  shows "cea_block bin c (uint (bin ! c)) cea = Inr (apply_blk (Blk_vendor ps) cea)"
proof -
  obtain p0 p1 p2 qs where ps: "ps = p0 # p1 # p2 # qs"
    using assms(3) by (auto simp: numeral_3_eq_3 Suc_le_length_iff)
  have b: "byte bin (c + 1) = Inr (uint p0)" "byte bin (c + 2) = Inr (uint p1)" "byte bin (c + 3) = Inr (uint p2)"
    using blk_byte [OF assms(3,4), of 0] blk_byte [OF assms(3,4), of 1] blk_byte [OF assms(3,4), of 2]
    by (simp_all add: ps numeral_3_eq_3)
  have "p0 \<noteq> 0x03 \<or> p1 \<noteq> 0x0c \<or> p2 \<noteq> 0x00" using assms(3) by (auto simp: ps)
  then have "uint p0 \<noteq> 0x03 \<or> uint p1 \<noteq> 0x0c \<or> uint p2 \<noteq> 0x00"
    by (auto simp: word_uint_eq_iff)
  then have "not_hdmi_oui bin c = Inr True"
    unfolding not_hdmi_oui_def b by simp
  then show ?thesis
    using blk_tag_at [OF assms(3,4)] push_tag_run [OF assms(1,2)]
    by (simp add: cea_block_def cea_vendor_block_def edid_consts)
qed

lemma ext_tagged_state: "cea_state n cea \<Longrightarrow> cea_state n (ext_tagged t cea)"
  by (simp add: cea_state_def wf_cea_def ext_tagged_def)

lemma vcap_digits:
  "list_all (\<lambda>q. list_all (\<lambda>p. list_all (\<lambda>i. list_all (\<lambda>c :: int.
     let x = q * 64 + p * 16 + i * 4 + c in
     0 \<le> x \<and> x < 256 \<and> x div 64 mod 2 = q \<and> x div 16 mod 4 = p \<and> x div 4 mod 4 = i \<and> x mod 4 = c)
     [0, 1, 2, 3]) [0, 1, 2, 3]) [0, 1, 2, 3]) [0, 1]"
  by code_simp

lemma vcap_byte_decode:
  assumes "wf_blk (Blk_vcap v)"
  shows "\<lparr>quant_range_sel = flag (uint (vcap_byte v) AND 0x40),
    pt_scan_behavior = drop_bit 4 (uint (vcap_byte v)) AND 0x03,
    it_scan_behavior = drop_bit 2 (uint (vcap_byte v)) AND 0x03,
    ce_scan_behavior = uint (vcap_byte v) AND 0x03\<rparr> = v"
proof -
  let ?x = "quant_range_sel v * 64 + pt_scan_behavior v * 16 + it_scan_behavior v * 4 + ce_scan_behavior v"
  have "quant_range_sel v \<in> set [0, 1]" "pt_scan_behavior v \<in> set [0, 1, 2, 3]"
    "it_scan_behavior v \<in> set [0, 1, 2, 3]" "ce_scan_behavior v \<in> set [0, 1, 2, 3]"
    using assms by auto
  then have x: "0 \<le> ?x \<and> ?x < 256 \<and> ?x div 64 mod 2 = quant_range_sel v \<and>
      ?x div 16 mod 4 = pt_scan_behavior v \<and> ?x div 4 mod 4 = it_scan_behavior v \<and>
      ?x mod 4 = ce_scan_behavior v"
    using vcap_digits unfolding list_all_iff Let_def by blast
  then have "uint (vcap_byte v) = ?x"
    unfolding vcap_byte_def by (intro uint_byte) simp_all
  then show ?thesis
    using x flag_byte(2) [of ?x] by (simp add: and_low drop_bit_eq_div)
qed

lemma small_block_run:
  assumes "cea_state n cea" "n < 62" "wf_blk b" "blk_at bin c b"
    and "b \<in> range Blk_speaker \<union> range Blk_dtc \<union> range Blk_vcap \<union> range Blk_color"
  shows "cea_block bin c (uint (bin ! c)) cea = Inr (apply_blk b cea)"
proof -
  note tag = blk_tag_at [OF assms(3,4)]
  note push = push_tag_run [OF assms(1,2)] push_tag_run [OF _ assms(2)]
  note ext = put_ext_tag_run [OF assms(1,2)]
  have y: "0 < length (blk_payload b) \<Longrightarrow> byte bin (c + 1) = Inr (uint (blk_payload b ! 0))"
    "1 < length (blk_payload b) \<Longrightarrow> byte bin (c + 2) = Inr (uint (blk_payload b ! 1))"
    "2 < length (blk_payload b) \<Longrightarrow> byte bin (c + 3) = Inr (uint (blk_payload b ! 2))"
    using blk_byte [OF assms(3,4), of 0] blk_byte [OF assms(3,4), of 1] blk_byte [OF assms(3,4), of 2]
    by (simp_all add: numeral_3_eq_3)
  consider d where "b = Blk_speaker d" | ps where "b = Blk_dtc ps" | v where "b = Blk_vcap v"
    | k where "b = Blk_color k" using assms(5) by auto
  then show ?thesis
  proof cases
    case 1
    then show ?thesis
      using tag y assms(3) push(1)
      by (simp add: cea_block_def cea_speaker_block_def edid_consts and_low uint_byte)
  next
    case 2
    then show ?thesis using tag push(1) by (simp add: cea_block_def edid_consts)
  next
    case 3
    have s: "cea_state n ((ext_tagged CEA_DBE_VIDEO_CAP cea)\<lparr>cea_vcdb := v\<rparr>)"
      using ext_tagged_state [OF assms(1)] by (simp add: cea_state_def wf_cea_def)
    from 3 show ?thesis
      using tag y ext push(2) [OF s] vcap_byte_decode [of v] assms(3)
      by (simp add: cea_block_def cea_ext_block_def cea_ext_body_def edid_consts)
  next
    case 4
    have s: "cea_state n ((ext_tagged CEA_DBE_COLORIMETRY cea)\<lparr>cea_colorimetry := k\<rparr>)"
      using ext_tagged_state [OF assms(1)] by (simp add: cea_state_def wf_cea_def)
    have k: "\<lparr>xvYCC = xvYCC k, metadata = metadata k\<rparr> = k" by simp
    from 4 show ?thesis
      using tag y ext push(2) [OF s] assms(3)
      by (simp add: cea_block_def cea_ext_block_def cea_ext_body_def edid_consts uint_byte and_low k)
  qed
qed

lemma cea_block_run:
  assumes "cea_state n cea" "n < 62" "wf_blk b" "blk_at bin c b"
  shows "cea_block bin c (uint (bin ! c)) cea = Inr (apply_blk b cea)"
proof (cases "b \<in> range Blk_speaker \<union> range Blk_dtc \<union> range Blk_vcap \<union> range Blk_color")
  case True
  then show ?thesis using small_block_run [OF assms] by simp
next
  case False
  then consider ss where "b = Blk_audio ss" | vs where "b = Blk_video vs" | ps where "b = Blk_vendor ps"
    by (cases b) auto
  then show ?thesis
    using assms audio_block_run [OF assms(1,2)] video_block_run [OF assms(1,2)] vendor_block_run [OF assms(1,2)]
    by cases (simp_all only:)
qed

section \<open>The walk\<close>

lemma enc_blks_simps [simp]:
  "enc_blks [] = []" "enc_blks (b # bs) = enc_blk b @ enc_blks bs"
  by (simp_all add: enc_blks_def)

lemma length_enc_blk: "length (enc_blk b) = Suc (length (blk_payload b))"
  by (simp add: enc_blk_def)

text \<open>\<open>cea_walk\<close> over the bytes of a sequence of blocks is the fold of their meanings.\<close>

lemma cea_walk_refines:
  assumes "cea_state n cea" "n + length bs \<le> 62" "list_all wf_blk bs"
    and "c + length (enc_blks bs) \<le> length bin"
    and "\<And>i. i < length (enc_blks bs) \<Longrightarrow> bin ! (c + i) = enc_blks bs ! i"
  shows "cea_walk bin c (c + length (enc_blks bs)) cea = Inr (fold apply_blk bs cea)"
  using assms
proof (induction bs arbitrary: n c cea)
  case Nil
  then show ?case by (simp add: cea_walk.simps)
next
  case (Cons b bs)
  let ?c = "c + length (enc_blk b)" and ?d = "c + length (enc_blks (b # bs))"
  have at: "blk_at bin c b"
    using Cons.prems(4,5) by (auto simp: blk_at_def nth_append)
  have wf: "wf_blk b" using Cons.prems(3) by simp
  note h = blk_header [OF wf at]
  have "cea_walk bin ?c (?c + length (enc_blks bs)) (apply_blk b cea) = Inr (fold apply_blk bs (apply_blk b cea))"
  proof (rule Cons.IH)
    show "cea_state (Suc n) (apply_blk b cea)" using apply_blk_state [OF Cons.prems(1) wf] .
    show "bin ! (?c + i) = enc_blks bs ! i" if "i < length (enc_blks bs)" for i
      using Cons.prems(5) [of "length (enc_blk b) + i"] that by (simp add: nth_append add.assoc)
  qed (use Cons.prems in simp_all)
  moreover have "cea_next (uint (bin ! c)) c ?d = ?c"
    using h(2) blk_tag_range(3) [of b] blk_tag_at [OF wf at] by (simp add: cea_next_def length_enc_blk)
  moreover have "cea_block bin c (uint (bin ! c)) cea = Inr (apply_blk b cea)"
    using cea_block_run [OF Cons.prems(1) _ wf at] Cons.prems(2) by simp
  moreover have "c < ?d" by (simp add: length_enc_blk)
  ultimately show ?case
    using h(3) by (simp add: cea_walk.simps [of bin c] byte_def add.assoc)
qed

section \<open>The detailed timings of the extension\<close>

definition enc_dtds :: "(eb_detailed_timing_desc \<times> int) list \<Rightarrow> u8 list" where
  "enc_dtds ds = concat (map (\<lambda>(t, f). encode_dtd t f) ds)"

text \<open>What the extension decoder reports of a timing: all of it but the sync flags.\<close>

definition ext_timing :: "eb_detailed_timing_desc \<times> int \<Rightarrow> eb_detailed_timing_desc" where
  "ext_timing d = (fst d)\<lparr>dt_sync := cea_dtd_sync (snd d)\<rparr>"

lemma length_encode_dtd: "length (encode_dtd t f) = 18"
  by (simp add: encode_dtd_def)

lemma length_enc_dtds: "length (enc_dtds ds) = 18 * length ds"
  unfolding enc_dtds_def by (rule length_concat_blocks) (auto simp: length_encode_dtd)

lemma cea_dtd_run:
  assumes "wf_dtd t f" "p + 18 \<le> length bin" "\<And>j. j < 18 \<Longrightarrow> bin ! (p + j) = encode_dtd t f ! j"
  shows "cea_dtd bin p = Inr (ext_timing (t, f))"
proof -
  let ?c = "\<lambda>k. uint (bin ! (p + k))" and ?e = "at (encode_dtd t f) 0"
  have c: "?c k = ?e k" if "k < 18" for k using assms(3) [OF that] by (simp add: at_def)
  have "dtd_fields ?c s = dtd_fields ?e s" for s
    unfolding dtd_fields_def using c [of 0] c [of 2] by (simp add: c del: One_nat_def add_Suc_right)
  moreover have "?e 17 = f" by (rule encode_dtd_nth(18) [OF assms(1)])
  moreover have "dtd_fields ?e s = t\<lparr>dt_sync := s\<rparr>" for s
    by (subst dtd_round_trip [OF assms(1), symmetric]) (simp add: v14_dtd_def dtd_fields_def)
  ultimately show ?thesis
    using assms(2) c [of 17] by (simp add: cea_dtd_def ext_timing_def Let_def)
qed

lemma cea_dtds_run:
  assumes "nr_dtd cea = int (length ds)" "length ds \<le> length (cea_timing cea)"
    and "list_all (\<lambda>(t, f). wf_dtd t f) ds" "p + length (enc_dtds ds) \<le> length bin"
    and "\<And>i. i < length (enc_dtds ds) \<Longrightarrow> bin ! (p + i) = enc_dtds ds ! i"
  shows "cea_dtds bin p cea =
    Inr (cea\<lparr>cea_timing := map ext_timing ds @ drop (length ds) (cea_timing cea)\<rparr>)"
proof -
  have "fold_res (\<lambda>i. upd_res i (\<lambda>_. cea_dtd bin (p + 18 * i))) [0..<length ds] (cea_timing cea) =
      Inr (map (\<lambda>i. ext_timing (ds ! i)) [0..<length ds] @ drop (length ds) (cea_timing cea))"
  proof (rule fold_upd_res [OF assms(2)])
    fix i assume i: "i < length ds"
    obtain t f where d: "ds ! i = (t, f)" by fastforce
    have "enc_dtds ds ! (18 * i + j) = encode_dtd t f ! j" if "j < 18" for j
      unfolding enc_dtds_def using concat_blocks_nth [OF _ i that, of "\<lambda>(t, f). encode_dtd t f"] d
      by (auto simp: length_encode_dtd)
    then show "cea_dtd bin (p + 18 * i) = Inr (ext_timing (ds ! i))"
      unfolding d using i assms(3,4,5) d
      by (intro cea_dtd_run) (auto simp: list_all_length length_enc_dtds add.assoc)
  qed
  moreover have "map (\<lambda>i. ext_timing (ds ! i)) [0..<length ds] = map ext_timing ds"
    by (intro nth_equalityI) simp_all
  ultimately show ?thesis using assms(1) by (simp add: cea_dtds_def)
qed

section \<open>The extension\<close>

text \<open>An extension of revision 3 with the flags \<open>fl\<close>, the blocks \<open>bs\<close> and the timings \<open>ds\<close>.\<close>

definition enc_cea :: "int \<Rightarrow> cea_blk list \<Rightarrow> (eb_detailed_timing_desc \<times> int) list \<Rightarrow> u8 list" where
  "enc_cea fl bs ds = [2, 3, word_of_int (4 + int (length (enc_blks bs))), word_of_int (fl * 16 + int (length ds))] @
     enc_blks bs @ enc_dtds ds"

definition wf_ext :: "int \<Rightarrow> cea_blk list \<Rightarrow> (eb_detailed_timing_desc \<times> int) list \<Rightarrow> bool" where
  "wf_ext fl bs ds \<longleftrightarrow> fl \<in> {0..15} \<and> bs \<noteq> [] \<and> length bs \<le> 62 \<and> list_all wf_blk bs \<and>
     list_all (\<lambda>(t, f). wf_dtd t f) ds \<and> length (enc_cea fl bs ds) \<le> 127"

lemma enc_cea_at:
  assumes "length base = 128" "bin = base @ enc_cea fl bs ds @ rest"
  defines "n \<equiv> length (enc_blks bs)"
  shows "bin ! 129 = 3" "bin ! 130 = word_of_int (4 + int n)" "bin ! 131 = word_of_int (fl * 16 + int (length ds))"
    "\<And>i. i < n \<Longrightarrow> bin ! (132 + i) = enc_blks bs ! i"
    "\<And>i. i < length (enc_dtds ds) \<Longrightarrow> bin ! (132 + n + i) = enc_dtds ds ! i"
    "132 + n + length (enc_dtds ds) \<le> length bin"
proof -
  show "bin ! 129 = 3" "bin ! 130 = word_of_int (4 + int n)" "bin ! 131 = word_of_int (fl * 16 + int (length ds))"
    "132 + n + length (enc_dtds ds) \<le> length bin"
    using assms by (simp_all add: enc_cea_def nth_append)
  have b: "bin ! (132 + k) = (enc_blks bs @ enc_dtds ds @ rest) ! k" for k
    using assms by (simp add: enc_cea_def nth_append)
  show "bin ! (132 + i) = enc_blks bs ! i" if "i < n" for i
    using that by (simp add: b nth_append n_def)
  show "bin ! (132 + n + i) = enc_dtds ds ! i" if "i < length (enc_dtds ds)" for i
    using that b [of "n + i"] by (simp add: nth_append n_def add.assoc)
qed

lemma fold_apply_keeps:
  "nr_dtd (fold apply_blk bs cea) = nr_dtd cea" "cea_timing (fold apply_blk bs cea) = cea_timing cea"
proof -
  have 1: "nr_dtd (apply_blk b y) = nr_dtd y \<and> cea_timing (apply_blk b y) = cea_timing y" for b y
    by (cases b) (simp_all add: tagged_def ext_tagged_def)
  show "nr_dtd (fold apply_blk bs cea) = nr_dtd cea" "cea_timing (fold apply_blk bs cea) = cea_timing cea"
    by (induction bs arbitrary: cea) (simp_all add: 1)
qed

lemma decode_cea_run:
  assumes "wf_ext fl bs ds" "wf_cea (cea_ext x)" "length base = 128"
  shows "edid_decode_cea (base @ enc_cea fl bs ds @ rest) 0 x = Inr (0, x
    \<lparr>ext_tag := EDID_EXT_TAG_CEA,
     cea_ext := (fold apply_blk bs
         (cea_header 3 (4 + int (length (enc_blks bs))) (fl * 16 + int (length ds)) (cea_ext x)))
       \<lparr>cea_timing := map ext_timing ds @ drop (length ds) (cea_timing (cea_ext x))\<rparr>\<rparr>)"
proof -
  let ?bin = "base @ enc_cea fl bs ds @ rest" and ?n = "length (enc_blks bs)"
  let ?fl = "fl * 16 + int (length ds)"
  let ?cea = "cea_header 3 (4 + int ?n) ?fl (cea_ext x)"
  note at = enc_cea_at [OF assms(3) refl, where fl = fl and bs = bs and ds = ds and rest = rest]
  note w = assms(1) [unfolded wf_ext_def]
  have n: "?n \<le> 123" "0 < ?n" "length ds \<le> 6" "0 \<le> ?fl" "?fl < 256" "?fl mod 16 = int (length ds)"
    using w by (auto simp: enc_cea_def neq_Nil_conv enc_blk_def length_enc_dtds)
  have b: "byte ?bin 129 = Inr 3" "byte ?bin 130 = Inr (4 + int ?n)" "byte ?bin 131 = Inr ?fl"
    using at(1,2,3,6) uint_byte [of "4 + int ?n"] uint_byte [OF n(4,5)] n(1)
    by (simp_all add: byte_def del: of_int_add of_int_mult)
  have s: "cea_state 0 ?cea" using assms(2) by (simp add: cea_state_def cea_header_def wf_cea_def)
  have walk: "cea_walk ?bin 132 (132 + ?n) ?cea = Inr (fold apply_blk bs ?cea)"
    by (rule cea_walk_refines [OF s]) (use w at in auto)
  have h: "nr_dtd ?cea = int (length ds)" "cea_timing ?cea = cea_timing (cea_ext x)"
    using n(6) by (simp_all add: cea_header_def and_low)
  have "cea_dtds ?bin (132 + ?n) (fold apply_blk bs ?cea) = Inr ((fold apply_blk bs ?cea)
      \<lparr>cea_timing := map ext_timing ds @ drop (length ds) (cea_timing (cea_ext x))\<rparr>)"
    by (subst cea_dtds_run [of _ ds]) (use w at assms(2) h n(3) in \<open>auto simp: fold_apply_keeps wf_cea_def\<close>)
  moreover have "nat (4 + int ?n) = 4 + ?n" by simp
  ultimately show ?thesis
    using b walk n(2) by (simp add: edid_decode_cea_def cea_dtd_ptr_def add.assoc [symmetric])
qed

text \<open>
  C3. The decoder of the CEA extension implements its specification: an extension that encodes the
  flags \<open>fl\<close>, the data blocks \<open>bs\<close> and the detailed timings \<open>ds\<close>, laid out after a base block of 128 bytes,
  is decoded without a fault and with result 0, and the stored extension is the header, then the
  meaning of each block in the order of the image, then the timings (with the sync flags as the
  extension decoder reports them).
\<close>

theorem edid_decode_cea_refines:
  assumes "wf_ext fl bs ds" "wf_cea (cea_ext x)" "length base = 128"
  shows "edid_decode_cea (base @ enc_cea fl bs ds @ rest) 0 x = Inr (0, x
    \<lparr>ext_tag := EDID_EXT_TAG_CEA,
     cea_ext := (fold apply_blk bs
         (cea_header 3 (4 + int (length (enc_blks bs))) (fl * 16 + int (length ds)) (cea_ext x)))
       \<lparr>cea_timing := map ext_timing ds @ drop (length ds) (cea_timing (cea_ext x))\<rparr>\<rparr>)"
  by (rule decode_cea_run [OF assms])

text \<open>
  An extension with the four kinds of audio, video, speaker and capability blocks and one timing.
\<close>

definition sample_blks :: "cea_blk list" where
  "sample_blks = [Blk_video [\<lparr>svd_native = 1, svd_vic = 16\<rparr>, \<lparr>svd_native = 0, svd_vic = 4\<rparr>],
     Blk_audio [\<lparr>sad_format = 1, sad_channels = 2, sad_freq = 7, sad_resolution = 7, sad_bitrate = 0\<rparr>,
                \<lparr>sad_format = 2, sad_channels = 6, sad_freq = 7, sad_resolution = 0, sad_bitrate = 640\<rparr>],
     Blk_speaker 0x0f, Blk_vendor [0xd8, 0x5d, 0xc4, 1],
     Blk_vcap \<lparr>quant_range_sel = 1, pt_scan_behavior = 3, it_scan_behavior = 2, ce_scan_behavior = 1\<rparr>]"

theorem edid_decode_cea_refines_witness:
  "wf_ext 4 sample_blks [(sample_timing, 0x1e)] \<and> wf_cea blank_cea \<and>
   edid_decode_cea (replicate 128 0 @ enc_cea 4 sample_blks [(sample_timing, 0x1e)] @ replicate 50 0) 0
       \<lparr>ext_tag = 0, cea_ext = blank_cea\<rparr> =
     Inr (0, \<lparr>ext_tag = EDID_EXT_TAG_CEA,
       cea_ext = (fold apply_blk sample_blks (cea_header 3 26 65 blank_cea))
         \<lparr>cea_timing := ext_timing (sample_timing, 0x1e) # drop 1 (cea_timing blank_cea)\<rparr>\<rparr>)"
proof -
  have l: "length (enc_blks sample_blks) = 22" by code_simp
  have "wf_dtd sample_timing 0x1e" by (simp add: wf_dtd_def sample_timing_def)
  moreover have "list_all wf_blk sample_blks" by (simp add: sample_blks_def wf_svd_def wf_sad_def)
  ultimately have e: "wf_ext 4 sample_blks [(sample_timing, 0x1e)]"
    by (simp add: wf_ext_def enc_cea_def l length_enc_dtds) (simp add: sample_blks_def)
  have w: "wf_cea (cea_ext \<lparr>ext_tag = 0, cea_ext = blank_cea\<rparr>)"
    by (simp add: wf_cea_def blank_cea_def)
  show ?thesis
    using edid_decode_cea_refines [OF e w, of "replicate 128 0" "replicate 50 0"] e w by (simp add: l)
qed

section \<open>Extensions that overrun\<close>

text \<open>
  C31. The decoder trusts the number of detailed timings in the extension: when the timings that the
  header announces do not fit in the rest of the 256 byte image, decoding reads past its end (or
  writes past the eight timings it has room for) and so is undefined in the code, whatever the data
  blocks hold.
\<close>

theorem edid_decode_cea_overrun:
  assumes "length bin = 256" "bin ! 129 = 3" "4 < ub bin 130"
    and "128 < ub bin 130 + 18 * (ub bin 131 AND 0x0f)" "ub bin 131 AND 0x0f \<noteq> 0"
  shows "\<exists>e. edid_decode_cea bin 0 x = Inl e"
proof -
  let ?off = "nat (ub bin 130)" and ?k = "ub bin 131 AND 0x0f"
  let ?cea = "cea_header 3 (ub bin 130) (ub bin 131) (cea_ext x)"
  have fails: "\<exists>e. cea_dtds bin (128 + ?off) cea = Inl e" if "nr_dtd cea = ?k" for cea
  proof -
    have "0 < ?k" using assms(5) by (simp add: and_low order_less_le)
    then obtain m where k: "?k = int (Suc m)" using zero_less_imp_eq_int [of ?k] gr0_conv_Suc by metis
    have "\<exists>e. fold_res (\<lambda>i. upd_res i (\<lambda>_. cea_dtd bin (128 + ?off + 18 * i))) [0..<Suc m] (cea_timing cea) = Inl e"
      by (rule fold_upd_fails [of m]) (use assms(1,3,4) in \<open>auto simp: cea_dtd_def k simp del: nat_uint_eq\<close>)
    moreover have "nat (nr_dtd cea) = Suc m" unfolding that k by simp
    ultimately show ?thesis by (auto simp: cea_dtds_def simp del: upt_Suc)
  qed
  have nr: "keeps_nr ?k (cea_walk bin 132 (128 + ?off) ?cea)"
    using cea_walk_nr [of ?cea bin 132 "128 + ?off"] by (simp add: cea_header_def)
  have b: "byte bin 129 = Inr 3" "byte bin 130 = Inr (ub bin 130)" "byte bin 131 = Inr (ub bin 131)"
    using assms(1,2) by (simp_all add: byte_def)
  show ?thesis
  proof (cases "cea_walk bin 132 (128 + ?off) ?cea")
    case (Inl e)
    then show ?thesis using b assms(3) by (simp add: edid_decode_cea_def cea_dtd_ptr_def)
  next
    case (Inr cea)
    then obtain e where "cea_dtds bin (128 + ?off) cea = Inl e"
      using fails keeps_nrD [OF nr Inr] by blast
    with Inr show ?thesis using b assms(3) by (simp add: edid_decode_cea_def cea_dtd_ptr_def)
  qed
qed

text \<open>The sample announces six timings in place of one.\<close>

theorem edid_decode_cea_overrun_witness:
  "length (sample_edid[131 := 0x46]) = 256 \<and> sample_edid[131 := 0x46] ! 129 = 3 \<and>
   4 < ub (sample_edid[131 := 0x46]) 130 \<and>
   (\<exists>e. edid_decode_cea (sample_edid[131 := 0x46]) 0 \<lparr>ext_tag = 0, cea_ext = blank_cea\<rparr> = Inl e)"
proof -
  let ?bin = "sample_edid[131 := 0x46]"
  have l: "length ?bin = 256" by (simp add: length_sample)
  have b: "?bin ! 129 = 3" "?bin ! 130 = 0x18" "?bin ! 131 = 0x46" by code_simp+
  have h: "4 < ub ?bin 130" "128 < ub ?bin 130 + 18 * (ub ?bin 131 AND 0x0f)" "ub ?bin 131 AND 0x0f \<noteq> 0"
    by (simp_all only: b) simp_all
  show ?thesis using edid_decode_cea_overrun [OF l b(1) h] l b(1) h(1) by blast
qed

end
