(* ===== verification/Edid_Print.thy ===== *)
theory Edid_Print
  imports Edid_Blocks
begin

text \<open>
  The functions of \<^verbatim>\<open>edid.c\<close> that print a decoded EDID.  The output is the sequence of calls of the
  C library's \<^verbatim>\<open>printf\<close>, each with its format and arguments.  Reads of arrays at an index that
  comes from the structure are checked; a union member that is not the current one has a value the
  model does not know; and the colorimetry case dereferences a pointer that is never set.
\<close>

section \<open>Output\<close>

datatype parg = Num int | Text string | Chars "u8 option list" | Float f32

type_synonym pr = "(string \<times> parg list) list"

text \<open>A call with this format; with a line feed at the end; with one at both ends.\<close>

definition pn :: "string \<Rightarrow> parg list \<Rightarrow> pr" where "pn f args = [(f, args)]"

definition pl :: "string \<Rightarrow> parg list \<Rightarrow> pr" where "pl f args = [(f @ [CHR 0x0A], args)]"

definition pnl :: "string \<Rightarrow> parg list \<Rightarrow> pr" where "pnl f args = [(CHR 0x0A # f @ [CHR 0x0A], args)]"

text \<open>Printing in sequence, up to the first fault.\<close>

fun seq_res :: "pr res list \<Rightarrow> pr res" where
  "seq_res [] = Inr []"
| "seq_res (m # ms) = ebind m (\<lambda>x. ebind (seq_res ms) (\<lambda>y. Inr (x @ y)))"

definition sw :: "int \<Rightarrow> (int \<times> pr) list \<Rightarrow> pr \<Rightarrow> pr" where
  "sw i cases dflt = (case map_of cases i of Some x \<Rightarrow> x | None \<Rightarrow> dflt)"

definition yn :: "int \<Rightarrow> parg" where
  "yn x = Text (if nz x then ''yes'' else ''no'')"

definition when_bit :: "int \<Rightarrow> int \<Rightarrow> string \<Rightarrow> pr" where
  "when_bit x m s = (if nz (x AND m) then pn s [] else [])"

definition tab_at :: "string list \<Rightarrow> int \<Rightarrow> string res" where
  "tab_at tbl i = (if 0 \<le> i then get_res tbl (nat i) else Inl (Bad_read 0))"

section \<open>edid\_print\_cea\<close>

definition sad_format_names :: "string list" where
  "sad_format_names =
     [''unknown (0)'',
      ''Linear PCM'',
      ''AC-3'',
      ''MPEG1 (Layer 1 & 2)'',
      ''MP3 (MPEG1 Layer3)'',
      ''MPEG2'',
      ''AAC'',
      ''DTS'',
      ''ATRAC'',
      ''One Bit Audio'',
      ''Dolby Digital +'',
      ''DTS_HD'',
      ''MAT (MLP)'',
      ''DST'',
      ''WMA Pro'',
      ''unknown (15)'']"

definition vic_names :: "string list" where
  "vic_names =
     [''unknown'',
      ''640x480p       @59.94/60 Hz (4:3)'',
      ''720x480p       @59.94/60 Hz (4:3)'',
      ''720x480p       @59.94/60 Hz (16:9)'',
      ''1280x720p      @59.94/60 Hz (16:9)'',
      ''1920x1080i     @59.94/60 Hz (16:9)'',
      ''720(1440)x480i @59.94/60 Hz (4:3)'',
      ''720(1440)x480i @59.94/60 Hz (16:9)'',
      ''720(1440)x240p @59.94/60 Hz (4:3)'',
      ''720(1440)x240p @59.94/60 Hz (16:9)'',
      ''2880x480i      @59.94/60 Hz (4:3)'',
      ''2880x480i      @59.94/60 Hz (16:9)'',
      ''2880x240p      @59.94/60 Hz (4:3)'',
      ''2880x240p      @59.94/60 Hz (16:9)'',
      ''1440x480p      @59.94/60 Hz (4:3)'',
      ''1440x480p      @59.94/60 Hz (16:9)'',
      ''1920x1080p     @59.94/60 Hz (16:9)'',
      ''720x576p       @50 Hz (4:3)'',
      ''720x576p       @50 Hz (16:9)'',
      ''1280x720p      @50 Hz (16:9)'',
      ''1920x1080i     @50 Hz (16:9)'',
      ''720(1440)x576i @50 Hz (4:3)'',
      ''720(1440)x576i @50 Hz (16:9)'',
      ''720(1440)x288p @50 Hz (4:3)'',
      ''720(1440)x288p @50 Hz (16:9)'',
      ''2880x576i      @50 Hz (4:3)'',
      ''2880x576i      @50 Hz (16:9)'',
      ''2880x288p      @50 Hz (4:3)'',
      ''2880x288p      @50 Hz (16:9)'',
      ''1440x576p      @50 Hz (4:3)'',
      ''1440x576p      @50 Hz (16:9)'',
      ''1920x1080p     @50 Hz (16:9)'',
      ''1920x1080p     @23.97/24 Hz (16:9)'',
      ''1920x1080p     @25 Hz (16:9)'',
      ''1920x1080p     @29.97/30 Hz (16:9)'',
      ''2880x480p      @59.94/60 Hz (4:3)'',
      ''2880x480p      @59.94/60 Hz (16:9)'',
      ''2880x576p      @50 Hz (4:3)'',
      ''2880x576p      @50 Hz (16:9)'',
      ''1920x1080i     @50 Hz (16:9)'',
      ''1920x1080i     @100 Hz (16:9)'',
      ''1280x720p      @100 Hz (16:9)'',
      ''720x576p       @100 Hz (4:3)'',
      ''720x576p       @100 Hz (16:9)'',
      ''720(1440)x576i @100 Hz (4:3)'',
      ''720(1440)x576i @100 Hz (16:9)'',
      ''1920x1080i     @119.88/120 Hz (16:9)'',
      ''1280x720p      @119.88/120 Hz (16:9)'',
      ''720x480p       @119.88/120 Hz (4:3)'',
      ''720x480p       @119.88/120 Hz (16:9)'',
      ''720(1440)x480i @119.88/120 Hz (4:3)'',
      ''720(1440)x480i @119.88/120 Hz (16:9)'',
      ''720x576p       @200 Hz (4:3)'',
      ''720x576p       @200 Hz (16:9)'',
      ''720(1440)x576i @200 Hz (4:3)'',
      ''720(1440)x576i @200 Hz (16:9)'',
      ''720x480p       @239.76/240 Hz (4:3)'',
      ''720x480p       @239.76/240 Hz (16:9)'',
      ''720(1440)x480i @239.76/240 Hz (4:3)'',
      ''720(1440)x480i @239.76/240 Hz (16:9)'']"

definition print_sad :: "nat \<Rightarrow> sad \<Rightarrow> pr res" where
  "print_sad i s =
     ebind (tab_at sad_format_names (sad_format s)) (\<lambda>name.
     Inr (pl ''       %02d) format      : %s'' [Num (int i), Text name] @
       pl ''           channels    : %d'' [Num (sad_channels s)] @
       pl ''           frequency   : 192K)%d 176.4k)%d 96k)%d 88.2k)%d 48k)%d 44.1k)%d 32k)%d''
         (map (\<lambda>m. Num (flag (sad_freq s AND m)))
           [CEA_SAD_SF_192K, CEA_SAD_SF_176P4K, CEA_SAD_SF_96K, CEA_SAD_SF_88P2K, CEA_SAD_SF_48K,
            CEA_SAD_SF_44P1K, CEA_SAD_SF_32K]) @
       (if sad_format s = CEA_SAD_FMT_LPCM then
          pl ''           resolution  : 24-bit)%d 20-bit)%d 16-bit)%d''
            (map (\<lambda>m. Num (flag (sad_resolution s AND m))) [0x04, 0x02, 0x01])
        else if sad_format s \<in> {CEA_SAD_FMT_AC3, CEA_SAD_FMT_MPEG1, CEA_SAD_FMT_MP3, CEA_SAD_FMT_MPEG2,
            CEA_SAD_FMT_AAC, CEA_SAD_FMT_DTS, CEA_SAD_FMT_ATRAC} then
          pl ''           bitrate max : %d (kHz)'' [Num (sad_bitrate s)]
        else [])))"

definition print_audio :: "nat \<Rightarrow> db_audio \<Rightarrow> pr res" where
  "print_audio t a = seq_res
     (Inr (pnl ''  [%02d] audio data block ...'' [Num (int t)] @
        pl ''       number of SADs (short audio descriptor) : %d'' [Num (nr_sad a)]) #
      map (\<lambda>i. ebind (get_res (sads a) i) (print_sad i)) [0..<nat (nr_sad a)])"

definition print_svd :: "nat \<Rightarrow> svd \<Rightarrow> pr res" where
  "print_svd i s =
     (let native = Text (if nz (svd_native s) then ''(native)'' else '' '') in
      if svd_vic s < 60 then
        ebind (tab_at vic_names (svd_vic s)) (\<lambda>name.
        Inr (pl ''       %02d) VIC-%02d %s %s'' [Num (int i), Num (svd_vic s), Text name, native]))
      else Inr (pl ''       %02d) VIC-%02d unknown %s'' [Num (int i), Num (svd_vic s), native]))"

definition print_video :: "nat \<Rightarrow> db_video \<Rightarrow> pr res" where
  "print_video t v = seq_res
     (Inr (pnl ''  [%02d] video data block ...'' [Num (int t)] @
        pl ''       number of SVDs (short video descriptor) : %d'' [Num (nr_svd v)]) #
      map (\<lambda>i. ebind (get_res (svds v) i) (print_svd i)) [0..<nat (nr_svd v)])"

definition print_vic_3d :: "nat \<Rightarrow> vic_3d \<Rightarrow> pr" where
  "print_vic_3d i v =
     pn ''         [%02d] 2D_VIC_Order)%02d '' [Num (int i), Num (v3_vic_2d v)] @
     sw (v3_struct_3d v)
       [(0, pn ''3D_Structure)frame_packing '' []), (1, pn ''3D_Structure)field_alternative '' []),
        (2, pn ''3D_Structure)line_alternative '' []), (3, pn ''3D_Structure)side-by-side(full) '' []),
        (4, pn ''3D_Structure)L+depth '' []),
        (5, pn ''3D_Structure)L+depth+graphics+graphics_depth '' []),
        (6, pn ''3D_Structure)top-and-bottom '' []), (8, pn ''3D_Structure)side-by-side(half) '' [])]
       (pn ''3D_Structure)unknown '' []) @
     (if v3_struct_3d v = 0x08 then
        sw (v3_detail_3d v)
          [(0, pn ''3D_Detail)h_sub_sampling+four_quincunx_matrix'' []), (1, pn ''3D_Detail)h_sub_sampling'' []),
           (6, pn ''3D_Detail)all_4_sub_sampling_position'' []), (7, pn ''3D_Detail)odd_left+odd_right'' []),
           (8, pn ''3D_Detail)odd_left+even_right'' []), (9, pn ''3D_Detail)even_left+odd_right'' []),
           (10, pn ''3D_Detail)even_left+even_right'' [])] []
      else []) @
     pl [] []"

definition print_struct_all :: "int \<Rightarrow> pr" where
  "print_struct_all v =
     (if v = 0 then pl ''         3D_Structure_ALL              : none'' []
      else pn ''         3D_Structure_ALL              : '' [] @ when_bit v 0x01 ''frame_packing '' @
        when_bit v 0x40 ''top-and-bottom '' @ when_bit v 0x100 ''side-by-side(half h_subsampling)'' @ pl [] [])"

definition print_hdmi_video :: "db_vsdb_hdmi \<Rightarrow> pr res" where
  "print_hdmi_video v = seq_res
     (Inr (sw (multi_3d v)
         [(0, pl ''         3D-Multi_present              : 2b00 (no 3D_Structure_ALL_15..0, no 3D_MASK_15..0)'' []),
          (1, pl ''         3D-Multi_present              : 2b01 (with 3D_Structure_ALL_15..0, no 3D_MASK_15..0)'' []),
          (2, pl ''         3D-Multi_present              : 2b10 (with 3D_Structure_ALL_15..0, with 3D_MASK_15..0)'' []),
          (3, pl ''         3D-Multi_present              : 2b11 (no 3D_Structure_ALL_15..0, no 3D_MASK_15..0)'' [])] [] @
       (if multi_3d v = 1 \<or> multi_3d v = 2 then print_struct_all (struct_all_3d v) else []) @
       (if multi_3d v = 2 then pl ''         3D_MASK                       : 0x%04x'' [Num (mask_3d v)] else []) @
       sw (image_size v)
         [(0, pl ''         image size extra properties   : none'' []),
          (1, pl ''         image size extra properties   : exact aspect ratio only'' []),
          (2, pl ''         image size extra properties   : size correct (1cm nearest rounded)'' []),
          (3, pl ''         image size extra properties   : size correct (div by 5cm nearest rounded)'' [])] []) #
      map (\<lambda>i. ebind (get_res (vics_3d v) i) (\<lambda>x. Inr (print_vic_3d i x))) [0..<nat (nr_vic_3d v)])"

definition print_vendor :: "nat \<Rightarrow> db_vsdb_hdmi \<Rightarrow> pr res" where
  "print_vendor t v =
     (if ieee_reg_id v \<noteq> 0x000c03 then Inr (pnl ''  [%02d] VSDB vendor specific data block ...'' [Num (int t)])
      else seq_res
        [Inr (pnl ''  [%02d] HDMI VSDB vendor specific data block ...'' [Num (int t)] @
           pl ''       source physical address         : %d.%d.%d.%d''
             [Num (addr_a v), Num (addr_b v), Num (addr_c v), Num (addr_d v)] @
           (if ext_len v \<ge> 6 then
              pl ''       support ACP ISRC1 ISRC2 packets : %s'' [yn (ai v)] @
              pl ''       support 48 bpp                  : %s'' [yn (bpp48 v)] @
              pl ''       support 36 bpp                  : %s'' [yn (bpp36 v)] @
              pl ''       support 30 bpp                  : %s'' [yn (bpp30 v)] @
              pl ''       support YCbCr 4:4:4 deep color  : %s'' [yn (vs_ycbcr444 v)] @
              pl ''       support DVI dual-link           : %s'' [yn (dvi_dual v)]
            else []) @
           (if ext_len v \<ge> 7 then
              pl ''       max TMDS clock                  : %d (MHz)'' [Num (max_tmds_clk v)] else []) @
           (if p_latency v \<noteq> 0 then
              pl ''       video latency (progressive)     : %d (ms)'' [Num (vid_latency_p v)] @
              pl ''       audio latency (progressive)     : %d (ms)'' [Num (aud_latency_p v)] else []) @
           (if i_latency v \<noteq> 0 then
              pl ''       video latency (interlaced)      : %d (ms)'' [Num (vid_latency_i v)] @
              pl ''       audio latency (interlaced)      : %d (ms)'' [Num (aud_latency_i v)] else []) @
           pl ''       HDMI video fields               : %s'' [yn (hdmi_video v)] @
           pl ''       HDMI 3D video fields            : %s'' [yn (present_3d v)]),
         if hdmi_video v \<noteq> 0 then print_hdmi_video v else Inr []])"

definition print_speaker :: "nat \<Rightarrow> int \<Rightarrow> pr" where
  "print_speaker t d =
     pnl ''  [%02d] speaker allocation data block ...'' [Num (int t)] @
     pl ''       RLC/RRC : %s'' [yn (d AND CEA_SPK_RLC_RRC)] @
     pl ''       FLC/FRC : %s'' [yn (d AND CEA_SPK_FLC_FRC)] @
     pl ''       RC      : %s'' [yn (d AND CEA_SPK_RC)] @
     pl ''       RL/RR   : %s'' [yn (d AND CEA_SPK_RL_RR)] @
     pl ''       FC      : %s'' [yn (d AND CEA_SPK_FC)] @
     pl ''       LFE     : %s'' [yn (d AND CEA_SPK_LFE)] @
     pl ''       FL/FR   : %s'' [yn (d AND CEA_SPK_FL_FR)]"

definition print_scan :: "string \<Rightarrow> int \<Rightarrow> pr" where
  "print_scan who b = sw b
     [(0, pl (''       '' @ who @ '' scan behavior              : none'') []),
      (1, pl (''       '' @ who @ '' scan behavior              : overscanned always'') []),
      (2, pl (''       '' @ who @ '' scan behavior              : underscanned always'') []),
      (3, pl (''       '' @ who @ '' scan behavior              : supports both over/under-scan'') [])] []"

text \<open>\<^verbatim>\<open>c[2]\<close> in the colorimetry case: \<^verbatim>\<open>c\<close> is declared and never assigned.\<close>

definition print_extended :: "nat \<Rightarrow> int \<Rightarrow> edid_cea \<Rightarrow> pr res" where
  "print_extended t tag cea =
     (if tag = CEA_DBE_VIDEO_CAP then
        Inr (pnl ''  [%02d] video capability data block (ext) ...'' [Num (int t)] @
          pl ''       quantization range selectable : %s'' [yn (quant_range_sel (cea_vcdb cea))] @
          print_scan ''PT'' (pt_scan_behavior (cea_vcdb cea)) @
          print_scan ''IT'' (it_scan_behavior (cea_vcdb cea)) @
          print_scan ''CE'' (ce_scan_behavior (cea_vcdb cea)))
      else if tag = CEA_DBE_COLORIMETRY then
        seq_res [Inr (pnl ''  [%02d] colorimetry data block (ext) ... (todo)'' [Num (int t)]), Inl Wild_pointer]
      else Inr (sw tag
        [(CEA_DBE_VIDEO_VENDOR, pnl ''  [%02d] vendor-specific video data block (ext) ... (todo)'' [Num (int t)]),
         (CEA_DBE_VIDEO_DDI, pnl ''  [%02d] VESA video display device information data block (ext) ... (todo)'' [Num (int t)]),
         (CEA_DBE_VIDEO_VESA, pnl ''  [%02d] VESA video data block (ext) ... (todo)'' [Num (int t)]),
         (CEA_DBE_VIDEO_HDMI, pnl ''  [%02d] HDMI video data block (ext) ... (todo)'' [Num (int t)]),
         (CEA_DBE_AUDIO_MISC, pnl ''  [%02d] CEA misc audio fields (ext) ... (todo)'' [Num (int t)]),
         (CEA_DBE_AUDIO_VENDOR, pnl ''  [%02d] vendor-specific audio data block (ext) ... (todo)'' [Num (int t)]),
         (CEA_DBE_AUDIO_HDMI, pnl ''  [%02d] HDMI audio data block (ext) ... (todo)'' [Num (int t)])] []))"

definition print_block :: "edid_cea \<Rightarrow> nat \<Rightarrow> pr res" where
  "print_block cea t =
     ebind (get_res (dbc_tags cea) t) (\<lambda>tag.
     if tag = CEA_DB_AUDIO then print_audio t (cea_audio cea)
     else if tag = CEA_DB_VIDEO then print_video t (cea_video cea)
     else if tag = CEA_DB_VENDOR then print_vendor t (cea_vsdb cea)
     else if tag = CEA_DB_SPEAKER then Inr (print_speaker t (speaker_designation cea))
     else if tag = CEA_DB_DTC then Inr (pnl ''  [%02d] VESA DTC data block ... (todo)'' [Num (int t)])
     else if tag = CEA_DB_EXTENDED then ebind (get_res (dbe_tags cea) t) (\<lambda>e. print_extended t e cea)
     else Inr (pnl ''  [%02d] unknown data block (%d).'' [Num (int t), Num tag]))"

text \<open>A detailed timing; the two functions print it with the same calls.\<close>

definition print_stereo :: "int \<Rightarrow> pr" where
  "print_stereo v =
     (if v = STEREO_NONE then pl ''      stereo        : none'' []
      else pn ''      stereo        : '' [] @
        when_bit v STEREO_FIELD_SEQUENTIAL_RIGHT_SYNC ''field_seq_right '' @
        when_bit v STEREO_FIELD_SEQUENTIAL_LEFT_SYNC ''field_seq_left '' @
        when_bit v STEREO_2WAY_INTERLEAVE_RIGHT_EVEN ''2way_interleave_right '' @
        when_bit v STEREO_2WAY_INTERLEAVE_LEFT_EVEN ''2way_interleave_left '' @
        when_bit v STEREO_4WAY_INTERLEAVE ''4way_interleave '' @
        when_bit v STEREO_SIDE_BY_SIDE_INTERLEAVE ''side-by-side '' @ pl [] [])"

definition print_sync :: "int \<Rightarrow> pr" where
  "print_sync v =
     (if nz (v AND A_COMPOSITE_SYNC) then
        pn ''      analog sync   : composite'' [] @ when_bit v A_COMPOSITE_SYNC '' bipolar'' @
        (if nz (v AND A_BIPOLAR_SERRATION) then
           pn '' with_serrations'' [] @ when_bit v A_BIPOLAR_SERRATION_SYNC_G '' syn_on_green'' @
           when_bit v A_BIPOLAR_SERRATION_SYNC_RGB '' syn_on_rgb''
         else pn '' without_serrations'' []) @ pl [] []
      else if nz (v AND D_COMPOSITE_SYNC) then
        pn ''      digital sync  : composite'' [] @
        (if nz (v AND D_COMPOSITE_SERRATION) then pn '' with_serrations'' [] else pn '' without_serrations'' []) @
        pl [] []
      else if nz (v AND D_SEPERATE_SYNC) then
        pn ''      digital sync  : seperate'' [] @
        (if nz (v AND D_SEPERATE_VSYNC_N) then pn '' vsync_n'' [] else pn '' vsync_p'' []) @
        (if nz (v AND D_SEPERATE_HSYNC_N) then pn '' hsync_n'' [] else pn '' hsync_p'' []) @
        pl [] []
      else [])"

definition print_dtd :: "nat \<Rightarrow> eb_detailed_timing_desc \<Rightarrow> pr" where
  "print_dtd i d =
     pnl ''  [%d] DTD -- detailed timing descriptor'' [Num (int i)] @
     pl ''      pixel clock   : %d (Hz)'' [Num (dt_pixel_clock d)] @
     pl ''      h addressible : %d (pixels)'' [Num (dt_width d)] @
     pl ''        blank       : %d (pixels)'' [Num (dt_h_blank d)] @
     pl ''        fp          : %d (pixels)'' [Num (dt_h_fp d)] @
     pl ''        sync        : %d (pixels)'' [Num (dt_h_sync d)] @
     pl ''        bp          : %d (pixels)'' [Num (dt_h_blank d - dt_h_fp d - dt_h_sync d)] @
     pl ''        size        : %d (mm)'' [Num (dt_h_size d)] @
     pl ''      v addressible : %d (lines)'' [Num (dt_height d)] @
     pl ''        blank       : %d (lines)'' [Num (dt_v_blank d)] @
     pl ''        fp          : %d (lines)'' [Num (dt_v_fp d)] @
     pl ''        sync        : %d (lines)'' [Num (dt_v_sync d)] @
     pl ''        bp          : %d (lines)'' [Num (dt_v_blank d - dt_v_fp d - dt_v_sync d)] @
     pl ''        size        : %d (mm)'' [Num (dt_v_size d)] @
     pl ''      border (L&R)  : %d (pixels)'' [Num (dt_border_lr d)] @
     pl ''      border (T&B)  : %d (lines)'' [Num (dt_border_tb d)] @
     pl ''      interlaced    : %d'' [Num (dt_interlaced d)] @
     print_stereo (dt_stereo d) @ print_sync (dt_sync d)"

definition print_cea_head :: "nat \<Rightarrow> edid_cea \<Rightarrow> pr" where
  "print_cea_head ext_idx cea =
     pnl (''[%02d] extension block -- CEA-Extension Revision-%02d ...'' @ [CHR 0x0A]) [Num (int ext_idx), Num (cea_rev cea)] @
     pl ''  number of DBCs (data block collections)      : %d'' [Num (nr_dbcs cea)] @
     pl ''  number of DTDs (detailed timing descriptors) : %d'' [Num (nr_dtd cea)] @
     pl ''  offset to DTD                                : %d'' [Num (off_dtd cea)] @
     pl ''  monitor underscans IT formats                : %s'' [yn (fl_underscan (flags cea))] @
     pl ''  supports audio                               : %s'' [yn (fl_audio (flags cea))] @
     pl ''  supports YCbCr 4:4:4 in addition to RGB      : %s'' [yn (fl_ycbcr444 (flags cea))] @
     pl ''  supports YCbCr 4:2:2 in addition to RGB      : %s'' [yn (fl_ycbcr422 (flags cea))] @
     pnl (''  data block collections'' @ [CHR 0x0A] @ ''  ---------------------------------'') []"

definition edid_print_cea :: "ext_data \<Rightarrow> nat \<Rightarrow> pr res" where
  "edid_print_cea x ext_idx =
     (let cea = cea_ext x in
      seq_res
        ([Inr (print_cea_head ext_idx cea)] @
         map (print_block cea) [0..<nat (nr_dbcs cea)] @
         [Inr (if nr_dtd cea \<noteq> 0
               then pnl (''  detailed timing descriptors'' @ [CHR 0x0A] @ ''  ---------------------------------'') []
               else [])] @
         map (\<lambda>i. ebind (get_res (cea_timing cea) i) (\<lambda>d. Inr (print_dtd i d))) [0..<nat (nr_dtd cea)]))"

section \<open>edid\_print\_v14\<close>

text \<open>An array printed with \<^verbatim>\<open>%s\<close>: up to its first zero, which must be inside.\<close>

definition c_string :: "u8 option list \<Rightarrow> parg res" where
  "c_string cs = (if Some 0 \<in> set cs then Inr (Chars (takeWhile (\<lambda>c. c \<noteq> Some 0) cs)) else Inl (Bad_read (length cs)))"

definition print_ident :: "base_edid \<Rightarrow> pr res" where
  "print_ident e =
     ebind (c_string (map (\<lambda>c. Some (word_of_int c)) (id_mfg e))) (\<lambda>vendor.
     Inr (pl (''Base EDID Information ...'' @ [CHR 0x0A]) [] @
       pl ''vendor id    : %s'' [vendor] @
       pl ''product code : %04x'' [Num (id_prod e)] @
       pl ''serial       : %08x'' [Num (uint (id_sn e))] @
       pl ''mfg date     : year %04d week %02d'' [Num (mfg_year e), Num (mfg_week e)] @
       (if model_year e > 0 then pl ''model year   : %04d'' [Num (model_year e)] else []) @
       pl ''EDID version : %d.%d'' [Num (ver_mj e), Num (ver_mn e)] @
       pl ''extensions   : %d'' [Num (extensions e)]))"

definition print_digital :: "int \<Rightarrow> int \<Rightarrow> pr" where
  "print_digital depth interface =
     pnl ''digital input interface ...'' [] @
     sw depth
       [(1, pl ''  color depth : 6 bpp'' []), (2, pl ''  color depth : 8 bpp'' []), (3, pl ''  color depth : 10 bpp'' []),
        (4, pl ''  color depth : 12 bpp'' []), (5, pl ''  color depth : 14 bpp'' []), (6, pl ''  color depth : 16 bpp'' [])]
       (pl ''  color depth : undefined (%d)'' [Num depth]) @
     sw interface
       [(1, pl ''  interface   : DVI'' []), (2, pl ''  interface   : HDMI-a'' []), (3, pl ''  interface   : HDMI-b'' []),
        (4, pl ''  interface   : MDDI'' []), (5, pl ''  interface   : DisplayPort'' [])]
       (pl ''  interface   : undefined (%d)'' [Num interface])"

definition print_analog :: "int \<Rightarrow> int \<Rightarrow> int \<Rightarrow> int \<Rightarrow> pr" where
  "print_analog level stp sync_type serrations =
     pnl ''analog input interface ...'' [] @
     sw level
       [(VIL_0P700_0P300_1P000, pl ''  signal level    : 0.700 : 0.300 : 1.000 Vpp'' []),
        (VIL_0P714_0P286_1P000, pl ''  signal level    : 0.714 : 0.286 : 1.000 Vpp'' []),
        (VIL_1P000_0P400_1P400, pl ''  signal level    : 1.000 : 0.400 : 1.400 Vpp'' []),
        (VIL_0P700_0P000_0P700, pl ''  signal level    : 0.700 : 0.000 : 0.700 Vpp'' [])] [] @
     sw stp
       [(VIS_BLANK_LEVEL_EQ_BLACK_LEVEL, pl ''  video setup     : blank level = black level'' []),
        (VIS_BLANK_TO_BLACK_PEDESTAL, pl ''  video setup     : blank-to-black setup or pedestal'' [])] [] @
     pl ''  sync types      : seperate_sync_h_v(%d) composite_sync_h(%d) composite_sync_green(%d)''
       (map (\<lambda>m. Num (flag (sync_type AND m))) [VIS_SEPERATE_H_V_SYNC, VIS_COMPOSITE_H_SYNC, VIS_COMPOSITE_G_VIDEO]) @
     pl ''  vsync serration : %s'' [Text (if nz (serrations AND VISR_VSYNC) then ''supported'' else ''not supported'')]"

definition print_input :: "base_edid \<Rightarrow> pr res" where
  "print_input e =
     (case input e of
        Digital d i \<Rightarrow> if digital_if e \<noteq> 0 then Inr (print_digital d i) else Inl Other_member
      | Analog l s t v \<Rightarrow> if digital_if e \<noteq> 0 then Inl Other_member else Inr (print_analog l s t v))"

definition print_screen :: "base_edid \<Rightarrow> pr res" where
  "print_screen e =
     (if nz (size_defined e) then
        (case screen e of
           Screen_size h v \<Rightarrow> Inr (pnl ''screen size  : horizontal) %d (cm)  vertical) %d (cm)'' [Num h, Num v])
         | _ \<Rightarrow> Inl Other_member)
      else if aspect_defined e = 1 then
        (case screen e of
           Screen_aspect l p \<Rightarrow> Inr (pnl ''aspect ratio : landscape) %.2f'' [Float l]) | _ \<Rightarrow> Inl Other_member)
      else if aspect_defined e = 2 then
        (case screen e of
           Screen_aspect l p \<Rightarrow> Inr (pnl ''aspect ratio : portrait) %.2f'' [Float p]) | _ \<Rightarrow> Inl Other_member)
      else Inr [])"

definition print_features :: "base_edid \<Rightarrow> pr" where
  "print_features e =
     (let f = feature e in
      pnl ''gamma        : %.2f'' [Float (gamma e)] @
      pnl ''features ...'' [] @
      pl ''  [PM] standby mode                     : %s'' [yn (f AND FS_PM_STANDBY)] @
      pl ''  [PM] suspend mode                     : %s'' [yn (f AND FS_PM_SUSPEND)] @
      pl ''  [PM] active off                       : %s'' [yn (f AND FS_PM_ACTIVE_OFF)] @
      pn ''  [DI] supported color encoding formats : '' [] @
      when_bit f FS_CEF_RGB444 ''RGB_4:4:4 '' @ when_bit f FS_CEF_YCBCR444 ''YCbCr_4:4:4 '' @
      when_bit f FS_CEF_YCBCR422 ''YCbCr_4:2:2 '' @ pl [] [] @
      when_bit f FS_DCT_MONO_GRAY (''  [AI] display color type               : monochrome or grayscale display'' @ [CHR 0x0A]) @
      when_bit f FS_DCT_RGB (''  [AI] display color type               : RGB'' @ [CHR 0x0A]) @
      when_bit f FS_DCT_NON_RGB (''  [AI] display color type               : non-RGB'' @ [CHR 0x0A]) @
      pl ''  [OF] sRGB default                     : %s'' [yn (f AND FS_OF_SRGB_DEFAULT)] @
      pl ''  [OF] native preferred timing          : %s'' [yn (f AND FS_OF_NATIVE_PREFERRED)] @
      pl ''  [OF] continuous freq                  : %s'' [yn (f AND FS_OF_CONTINUOUS_FREQ)])"

definition print_established :: "nat \<Rightarrow> eb_established_timing \<Rightarrow> pr" where
  "print_established i t =
     (if nz (et_valid t) then
        pl ''  [%02d] %03d x %03d @ %02d Hz %s''
          [Num (int i), Num (et_width t), Num (et_height t), Num (et_refresh t),
           Text (if nz (et_interlaced t) then ''(I)'' else '' '')]
      else [])"

definition print_aspect :: "int \<Rightarrow> pr" where
  "print_aspect a = sw a
     [(ST_AR_16_10, pl ''16:10'' []), (ST_AR_4_3, pl ''4:3'' []), (ST_AR_5_4, pl ''5:4'' []), (ST_AR_16_9, pl ''16:9'' [])]
     (pl [] [])"

definition print_standard :: "nat \<Rightarrow> eb_standard_timing \<Rightarrow> pr" where
  "print_standard i t =
     (if nz (st_refresh_rate t) then
        pn ''  [%02d] %03d @ %02d Hz '' [Num (int i), Num (st_horizontal t), Num (st_refresh_rate t)] @
        print_aspect (st_aspect_ratio t)
      else [])"

definition print_range :: "range_limits \<Rightarrow> pr" where
  "print_range r =
     pl ''      range limits and additional timing ...'' [] @
     pl ''      horizonatal rate minimum : %d (kHz)'' [Num (h_min r)] @
     pl ''      horizontal rate maximum  : %d (KHz)'' [Num (h_max r)] @
     sw (h_offset r)
       [(HRO_ZERO, pl ''      horizontal rate offset   : no offset'' []),
        (HRO_MAX_255_MIN_ZERO, pl ''      horizontal rate offset   : max)+255kHz'' []),
        (HRO_MAX_255_MIN_255, pl ''      horizontal rate offset   : max)+255kHz min)+255kHz'' [])] [] @
     pl ''      vertical rate minimum    : %d (Hz)'' [Num (v_min r)] @
     pl ''      vertical rate maximum    : %d (Hz)'' [Num (v_max r)] @
     sw (v_offset r)
       [(VRO_ZERO, pl ''      vertical rate offset     : no offset'' []),
        (VRO_MAX_255_MIN_ZERO, pl ''      vertical rate offset     : max)+255Hz'' []),
        (VRO_MAX_255_MIN_255, pl ''      vertical rate offset     : max)+255Hz && min)+255Hz'' [])] [] @
     pl ''      pixel clock maximum      : %d (MHz)'' [Num (p_max r)] @
     (if timing_flags r = 0 then pl ''      additional timing flags  : none'' []
      else pn ''      additional timing flags  : '' [] @ when_bit (timing_flags r) TF_DEFAULT_GTF ''default_GTF '' @
        when_bit (timing_flags r) TF_RANGE_LIMITS ''none '' @ when_bit (timing_flags r) TF_SECOND_GTF ''second_GTF '' @
        when_bit (timing_flags r) TF_CVT ''CVT '' @ pl [] [])"

definition print_white :: "string \<Rightarrow> white_point \<Rightarrow> pr" where
  "print_white nr w = pl (''        white point '' @ nr @ '' : index)%d x)%d y)%d gamma)%.2f'')
     [Num (wp_index w), Num (wp_x w), Num (wp_y w), Float (wp_gamma w)]"

definition print_timing_3 :: "nat \<Rightarrow> eb_established_timing \<Rightarrow> pr" where
  "print_timing_3 i t =
     (if nz (et_valid t) then
        pl ''  [%02d] %03d x %03d @ %02d Hz %s %s''
          [Num (int i), Num (et_width t), Num (et_height t), Num (et_refresh t),
           Text (if nz (et_interlaced t) then ''I'' else '' ''), Text (if nz (et_rb t) then ''RB'' else '' '')]
      else [])"

text \<open>\<open>i\<close> is the number of the descriptor; the established timings III carry it instead of their own.\<close>

definition print_display :: "nat \<Rightarrow> descriptor \<Rightarrow> pr res" where
  "print_display i d =
     (let t = desc_tag d in
      if t = DTAG_PRODUCT_SERIAL then
        (case desc_body d of Desc_serial cs \<Rightarrow> ebind (c_string cs) (\<lambda>v. Inr (pl ''      product serial : %s'' [v]))
         | _ \<Rightarrow> Inl Other_member)
      else if t = DTAG_DATA_STRING then
        (case desc_body d of Desc_string cs \<Rightarrow> ebind (c_string cs) (\<lambda>v. Inr (pl ''      data string : %s'' [v]))
         | _ \<Rightarrow> Inl Other_member)
      else if t = DTAG_RANGE_LIMIT then
        (case desc_body d of Desc_range r \<Rightarrow> Inr (print_range r) | _ \<Rightarrow> Inl Other_member)
      else if t = DTAG_PRODUCT_NAME then
        (case desc_body d of Desc_name cs \<Rightarrow> ebind (c_string cs) (\<lambda>v. Inr (pl ''      data string : %s'' [v]))
         | _ \<Rightarrow> Inl Other_member)
      else if t = DTAG_COLOR_POINT then
        (case desc_body d of
           Desc_white w0 w1 \<Rightarrow> Inr (pl ''      color point ...'' [] @ print_white ''0'' w0 @ print_white ''1'' w1)
         | _ \<Rightarrow> Inl Other_member)
      else if t = DTAG_STANDARD_TIMING then
        seq_res (Inr (pl ''      extra standard timing ...'' []) #
          map (\<lambda>j. ebind (get_res (extra_standard_timings d) j) (\<lambda>s. Inr (print_standard (j + 9) s))) [0..<6])
      else if t = DTAG_DCM_DATA then Inr (pl ''      DCM -- display color management data ... (skipped)'' [])
      else if t = DTAG_CVT_TIMING then Inr (pl ''      CVT -- coordinated video timing ... (skipped)'' [])
      else if t = DTAG_ESTABLISHED_TIMING_III then
        seq_res (Inr (pl ''      established timing 3 ...'' []) #
          map (\<lambda>j. ebind (get_res (timing_3 d) j) (\<lambda>s. Inr (print_timing_3 i s))) [0..<17])
      else Inr [])"

definition print_descriptor :: "nat \<Rightarrow> descriptor \<Rightarrow> pr res" where
  "print_descriptor i d =
     (if desc_type d = DT_DETAILED_TIMING then
        (case desc_body d of Desc_detailed t \<Rightarrow> Inr (print_dtd i t) | _ \<Rightarrow> Inl Other_member)
      else if desc_type d = DT_DISPLAY_DESCRIPTOR then
        seq_res [Inr (pnl ''  [%d] DD -- display descriptor'' [Num (int i)]), print_display i d]
      else Inr [])"

definition print_ext :: "base_edid \<Rightarrow> nat \<Rightarrow> pr res" where
  "print_ext e i =
     ebind (get_res (ext_datas e) i) (\<lambda>x. if ext_tag x = EDID_EXT_TAG_CEA then edid_print_cea x i else Inr [])"

definition edid_print_v14 :: "base_edid \<Rightarrow> pr res" where
  "edid_print_v14 e = seq_res
     ([print_ident e, print_input e, print_screen e,
       Inr (print_features e @ pnl ''established timing ...'' [])] @
      map (\<lambda>i. ebind (get_res (timing_1_2 e) i) (\<lambda>t. Inr (print_established i t))) [0..<17] @
      [Inr (pnl ''standard timing ...'' [])] @
      map (\<lambda>i. ebind (get_res (standard_timings e) i) (\<lambda>t. Inr (print_standard i t))) [0..<8] @
      [Inr (pnl ''descriptors ...'' [])] @
      map (\<lambda>i. ebind (get_res (descriptors e) i) (print_descriptor i)) [0..<4] @
      map (print_ext e) [0..<8])"

end
