(* ===== verification/Edid_Print_Props.thy ===== *)
theory Edid_Print_Props
  imports Edid_Print
begin

text \<open>
  Printing what was decoded.  Every print function returns output or the one fault that the
  colorimetry case raises; on a decoded extension it depends only on whether a colorimetry block is
  among its blocks.
\<close>

section \<open>Sequences of output\<close>

text \<open>\<open>m\<close> prints, or fails with \<open>w\<close>; \<open>bad\<close> says which.\<close>

definition outcome :: "fault \<Rightarrow> bool \<Rightarrow> 'a res \<Rightarrow> bool" where
  "outcome w bad m \<longleftrightarrow> (if bad then m = Inl w else \<not> isl m)"

lemma outcome_Inr [simp]: "outcome w bad (Inr x) \<longleftrightarrow> \<not> bad"
  by (simp add: outcome_def)

lemma outcome_ebind:
  "outcome w False m \<Longrightarrow> (\<And>x. m = Inr x \<Longrightarrow> outcome w bad (f x)) \<Longrightarrow> outcome w bad (ebind m f)"
  by (cases m) (auto simp: outcome_def)

lemma outcome_get: "i < length xs \<Longrightarrow> outcome w bad (f (xs ! i)) \<Longrightarrow> outcome w bad (ebind (get_res xs i) f)"
  by (simp add: get_res_def)

lemma outcome_seq: "list_all2 (outcome w) bads ms \<Longrightarrow> outcome w (True \<in> set bads) (seq_res ms)"
proof (induction bads ms rule: list_all2_induct)
  case (Cons b bads m ms)
  then show ?case
    by (cases b; cases m; cases "seq_res ms") (auto simp: outcome_def split: if_splits)
qed simp

lemma outcome_all: "(\<And>m. m \<in> set ms \<Longrightarrow> outcome w False m) \<Longrightarrow> outcome w False (seq_res ms)"
  using outcome_seq [of w "map (\<lambda>_. False) ms" ms] by (auto simp: list_all2_conv_all_nth)

section \<open>The extension\<close>

definition audio_ok :: "db_audio \<Rightarrow> bool" where
  "audio_ok a \<longleftrightarrow> nat (nr_sad a) \<le> length (sads a) \<and> (\<forall>i < nat (nr_sad a). sad_format (sads a ! i) \<in> {0..15})"

definition video_ok :: "db_video \<Rightarrow> bool" where
  "video_ok v \<longleftrightarrow> nat (nr_svd v) \<le> length (svds v) \<and> (\<forall>i < nat (nr_svd v). 0 \<le> svd_vic (svds v ! i))"

lemma tab_ok: "0 \<le> i \<Longrightarrow> nat i < length tbl \<Longrightarrow> outcome w False (tab_at tbl i)"
  by (simp add: tab_at_def get_res_def)

lemma table_sizes: "length sad_format_names = 16" "length vic_names = 60"
  by (simp_all add: sad_format_names_def vic_names_def)

lemma print_sad_ok: "sad_format s \<in> {0..15} \<Longrightarrow> outcome w False (print_sad i s)"
  unfolding print_sad_def by (intro outcome_ebind tab_ok) (auto simp: table_sizes nat_less_iff simp del: insert_iff)

lemma print_svd_ok: "0 \<le> svd_vic s \<Longrightarrow> outcome w False (print_svd i s)"
proof -
  assume "0 \<le> svd_vic s"
  then have "svd_vic s < 60 \<Longrightarrow> outcome w False (tab_at vic_names (svd_vic s))"
    by (intro tab_ok) (auto simp: table_sizes nat_less_iff)
  then show ?thesis by (auto simp: print_svd_def Let_def intro!: outcome_ebind)
qed

lemma print_audio_ok: "audio_ok a \<Longrightarrow> outcome w False (print_audio t a)"
  unfolding print_audio_def
  by (rule outcome_all) (auto simp: audio_ok_def intro!: outcome_get print_sad_ok)

lemma print_video_ok: "video_ok v \<Longrightarrow> outcome w False (print_video t v)"
  unfolding print_video_def
  by (rule outcome_all) (auto simp: video_ok_def intro!: outcome_get print_svd_ok)

text \<open>What is known of the structure after the blocks \<open>bs\<close>.\<close>

fun ext_tag_of :: "cea_blk \<Rightarrow> int" where
  "ext_tag_of (Blk_color k) = CEA_DBE_COLORIMETRY"
| "ext_tag_of b = CEA_DBE_VIDEO_CAP"

definition after_blks :: "cea_blk list \<Rightarrow> edid_cea \<Rightarrow> bool" where
  "after_blks bs cea \<longleftrightarrow> cea_state (length bs) cea \<and>
     (\<forall>t < length bs. dbc_tags cea ! t = blk_tag (bs ! t) \<and>
        (blk_tag (bs ! t) = CEA_DB_EXTENDED \<longrightarrow> dbe_tags cea ! t = ext_tag_of (bs ! t))) \<and>
     (CEA_DB_AUDIO \<in> blk_tag ` set bs \<longrightarrow> audio_ok (cea_audio cea)) \<and>
     (CEA_DB_VIDEO \<in> blk_tag ` set bs \<longrightarrow> video_ok (cea_video cea)) \<and>
     (CEA_DB_VENDOR \<in> blk_tag ` set bs \<longrightarrow> ieee_reg_id (cea_vsdb cea) = 0)"

lemma after_nil: "cea_state 0 cea \<Longrightarrow> after_blks [] cea"
  by (simp add: after_blks_def)

lemma audio_applied:
  assumes "wf_blk (Blk_audio ss)" "length xs = 10"
  shows "audio_ok \<lparr>nr_sad = int (length ss), sads = map2 sad_merge xs ss @ drop (length ss) xs\<rparr>"
  using assms by (auto simp: audio_ok_def nth_append sad_merge_def wf_sad_def list_all_length)

lemma video_applied:
  assumes "wf_blk (Blk_video vs)" "length xs = 32"
  shows "video_ok \<lparr>nr_svd = int (length vs), svds = vs @ drop (length vs) xs\<rparr>"
  using assms by (auto simp: video_ok_def nth_append wf_svd_def list_all_length)

lemma after_snoc:
  assumes "after_blks bs cea" "wf_blk b" "length bs < 62"
  shows "after_blks (bs @ [b]) (apply_blk b cea)"
proof -
  have s: "cea_state (length bs) cea" using assms(1) by (simp add: after_blks_def)
  then have l: "length (dbc_tags cea) = 62" "length (dbe_tags cea) = 62" "length (svds (cea_video cea)) = 32"
    "length (sads (cea_audio cea)) = 10" "nat (nr_dbcs cea) = length bs"
    by (simp_all add: cea_state_def wf_cea_def)
  have tags: "dbc_tags (apply_blk b cea) = (dbc_tags cea)[length bs := blk_tag b]"
    using l by (cases b) (simp_all add: tagged_def ext_tagged_def)
  have exts: "dbe_tags (apply_blk b cea) =
      (if blk_tag b = CEA_DB_EXTENDED then (dbe_tags cea)[length bs := ext_tag_of b] else dbe_tags cea)"
    using l by (cases b) (simp_all add: tagged_def ext_tagged_def edid_consts)
  show ?thesis
    unfolding after_blks_def
  proof (intro conjI allI impI)
    show "cea_state (length (bs @ [b])) (apply_blk b cea)"
      using apply_blk_state [OF s assms(2)] by simp
    fix t assume t: "t < length (bs @ [b])"
    show "dbc_tags (apply_blk b cea) ! t = blk_tag ((bs @ [b]) ! t)"
      using t assms(1,3) l by (auto simp: tags nth_append nth_list_update after_blks_def less_Suc_eq)
    assume "blk_tag ((bs @ [b]) ! t) = CEA_DB_EXTENDED"
    then show "dbe_tags (apply_blk b cea) ! t = ext_tag_of ((bs @ [b]) ! t)"
      using t assms(1,3) l by (auto simp: exts nth_append nth_list_update after_blks_def less_Suc_eq)
  next
    assume "CEA_DB_AUDIO \<in> blk_tag ` set (bs @ [b])"
    then show "audio_ok (cea_audio (apply_blk b cea))"
      using assms(1,2) l audio_applied by (cases b) (auto simp: after_blks_def edid_consts ext_tagged_def)
  next
    assume "CEA_DB_VIDEO \<in> blk_tag ` set (bs @ [b])"
    then show "video_ok (cea_video (apply_blk b cea))"
      using assms(1,2) l video_applied by (cases b) (auto simp: after_blks_def edid_consts ext_tagged_def)
  next
    assume "CEA_DB_VENDOR \<in> blk_tag ` set (bs @ [b])"
    then show "ieee_reg_id (cea_vsdb (apply_blk b cea)) = 0"
      using assms(1,2) by (cases b) (auto simp: after_blks_def edid_consts ext_tagged_def)
  qed
qed

lemma after_fold:
  "cea_state 0 cea \<Longrightarrow> list_all wf_blk bs \<Longrightarrow> length bs \<le> 62 \<Longrightarrow> after_blks bs (fold apply_blk bs cea)"
  by (induction bs rule: rev_induct) (simp_all add: after_nil after_snoc)

definition is_color :: "cea_blk \<Rightarrow> bool" where
  "is_color b \<longleftrightarrow> (case b of Blk_color k \<Rightarrow> True | _ \<Rightarrow> False)"

lemma print_block_outcome:
  assumes "after_blks bs cea" "t < length bs" "length bs \<le> 62"
  shows "outcome Wild_pointer (is_color (bs ! t)) (print_block cea t)"
proof -
  have "bs ! t \<in> set bs" using assms(2) by simp
  then have m: "blk_tag (bs ! t) \<in> blk_tag ` set bs" by (rule imageI)
  have l: "t < length (dbc_tags cea)" "t < length (dbe_tags cea)" "dbc_tags cea ! t = blk_tag (bs ! t)"
    using assms by (auto simp: after_blks_def cea_state_def wf_cea_def)
  show ?thesis
    using assms(1,2) m l
    by (cases "bs ! t")
      (auto simp: print_block_def get_res_def edid_consts is_color_def after_blks_def print_vendor_def
        print_extended_def outcome_def [of _ True] intro!: print_audio_ok print_video_ok)
qed

lemma after_timing: "after_blks bs cea \<Longrightarrow> length ts = 8 \<Longrightarrow> after_blks bs (cea\<lparr>cea_timing := ts\<rparr>)"
  by (simp add: after_blks_def cea_state_def wf_cea_def)

lemma print_cea_outcome:
  assumes "after_blks bs (cea_ext y)" "length bs \<le> 62" "nat (nr_dtd (cea_ext y)) \<le> 8"
  shows "outcome Wild_pointer (list_ex is_color bs) (edid_print_cea y i)"
proof -
  let ?cea = "cea_ext y"
  have n: "nat (nr_dbcs ?cea) = length bs" "length (cea_timing ?cea) = 8"
    using assms(1) by (simp_all add: after_blks_def cea_state_def wf_cea_def)
  let ?bads = "[False] @ map (\<lambda>t. is_color (bs ! t)) [0..<length bs] @ [False] @
    map (\<lambda>_. False) [0..<nat (nr_dtd ?cea)]"
  have blocks: "list_all2 (outcome Wild_pointer) (map (\<lambda>t. is_color (bs ! t)) [0..<length bs])
      (map (print_block ?cea) [0..<nat (nr_dbcs ?cea)])"
    using print_block_outcome [OF assms(1) _ assms(2)] by (simp add: n list_all2_conv_all_nth)
  have timings: "list_all2 (outcome Wild_pointer) (map (\<lambda>_. False) [0..<nat (nr_dtd ?cea)])
      (map (\<lambda>i. ebind (get_res (cea_timing ?cea) i) (\<lambda>d. Inr (print_dtd i d))) [0..<nat (nr_dtd ?cea)])"
    using assms(3) n(2) by (simp add: list_all2_conv_all_nth get_res_def)
  have one: "list_all2 (outcome Wild_pointer) [False] [Inr p]" for p :: pr by simp
  have "outcome Wild_pointer (True \<in> set ?bads) (edid_print_cea y i)"
    unfolding edid_print_cea_def Let_def
    by (rule outcome_seq) (rule list_all2_appendI [OF one list_all2_appendI [OF blocks
          list_all2_appendI [OF one timings]]])
  moreover have "(True \<in> set ?bads) \<longleftrightarrow> list_ex is_color bs"
    by (force simp: list_ex_length image_iff)
  ultimately show ?thesis by simp
qed

section \<open>The base block\<close>

definition known_descriptor :: "(nat \<Rightarrow> int) \<Rightarrow> bool" where
  "known_descriptor c \<longleftrightarrow> c 0 \<noteq> 0 \<or> c 1 \<noteq> 0 \<or> c 3 \<in> {0xf7..0xff} \<or> c 3 = 0x10"

lemma print_text_ok: "outcome w False (ebind (c_string (desc_text c)) (\<lambda>v. Inr (pl f [v])))"
  by (simp add: c_string_def desc_text_def)

lemma print_descriptor_ok:
  assumes "known_descriptor c" "wf_descriptor d"
  shows "outcome w False (print_descriptor i (v14_descriptor feat c d))"
proof (cases "c 0 \<noteq> 0 \<or> c 1 \<noteq> 0")
  case True
  then show ?thesis by (simp add: v14_descriptor_def print_descriptor_def)
next
  case False
  let ?d = "v14_descriptor feat c d"
  have w: "wf_descriptor ?d" by (rule wf_v14_descriptor [OF assms(2)])
  have x: "outcome w False (seq_res (Inr p # map (\<lambda>j. ebind (get_res (extra_standard_timings ?d) j)
        (\<lambda>s. Inr (print_standard (j + 9) s))) [0..<6]))"
    "outcome w False (seq_res (Inr p # map (\<lambda>j. ebind (get_res (timing_3 ?d) j)
        (\<lambda>s. Inr (print_timing_3 i s))) [0..<17]))" for p
    by (rule outcome_all; use w in \<open>auto simp: wf_descriptor_def intro!: outcome_get\<close>)+
  have "c 3 \<in> set [0xf7..0xff] \<or> c 3 = 0x10" using assms(1) False by (auto simp: known_descriptor_def)
  then have t: "c 3 \<in> {0xf7, 0xf8, 0xf9, 0xfa, 0xfb, 0xfc, 0xfd, 0xfe, 0xff, 0x10}"
    by (auto simp: upto_rec_numeral simp del: set_upto)
  have "outcome w False (print_display i ?d)"
    using t False x print_text_ok
    by (elim insertE emptyE)
      (simp_all add: v14_descriptor_def display_descriptor_def print_display_def edid_consts Let_def
        del: seq_res.simps)
  moreover have "desc_type ?d = DT_DISPLAY_DESCRIPTOR"
    using False by (simp add: v14_descriptor_def display_descriptor_def Let_def)
  ultimately show ?thesis
    unfolding print_descriptor_def
    by (auto simp: edid_consts simp del: seq_res.simps intro!: outcome_all)
qed


lemma print_head_ok:
  fixes bin e ext xs
  defines "e' \<equiv> (v14_base bin e)\<lparr>extensions := ext, ext_datas := xs\<rparr>"
  shows "outcome w False (print_ident e')" "outcome w False (print_input e')" "outcome w False (print_screen e')"
  by (auto simp: e'_def v14_base_def v14_descriptors_def v14_standard_def v14_established_def v14_chroma_def
      v14_feature_def v14_gamma_def v14_screen_def v14_input_def v14_ident_def Let_def c_string_def
      print_ident_def print_input_def print_screen_def nz_def)

lemma v14_base_keeps: "ext_datas (v14_base bin e) = ext_datas e"
  by (simp add: v14_base_def v14_descriptors_def v14_standard_def v14_established_def v14_chroma_def
      v14_feature_def v14_gamma_def v14_screen_def v14_input_def v14_ident_def Let_def)

text \<open>The base block prints; what is left is the loop over the extensions.\<close>

lemma print_base:
  assumes "128 \<le> length bin" "wf_edid e" "wf_edid e'" "\<forall>i < 4. known_descriptor (at bin (0x36 + 18 * i))"
    "edid_decode_v14 bin e = Inr (0, e')" "e' = (v14_base bin e)\<lparr>extensions := ext, ext_datas := xs\<rparr>"
    "list_all2 (outcome w) bads (map (print_ext e') [0..<8])"
  shows "outcome w (True \<in> set bads) (edid_print_v14 e')"
proof -
  note wf = assms(2,3) [unfolded wf_edid_def list_all_length]
  have d: "outcome w False (print_descriptor i (descriptors e' ! i))" if i: "i < 4" for i
    using decoded_descriptor [OF assms(1,2,5) i] assms(4) wf i
    by (auto intro!: print_descriptor_ok)
  define ps where "ps = [print_ident e', print_input e', print_screen e',
       Inr (print_features e' @ pnl ''established timing ...'' [])] @
      map (\<lambda>i. ebind (get_res (timing_1_2 e') i) (\<lambda>t. Inr (print_established i t))) [0..<17] @
      [Inr (pnl ''standard timing ...'' [])] @
      map (\<lambda>i. ebind (get_res (standard_timings e') i) (\<lambda>t. Inr (print_standard i t))) [0..<8] @
      [Inr (pnl ''descriptors ...'' [])] @
      map (\<lambda>i. ebind (get_res (descriptors e') i) (print_descriptor i)) [0..<4]"
  have "outcome w False m" if "m \<in> set ps" for m
    using that print_head_ok [where w = w and bin = bin and e = e and ext = ext and xs = xs, folded assms(6)] wf d
    by (auto simp: ps_def simp del: upt_rec_numeral intro!: outcome_get)
  then have "list_all2 (outcome w) (replicate (length ps) False @ bads) (ps @ map (print_ext e') [0..<8])"
    by (intro list_all2_appendI assms(7)) (simp add: list_all2_conv_all_nth)
  then have "outcome w (True \<in> set (replicate (length ps) False @ bads)) (seq_res (ps @ map (print_ext e') [0..<8]))"
    by (rule outcome_seq)
  then show ?thesis by (simp add: ps_def edid_print_v14_def set_replicate_conv_if del: upt_rec_numeral split: if_splits)
qed


section \<open>Decoding, then printing\<close>

lemma decode_one_extension:
  assumes "128 \<le> length bin" "edid_accepts bin" "ub bin 0x7e \<noteq> 0" "length bin > 128" "bin ! 128 = 2" "wf_edid e"
    "edid_decode_cea bin 0 (ext_datas e ! 0) = Inr (0, x)"
  shows "edid_decode_v14 bin e =
    Inr (0, (v14_base bin e)\<lparr>extensions := ub bin 0x7e, ext_datas := (ext_datas e)[0 := x]\<rparr>)"
proof -
  have "ub bin 0x7e \<ge> 0" by simp
  with assms(3) have "ub bin 0x7e = 1 \<or> ub bin 0x7e > 1" by linarith
  then have "nat (if ub bin 0x7e > 1 then 1 else ub bin 0x7e) = 1" by (auto simp del: nat_uint_eq)
  then have "[0..<nat (if ub bin 0x7e > 1 then 1 else ub bin 0x7e)] = [0]" by simp
  moreover have "byte bin 0x7e = Inr (ub bin 0x7e)" "byte bin 128 = Inr 2"
    using assms by (simp_all add: byte_def)
  ultimately show ?thesis
    using assms(3,6,7) unfolding decode_accepts [OF assms(1,2)] Let_def
    by (simp add: edid_decode_extensions_def decode_extension_def v14_base_keeps edid_consts wf_edid_def Let_def
        del: upt_conv_Cons)
qed

lemma decoded_cea_prints:
  assumes "wf_ext fl bs ds" "wf_cea (cea_ext x0)"
  defines "h \<equiv> cea_header 3 (4 + int (length (enc_blks bs))) (fl * 16 + int (length ds)) (cea_ext x0)"
  defines "x \<equiv> x0\<lparr>ext_tag := EDID_EXT_TAG_CEA, cea_ext := (fold apply_blk bs h)
    \<lparr>cea_timing := map ext_timing ds @ drop (length ds) (cea_timing (cea_ext x0))\<rparr>\<rparr>"
  shows "wf_cea (cea_ext x)" "outcome Wild_pointer (list_ex is_color bs) (edid_print_cea x i)"
proof -
  note we = assms(1) [unfolded wf_ext_def]
  have n: "length ds \<le> 6" using we by (simp add: enc_cea_def length_enc_dtds)
  have h: "cea_state 0 h" "nr_dtd h = int (length ds)"
    using assms(2) n we by (auto simp: h_def cea_state_def cea_header_def wf_cea_def and_low)
  have a: "after_blks bs (cea_ext x)"
    using after_timing [OF after_fold [OF h(1)]] we assms(2) n by (simp add: x_def wf_cea_def)
  then show "wf_cea (cea_ext x)" by (simp add: after_blks_def cea_state_def)
  show "outcome Wild_pointer (list_ex is_color bs) (edid_print_cea x i)"
    by (rule print_cea_outcome [OF a]) (use we n h in \<open>simp_all add: x_def fold_apply_keeps\<close>)
qed



end
