(* ===== verification/Dpi_Fft.thy ===== *)
theory Dpi_Fft
  imports Complex_Main Checked
begin

text \<open>
  The reference FFT of the simulation (\<^verbatim>\<open>fft.c\<close>).  An array of complex samples
  (\<^verbatim>\<open>double (*)[2]\<close>) is a list of pairs; the three arrays of a call are different objects.  Accesses
  outside an array are faults, and a recursion that never ends is \<open>None\<close>.

  The arithmetic is that of any field \<open>'a\<close>, and \<open>tw k N\<close> is the pair of
  \<^verbatim>\<open>cos(TWO_PI*k/N)\<close> and \<^verbatim>\<open>sin(TWO_PI*k/N)\<close>: with the real numbers and the real functions the
  theorems say what the algorithm computes before rounding; rounding errors of \<^verbatim>\<open>double\<close> are
  outside the model.  The argument \<^verbatim>\<open>rec_no\<close>, which is only counted, is left out.
\<close>

section \<open>fft.c\<close>

type_synonym 'a cpx = "'a \<times> 'a"

text \<open>One pass of the butterfly loop.\<close>

definition fft_step ::
  "(nat \<Rightarrow> nat \<Rightarrow> 'a \<times> 'a) \<Rightarrow> nat \<Rightarrow> nat \<Rightarrow> nat \<Rightarrow> ('a :: field) cpx list \<Rightarrow> nat \<Rightarrow> 'a cpx list \<Rightarrow>
   'a cpx list res" where
  "fft_step tw N offset delta XX k X =
     (let N2 = N div 2;
          k00 = offset + k * delta; k01 = k00 + N2 * delta;
          k10 = offset + 2 * k * delta; k11 = k10 + delta;
          (cs, sn) = tw k N in
      ebind (get_res XX k11) (\<lambda>(b0, b1).
      ebind (get_res XX k10) (\<lambda>(a0, a1).
      let tmp0 = cs * b0 + sn * b1; tmp1 = cs * b1 - sn * b0 in
      ebind (put_res k01 (a0 - tmp0, a1 - tmp1) X) (\<lambda>X.
      put_res k00 (a0 + tmp0, a1 + tmp1) X))))"

text \<open>The 2-point transform.\<close>

definition fft_two :: "nat \<Rightarrow> nat \<Rightarrow> ('a :: field) cpx list \<Rightarrow> 'a cpx list \<Rightarrow> 'a cpx list res" where
  "fft_two offset delta x X =
     (let k00 = offset; k01 = k00 + delta in
      ebind (get_res x k00) (\<lambda>(a0, a1).
      ebind (get_res x k01) (\<lambda>(b0, b1).
      ebind (put_res k01 (a0 - b0, a1 - b1) X) (\<lambda>X.
      put_res k00 (a0 + b0, a1 + b1) X))))"

text \<open>
  The recursion hands back the two arrays it writes, in the order of its arguments; the recursive
  calls exchange their roles.
\<close>

partial_function (option) fft_rec ::
  "(nat \<Rightarrow> nat \<Rightarrow> 'a \<times> 'a) \<Rightarrow> nat \<Rightarrow> nat \<Rightarrow> nat \<Rightarrow> ('a :: field) cpx list \<Rightarrow> 'a cpx list \<Rightarrow> 'a cpx list \<Rightarrow>
   ('a cpx list \<times> 'a cpx list) res option" where
  "fft_rec tw N offset delta x X XX =
     (if N \<noteq> 2 then
        Option.bind (fft_rec tw (N div 2) offset (2 * delta) x XX X) (\<lambda>r.
        case r of Inl e \<Rightarrow> Some (Inl e) | Inr (XX, X) \<Rightarrow>
        Option.bind (fft_rec tw (N div 2) (offset + delta) (2 * delta) x XX X) (\<lambda>r.
        case r of Inl e \<Rightarrow> Some (Inl e) | Inr (XX, X) \<Rightarrow>
        Some (ebind (fold_res (fft_step tw N offset delta XX) [0..<N div 2] X) (\<lambda>X. Inr (X, XX)))))
      else Some (ebind (fft_two offset delta x X) (\<lambda>X. Inr (X, XX))))"

text \<open>\<open>scratch\<close> is what \<^verbatim>\<open>malloc\<close> returns: \<open>N\<close> samples of any value.\<close>

definition fft ::
  "(nat \<Rightarrow> nat \<Rightarrow> 'a \<times> 'a) \<Rightarrow> ('a :: field) cpx list \<Rightarrow> nat \<Rightarrow> 'a cpx list \<Rightarrow> 'a cpx list \<Rightarrow>
   'a cpx list res option" where
  "fft tw scratch N x X = map_option (\<lambda>r. ebind r (\<lambda>(X, XX). Inr X)) (fft_rec tw N 0 1 x X scratch)"

definition scale_at :: "nat \<Rightarrow> nat \<Rightarrow> ('a :: field) cpx list \<Rightarrow> 'a cpx list res" where
  "scale_at N i = upd_res i (\<lambda>(a0, a1). Inr (a0 / of_nat N, a1 / of_nat N))"

definition ifft_step :: "nat \<Rightarrow> nat \<Rightarrow> ('a :: field) cpx list \<Rightarrow> 'a cpx list res" where
  "ifft_step N i x =
     ebind (get_res x i) (\<lambda>(a0, a1).
     let tmp0 = a0 / of_nat N; tmp1 = a1 / of_nat N in
     ebind (get_res x (N - i)) (\<lambda>(b0, b1).
     ebind (put_res i (b0 / of_nat N, b1 / of_nat N) x) (put_res (N - i) (tmp0, tmp1))))"

definition ifft ::
  "(nat \<Rightarrow> nat \<Rightarrow> 'a \<times> 'a) \<Rightarrow> ('a :: field) cpx list \<Rightarrow> nat \<Rightarrow> 'a cpx list \<Rightarrow> 'a cpx list \<Rightarrow>
   'a cpx list res option" where
  "ifft tw scratch N x X = map_option (\<lambda>r.
     ebind r (\<lambda>x. ebind (scale_at N 0 x) (\<lambda>x. ebind (scale_at N (N div 2) x) (\<lambda>x.
     fold_res (ifft_step N) [1..<N div 2] x)))) (fft tw scratch N X x)"

section \<open>Termination\<close>

lemma fft_rec_returns: "N div 2 ^ n = 2 \<Longrightarrow> \<exists>r. fft_rec tw N offset delta x X XX = Some r"
proof (induction n arbitrary: N offset delta X XX)
  case 0
  then show ?case by (simp add: fft_rec.simps [of tw 2])
next
  case (Suc n)
  have "N div 2 div 2 ^ n = 2" using Suc.prems by (simp add: div_mult2_eq)
  note IH = Suc.IH [OF this]
  show ?case
  proof (cases "N = 2")
    case False
    obtain r where r: "fft_rec tw (N div 2) offset (2 * delta) x XX X = Some r" using IH by blast
    show ?thesis
    proof (cases r)
      case (Inr a)
      obtain XX' X' where a: "a = (XX', X')" by fastforce
      obtain r' where "fft_rec tw (N div 2) (offset + delta) (2 * delta) x XX' X' = Some r'" using IH by blast
      with r Inr a show ?thesis
        by (simp add: fft_rec.simps [of tw N] False split: sum.split prod.split)
    qed (simp add: fft_rec.simps [of tw N] False r)
  qed (simp add: fft_rec.simps [of tw 2])
qed

lemma fft_rec_returned: "fft_rec tw N offset delta x X XX = Some r \<Longrightarrow> \<exists>n. N div 2 ^ n = 2"
proof -
  define P where "P f \<longleftrightarrow> (\<forall>tw N offset delta x X XX r. f tw N offset delta x X XX = Some r \<longrightarrow>
      (\<exists>n. N div 2 ^ n = 2))" for f :: "(nat \<Rightarrow> nat \<Rightarrow> 'a \<times> 'a) \<Rightarrow> nat \<Rightarrow> nat \<Rightarrow> nat \<Rightarrow>
      'a cpx list \<Rightarrow> 'a cpx list \<Rightarrow> 'a cpx list \<Rightarrow> ('a cpx list \<times> 'a cpx list) res option"
  have halve: "\<exists>n. N div 2 ^ n = 2" if "\<exists>n. N div 2 div 2 ^ n = (2 :: nat)" for N
  proof -
    from that obtain n where "N div 2 ^ Suc n = 2" by (auto simp: div_mult2_eq)
    then show ?thesis by blast
  qed
  have two: "\<exists>n. 2 div 2 ^ n = (2 :: nat)" using div_by_1 [of "2 :: nat"] power_0 by metis
  have "P fft_rec"
  proof (induction rule: fft_rec.fixp_induct)
    case 1
    show ?case
      using option_admissible [of "\<lambda>((((((tw, N), offset), delta), x), X), XX) r. \<exists>n. N div 2 ^ n = (2 :: nat)"]
      by (simp add: P_def split_paired_All split_def)
  next
    case (3 f)
    show ?case
      unfolding P_def
    proof (intro allI impI)
      fix tw :: "nat \<Rightarrow> nat \<Rightarrow> 'a \<times> 'a" and N offset delta and x X XX :: "'a cpx list" and r
      assume run: "(if N \<noteq> 2 then
        Option.bind (f tw (N div 2) offset (2 * delta) x XX X) (\<lambda>r.
        case r of Inl e \<Rightarrow> Some (Inl e) | Inr (XX, X) \<Rightarrow>
        Option.bind (f tw (N div 2) (offset + delta) (2 * delta) x XX X) (\<lambda>r.
        case r of Inl e \<Rightarrow> Some (Inl e) | Inr (XX, X) \<Rightarrow>
        Some (ebind (fold_res (fft_step tw N offset delta XX) [0..<N div 2] X) (\<lambda>X. Inr (X, XX)))))
        else Some (ebind (fft_two offset delta x X) (\<lambda>X. Inr (X, XX)))) = Some r"
      show "\<exists>n. N div 2 ^ n = 2"
      proof (cases "N = 2")
        case False
        then obtain r' where "f tw (N div 2) offset (2 * delta) x XX X = Some r'"
          using run by (auto simp: bind_eq_Some_conv)
        then show ?thesis using 3 halve unfolding P_def by blast
      qed (use two in simp)
    qed
  qed (simp add: P_def)
  then show "fft_rec tw N offset delta x X XX = Some r \<Longrightarrow> \<exists>n. N div 2 ^ n = 2"
    unfolding P_def by blast
qed

text \<open>
  C35.  The FFT returns exactly for the sizes whose repeated halving meets 2, whatever the arrays
  are; for every other size, 0, 1, 3, 6 and 7 for instance, the recursion does not end.
\<close>

theorem fft_returns_iff: "(\<exists>r. fft tw scratch N x X = Some r) \<longleftrightarrow> (\<exists>n. N div 2 ^ n = 2)"
  unfolding fft_def using fft_rec_returns fft_rec_returned by fastforce

end
