(* ===== verification/Dpi_Dft.thy ===== *)
theory Dpi_Dft
  imports Dpi_Fft
begin

text \<open>
  The FFT of \<^verbatim>\<open>fft.c\<close> computes the discrete Fourier transform, and its inverse the inverse
  transform.
\<close>

section \<open>The transform\<close>

definition dft :: "nat \<Rightarrow> (nat \<Rightarrow> complex) \<Rightarrow> nat \<Rightarrow> complex" where
  "dft N f k = (\<Sum>j < N. f j * cis (- (2 * pi * real (j * k) / real N)))"

definition real_tw :: "nat \<Rightarrow> nat \<Rightarrow> real \<times> real" where
  "real_tw k N = (cos (2 * pi * real k / real N), sin (2 * pi * real k / real N))"

definition cval :: "real cpx \<Rightarrow> complex" where
  "cval p = Complex (fst p) (snd p)"

text \<open>The step of decimation in time.\<close>

lemma cis_whole: "cis (2 * pi * real m) = 1"
  using cis_multiple_2pi [of "real m"] by (simp add: mult_ac)

lemma cis_whole_neg: "cis (- (2 * pi * real m)) = 1"
  using arg_cong [OF cis_whole [of m], of inverse] unfolding cis_inverse by simp

lemma dft_even_odd:
  assumes "0 < M"
  shows "dft (2 * M) f k = dft M (\<lambda>j. f (2 * j)) k +
    cis (- (2 * pi * real k / real (2 * M))) * dft M (\<lambda>j. f (2 * j + 1)) k"
proof -
  let ?g = "\<lambda>j. f j * cis (- (2 * pi * real (j * k) / real (2 * M)))"
  have "sum ?g {..<2 * M} = sum ?g ((\<lambda>j. 2 * j) ` {..<M}) + sum ?g ((\<lambda>j. 2 * j + 1) ` {..<M})"
  proof -
    have "{..<2 * M} = (\<lambda>j. 2 * j) ` {..<M} \<union> (\<lambda>j. 2 * j + 1) ` {..<M}"
    proof (rule set_eqI)
      fix i
      show "i \<in> {..<2 * M} \<longleftrightarrow> i \<in> (\<lambda>j. 2 * j) ` {..<M} \<union> (\<lambda>j. 2 * j + 1) ` {..<M}"
        by (cases "even i") (auto elim!: evenE oddE)
    qed
    moreover have "(\<lambda>j. 2 * j) ` {..<M} \<inter> (\<lambda>j. 2 * j + 1) ` {..<M} = {}" by (auto; presburger)
    ultimately show ?thesis by (simp add: sum.union_disjoint)
  qed
  also have "\<dots> = (\<Sum>j < M. ?g (2 * j)) + (\<Sum>j < M. ?g (2 * j + 1))"
  proof -
    have "inj_on (\<lambda>j. 2 * j) {..<M}" "inj_on (\<lambda>j. 2 * j + 1) {..<M}" by (simp_all add: inj_on_def)
    then show ?thesis by (simp only: sum.reindex o_def)
  qed
  also have "(\<Sum>j < M. ?g (2 * j)) = dft M (\<lambda>j. f (2 * j)) k"
    unfolding dft_def using assms by (intro sum.cong) (simp_all add: field_simps)
  also have "(\<Sum>j < M. ?g (2 * j + 1)) = cis (- (2 * pi * real k / real (2 * M))) * dft M (\<lambda>j. f (2 * j + 1)) k"
    unfolding dft_def sum_distrib_left
  proof (intro sum.cong refl)
    fix j
    have "- (2 * pi * real ((2 * j + 1) * k) / real (2 * M)) =
        - (2 * pi * real k / real (2 * M)) + - (2 * pi * real (j * k) / real M)"
      using assms by (simp add: field_simps)
    then have "cis (- (2 * pi * real ((2 * j + 1) * k) / real (2 * M))) =
        cis (- (2 * pi * real k / real (2 * M))) * cis (- (2 * pi * real (j * k) / real M))"
      unfolding cis_mult by (rule arg_cong)
    then show "?g (2 * j + 1) = cis (- (2 * pi * real k / real (2 * M))) *
        (f (2 * j + 1) * cis (- (2 * pi * real (j * k) / real M)))"
      by (simp only: mult_ac)
  qed
  finally show ?thesis by (simp add: dft_def)
qed

lemma dft_period:
  assumes "0 < M"
  shows "dft M f (k + M) = dft M f k"
  unfolding dft_def
proof (intro sum.cong refl)
  fix j
  have "- (2 * pi * real (j * (k + M)) / real M) = - (2 * pi * real (j * k) / real M) + - (2 * pi * real j)"
    using assms by (simp add: field_simps)
  then have "cis (- (2 * pi * real (j * (k + M)) / real M)) =
      cis (- (2 * pi * real (j * k) / real M)) * inverse (cis (2 * pi * real j))"
    unfolding cis_inverse cis_mult by (rule arg_cong)
  then show "f j * cis (- (2 * pi * real (j * (k + M)) / real M)) = f j * cis (- (2 * pi * real (j * k) / real M))"
    by (simp only: cis_whole) simp
qed

lemma dft_halves:
  fixes f :: "nat \<Rightarrow> complex"
  assumes "0 < M"
  defines "e \<equiv> dft M (\<lambda>j. f (2 * j))" and "o' \<equiv> dft M (\<lambda>j. f (2 * j + 1))"
    and "w \<equiv> \<lambda>k. cis (- (2 * pi * real k / real (2 * M)))"
  shows "dft (2 * M) f k = e k + w k * o' k" "dft (2 * M) f (k + M) = e k - w k * o' k"
proof -
  show "dft (2 * M) f k = e k + w k * o' k"
    using dft_even_odd [OF assms(1), of f k] by (simp add: e_def o'_def w_def)
  have "- (2 * pi * real (k + M) / real (2 * M)) = - (2 * pi * real k / real (2 * M)) + - pi"
    using assms(1) by (simp add: field_simps)
  then have "cis (- (2 * pi * real (k + M) / real (2 * M))) = w k * cis (- pi)"
    unfolding w_def by (simp only: cis_mult [symmetric])
  also have "cis (- pi) = - 1" by (simp add: complex_eq_iff)
  finally have w: "cis (- (2 * pi * real (k + M) / real (2 * M))) = - w k" by simp
  show "dft (2 * M) f (k + M) = e k - w k * o' k"
    using dft_even_odd [OF assms(1), of f "k + M"] dft_period [OF assms(1)]
    unfolding w by (simp add: e_def o'_def)
qed

section \<open>The buffers\<close>

text \<open>The part of an array a call works on: \<open>N\<close> elements at distance \<open>delta\<close> from \<open>offset\<close>.\<close>

definition stride :: "nat \<Rightarrow> nat \<Rightarrow> nat \<Rightarrow> nat set" where
  "stride N offset delta = (\<lambda>k. offset + k * delta) ` {..<N}"

definition fits :: "nat \<Rightarrow> nat \<Rightarrow> nat \<Rightarrow> 'a list \<Rightarrow> bool" where
  "fits N offset delta xs \<longleftrightarrow> (\<forall>i \<in> stride N offset delta. i < length xs)"

definition same_off :: "nat set \<Rightarrow> 'a list \<Rightarrow> 'a list \<Rightarrow> bool" where
  "same_off S xs ys \<longleftrightarrow> length ys = length xs \<and> (\<forall>i. i \<notin> S \<longrightarrow> ys ! i = xs ! i)"

lemma strideI: "k < N \<Longrightarrow> offset + k * delta \<in> stride N offset delta"
  by (auto simp: stride_def)

lemma fitsD: "fits N offset delta xs \<Longrightarrow> k < N \<Longrightarrow> offset + k * delta < length xs"
  by (simp add: fits_def stride_def)

lemma stride_halves:
  "stride M offset (2 * delta) \<subseteq> stride (2 * M) offset delta"
  "stride M (offset + delta) (2 * delta) \<subseteq> stride (2 * M) offset delta"
proof -
  have "offset + k * (2 * delta) = offset + (2 * k) * delta"
    "offset + delta + k * (2 * delta) = offset + (2 * k + 1) * delta" for k
    by (simp_all add: algebra_simps)
  then show "stride M offset (2 * delta) \<subseteq> stride (2 * M) offset delta"
    "stride M (offset + delta) (2 * delta) \<subseteq> stride (2 * M) offset delta"
    by (auto simp: stride_def simp del: mult_Suc)
qed

lemma same_offD: "same_off S xs ys \<Longrightarrow> length ys = length xs" "same_off S xs ys \<Longrightarrow> i \<notin> S \<Longrightarrow> ys ! i = xs ! i"
  by (simp_all add: same_off_def)

lemma same_off_trans:
  "same_off S xs ys \<Longrightarrow> same_off T ys zs \<Longrightarrow> S \<subseteq> U \<Longrightarrow> T \<subseteq> U \<Longrightarrow> same_off U xs zs"
  unfolding same_off_def subset_iff by metis

lemma fits_same: "same_off S xs ys \<Longrightarrow> fits N offset delta ys = fits N offset delta xs"
  by (simp add: fits_def same_off_def)

lemma fits_halves:
  "fits (2 * M) offset delta xs \<Longrightarrow> fits M offset (2 * delta) xs \<and> fits M (offset + delta) (2 * delta) xs"
  using stride_halves [of M offset delta] by (auto simp: fits_def)

text \<open>The butterfly on pairs.\<close>

definition twisted :: "'a \<times> 'a \<Rightarrow> ('a :: field) cpx \<Rightarrow> 'a cpx" where
  "twisted w b = (fst w * fst b + snd w * snd b, fst w * snd b - snd w * fst b)"

definition cadd :: "('a :: field) cpx \<Rightarrow> 'a cpx \<Rightarrow> 'a cpx" where
  "cadd a b = (fst a + fst b, snd a + snd b)"

definition csub :: "('a :: field) cpx \<Rightarrow> 'a cpx \<Rightarrow> 'a cpx" where
  "csub a b = (fst a - fst b, snd a - snd b)"

lemma fft_step_run:
  assumes "fits (2 * M) offset delta X" "fits (2 * M) offset delta XX" "k < M"
  defines "a \<equiv> XX ! (offset + (2 * k) * delta)" and "b \<equiv> XX ! (offset + (2 * k + 1) * delta)"
  shows "fft_step tw (2 * M) offset delta XX k X =
    Inr (X[offset + (k + M) * delta := csub a (twisted (tw k (2 * M)) b),
           offset + k * delta := cadd a (twisted (tw k (2 * M)) b)])"
proof -
  have i: "offset + (2 * k) * delta < length XX" "offset + (2 * k + 1) * delta < length XX"
    "offset + (k + M) * delta < length X" "offset + k * delta < length X"
    by (rule fitsD [OF assms(2)] fitsD [OF assms(1)]; use assms(3) in simp)+
  have e: "offset + 2 * k * delta + delta = offset + (2 * k + 1) * delta"
    "offset + k * delta + M * delta = offset + (k + M) * delta"
    by (simp_all add: algebra_simps)
  show ?thesis
    using i unfolding fft_step_def Let_def a_def b_def
    by (simp add: e get_res_def put_res_def upd_res_def twisted_def cadd_def csub_def split_def
        del: mult_Suc)
qed

lemma butterflies_run:
  assumes "fits (2 * M) offset delta X" "fits (2 * M) offset delta XX" "0 < delta" "m \<le> M"
  defines "a \<equiv> \<lambda>k. XX ! (offset + (2 * k) * delta)" and "b \<equiv> \<lambda>k. XX ! (offset + (2 * k + 1) * delta)"
  shows "\<exists>Y. fold_res (fft_step tw (2 * M) offset delta XX) [0..<m] X = Inr Y \<and>
    same_off (stride (2 * M) offset delta) X Y \<and>
    (\<forall>k < m. Y ! (offset + k * delta) = cadd (a k) (twisted (tw k (2 * M)) (b k)) \<and>
      Y ! (offset + (k + M) * delta) = csub (a k) (twisted (tw k (2 * M)) (b k)))"
  using assms(4)
proof (induction m)
  case 0
  then show ?case by (simp add: same_off_def)
next
  case (Suc m)
  then obtain Y where Y: "fold_res (fft_step tw (2 * M) offset delta XX) [0..<m] X = Inr Y"
    "same_off (stride (2 * M) offset delta) X Y"
    "\<And>k. k < m \<Longrightarrow> Y ! (offset + k * delta) = cadd (a k) (twisted (tw k (2 * M)) (b k)) \<and>
      Y ! (offset + (k + M) * delta) = csub (a k) (twisted (tw k (2 * M)) (b k))"
    by auto
  let ?i = "offset + m * delta" and ?j = "offset + (m + M) * delta"
  let ?Z = "Y[?j := csub (a m) (twisted (tw m (2 * M)) (b m)), ?i := cadd (a m) (twisted (tw m (2 * M)) (b m))]"
  have f: "fits (2 * M) offset delta Y" using Y(2) assms(1) by (simp add: fits_same)
  have s: "fft_step tw (2 * M) offset delta XX m Y = Inr ?Z"
    unfolding a_def b_def by (rule fft_step_run [OF f assms(2)]) (use Suc.prems in simp)
  have ij: "?i < length Y" "?j < length Y" by (rule fitsD [OF f]; use Suc.prems in simp)+
  have d: "offset + p * delta = offset + q * delta \<longleftrightarrow> p = q" for p q using assms(3) by simp
  have "?i \<in> stride (2 * M) offset delta" "?j \<in> stride (2 * M) offset delta"
    by (rule strideI; use Suc.prems in simp)+
  then have "same_off (stride (2 * M) offset delta) X ?Z"
    using Y(2) unfolding same_off_def by (metis length_list_update nth_list_update_neq)
  moreover have "?Z ! (offset + k * delta) = cadd (a k) (twisted (tw k (2 * M)) (b k)) \<and>
      ?Z ! (offset + (k + M) * delta) = csub (a k) (twisted (tw k (2 * M)) (b k))" if "k < Suc m" for k
    using that ij Y(3) [of k] Suc.prems
    by (cases "k = m") (simp_all add: nth_list_update d del: add_left_cancel)
  ultimately show ?case using Y(1) s by (simp add: fold_res_append)
qed

section \<open>Correctness\<close>

lemma cval_add: "cval (cadd a b) = cval a + cval b" "cval (csub a b) = cval a - cval b"
  by (simp_all add: cval_def cadd_def csub_def complex_eq_iff)

lemma cval_twisted: "cval (twisted (real_tw k N) b) = cis (- (2 * pi * real k / real N)) * cval b"
  by (simp add: cval_def twisted_def real_tw_def complex_eq_iff)

lemma fft_two_run:
  assumes "fits 2 offset delta x" "fits 2 offset delta X" "0 < delta"
  shows "\<exists>Y. fft_two offset delta x X = Inr Y \<and> same_off (stride 2 offset delta) X Y \<and>
    Y ! offset = cadd (x ! offset) (x ! (offset + delta)) \<and>
    Y ! (offset + delta) = csub (x ! offset) (x ! (offset + delta))"
proof -
  have i: "offset < length x" "offset + delta < length x" "offset < length X" "offset + delta < length X"
    using fitsD [OF assms(1), of 0] fitsD [OF assms(1), of 1] fitsD [OF assms(2), of 0] fitsD [OF assms(2), of 1]
    by simp_all
  let ?a = "x ! offset" and ?b = "x ! (offset + delta)"
  have "offset \<in> stride 2 offset delta" "offset + delta \<in> stride 2 offset delta"
    using strideI [of 0 2 offset delta] strideI [of 1 2 offset delta] by simp_all
  then have "same_off (stride 2 offset delta) X (X[offset + delta := csub ?a ?b, offset := cadd ?a ?b])"
    unfolding same_off_def by (metis length_list_update nth_list_update_neq)
  then show ?thesis
    using i assms(3) unfolding fft_two_def Let_def
    by (simp add: get_res_def put_res_def upd_res_def cadd_def csub_def split_def)
qed

lemma dft_two: "dft 2 f 0 = f 0 + f 1" "dft 2 f (Suc 0) = f 0 - f 1"
  using dft_halves [of 1 f 0] by (simp_all add: dft_def)

lemma odd_stride:
  assumes "0 < delta"
  shows "offset + k * (2 * delta) \<notin> stride M (offset + delta) (2 * delta)"
proof
  assume "offset + k * (2 * delta) \<in> stride M (offset + delta) (2 * delta)"
  then obtain j where "offset + k * (2 * delta) = offset + delta + j * (2 * delta)"
    unfolding stride_def by blast
  then have "(2 * k) * delta = (2 * j + 1) * delta" by (simp add: algebra_simps)
  then have "2 * k = 2 * j + 1" using assms by (metis mult_cancel2 less_irrefl)
  then show False by presburger
qed

lemma fft_rec_dft:
  assumes "0 < delta" "fits (2 ^ Suc n) offset delta x" "fits (2 ^ Suc n) offset delta X" "fits (2 ^ Suc n) offset delta XX"
  shows "\<exists>Y YY. fft_rec real_tw (2 ^ Suc n) offset delta x X XX = Some (Inr (Y, YY)) \<and>
    same_off (stride (2 ^ Suc n) offset delta) X Y \<and> same_off (stride (2 ^ Suc n) offset delta) XX YY \<and>
    (\<forall>k < 2 ^ Suc n. cval (Y ! (offset + k * delta)) = dft (2 ^ Suc n) (\<lambda>j. cval (x ! (offset + j * delta))) k)"
  using assms
proof (induction n arbitrary: offset delta X XX)
  case 0
  then obtain Y where Y: "fft_two offset delta x X = Inr Y" "same_off (stride 2 offset delta) X Y"
    "Y ! offset = cadd (x ! offset) (x ! (offset + delta))"
    "Y ! (offset + delta) = csub (x ! offset) (x ! (offset + delta))"
    using fft_two_run [of offset delta x X] by auto
  have "cval (Y ! (offset + k * delta)) = dft 2 (\<lambda>j. cval (x ! (offset + j * delta))) k" if "k < 2" for k
    using that by (cases k) (simp_all add: Y dft_two cval_add)
  moreover have "same_off S XX XX" for S by (simp add: same_off_def)
  ultimately show ?case using Y by (simp add: fft_rec.simps)
next
  case (Suc n)
  define M :: nat where "M = 2 ^ Suc n"
  have M: "2 ^ Suc (Suc n) = 2 * M" "0 < M" "2 * M \<noteq> 2" by (simp_all add: M_def)
  note fx = fits_halves [OF Suc.prems(2) [unfolded M(1)]]
  note fX = fits_halves [OF Suc.prems(3) [unfolded M(1)]]
  note fXX = fits_halves [OF Suc.prems(4) [unfolded M(1)]]
  obtain Y1 Z1 where 1: "fft_rec real_tw M offset (2 * delta) x XX X = Some (Inr (Y1, Z1))"
    "same_off (stride M offset (2 * delta)) XX Y1" "same_off (stride M offset (2 * delta)) X Z1"
    "\<And>k. k < M \<Longrightarrow> cval (Y1 ! (offset + k * (2 * delta))) = dft M (\<lambda>j. cval (x ! (offset + j * (2 * delta)))) k"
    using Suc.IH [of "2 * delta" offset XX X] Suc.prems(1) fx fX fXX unfolding M_def by auto
  obtain Y2 Z2 where 2: "fft_rec real_tw M (offset + delta) (2 * delta) x Y1 Z1 = Some (Inr (Y2, Z2))"
    "same_off (stride M (offset + delta) (2 * delta)) Y1 Y2" "same_off (stride M (offset + delta) (2 * delta)) Z1 Z2"
    "\<And>k. k < M \<Longrightarrow> cval (Y2 ! (offset + delta + k * (2 * delta))) =
        dft M (\<lambda>j. cval (x ! (offset + delta + j * (2 * delta)))) k"
    using Suc.IH [of "2 * delta" "offset + delta" Y1 Z1] Suc.prems(1) fx fX fXX 1(2,3)
    unfolding M_def by (auto simp: fits_same)
  have YY: "same_off (stride (2 * M) offset delta) XX Y2" and ZZ: "same_off (stride (2 * M) offset delta) X Z2"
    by (rule same_off_trans [OF 1(2) 2(2)] same_off_trans [OF 1(3) 2(3)]; rule stride_halves)+
  define f where "f j = cval (x ! (offset + j * delta))" for j
  have ev: "cval (Y2 ! (offset + (2 * k) * delta)) = dft M (\<lambda>j. f (2 * j)) k" if "k < M" for k
    using 1(4) [OF that] same_offD(2) [OF 2(2) odd_stride [OF Suc.prems(1)], of k]
    by (simp add: f_def mult_ac)
  have od: "cval (Y2 ! (offset + (2 * k + 1) * delta)) = dft M (\<lambda>j. f (2 * j + 1)) k" if "k < M" for k
    using 2(4) [OF that] by (simp add: f_def algebra_simps)
  obtain W where W: "fold_res (fft_step real_tw (2 * M) offset delta Y2) [0..<M] Z2 = Inr W"
    "same_off (stride (2 * M) offset delta) Z2 W"
    "\<And>k. k < M \<Longrightarrow> W ! (offset + k * delta) =
         cadd (Y2 ! (offset + (2 * k) * delta)) (twisted (real_tw k (2 * M)) (Y2 ! (offset + (2 * k + 1) * delta))) \<and>
       W ! (offset + (k + M) * delta) =
         csub (Y2 ! (offset + (2 * k) * delta)) (twisted (real_tw k (2 * M)) (Y2 ! (offset + (2 * k + 1) * delta)))"
    using butterflies_run [of M offset delta Z2 Y2 M real_tw] Suc.prems YY ZZ unfolding M(1)
    by (auto simp: fits_same)
  have W3: "cval (W ! (offset + k * delta)) = dft (2 * M) f k \<and>
       cval (W ! (offset + (k + M) * delta)) = dft (2 * M) f (k + M)" if "k < M" for k
    using W(3) [OF that] ev [OF that] od [OF that]
    by (simp only: cval_add cval_twisted dft_halves [OF M(2), of f k] simp_thms)
  have "cval (W ! (offset + k * delta)) = dft (2 * M) f k" if "k < 2 * M" for k
    using W3 [of k] W3 [of "k - M"] that by (cases "k < M") auto
  then show ?case
    using 1(1) 2(1) W(1) YY same_off_trans [OF ZZ W(2) order_refl order_refl] M(3)
    unfolding M(1) f_def by (auto simp: fft_rec.simps [of _ "2 * M"])
qed

lemma fft_computes_dft:
  assumes "N = 2 ^ n" "1 \<le> n" "length x = N" "length X = N" "length scratch = N"
  shows "\<exists>Y. fft real_tw scratch N x X = Some (Inr Y) \<and> length Y = N \<and>
    (\<forall>k < N. cval (Y ! k) = dft N (\<lambda>j. cval (x ! j)) k)"
proof -
  obtain m where m: "N = 2 ^ Suc m" using assms(1,2) by (cases n) auto
  have "fits N 0 1 xs" if "length xs = N" for xs :: "real cpx list"
    using that by (auto simp: fits_def stride_def)
  then show ?thesis
    using fft_rec_dft [of 1 m 0 x X scratch] assms(3-5) unfolding m fft_def
    by (auto simp: same_off_def)
qed

section \<open>The inverse\<close>

lemma sum_roots:
  assumes "0 < N"
  shows "(\<Sum>k < N. cis (- (2 * pi * real (k * s) / real N))) = (if N dvd s then of_nat N else 0)"
proof -
  let ?z = "cis (- (2 * pi * real s / real N))"
  have p: "cis (- (2 * pi * real (k * s) / real N)) = ?z ^ k" for k
    by (simp add: DeMoivre mult_ac)
  show ?thesis
  proof (cases "N dvd s")
    case True
    then obtain q where "s = N * q" by blast
    then have "?z = cis (- (2 * pi * real q))" using assms by (simp add: mult.assoc)
    then have "?z = 1" by (simp only: cis_whole_neg)
    then show ?thesis unfolding p using True by simp
  next
    case False
    have "?z \<noteq> 1"
    proof
      assume "?z = 1"
      then have "cos (2 * pi * real s / real N) = 1" by (simp add: complex_eq_iff)
      then obtain m :: int where "2 * pi * real s / real N = real_of_int m * 2 * pi"
        using cos_one_2pi_int by blast
      then have "real s = real_of_int m * real N" using assms by (simp add: field_simps)
      then have "int s = m * int N" by (metis of_int_eq_iff of_int_mult of_int_of_nat_eq)
      then have "int N dvd int s" by simp
      with False show False by simp
    qed
    moreover have "?z ^ N = 1"
    proof -
      have "?z ^ N = cis (- (2 * pi * real s))" using assms by (simp add: DeMoivre)
      then show ?thesis by (simp only: cis_whole_neg)
    qed
    ultimately show ?thesis unfolding p using False by (simp add: geometric_sum)
  qed
qed

lemma dft_dft:
  assumes "m < N"
  shows "dft N (dft N f) m = of_nat N * f ((N - m) mod N)"
proof -
  have c: "cis (- (2 * pi * real (j * k) / real N)) * cis (- (2 * pi * real (k * m) / real N)) =
      cis (- (2 * pi * real (k * (j + m)) / real N))" for j k
    unfolding cis_mult by (rule arg_cong [of _ _ cis]) (simp add: algebra_simps add_divide_distrib)
  have "dft N (dft N f) m = (\<Sum>k < N. \<Sum>j < N. f j * cis (- (2 * pi * real (k * (j + m)) / real N)))"
    unfolding dft_def sum_distrib_right by (intro sum.cong refl) (simp only: mult.assoc [of "f _"] c)
  also have "\<dots> = (\<Sum>j < N. f j * (\<Sum>k < N. cis (- (2 * pi * real (k * (j + m)) / real N))))"
    by (subst sum.swap) (simp only: sum_distrib_left)
  also have "\<dots> = (\<Sum>j < N. if j = (N - m) mod N then of_nat N * f j else 0)"
  proof (intro sum.cong refl)
    fix j assume j: "j \<in> {..<N}"
    have "N dvd j + m \<longleftrightarrow> j = (N - m) mod N"
    proof (cases "m = 0")
      case True
      with j show ?thesis by (auto dest: dvd_imp_le)
    next
      case False
      have "N dvd j + m \<longleftrightarrow> j + m = N"
      proof
        assume "N dvd j + m"
        then obtain q where q: "j + m = N * q" by blast
        have "j + m < N * 2" "0 < j + m" using j assms False by simp_all
        then have "q = 1" unfolding q by (cases q) (auto simp: less_Suc_eq)
        then show "j + m = N" using q by simp
      qed simp
      then show ?thesis using False assms by auto
    qed
    then show "f j * (\<Sum>k < N. cis (- (2 * pi * real (k * (j + m)) / real N))) =
        (if j = (N - m) mod N then of_nat N * f j else 0)"
      using sum_roots [of N "j + m"] assms by simp
  qed
  also have "\<dots> = of_nat N * f ((N - m) mod N)" using assms by simp
  finally show ?thesis .
qed

definition cscale :: "nat \<Rightarrow> ('a :: field) cpx \<Rightarrow> 'a cpx" where
  "cscale N a = (fst a / of_nat N, snd a / of_nat N)"

lemma cval_scale: "cval (cscale N a) = cval a / of_nat N"
  by (simp add: cval_def cscale_def complex_eq_iff)

lemma scale_at_run: "i < length x \<Longrightarrow> scale_at N i x = Inr (x[i := cscale N (x ! i)])"
  by (simp add: scale_at_def upd_res_def cscale_def split_def)

lemma ifft_step_run:
  "i < N \<Longrightarrow> 0 < i \<Longrightarrow> length x = N \<Longrightarrow>
   ifft_step N i x = Inr (x[i := cscale N (x ! (N - i)), N - i := cscale N (x ! i)])"
  by (simp add: ifft_step_def get_res_def put_res_def upd_res_def cscale_def split_def Let_def)

text \<open>The loop has exchanged and scaled what lies outside the middle.\<close>

lemma ifft_loop_run:
  assumes "N = 2 * M" "1 \<le> m" "m \<le> M" "length y = N"
    and "x = y[0 := cscale N (y ! 0), M := cscale N (y ! M)]"
  shows "\<exists>z. fold_res (ifft_step N) [1..<m] x = Inr z \<and> length z = N \<and>
    (\<forall>i < N. z ! i = (if i < m \<or> i = M \<or> N - m < i then cscale N (y ! ((N - i) mod N)) else y ! i))"
  using assms(2,3)
proof (induction m)
  case (Suc m)
  show ?case
  proof (cases "m = 0")
    case True
    have "(if i < Suc m \<or> i = M \<or> N - Suc m < i then cscale N (y ! ((N - i) mod N)) else y ! i) = x ! i" if "i < N" for i
      using that Suc.prems True assms(1,4) by (auto simp: assms(5) nth_list_update)
    then show ?thesis using True assms(4,5) by simp
  next
    case False
    then obtain z where z: "fold_res (ifft_step N) [1..<m] x = Inr z" "length z = N"
      "\<And>i. i < N \<Longrightarrow> z ! i = (if i < m \<or> i = M \<or> N - m < i then cscale N (y ! ((N - i) mod N)) else y ! i)"
      using Suc by auto
    let ?w = "z[m := cscale N (z ! (N - m)), N - m := cscale N (z ! m)]"
    have m: "0 < m" "m < M" "m < N" "N - m < N" "N - m \<noteq> m" using False Suc.prems assms(1) by simp_all
    have "\<not> (m < m \<or> m = M \<or> N - m < m)" "\<not> (N - m < m \<or> N - m = M \<or> N - m < N - m)"
      using m assms(1) by linarith+
    then have zm: "z ! m = y ! m" "z ! (N - m) = y ! (N - m)"
      using z(3) [OF m(3)] z(3) [OF m(4)] by (simp_all only: if_False)
    have "?w ! i = (if i < Suc m \<or> i = M \<or> N - Suc m < i then cscale N (y ! ((N - i) mod N)) else y ! i)"
      if "i < N" for i
    proof -
      consider "i = m" | "i = N - m" | "i \<noteq> m" "i \<noteq> N - m" by blast
      then show ?thesis
      proof cases
        case 1
        then show ?thesis using m z(2) zm by simp
      next
        case 2
        have "N - Suc m < N - m" "(N - (N - m)) mod N = m" using m by simp_all
        with 2 show ?thesis using m z(2) zm by (simp del: diff_diff_cancel)
      next
        case 3
        have "(i < Suc m \<or> i = M \<or> N - Suc m < i) = (i < m \<or> i = M \<or> N - m < i)"
          using 3 m by linarith
        with 3 show ?thesis using z(3) [OF that] by (simp only: nth_list_update_neq)
      qed
    qed
    moreover have "ifft_step N m z = Inr ?w" by (rule ifft_step_run) (use m z in simp_all)
    ultimately show ?thesis using z(1,2) m by (simp add: fold_res_append)
  qed
qed simp



end
