(* ===== verification/Syn_Dpi.thy ===== *)
theory Syn_Dpi
  imports Dpi_Dft
begin

text \<open>
  The gateway of the testbench to the C functions (\<^verbatim>\<open>syn_dpi.c\<close>): the spectrum of an array of
  samples.  A SystemVerilog open array is what the accessors of the simulator's interface report
  of it: its bounds (\<^verbatim>\<open>svLeft\<close>, \<^verbatim>\<open>svRight\<close>) and its elements by index
  (\<^verbatim>\<open>svGetArrElemPtr1\<close>).  The contents of fresh memory are arguments; the messages on the
  simulator's console are left out.
\<close>

section \<open>syn\_dpi.c\<close>

record 'a open_array =
  sv_left :: int
  sv_right :: int
  sv_elem :: "int \<Rightarrow> 'a"

definition put_int :: "int \<Rightarrow> 'a \<Rightarrow> 'a list \<Rightarrow> 'a list res" where
  "put_int i v xs = (if 0 \<le> i then put_res (nat i) v xs else Inl (Bad_write (nat (- i))))"

definition get_int :: "'a list \<Rightarrow> int \<Rightarrow> 'a res" where
  "get_int xs i = (if 0 \<le> i then get_res xs (nat i) else Inl (Bad_read (nat (- i))))"

definition pack_in :: "'a open_array \<Rightarrow> ('a :: field) cpx list \<Rightarrow> 'a cpx list res" where
  "pack_in h x = fold_res (\<lambda>i. put_int i (sv_elem h i, 0)) [sv_left h..sv_right h] x"

definition pack_out :: "('a cpx \<Rightarrow> 'a) \<Rightarrow> 'a cpx list \<Rightarrow> 'a open_array \<Rightarrow> 'a open_array res" where
  "pack_out sel X h = fold_res (\<lambda>i h. ebind (get_int X i) (\<lambda>v. Inr (h\<lparr>sv_elem := (sv_elem h)(i := sel v)\<rparr>)))
     [sv_left h..sv_right h] h"

definition syn_calc_fft ::
  "(nat \<Rightarrow> nat \<Rightarrow> 'a \<times> 'a) \<Rightarrow> ('a :: field) cpx list \<Rightarrow> 'a cpx list \<Rightarrow> 'a cpx list \<Rightarrow> nat \<Rightarrow>
   'a open_array \<Rightarrow> 'a open_array \<Rightarrow> 'a open_array \<Rightarrow> ('a open_array \<times> 'a open_array) res option" where
  "syn_calc_fft tw x X scratch num_samples data_in data_out_re data_out_im =
     (case pack_in data_in x of Inl e \<Rightarrow> Some (Inl e) | Inr x \<Rightarrow>
      map_option (\<lambda>r. ebind r (\<lambda>X.
        ebind (pack_out fst X data_out_re) (\<lambda>re.
        ebind (pack_out snd X data_out_im) (\<lambda>im. Inr (re, im))))) (fft tw scratch num_samples x X))"

text \<open>The two arrays behind the pointers of \<^verbatim>\<open>svGetArrayPtr\<close>; \<open>sq\<close> is the square root.\<close>

definition syn_calc_complex_abs :: "('a :: field \<Rightarrow> 'a) \<Rightarrow> nat \<Rightarrow> 'a list \<Rightarrow> 'a list \<Rightarrow> 'a list res" where
  "syn_calc_complex_abs sq sz re im =
     fold_res (\<lambda>i. upd_res i (\<lambda>a. ebind (get_res im i) (\<lambda>b. Inr (sq (a * a + b * b))))) [0..<sz] re"

definition syn_calc_shade :: "int \<Rightarrow> int \<Rightarrow> int \<Rightarrow> 'a :: field" where
  "syn_calc_shade distance nrm color = (of_int nrm - of_int distance) / of_int nrm * of_int color"

section \<open>The spectrum\<close>

lemma upto_upt: "[0..int n - 1] = map int [0..<n]"
  by (intro nth_equalityI) simp_all

lemma put_all_run:
  assumes "length x = N"
  shows "fold_res (\<lambda>i. put_int i (g i)) [0..int N - 1] x = Inr (map (\<lambda>j. g (int j)) [0..<N])"
proof -
  have f: "fold_res (\<lambda>i. put_int i (g i)) (map int js) y =
      fold_res (\<lambda>i. upd_res i (\<lambda>_. Inr (g (int i)))) js y" for js y
    by (induction js arbitrary: y) (simp_all add: put_int_def put_res_def cong: ebind_cong)
  show ?thesis
    unfolding upto_upt f
    using fold_upd_res [of N x "\<lambda>i _. Inr (g (int i))" "\<lambda>i. g (int i)"] assms by simp
qed

lemma pack_in_run:
  assumes "sv_left h = 0" "sv_right h = int N - 1" "length x = N"
  shows "pack_in h x = Inr (map (\<lambda>j. (sv_elem h (int j), 0)) [0..<N])"
  unfolding pack_in_def assms(1,2) using put_all_run [OF assms(3)] by simp

lemma pack_out_run:
  assumes "sv_left h = 0" "sv_right h = int N - 1" "length X = N"
  shows "\<exists>h'. pack_out sel X h = Inr h' \<and> sv_left h' = 0 \<and> sv_right h' = int N - 1 \<and>
    (\<forall>k < N. sv_elem h' (int k) = sel (X ! k))"
proof -
  have "\<exists>h'. fold_res (\<lambda>i h. ebind (get_int X i) (\<lambda>v. Inr (h\<lparr>sv_elem := (sv_elem h)(i := sel v)\<rparr>)))
      (map int [0..<n]) h = Inr h' \<and> sv_left h' = 0 \<and> sv_right h' = int N - 1 \<and>
    (\<forall>k < n. sv_elem h' (int k) = sel (X ! k))" if "n \<le> N" for n
    using that
  proof (induction n)
    case (Suc n)
    then show ?case using assms(3) by (auto simp: fold_res_append get_int_def get_res_def less_Suc_eq)
  qed (simp add: assms)
  then show ?thesis unfolding pack_out_def assms(1,2) upto_upt by blast
qed

lemma complex_abs_run:
  assumes "length re = N" "length im = N"
  shows "syn_calc_complex_abs sqrt N re im = Inr (map (\<lambda>i. cmod (Complex (re ! i) (im ! i))) [0..<N])"
  unfolding syn_calc_complex_abs_def
  using fold_upd_res [of N re "\<lambda>i a. ebind (get_res im i) (\<lambda>b. Inr (sqrt (a * a + b * b)))"
      "\<lambda>i. cmod (Complex (re ! i) (im ! i))"] assms
  by (simp add: get_res_def cmod_def power2_eq_square)



end
