(* ===== verification/Dpi_Image.thy ===== *)
theory Dpi_Image
  imports Syn_Dpi
begin

text \<open>
  The image files of the testbench (\<^verbatim>\<open>ppm.c\<close>, \<^verbatim>\<open>raw.c\<close> and their wrappers in
  \<^verbatim>\<open>syn_dpi.c\<close>).  \<open>opened\<close> says whether \<^verbatim>\<open>fopen\<close> succeeds; a result is the return value
  and the contents of the file, if there is one.  The files are opened in text mode: \<open>crlf\<close> says
  whether the platform stores a line feed as two characters.  The width and depth are natural numbers
  whose product fits the \<^verbatim>\<open>int\<close> that counts the pixels.
\<close>

section \<open>Text\<close>

definition dec_digit :: "nat \<Rightarrow> char" where
  "dec_digit n = (if n < 10 then ''0123456789'' ! n else CHR ''?'')"

fun dec :: "nat \<Rightarrow> string" where
  "dec n = (if n < 10 then [dec_digit n] else dec (n div 10) @ [dec_digit (n mod 10)])"

declare dec.simps [simp del]

text \<open>\<^verbatim>\<open>%3d\<close>\<close>

definition dec3 :: "nat \<Rightarrow> string" where
  "dec3 n = replicate (3 - length (dec n)) (CHR '' '') @ dec n"

definition NL :: char where "NL = CHR 0x0A"

definition stored :: "bool \<Rightarrow> string \<Rightarrow> string" where
  "stored crlf s = concat (map (\<lambda>c. if crlf \<and> c = NL then [CHR 0x0D, NL] else [c]) s)"

section \<open>ppm.c\<close>

definition ppm_header :: "string \<Rightarrow> nat \<Rightarrow> nat \<Rightarrow> string" where
  "ppm_header fname width depth =
     ''P3'' @ [NL] @ ''#  PPM File Name <'' @ fname @ ''>'' @ [NL] @
     dec width @ '' # Image Width'' @ [NL] @ dec depth @ '' # Image Depth'' @ [NL] @
     ''255'' @ [NL] @ [NL] @ ''#  RGB Data'' @ [NL]"

definition ppm_pixel :: "nat \<Rightarrow> u8 list \<Rightarrow> u8 list \<Rightarrow> u8 list \<Rightarrow> nat \<Rightarrow> string \<Rightarrow> string res" where
  "ppm_pixel width red green blue i out =
     ebind (get_res red i) (\<lambda>r. ebind (get_res green i) (\<lambda>g. ebind (get_res blue i) (\<lambda>b.
     Inr (out @ dec3 (unat r) @ '' '' @ dec3 (unat g) @ '' '' @ dec3 (unat b) @
       (if i \<noteq> 0 \<and> i mod width = 0 then [NL] else ''  '')))))"

definition dump_ppm :: "bool \<Rightarrow> bool \<Rightarrow> string \<Rightarrow> nat \<Rightarrow> nat \<Rightarrow> u8 list \<Rightarrow> u8 list \<Rightarrow> u8 list \<Rightarrow>
    (int \<times> string option) res" where
  "dump_ppm crlf opened fname width depth red green blue =
     (if \<not> opened then Inr (0, None)
      else ebind (fold_res (ppm_pixel width red green blue) [0..<width * depth] (ppm_header fname width depth))
        (\<lambda>s. Inr (1, Some (stored crlf s))))"

section \<open>raw.c\<close>

definition raw_pixel :: "u8 list \<Rightarrow> u8 list \<Rightarrow> u8 list \<Rightarrow> nat \<Rightarrow> string \<Rightarrow> string res" where
  "raw_pixel red green blue i out =
     ebind (get_res red i) (\<lambda>r. ebind (get_res green i) (\<lambda>g. ebind (get_res blue i) (\<lambda>b.
     Inr (out @ map (\<lambda>v. char_of (unat v)) [r, g, b]))))"

definition dump_raw :: "bool \<Rightarrow> bool \<Rightarrow> string \<Rightarrow> nat \<Rightarrow> nat \<Rightarrow> u8 list \<Rightarrow> u8 list \<Rightarrow> u8 list \<Rightarrow>
    (int \<times> string option) res" where
  "dump_raw crlf opened fname width depth red green blue =
     (if \<not> opened then Inr (0, None)
      else ebind (fold_res (raw_pixel red green blue) [0..<width * depth] [])
        (\<lambda>s. Inr (1, Some (stored crlf s))))"

section \<open>The wrappers\<close>

text \<open>\<open>p\<close> is a fresh array; an element of it that the loop does not reach keeps what it held.\<close>

definition copy_in :: "u8 open_array \<Rightarrow> u8 list \<Rightarrow> u8 list res" where
  "copy_in h p = fold_res (\<lambda>i. put_int i (sv_elem h i)) [sv_left h..sv_right h] p"

definition syn_dump_ppm :: "bool \<Rightarrow> bool \<Rightarrow> u8 list \<Rightarrow> u8 list \<Rightarrow> u8 list \<Rightarrow> string \<Rightarrow> nat \<Rightarrow> nat \<Rightarrow>
    u8 open_array \<Rightarrow> u8 open_array \<Rightarrow> u8 open_array \<Rightarrow> (int \<times> string option) res" where
  "syn_dump_ppm crlf opened pr pg pb fname width depth red green blue =
     ebind (copy_in red pr) (\<lambda>r. ebind (copy_in green pg) (\<lambda>g. ebind (copy_in blue pb) (\<lambda>b.
     dump_ppm crlf opened fname width depth r g b)))"

definition syn_dump_raw :: "bool \<Rightarrow> bool \<Rightarrow> u8 list \<Rightarrow> u8 list \<Rightarrow> u8 list \<Rightarrow> string \<Rightarrow> nat \<Rightarrow> nat \<Rightarrow>
    u8 open_array \<Rightarrow> u8 open_array \<Rightarrow> u8 open_array \<Rightarrow> (int \<times> string option) res" where
  "syn_dump_raw crlf opened pr pg pb fname width depth red green blue =
     ebind (copy_in red pr) (\<lambda>r. ebind (copy_in green pg) (\<lambda>g. ebind (copy_in blue pb) (\<lambda>b.
     dump_raw crlf opened fname width depth r g b)))"

section \<open>Reading a PPM file\<close>

text \<open>
  A reader of the plain PPM format: tokens are separated by white space, and a comment runs from a
  \<open>#\<close> to the end of its line.
\<close>

definition is_space :: "char \<Rightarrow> bool" where
  "is_space c \<longleftrightarrow> c \<in> {CHR '' '', NL, CHR 0x0D, CHR 0x09}"

definition flush :: "string \<Rightarrow> string list" where
  "flush w = (if w = [] then [] else [w])"

fun tokens :: "bool \<Rightarrow> string \<Rightarrow> string \<Rightarrow> string list" where
  "tokens c w [] = flush w"
| "tokens True w (x # xs) = (if x = NL then tokens False [] xs else tokens True [] xs)"
| "tokens False w (x # xs) =
     (if x = CHR ''#'' then flush w @ tokens True [] xs
      else if is_space x then flush w @ tokens False [] xs
      else tokens False (w @ [x]) xs)"

definition dec_val :: "string \<Rightarrow> nat" where
  "dec_val s = fold (\<lambda>c n. 10 * n + (of_char c - 48)) s 0"

fun triples :: "nat list \<Rightarrow> (nat \<times> nat \<times> nat) list" where
  "triples (r # g # b # xs) = (r, g, b) # triples xs"
| "triples _ = []"

definition read_ppm :: "string \<Rightarrow> (nat \<times> nat \<times> nat \<times> (nat \<times> nat \<times> nat) list) option" where
  "read_ppm s =
     (case tokens False [] s of
        m # w # h # x # ts \<Rightarrow> if m = ''P3'' then Some (dec_val w, dec_val h, dec_val x, triples (map dec_val ts)) else None
      | _ \<Rightarrow> None)"

text \<open>Decimal numbers are tokens of digits and read back.\<close>

lemma dec_digit_props:
  "list_all (\<lambda>n. of_char (dec_digit n) = n + 48 \<and> dec_digit n \<noteq> CHR ''#'' \<and> \<not> is_space (dec_digit n)) [0..<10]"
  by code_simp

lemma dec_digit_ok:
  "n < 10 \<Longrightarrow> of_char (dec_digit n) = n + 48" "n < 10 \<Longrightarrow> dec_digit n \<noteq> CHR ''#''"
  "n < 10 \<Longrightarrow> \<not> is_space (dec_digit n)"
  using dec_digit_props by (auto simp: list_all_iff simp del: upt_rec_numeral)

definition word_chars :: "string \<Rightarrow> bool" where
  "word_chars s \<longleftrightarrow> s \<noteq> [] \<and> (\<forall>c \<in> set s. c \<noteq> CHR ''#'' \<and> \<not> is_space c)"

lemma word_dec: "word_chars (dec n)"
proof (induction n rule: dec.induct)
  case (1 n)
  then show ?case
    using dec_digit_ok [of n] dec_digit_ok [of "n mod 10"]
    by (subst dec.simps) (auto simp: word_chars_def)
qed

lemma dec_val_dec: "dec_val (dec n) = n"
proof (induction n rule: dec.induct)
  case (1 n)
  show ?case
  proof (cases "n < 10")
    case False
    then show ?thesis
      using 1 dec_digit_ok(1) [of "n mod 10"] by (subst dec.simps) (simp add: dec_val_def)
  qed (use dec_digit_ok(1) [of n] in \<open>simp add: dec.simps dec_val_def\<close>)
qed

text \<open>The tokenizer on the pieces of a file.\<close>

lemma space_chars [simp]:
  "is_space (CHR '' '')" "is_space NL" "is_space (CHR 0x0D)" "NL \<noteq> CHR ''#''" "CHR 0x0D \<noteq> NL" "CHR '' '' \<noteq> NL"
  by (simp_all add: is_space_def NL_def)

lemma tokens_stored: "tokens c w (stored crlf s) = tokens c w s"
proof (induction s arbitrary: c w)
  case (Cons x s)
  then show ?case
    by (cases c; cases "x = NL") (auto simp: stored_def flush_def)
qed (simp add: stored_def)

lemma tokens_word: "word_chars u \<Longrightarrow> tokens False w (u @ xs) = tokens False (w @ u) xs"
proof -
  have "\<forall>c \<in> set u. c \<noteq> CHR ''#'' \<and> \<not> is_space c \<Longrightarrow> tokens False w (u @ xs) = tokens False (w @ u) xs"
    by (induction u arbitrary: w) auto
  then show "word_chars u \<Longrightarrow> tokens False w (u @ xs) = tokens False (w @ u) xs"
    by (simp add: word_chars_def)
qed

lemma tokens_space: "is_space x \<Longrightarrow> x \<noteq> CHR ''#'' \<Longrightarrow> tokens False w (x # xs) = flush w @ tokens False [] xs"
  by simp

lemma tokens_comment: "NL \<notin> set s \<Longrightarrow> tokens True w (s @ NL # xs) = tokens False [] xs"
  by (induction s arbitrary: w) auto

lemma tokens_line:
  "NL \<notin> set s \<Longrightarrow> tokens False w (CHR ''#'' # s @ NL # xs) = flush w @ tokens False [] xs"
  by (simp add: tokens_comment)

lemma flush_dec [simp]: "flush (dec n) = [dec n]" "dec n \<noteq> []"
  using word_dec [of n] by (simp_all add: flush_def word_chars_def)

lemma flush_nil [simp]: "flush [] = []"
  by (simp add: flush_def)

lemma tokens_blanks: "tokens False [] (replicate k (CHR '' '') @ xs) = tokens False [] xs"
  by (induction k) simp_all

lemma tokens_dec: "is_space x \<Longrightarrow> x \<noteq> CHR ''#'' \<Longrightarrow> tokens False [] (dec n @ x # xs) = dec n # tokens False [] xs"
  using tokens_word [OF word_dec, of "[]" n "x # xs"] by simp

lemma tokens_dec3: "is_space x \<Longrightarrow> x \<noteq> CHR ''#'' \<Longrightarrow> tokens False [] (dec3 n @ x # xs) = dec n # tokens False [] xs"
  by (simp add: dec3_def tokens_blanks tokens_dec)

section \<open>What the files hold\<close>

definition pixel_text :: "nat \<Rightarrow> u8 list \<Rightarrow> u8 list \<Rightarrow> u8 list \<Rightarrow> nat \<Rightarrow> string" where
  "pixel_text width red green blue i =
     dec3 (unat (red ! i)) @ '' '' @ dec3 (unat (green ! i)) @ '' '' @ dec3 (unat (blue ! i)) @
       (if i \<noteq> 0 \<and> i mod width = 0 then [NL] else ''  '')"

lemma fold_append:
  "(\<And>i out. i \<in> set is \<Longrightarrow> f i out = Inr (out @ g i)) \<Longrightarrow> fold_res f is out = Inr (out @ concat (map g is))"
  by (induction "is" arbitrary: out) simp_all

lemma tokens_header:
  "NL \<notin> set fname \<Longrightarrow>
   tokens False [] (ppm_header fname w d @ xs) = [''P3'', dec w, dec d, ''255''] @ tokens False [] xs"
proof -
  assume "NL \<notin> set fname"
  then have c: "NL \<notin> set (''  PPM File Name <'' @ fname @ ''>'')" by (simp add: NL_def)
  have e: "NL \<notin> set '' Image Width''" "NL \<notin> set '' Image Depth''" "NL \<notin> set ''  RGB Data''" by (simp_all add: NL_def)
  have t: "word_chars ''P3''" "word_chars ''255''" by (simp_all add: word_chars_def is_space_def NL_def)
  show ?thesis
    using tokens_line [OF c] tokens_line [OF e(1)] tokens_line [OF e(2)] tokens_line [OF e(3)]
      tokens_word [OF t(1)] tokens_word [OF t(2)]
    by (simp add: ppm_header_def tokens_dec flush_def)
qed

lemma tokens_pixels:
  "tokens False [] (concat (map (pixel_text width red green blue) is)) =
   concat (map (\<lambda>i. [dec (unat (red ! i)), dec (unat (green ! i)), dec (unat (blue ! i))]) is)"
proof (induction "is")
  case (Cons i js)
  have "tokens False [] (pixel_text width red green blue i @ xs) =
      [dec (unat (red ! i)), dec (unat (green ! i)), dec (unat (blue ! i))] @ tokens False [] xs" for xs
    by (simp add: pixel_text_def tokens_dec3)
  with Cons show ?case by simp
qed simp

lemma triples_concat: "triples (concat (map (\<lambda>i. [f i, g i, h i]) is)) = map (\<lambda>i. (f i, g i, h i)) is"
  by (induction "is") simp_all

lemma dump_ppm_run:
  assumes "NL \<notin> set fname" "width * depth \<le> length r" "width * depth \<le> length g" "width * depth \<le> length b"
  shows "\<exists>s. dump_ppm crlf True fname width depth r g b = Inr (1, Some s) \<and>
    read_ppm s = Some (width, depth, 255, map (\<lambda>i. (unat (r ! i), unat (g ! i), unat (b ! i))) [0..<width * depth])"
proof -
  have "fold_res (ppm_pixel width r g b) [0..<width * depth] (ppm_header fname width depth) =
      Inr (ppm_header fname width depth @ concat (map (pixel_text width r g b) [0..<width * depth]))"
    by (rule fold_append) (use assms in \<open>auto simp: ppm_pixel_def get_res_def pixel_text_def\<close>)
  moreover have "dec_val ''255'' = 255" by code_simp
  ultimately show ?thesis
    by (simp add: dump_ppm_def read_ppm_def tokens_stored tokens_header [OF assms(1)] tokens_pixels
        dec_val_dec map_concat o_def triples_concat)
qed

lemma copy_in_run:
  assumes "sv_left h = 0" "sv_right h = int N - 1" "length p = N"
  shows "copy_in h p = Inr (map (\<lambda>j. sv_elem h (int j)) [0..<N])"
  unfolding copy_in_def assms(1,2) by (rule put_all_run [OF assms(3)])

text \<open>
  C34.  Image round trip: for colour arrays indexed from 0 to \<open>width * depth - 1\<close> and a file name
  without a line feed, \<open>syn_dump_ppm\<close> returns 1 and the file, read as a plain PPM file, has the given
  width and depth, the maximum 255 and the colours of every pixel in order, with either convention
  for line ends; when the file cannot be opened the result is 0 and there is no file.
\<close>

theorem syn_dump_ppm_readable:
  assumes "NL \<notin> set fname" "\<forall>p \<in> {pr, pg, pb}. length p = width * depth"
    and "\<forall>h \<in> {red, green, blue}. sv_left h = 0 \<and> sv_right h = int (width * depth) - 1"
  shows "(\<exists>s. syn_dump_ppm crlf True pr pg pb fname width depth red green blue = Inr (1, Some s) \<and>
      read_ppm s = Some (width, depth, 255,
        map (\<lambda>i. (unat (sv_elem red (int i)), unat (sv_elem green (int i)), unat (sv_elem blue (int i))))
          [0..<width * depth])) \<and>
    syn_dump_ppm crlf False pr pg pb fname width depth red green blue = Inr (0, None)"
proof -
  let ?c = "\<lambda>h. map (\<lambda>j. sv_elem h (int j)) [0..<width * depth]"
  have c: "copy_in red pr = Inr (?c red)" "copy_in green pg = Inr (?c green)" "copy_in blue pb = Inr (?c blue)"
    by (rule copy_in_run; use assms in simp)+
  have m: "map (\<lambda>i. (unat (?c red ! i), unat (?c green ! i), unat (?c blue ! i))) [0..<width * depth] =
      map (\<lambda>i. (unat (sv_elem red (int i)), unat (sv_elem green (int i)), unat (sv_elem blue (int i)))) [0..<width * depth]"
    by simp
  obtain s where "dump_ppm crlf True fname width depth (?c red) (?c green) (?c blue) = Inr (1, Some s) \<and>
      read_ppm s = Some (width, depth, 255,
        map (\<lambda>i. (unat (?c red ! i), unat (?c green ! i), unat (?c blue ! i))) [0..<width * depth])"
    using dump_ppm_run [OF assms(1), of width depth "?c red" "?c green" "?c blue" crlf] by auto
  then show ?thesis
    unfolding syn_dump_ppm_def c ebind.simps m by (auto simp: dump_ppm_def [of _ False])
qed

theorem syn_dump_ppm_readable_witness:
  "\<exists>s. syn_dump_ppm True True [0, 0] [0, 0] [0, 0] ''a.ppm'' 2 1
      \<lparr>sv_left = 0, sv_right = 1, sv_elem = (\<lambda>i. 255)\<rparr> \<lparr>sv_left = 0, sv_right = 1, sv_elem = (\<lambda>i. 10)\<rparr>
      \<lparr>sv_left = 0, sv_right = 1, sv_elem = (\<lambda>i. 0)\<rparr> = Inr (1, Some s) \<and>
     read_ppm s = Some (2, 1, 255, [(255, 10, 0), (255, 10, 0)])"
proof -
  have f: "NL \<notin> set ''a.ppm''" by (simp add: NL_def)
  show ?thesis
    using syn_dump_ppm_readable [OF f, of "[0, 0]" "[0, 0]" "[0, 0]" 2 1
        "\<lparr>sv_left = 0, sv_right = 1, sv_elem = (\<lambda>i. 255)\<rparr>" "\<lparr>sv_left = 0, sv_right = 1, sv_elem = (\<lambda>i. 10)\<rparr>"
        "\<lparr>sv_left = 0, sv_right = 1, sv_elem = (\<lambda>i. 0)\<rparr>" True]
    by (simp add: upt_rec)
qed

lemma stored_same: "stored crlf s = s \<longleftrightarrow> \<not> (crlf \<and> NL \<in> set s)"
proof -
  have l: "length s \<le> length (stored crlf s)" for s
    by (induction s) (auto simp: stored_def)
  show ?thesis
  proof (induction s)
    case (Cons x s)
    have "stored crlf (x # s) \<noteq> x # s" if "crlf" "x = NL"
      using l [of s] that arg_cong [of "stored crlf (x # s)" "x # s" length] by (auto simp: stored_def)
    with Cons show ?case by (cases "crlf \<and> x = NL") (auto simp: stored_def)
  qed (simp add: stored_def)
qed

text \<open>
  C36.  The raw image: the file holds the red, green and blue value of every pixel in order, three
  bytes each, exactly when the platform does not translate line ends or no value is 10; because the
  file is opened in text mode, a value of 10 otherwise becomes two bytes and displaces all that
  follow.
\<close>

theorem syn_dump_raw_bytes:
  assumes "\<forall>p \<in> {pr, pg, pb}. length p = width * depth"
    and "\<forall>h \<in> {red, green, blue}. sv_left h = 0 \<and> sv_right h = int (width * depth) - 1"
  defines "bytes \<equiv> concat (map (\<lambda>i. map (\<lambda>h. sv_elem h (int i)) [red, green, blue]) [0..<width * depth])"
  shows "\<exists>s. syn_dump_raw crlf True pr pg pb fname width depth red green blue = Inr (1, Some s) \<and>
    (s = map (\<lambda>v. char_of (unat v)) bytes \<longleftrightarrow> \<not> crlf \<or> 10 \<notin> set bytes)"
proof -
  let ?c = "\<lambda>h. map (\<lambda>j. sv_elem h (int j)) [0..<width * depth]"
  let ?s = "map (\<lambda>v. char_of (unat v)) bytes"
  have c: "copy_in red pr = Inr (?c red)" "copy_in green pg = Inr (?c green)" "copy_in blue pb = Inr (?c blue)"
    by (rule copy_in_run; use assms(1,2) in simp)+
  have "fold_res (raw_pixel (?c red) (?c green) (?c blue)) [0..<width * depth] [] =
      Inr ([] @ concat (map (\<lambda>i. map (\<lambda>v. char_of (unat v)) (map (\<lambda>h. sv_elem h (int i)) [red, green, blue]))
        [0..<width * depth]))"
    by (rule fold_append) (auto simp: raw_pixel_def get_res_def)
  then have "syn_dump_raw crlf True pr pg pb fname width depth red green blue = Inr (1, Some (stored crlf ?s))"
    by (simp add: syn_dump_raw_def c dump_raw_def bytes_def map_concat o_def)
  moreover have nl: "char_of (unat v) = NL \<longleftrightarrow> v = 10" for v :: u8
  proof
    assume "char_of (unat v) = NL"
    then have "of_char (char_of (unat v) :: char) = (10 :: nat)" by (simp add: NL_def)
    then have "unat v = 10" using unsigned_less [of v, where ?'a = nat] by (simp add: of_char_of)
    then show "v = 10" by (simp add: word_unat_eq_iff)
  qed (simp add: NL_def char_of_def bit_0)
  have "NL \<in> set ?s \<longleftrightarrow> 10 \<in> set bytes"
    unfolding set_map image_iff eq_commute [of NL] nl by blast
  ultimately show ?thesis using stored_same [of crlf ?s] by auto
qed

theorem syn_dump_raw_bytes_witness:
  "\<exists>s. syn_dump_raw True True [0] [0] [0] ''a.raw'' 1 1
      \<lparr>sv_left = 0, sv_right = 0, sv_elem = (\<lambda>i. 255)\<rparr> \<lparr>sv_left = 0, sv_right = 0, sv_elem = (\<lambda>i. 10)\<rparr>
      \<lparr>sv_left = 0, sv_right = 0, sv_elem = (\<lambda>i. 0)\<rparr> = Inr (1, Some s) \<and>
     s \<noteq> map (\<lambda>v. char_of (unat v)) [255 :: u8, 10, 0]"
  using syn_dump_raw_bytes [of "[0]" "[0]" "[0]" 1 1
      "\<lparr>sv_left = 0, sv_right = 0, sv_elem = (\<lambda>i. 255)\<rparr>" "\<lparr>sv_left = 0, sv_right = 0, sv_elem = (\<lambda>i. 10)\<rparr>"
      "\<lparr>sv_left = 0, sv_right = 0, sv_elem = (\<lambda>i. 0)\<rparr>" True "''a.raw''"]
  by (auto simp: upt_rec)

end
