(* ===== verification/Dllist.thy ===== *)
theory Dllist
  imports Ledos_Prelude
begin

text \<open>
  Circular doubly linked lists with a header, the structure behind the alarms of the HAL and the
  timers and thread queues of the kernel.  The links are two maps from addresses to addresses;
  \<open>dl nx pv h xs\<close> says that the list with the header \<open>h\<close> holds the elements \<open>xs\<close>.
\<close>

definition dl :: "('p \<Rightarrow> 'p) \<Rightarrow> ('p \<Rightarrow> 'p) \<Rightarrow> 'p \<Rightarrow> 'p list \<Rightarrow> bool" where
  "dl nx pv h xs \<longleftrightarrow> distinct (h # xs) \<and> map nx (h # xs) = xs @ [h] \<and> map pv (xs @ [h]) = h # xs"

lemma dl_distinct: "dl nx pv h xs \<Longrightarrow> distinct (h # xs)"
  by (simp add: dl_def)

lemma dl_empty [simp]: "nx h = h \<Longrightarrow> pv h = h \<Longrightarrow> dl nx pv h []"
  by (simp add: dl_def)

lemma walk_forward:
  "f h # map f as @ bs = as @ p # cs \<longleftrightarrow> f h # map f as = as @ [p] \<and> bs = cs"
  using append_eq_append_conv [of "f h # map f as" "as @ [p]" bs cs] by simp

lemma walk_back:
  "map g as @ y # bs = h # as @ cs \<longleftrightarrow> map g as @ [y] = h # as \<and> bs = cs"
  using append_eq_append_conv [of "map g as @ [y]" "h # as" bs cs] by simp

lemma dl_split:
  assumes "dl nx pv h (xs @ ys)"
  shows "nx (last (h # xs)) = hd (ys @ [h])" "pv (hd (ys @ [h])) = last (h # xs)"
proof -
  show "nx (last (h # xs)) = hd (ys @ [h])"
    using assms by (cases xs rule: rev_cases; cases ys) (auto simp: dl_def walk_forward walk_back)
  show "pv (hd (ys @ [h])) = last (h # xs)"
    using assms by (cases xs rule: rev_cases; cases ys) (auto simp: dl_def walk_forward walk_back)
qed

lemma dl_first: "dl nx pv h xs \<Longrightarrow> nx h = hd (xs @ [h])"
  and dl_last: "dl nx pv h xs \<Longrightarrow> pv h = last (h # xs)"
  using dl_split [of nx pv h "[]" xs] dl_split [of nx pv h xs "[]"] by auto

lemma dl_cong:
  assumes "dl nx pv h xs" "\<And>p. p \<in> set (h # xs) \<Longrightarrow> nx' p = nx p \<and> pv' p = pv p"
  shows "dl nx' pv' h xs"
  using assms unfolding dl_def by (auto simp: map_eq_conv cong: map_cong)

section \<open>Inserting and removing\<close>

text \<open>\<open>e\<close> between its neighbours; the element \<open>e\<close> taken out.\<close>

lemma dl_insert:
  assumes "dl nx pv h (xs @ ys)" "e \<notin> set (h # xs @ ys)" "p = last (h # xs)" "q = hd (ys @ [h])"
  shows "dl (nx(e := q, p := e)) (pv(e := p, q := e)) h (xs @ e # ys)"
  using assms by (cases xs rule: rev_cases; cases ys) (auto simp: dl_def walk_forward walk_back)

lemma dl_remove:
  assumes "dl nx pv h (xs @ e # ys)" "p = last (h # xs)" "q = hd (ys @ [h])"
  shows "dl (nx(p := q)) (pv(q := p)) h (xs @ ys)"
  using assms by (cases xs rule: rev_cases; cases ys) (auto simp: dl_def walk_forward walk_back)

lemma dl_elem:
  assumes "dl nx pv h (xs @ e # ys)"
  shows "pv e = last (h # xs)" "nx e = hd (ys @ [h])"
  using dl_split(2) [OF assms] dl_split(1) [of nx pv h "xs @ [e]" ys] assms by simp_all

lemma dl_elem_neq:
  assumes "dl nx pv h (xs @ e # ys)"
  shows "pv e \<noteq> e" "nx e \<noteq> e"
proof -
  have "last (h # xs) \<in> set (h # xs)" by (rule last_in_set) simp
  then show "pv e \<noteq> e" using dl_distinct [OF assms] by (auto simp: dl_elem [OF assms])
  have "hd (ys @ [h]) \<in> set (ys @ [h])" by (rule hd_in_set) simp
  then show "nx e \<noteq> e" using dl_distinct [OF assms] by (auto simp: dl_elem [OF assms])
qed

text \<open>The list is determined by the links.\<close>

lemma map_walk_unique:
  "map nx (a # xs) = xs @ [h] \<Longrightarrow> map nx (a # ys) = ys @ [h] \<Longrightarrow> h \<notin> set xs \<Longrightarrow> h \<notin> set ys \<Longrightarrow> xs = ys"
proof (induction xs arbitrary: a ys)
  case Nil then show ?case by (cases ys) auto
next
  case (Cons x xs)
  then show ?case by (cases ys) auto
qed

lemma dl_unique: "dl nx pv h xs \<Longrightarrow> dl nx pv h ys \<Longrightarrow> xs = ys"
  unfolding dl_def by (rule map_walk_unique) auto

end
