(* ===== verification/Hal_Alarm.thy ===== *)
theory Hal_Alarm
  imports Dllist
begin

text \<open>
  The system clock of the HAL: the tick counter, the list of alarms and the handler of a clock tick
  (\<^verbatim>\<open>alt_tick.c\<close>, \<^verbatim>\<open>alt_alarm_start.c\<close>, \<^verbatim>\<open>sys/alt_alarm.h\<close>,
  \<^verbatim>\<open>sys/alt_llist.h\<close>, \<^verbatim>\<open>priv/alt_alarm.h\<close>).  Alarms are structures of the clients, linked
  into a circular list; each field of the structures is a map from addresses, so that writes through
  one pointer are seen through another.  What a callback function does is an argument of the
  model, as is the tick of the operating system that the handler ends with.
\<close>

section \<open>State\<close>

text \<open>
  Addresses: the headers of the lists are global variables, other structures are at a number; two
  members of a thread structure are lists themselves and have addresses of their own.
\<close>

datatype ptr = Null | alt_alarm_list | vtlist | rlist | At u32 | Waiting_at u32 | Msgqueue_at u32 | Ioq_at u32 | Mtx_at u32
  | Cond_at u32

record alarms =
  status :: u32
  alt_tick_rate :: u32
  alt_nticks_var :: u32
  l_next :: "ptr \<Rightarrow> ptr"
  l_prev :: "ptr \<Rightarrow> ptr"
  a_time :: "ptr \<Rightarrow> u32"
  a_callback :: "ptr \<Rightarrow> u32"
  a_rollover :: "ptr \<Rightarrow> u8"
  a_context :: "ptr \<Rightarrow> u32"

definition PIE_MSK :: u32 where "PIE_MSK = 1"

definition alt_irq_disable_all :: "'a alarms_scheme \<Rightarrow> u32 \<times> 'a alarms_scheme" where
  "alt_irq_disable_all s = (status s, s\<lparr>status := status s AND NOT PIE_MSK\<rparr>)"

definition alt_irq_enable_all :: "u32 \<Rightarrow> 'a alarms_scheme \<Rightarrow> 'a alarms_scheme" where
  "alt_irq_enable_all context s = s\<lparr>status := context\<rparr>"

section \<open>Linked lists\<close>

definition alt_llist_insert :: "ptr \<Rightarrow> ptr \<Rightarrow> 'a alarms_scheme \<Rightarrow> 'a alarms_scheme" where
  "alt_llist_insert hdr e s0 =
     (let s1 = s0\<lparr>l_prev := (l_prev s0)(e := hdr)\<rparr>;
          s2 = s1\<lparr>l_next := (l_next s1)(e := l_next s1 hdr)\<rparr>;
          s3 = s2\<lparr>l_prev := (l_prev s2)(l_next s2 hdr := e)\<rparr> in
      s3\<lparr>l_next := (l_next s3)(hdr := e)\<rparr>)"

definition alt_llist_remove :: "ptr \<Rightarrow> 'a alarms_scheme \<Rightarrow> 'a alarms_scheme" where
  "alt_llist_remove e s0 =
     (let s1 = s0\<lparr>l_prev := (l_prev s0)(l_next s0 e := l_prev s0 e)\<rparr>;
          s2 = s1\<lparr>l_next := (l_next s1)(l_prev s1 e := l_next s1 e)\<rparr>;
          s3 = s2\<lparr>l_prev := (l_prev s2)(e := e)\<rparr> in
      s3\<lparr>l_next := (l_next s3)(e := e)\<rparr>)"

section \<open>The clock and its alarms\<close>

definition alt_ticks_per_second :: "'a alarms_scheme \<Rightarrow> u32" where
  "alt_ticks_per_second s = alt_tick_rate s"

definition alt_sysclk_init :: "u32 \<Rightarrow> 'a alarms_scheme \<Rightarrow> int \<times> 'a alarms_scheme" where
  "alt_sysclk_init nticks s =
     (if alt_tick_rate s = 0 then (0, s\<lparr>alt_tick_rate := nticks\<rparr>) else (- 1, s))"

definition alt_nticks :: "'a alarms_scheme \<Rightarrow> u32" where
  "alt_nticks s = alt_nticks_var s"

text \<open>The error numbers of the C library.\<close>

definition EINVAL :: int where "EINVAL = 22"

definition ENOTSUP :: int where "ENOTSUP = 134"

definition alt_alarm_start :: "ptr \<Rightarrow> u32 \<Rightarrow> u32 \<Rightarrow> u32 \<Rightarrow> 'a alarms_scheme \<Rightarrow> int \<times> 'a alarms_scheme" where
  "alt_alarm_start alarm nticks callback context s0 =
     (if alt_ticks_per_second s0 \<noteq> 0 then
        (if alarm \<noteq> Null then
           (let s1 = s0\<lparr>a_callback := (a_callback s0)(alarm := callback), a_context := (a_context s0)(alarm := context)\<rparr>;
                (irq_context, s2) = alt_irq_disable_all s1;
                current_nticks = alt_nticks s2;
                s3 = s2\<lparr>a_time := (a_time s2)(alarm := nticks + current_nticks + 1)\<rparr>;
                s4 = s3\<lparr>a_rollover := (a_rollover s3)(alarm := if a_time s3 alarm < current_nticks then 1 else 0)\<rparr>;
                s5 = alt_llist_insert alt_alarm_list alarm s4 in
            (0, alt_irq_enable_all irq_context s5))
         else (- EINVAL, s0))
      else (- ENOTSUP, s0))"

definition alt_alarm_stop :: "ptr \<Rightarrow> 'a alarms_scheme \<Rightarrow> 'a alarms_scheme" where
  "alt_alarm_stop alarm s0 =
     (let (irq_context, s1) = alt_irq_disable_all s0 in
      alt_irq_enable_all irq_context (alt_llist_remove alarm s1))"

section \<open>A clock tick\<close>

type_synonym 's callbacks = "u32 \<Rightarrow> u32 \<Rightarrow> 's \<Rightarrow> (u32 \<times> 's) option"

text \<open>The body of the loop for one alarm.\<close>

definition alarm_rearm :: "ptr \<Rightarrow> u32 \<Rightarrow> 'a alarms_scheme \<Rightarrow> 'a alarms_scheme" where
  "alarm_rearm alarm next_callback s0 =
     (let s1 = s0\<lparr>a_time := (a_time s0)(alarm := a_time s0 alarm + next_callback)\<rparr> in
      if a_time s1 alarm < alt_nticks_var s1 then s1\<lparr>a_rollover := (a_rollover s1)(alarm := 1)\<rparr> else s1)"

definition alarm_visit :: "'a alarms_scheme callbacks \<Rightarrow> ptr \<Rightarrow> 'a alarms_scheme \<Rightarrow> 'a alarms_scheme option" where
  "alarm_visit call alarm s0 =
     (let s1 = (if a_rollover s0 alarm \<noteq> 0 \<and> alt_nticks_var s0 = 0
                then s0\<lparr>a_rollover := (a_rollover s0)(alarm := 0)\<rparr> else s0) in
      if a_time s1 alarm \<le> alt_nticks_var s1 \<and> a_rollover s1 alarm = 0 then
        Option.bind (call (a_callback s1 alarm) (a_context s1 alarm) s1) (\<lambda>(next_callback, s2).
        Some (if next_callback = 0 then alt_alarm_stop alarm s2 else alarm_rearm alarm next_callback s2))
      else Some s1)"

partial_function (option) alarm_loop ::
  "'a alarms_scheme callbacks \<Rightarrow> ptr \<Rightarrow> 'a alarms_scheme \<Rightarrow> 'a alarms_scheme option" where
  "alarm_loop call alarm s =
     (if alarm \<noteq> alt_alarm_list then
        (let nxt = l_next s alarm in
         Option.bind (alarm_visit call alarm s) (\<lambda>s'. alarm_loop call nxt s'))
      else Some s)"

lemmas [code] = alarm_loop.simps

definition alt_tick ::
  "'a alarms_scheme callbacks \<Rightarrow> ('a alarms_scheme \<Rightarrow> 'a alarms_scheme option) \<Rightarrow>
   'a alarms_scheme \<Rightarrow> 'a alarms_scheme option" where
  "alt_tick call os_time_tick s =
     (let alarm = l_next s alt_alarm_list;
          s1 = s\<lparr>alt_nticks_var := alt_nticks_var s + 1\<rparr> in
      Option.bind (alarm_loop call alarm s1) os_time_tick)"

end
