(* ===== verification/Hal_Alarm_Props.thy ===== *)
theory Hal_Alarm_Props
  imports Hal_Alarm
begin

text \<open>
  The alarms as countdowns.  \<open>alarms_are s as\<close> relates the memory to a list of alarms with the number
  of ticks until they expire; a tick counts all of them down by one, also when the 32 bit tick
  counter wraps around.
\<close>

section \<open>The list operations\<close>

lemma insert_links:
  assumes "dl (l_next s) (l_prev s) h xs" "e \<notin> set (h # xs)"
  shows "dl (l_next (alt_llist_insert h e s)) (l_prev (alt_llist_insert h e s)) h (e # xs)"
  using dl_insert [of _ _ h "[]" xs e h "l_next s h"] assms dl_first [OF assms(1)]
  by (simp add: alt_llist_insert_def Let_def)

lemma remove_links:
  assumes "dl (l_next s) (l_prev s) h (xs @ e # ys)"
  shows "dl (l_next (alt_llist_remove e s)) (l_prev (alt_llist_remove e s)) h (xs @ ys)"
proof -
  note el = dl_elem [OF assms] and d = dl_distinct [OF assms]
  have ne: "e \<notin> set (h # xs @ ys)" using d by auto
  have "dl ((l_next s)(l_prev s e := l_next s e)) ((l_prev s)(l_next s e := l_prev s e)) h (xs @ ys)"
    by (rule dl_remove [OF assms]) (simp_all add: el)
  then show ?thesis
    by (rule dl_cong) (use ne dl_elem_neq [OF assms] in \<open>auto simp: alt_llist_remove_def Let_def\<close>)
qed

lemma link_frame [simp]:
  "status (alt_llist_insert h e s) = status s" "status (alt_llist_remove e s) = status s"
  "alt_nticks_var (alt_llist_insert h e s) = alt_nticks_var s" "alt_nticks_var (alt_llist_remove e s) = alt_nticks_var s"
  "a_time (alt_llist_insert h e s) = a_time s" "a_time (alt_llist_remove e s) = a_time s"
  "a_rollover (alt_llist_insert h e s) = a_rollover s" "a_rollover (alt_llist_remove e s) = a_rollover s"
  "a_callback (alt_llist_insert h e s) = a_callback s" "a_callback (alt_llist_remove e s) = a_callback s"
  "a_context (alt_llist_insert h e s) = a_context s" "a_context (alt_llist_remove e s) = a_context s"
  "alt_tick_rate (alt_llist_insert h e s) = alt_tick_rate s" "alt_tick_rate (alt_llist_remove e s) = alt_tick_rate s"
  "alarms.more (alt_llist_insert h e s) = alarms.more s" "alarms.more (alt_llist_remove e s) = alarms.more s"
  by (simp_all add: alt_llist_insert_def alt_llist_remove_def Let_def)

lemma stop_simp: "alt_alarm_stop p s = alt_llist_remove p s"
  by (simp add: alt_alarm_stop_def alt_irq_disable_all_def alt_irq_enable_all_def alt_llist_remove_def Let_def)

section \<open>Alarms as countdowns\<close>

text \<open>The alarm at \<open>p\<close> expires in \<open>d\<close> ticks; the same while the tick is handled and \<open>p\<close> is still to be visited.\<close>

definition armed :: "'a alarms_scheme \<Rightarrow> ptr \<Rightarrow> nat \<Rightarrow> bool" where
  "armed s p d \<longleftrightarrow> 0 < d \<and> d < 2 ^ 32 \<and>
     (a_rollover s p = 0 \<and> unat (a_time s p) = unat (alt_nticks_var s) + d \<or>
      a_rollover s p = 1 \<and> unat (a_time s p) + 2 ^ 32 = unat (alt_nticks_var s) + d)"

definition due_in :: "'a alarms_scheme \<Rightarrow> ptr \<Rightarrow> nat \<Rightarrow> bool" where
  "due_in s p d \<longleftrightarrow> 0 < d \<and> d < 2 ^ 32 \<and>
     (a_rollover s p = 0 \<and> 0 < unat (alt_nticks_var s) \<and> unat (a_time s p) + 1 = unat (alt_nticks_var s) + d \<or>
      a_rollover s p = 1 \<and> unat (a_time s p) + 1 =
        (if alt_nticks_var s = 0 then d else unat (alt_nticks_var s) + d - 2 ^ 32))"

definition alarms_are :: "'a alarms_scheme \<Rightarrow> (ptr \<times> nat) list \<Rightarrow> bool" where
  "alarms_are s as \<longleftrightarrow> dl (l_next s) (l_prev s) alt_alarm_list (map fst as) \<and> (\<forall>p d. (p, d) \<in> set as \<longrightarrow> armed s p d)"

lemma unat_inc: "unat (x + 1) = (if x + 1 = 0 then 0 else unat x + 1)" "x + 1 = 0 \<Longrightarrow> unat x = 2 ^ 32 - 1" for x :: u32
proof -
  show "unat (x + 1) = (if x + 1 = 0 then 0 else unat x + 1)" using unatSuc [of x] by (simp add: add.commute)
  assume "x + 1 = 0"
  then have "x = - 1" by (simp add: eq_neg_iff_add_eq_0)
  then show "unat x = 2 ^ 32 - 1" by (simp add: unsigned_minus_1_eq_mask mask_eq_exp_minus_1)
qed

lemma tick_due: "armed s p d \<Longrightarrow> due_in (s\<lparr>alt_nticks_var := alt_nticks_var s + 1\<rparr>) p d"
proof -
  assume a: "armed s p d"
  have "unat (a_time s p) < 2 ^ 32" using unsigned_less [of "a_time s p"] by simp
  with a show ?thesis
    unfolding armed_def due_in_def using unat_inc(2) [of "alt_nticks_var s"]
    by (cases "alt_nticks_var s + 1 = 0") (auto simp: unat_inc(1))
qed


text \<open>One visit: an alarm that is not due only counts, one that is due is called.\<close>

definition uncover :: "ptr \<Rightarrow> 'a alarms_scheme \<Rightarrow> 'a alarms_scheme" where
  "uncover p s = (if a_rollover s p \<noteq> 0 \<and> alt_nticks_var s = 0 then s\<lparr>a_rollover := (a_rollover s)(p := 0)\<rparr> else s)"

lemma visit_waits:
  assumes "due_in s p d" "1 < d"
  shows "alarm_visit call p s = Some (uncover p s)" "armed (uncover p s) p (d - 1)"
proof -
  have t: "unat (a_time s p) < 2 ^ 32" "unat (alt_nticks_var s) < 2 ^ 32"
    using unsigned_less [of "a_time s p"] unsigned_less [of "alt_nticks_var s"] by simp_all
  show "armed (uncover p s) p (d - 1)"
    using assms t by (auto simp: due_in_def armed_def uncover_def unat_eq_0 split: if_splits)
  show "alarm_visit call p s = Some (uncover p s)"
    using assms t
    by (auto simp: due_in_def alarm_visit_def uncover_def word_le_nat_alt split: if_splits)
qed

lemma visit_fires:
  assumes "due_in s p 1"
  shows "alarm_visit call p s = Option.bind (call (a_callback s p) (a_context s p) (uncover p s)) (\<lambda>(n, s').
      Some (if n = 0 then alt_alarm_stop p s' else alarm_rearm p n s'))"
    "a_rollover (uncover p s) p = 0" "a_time (uncover p s) p = alt_nticks_var s"
proof -
  have t: "unat (a_time s p) < 2 ^ 32" "unat (alt_nticks_var s) < 2 ^ 32"
    using unsigned_less [of "a_time s p"] unsigned_less [of "alt_nticks_var s"] by simp_all
  show tm: "a_time (uncover p s) p = alt_nticks_var s" "a_rollover (uncover p s) p = 0"
    using assms t by (auto simp: due_in_def uncover_def word_unat_eq_iff split: if_splits)
  have "a_callback (uncover p s) = a_callback s" "a_context (uncover p s) = a_context s"
    "alt_nticks_var (uncover p s) = alt_nticks_var s"
    by (simp_all add: uncover_def)
  with tm show "alarm_visit call p s = Option.bind (call (a_callback s p) (a_context s p) (uncover p s)) (\<lambda>(n, s').
      Some (if n = 0 then alt_alarm_stop p s' else alarm_rearm p n s'))"
    by (simp add: alarm_visit_def Let_def flip: uncover_def)
qed

lemma rearm_armed:
  assumes "a_time s p = alt_nticks_var s" "a_rollover s p = 0" "n \<noteq> 0"
  shows "armed (alarm_rearm p n s) p (unat n)"
proof -
  let ?t = "alt_nticks_var s + n"
  have b: "unat n < 2 ^ 32" "0 < unat n" "unat (alt_nticks_var s) < 2 ^ 32"
    using assms(3) unsigned_less [of n] unsigned_less [of "alt_nticks_var s"] by (simp_all add: unat_gt_0)
  have "unat ?t = unat (alt_nticks_var s) + unat n \<and> \<not> ?t < alt_nticks_var s \<or>
      unat ?t + 2 ^ 32 = unat (alt_nticks_var s) + unat n \<and> ?t < alt_nticks_var s"
    using b unat_plus_if' [of "alt_nticks_var s" n] by (auto simp: word_less_nat_alt split: if_splits)
  with assms b show ?thesis by (auto simp: alarm_rearm_def armed_def)
qed


section \<open>A tick\<close>

text \<open>The specification: callbacks as functions of the state of their clients, called newest alarm first.\<close>

type_synonym 'a client = "u32 \<Rightarrow> u32 \<Rightarrow> 'a \<Rightarrow> u32 \<times> 'a"

fun tick_alarms :: "'a client \<Rightarrow> (ptr \<Rightarrow> u32) \<Rightarrow> (ptr \<Rightarrow> u32) \<Rightarrow> (ptr \<times> nat) list \<Rightarrow> 'a \<Rightarrow> (ptr \<times> nat) list \<times> 'a" where
  "tick_alarms cb f c [] m = ([], m)"
| "tick_alarms cb f c ((p, d) # as) m =
     (if 1 < d then let (as', m') = tick_alarms cb f c as m in ((p, d - 1) # as', m')
      else let (n, m1) = cb (f p) (c p) m; (as', m') = tick_alarms cb f c as m1 in
        (if n = 0 then as' else (p, unat n) # as', m'))"

text \<open>Callbacks that do not use the alarms themselves.\<close>

definition quiet :: "'a client \<Rightarrow> 'a alarms_scheme callbacks \<Rightarrow> bool" where
  "quiet cb call \<longleftrightarrow> (\<forall>f c s. call f c s =
     (let (n, m) = cb f c (alarms.more s) in Some (n, alarms.more_update (\<lambda>_. m) s)))"

lemma frame_cong:
  assumes "a_rollover s' q = a_rollover s q" "a_time s' q = a_time s q" "alt_nticks_var s' = alt_nticks_var s"
  shows "armed s' q d = armed s q d" "due_in s' q d = due_in s q d"
  using assms by (simp_all add: armed_def due_in_def)

definition same_but :: "ptr \<Rightarrow> 'a alarms_scheme \<Rightarrow> 'a alarms_scheme \<Rightarrow> bool" where
  "same_but p s s' \<longleftrightarrow> (\<forall>q. q \<noteq> p \<longrightarrow> a_rollover s' q = a_rollover s q \<and> a_time s' q = a_time s q) \<and>
     alt_nticks_var s' = alt_nticks_var s \<and> a_callback s' = a_callback s \<and> a_context s' = a_context s \<and>
     status s' = status s \<and> alt_tick_rate s' = alt_tick_rate s"

lemma visit_run:
  assumes "quiet cb call" "dl (l_next s) (l_prev s) alt_alarm_list (us @ p # vs)" "due_in s p d"
  obtains s1 x where "alarm_visit call p s = Some s1" "same_but p s s1"
    "dl (l_next s1) (l_prev s1) alt_alarm_list (us @ map fst x @ vs)" "\<forall>q e. (q, e) \<in> set x \<longrightarrow> armed s1 q e"
    "\<And>as. tick_alarms cb (a_callback s) (a_context s) ((p, d) # as) (alarms.more s) =
       (let (as', m') = tick_alarms cb (a_callback s) (a_context s) as (alarms.more s1) in (x @ as', m'))"
    "set (map fst x) \<subseteq> {p}"
proof (cases "1 < d")
  case True
  note v = visit_waits [OF assms(3) True]
  show ?thesis
    by (rule that [of "uncover p s" "[(p, d - 1)]"])
      (use v assms(2) True in \<open>auto simp: uncover_def same_but_def\<close>)
next
  case False
  then have d: "d = 1" using assms(3) by (simp add: due_in_def)
  note v = visit_fires [OF assms(3) [unfolded d]]
  obtain n m where nm: "cb (a_callback s p) (a_context s p) (alarms.more s) = (n, m)" by force
  let ?s = "alarms.more_update (\<lambda>_. m) (uncover p s)"
  have u: "alarms.more (uncover p s) = alarms.more s" by (simp add: uncover_def)
  have run: "alarm_visit call p s = Some (if n = 0 then alt_alarm_stop p ?s else alarm_rearm p n ?s)"
    using assms(1) nm by (simp add: v(1) quiet_def u)
  have fr: "l_next ?s = l_next s" "l_prev ?s = l_prev s" "same_but p s ?s" "a_rollover ?s p = 0"
    "a_time ?s p = alt_nticks_var ?s"
    using v(2,3) by (auto simp: uncover_def same_but_def)
  show ?thesis
  proof (cases "n = 0")
    case True
    have "dl (l_next ?s) (l_prev ?s) alt_alarm_list (us @ p # vs)" using assms(2) fr by simp
    from remove_links [OF this] show ?thesis
      by (intro that [of "alt_llist_remove p ?s" "[]"])
        (use run fr nm True d in \<open>simp_all add: stop_simp same_but_def\<close>)
  next
    case False
    have "armed (alarm_rearm p n ?s) p (unat n)" using rearm_armed [OF fr(5,4) False] .
    then show ?thesis
      by (intro that [of "alarm_rearm p n ?s" "[(p, unat n)]"])
        (use run fr nm False d assms(2) in \<open>auto simp: alarm_rearm_def same_but_def Let_def\<close>)
  qed
qed

lemma loop_run:
  assumes "quiet cb call" "dl (l_next s) (l_prev s) alt_alarm_list (map fst (us @ as))"
    "\<forall>p d. (p, d) \<in> set us \<longrightarrow> armed s p d" "\<forall>p d. (p, d) \<in> set as \<longrightarrow> due_in s p d"
    "tick_alarms cb (a_callback s) (a_context s) as (alarms.more s) = (as', m')"
  shows "\<exists>s'. alarm_loop call (hd (map fst as @ [alt_alarm_list])) s = Some s' \<and>
    alarms_are s' (us @ as') \<and> alarms.more s' = m' \<and> alt_nticks_var s' = alt_nticks_var s \<and>
    a_callback s' = a_callback s \<and> a_context s' = a_context s \<and> status s' = status s \<and> alt_tick_rate s' = alt_tick_rate s"
  using assms(2-)
proof (induction as arbitrary: us s as')
  case Nil
  then show ?case by (simp add: alarm_loop.simps alarms_are_def)
next
  case (Cons a as)
  obtain p d where a: "a = (p, d)" by force
  have l: "dl (l_next s) (l_prev s) alt_alarm_list (map fst us @ p # map fst as)" using Cons.prems(1) a by simp
  have dist: "p \<noteq> alt_alarm_list" "p \<notin> set (map fst (us @ as))" using dl_distinct [OF l] by auto
  have "due_in s p d" using Cons.prems(3) a by simp
  then obtain s1 x where v: "alarm_visit call p s = Some s1" "same_but p s s1"
      "dl (l_next s1) (l_prev s1) alt_alarm_list (map fst us @ map fst x @ map fst as)"
      "\<forall>q e. (q, e) \<in> set x \<longrightarrow> armed s1 q e" "set (map fst x) \<subseteq> {p}"
    and t: "tick_alarms cb (a_callback s) (a_context s) ((p, d) # as) (alarms.more s) =
       (let (as', m') = tick_alarms cb (a_callback s) (a_context s) as (alarms.more s1) in (x @ as', m'))"
    by (rule visit_run [OF assms(1) l]) blast
  obtain as1 where as1: "tick_alarms cb (a_callback s) (a_context s) as (alarms.more s1) = (as1, m')" "as' = x @ as1"
    using Cons.prems(4) t a by (auto simp: Let_def split: prod.splits)
  have fr: "armed s1 q e = armed s q e \<and> due_in s1 q e = due_in s q e" if "(q, e) \<in> set (us @ as)" for q e
  proof -
    have "q \<noteq> p" using dist(2) that by force
    then show ?thesis using v(2) frame_cong [of s1 q s] by (simp add: same_but_def)
  qed
  have "armed s1 q e" if "(q, e) \<in> set (us @ x)" for q e
    using that Cons.prems(2) v(4) fr [of q e] by auto
  moreover have "due_in s1 q e" if "(q, e) \<in> set as" for q e
    using that Cons.prems(3) fr [of q e] by auto
  moreover have "a_callback s1 = a_callback s" "a_context s1 = a_context s" "alt_nticks_var s1 = alt_nticks_var s"
    "status s1 = status s" "alt_tick_rate s1 = alt_tick_rate s"
    using v(2) by (simp_all add: same_but_def)
  ultimately obtain s' where "alarm_loop call (hd (map fst as @ [alt_alarm_list])) s1 = Some s'"
      "alarms_are s' (us @ as')" "alarms.more s' = m'" "alt_nticks_var s' = alt_nticks_var s"
      "a_callback s' = a_callback s" "a_context s' = a_context s" "status s' = status s" "alt_tick_rate s' = alt_tick_rate s"
    using Cons.IH [of s1 "us @ x" as1] v(3) as1 by auto
  then show ?case
    using v(1) dist(1) dl_elem(2) [OF l] by (simp add: a alarm_loop.simps [of call p s] Let_def)
qed


text \<open>
  C17. A tick of the system clock implements the countdown of the alarms, the wrap-around of the tick
  counter included: with callbacks that leave the alarms alone it returns; every alarm is one tick
  nearer, the ones that were one tick away, and no others, are called, newest first, and are removed when their
  callback answers 0 and wait for as many ticks as it answers otherwise.  Then the operating system gets its tick.
\<close>

theorem alt_tick_counts_down:
  assumes "quiet cb call" "alarms_are s as"
    "tick_alarms cb (a_callback s) (a_context s) as (alarms.more s) = (as', m')"
  shows "\<exists>s'. alt_tick call os s = os s' \<and> alarms_are s' as' \<and> alarms.more s' = m' \<and>
    alt_nticks s' = alt_nticks s + 1 \<and> status s' = status s"
proof -
  let ?s = "s\<lparr>alt_nticks_var := alt_nticks_var s + 1\<rparr>"
  have d: "dl (l_next ?s) (l_prev ?s) alt_alarm_list (map fst ([] @ as))" "\<forall>p d. (p, d) \<in> set as \<longrightarrow> due_in ?s p d"
    using assms(2) by (auto simp: alarms_are_def intro!: tick_due)
  moreover have "l_next s alt_alarm_list = hd (map fst as @ [alt_alarm_list])"
    using dl_first [OF d(1)] by simp
  ultimately show ?thesis
    using loop_run [OF assms(1) d(1) _ d(2)] assms(3) by (auto simp: alt_tick_def alt_nticks_def)
qed

text \<open>Two alarms just before the tick counter wraps around; callbacks that count how often they are called.\<close>

definition two_alarms :: "nat alarms_scheme" where
  "two_alarms =
    \<lparr>status = 0, alt_tick_rate = 1000, alt_nticks_var = - 1,
     l_next = (\<lambda>p. p)(alt_alarm_list := At 8, At 8 := At 32, At 32 := alt_alarm_list),
     l_prev = (\<lambda>p. p)(alt_alarm_list := At 32, At 32 := At 8, At 8 := alt_alarm_list),
     a_time = (\<lambda>p. 0)(At 32 := 5), a_callback = (\<lambda>p. 3), a_rollover = (\<lambda>p. 1), a_context = (\<lambda>p. 0), \<dots> = 0\<rparr>"

definition counting :: "nat client" where
  "counting f c m = (f, m + 1)"

lemma two_alarms_are: "alarms_are two_alarms [(At 8, 1), (At 32, 6)]"
  by (auto simp: alarms_are_def two_alarms_def dl_def armed_def unsigned_minus_1_eq_mask mask_eq_exp_minus_1)

theorem alt_tick_counts_down_witness:
  "\<exists>s'. alt_tick (\<lambda>f c s. Some (f, alarms.more_update (\<lambda>_. alarms.more s + 1) s)) Some two_alarms = Some s' \<and>
    alarms_are s' [(At 8, 3), (At 32, 5)] \<and> alarms.more s' = 1 \<and> alt_nticks s' = 0"
proof -
  have q: "quiet counting (\<lambda>f c s. Some (f, alarms.more_update (\<lambda>_. alarms.more s + 1) s))"
    by (simp add: quiet_def counting_def)
  have "tick_alarms counting (a_callback two_alarms) (a_context two_alarms) [(At 8, 1), (At 32, 6)] (alarms.more two_alarms) =
      ([(At 8, 3), (At 32, 5)], 1)"
    by (simp add: two_alarms_def counting_def)
  from alt_tick_counts_down [OF q two_alarms_are this, of Some] show ?thesis
    by (auto simp: alt_nticks_def two_alarms_def)
qed

text \<open>
  C19. Starting an alarm: without a system clock the call answers \<open>-ENOTSUP\<close>, without an alarm \<open>-EINVAL\<close>, and
  changes nothing.  Otherwise it answers 0 and the alarm, in front of the others, expires in
  \<open>n + 1\<close> ticks, whatever the tick counter is.  For the largest \<open>n\<close> it is due at the next tick instead.
\<close>

theorem alt_alarm_start_arms:
  assumes "alarms_are s as" "p \<notin> set (map fst as)" "p \<noteq> alt_alarm_list"
  shows "(alt_tick_rate s = 0 \<longrightarrow> alt_alarm_start p n f c s = (- ENOTSUP, s)) \<and>
    (alt_tick_rate s \<noteq> 0 \<and> p = Null \<longrightarrow> alt_alarm_start p n f c s = (- EINVAL, s)) \<and>
    (alt_tick_rate s \<noteq> 0 \<and> p \<noteq> Null \<longrightarrow> (\<exists>s'. alt_alarm_start p n f c s = (0, s') \<and>
      a_callback s' p = f \<and> a_context s' p = c \<and> status s' = status s \<and>
      (if n \<noteq> - 1 then alarms_are s' ((p, unat n + 1) # as)
       else a_rollover s' p = 0 \<and> a_time s' p = alt_nticks s')))"
proof -
  let ?t = "n + alt_nticks_var s + 1" and ?n = "alt_nticks_var s"
  define s1 where "s1 = snd (alt_alarm_start p n f c s)"
  have "alarms_are s1 ((p, unat n + 1) # as)" if rate: "alt_tick_rate s \<noteq> 0" "p \<noteq> Null" "n \<noteq> - 1"
  proof -
    have n: "unat (n + 1) = unat n + 1" using unat_inc(1) [of n] rate(3) by (metis eq_neg_iff_add_eq_0)
    have b: "unat (n + 1) < 2 ^ 32" "unat ?n < 2 ^ 32" using unsigned_less [of "n + 1"] unsigned_less [of ?n] by simp_all
    have t: "?t = (n + 1) + ?n" by simp
    have time: "unat ?t = unat n + 1 + unat ?n \<and> \<not> ?t < ?n \<or> unat ?t + 2 ^ 32 = unat n + 1 + unat ?n \<and> ?t < ?n"
      unfolding t using b unat_plus_if' [of "n + 1" ?n] by (auto simp: word_less_nat_alt n split: if_splits)
    have st: "s1 = alt_llist_insert alt_alarm_list p (s\<lparr>a_callback := (a_callback s)(p := f), a_context := (a_context s)(p := c),
        a_time := (a_time s)(p := ?t), a_rollover := (a_rollover s)(p := if ?t < ?n then 1 else 0)\<rparr>)"
      using rate
      by (simp add: s1_def alt_alarm_start_def alt_ticks_per_second_def alt_irq_disable_all_def alt_irq_enable_all_def
          alt_nticks_def Let_def alt_llist_insert_def)
    have "dl (l_next s1) (l_prev s1) alt_alarm_list (p # map fst as)"
      unfolding st by (rule insert_links) (use assms in \<open>simp_all add: alarms_are_def\<close>)
    moreover have "armed s1 p (unat n + 1)" using time b n by (auto simp: st armed_def)
    moreover have "armed s1 q d" if "(q, d) \<in> set as" for q d
    proof -
      have "q \<noteq> p" using assms(2) that by force
      then have "armed s1 q d = armed s q d" by (intro frame_cong) (simp_all add: st)
      then show ?thesis using assms(1) that by (simp add: alarms_are_def)
    qed
    ultimately show ?thesis by (auto simp: alarms_are_def)
  qed
  then show ?thesis
    by (auto simp: s1_def alt_alarm_start_def alt_ticks_per_second_def alt_irq_disable_all_def alt_irq_enable_all_def
          alt_nticks_def Let_def)
qed


theorem alt_alarm_start_arms_witness:
  "\<exists>s'. alt_alarm_start (At 64) 9 1 2 two_alarms = (0, s') \<and> alarms_are s' [(At 64, 10), (At 8, 1), (At 32, 6)]"
proof -
  have "alt_tick_rate two_alarms \<noteq> 0" by (simp add: two_alarms_def)
  then show ?thesis using alt_alarm_start_arms [OF two_alarms_are, of "At 64" 9 1 2] by auto
qed

section \<open>Stopping the next alarm from a callback\<close>

text \<open>An alarm that was removed points to itself, so a loop that goes on with it does not end.\<close>

lemma self_loop:
  assumes "\<And>f c t n t'. call f c t = Some (n, t') \<Longrightarrow> l_next t q = q \<Longrightarrow> l_next t' q = q"
    and "q \<noteq> alt_alarm_list" "l_next s q = q"
  shows "alarm_loop call q s = None"
proof -
  have keep: "l_next s' q = q" if "alarm_visit call q s = Some s'" "l_next s q = q" for s s'
  proof -
    have "l_next (uncover q s) q = q" using that(2) by (simp add: uncover_def)
    then show ?thesis
      using that(1) assms(1) unfolding alarm_visit_def uncover_def [symmetric] Let_def
      by (auto simp: bind_eq_Some_conv alarm_rearm_def stop_simp alt_llist_remove_def Let_def split: if_splits)
  qed
  have "q = r \<longrightarrow> c = call \<longrightarrow> l_next s r \<noteq> r" if "alarm_loop c r s = Some y" for c r s y
    by (rule alarm_loop.raw_induct [OF _ that])
      (use assms(2) in \<open>auto simp: Let_def bind_eq_Some_conv split: if_splits dest!: keep\<close>)
  then show ?thesis using assms(3) by (cases "alarm_loop call q s") auto
qed

lemma alt_tick_stopped_next:
  assumes "alarms_are s ((p, 1) # (q, d) # as)"
    and "\<And>t. call (a_callback s p) (a_context s p) t = Some (n, alt_alarm_stop q t)"
    and "\<And>f c t n t'. call f c t = Some (n, t') \<Longrightarrow> l_next t q = q \<Longrightarrow> l_next t' q = q"
  shows "alt_tick call os s = None"
proof -
  let ?s = "s\<lparr>alt_nticks_var := alt_nticks_var s + 1\<rparr>"
  note d = assms(1) [unfolded alarms_are_def]
  have l: "l_next s alt_alarm_list = p" "l_next s p = q" "p \<noteq> alt_alarm_list" "q \<noteq> alt_alarm_list" "p \<noteq> q"
    using d by (auto simp: dl_def)
  have "armed s p 1" using d by auto
  then have "due_in ?s p 1" by (rule tick_due)
  note v = visit_fires(1) [OF this, of call]
  let ?t = "alt_llist_remove q (uncover p ?s)"
  define s' where "s' = (if n = 0 then alt_llist_remove p ?t else alarm_rearm p n ?t)"
  have v: "alarm_visit call p ?s = Some s'" using v assms(2) [of "uncover p ?s"] by (simp add: s'_def stop_simp)
  have "dl (l_next s) (l_prev s) alt_alarm_list ([] @ p # q # map fst as)"
    "dl (l_next s) (l_prev s) alt_alarm_list ([p] @ q # map fst as)" using d by simp_all
  note dp = dl_elem [OF this(1)] dl_elem [OF this(2)] dl_distinct [OF this(1)]
  have lp: "l_prev s p = alt_alarm_list" "l_next s q \<noteq> p" using dp by (simp, cases as) auto
  have u: "l_next (uncover p ?s) = l_next s" "l_prev (uncover p ?s) = l_prev s" by (simp_all add: uncover_def)
  have "l_next ?t q = q" "l_prev ?t p = alt_alarm_list"
    using lp l(5) by (simp_all add: alt_llist_remove_def Let_def u)
  then have n: "l_next s' q = q"
    using l by (simp add: s'_def alarm_rearm_def alt_llist_remove_def [of p] Let_def)
  have "alarm_loop call q s' = None" by (rule self_loop [OF assms(3) l(4) n])
  then show ?thesis
    using v l by (simp add: alt_tick_def alarm_loop.simps [of call p] Let_def)
qed

end
