(* ===== verification/Ch_Vt.thy ===== *)
theory Ch_Vt
  imports Hal_Alarm
begin

text \<open>
  The virtual timers of the kernel (\<^verbatim>\<open>chvt.c\<close>, \<^verbatim>\<open>chvt.h\<close>).  The timers are linked into a
  list in which every timer holds the number of ticks by which it expires after its predecessor; the header
  holds the largest time, which ends the searches.  What the functions of the timers do is an
  argument of the model.
\<close>

section \<open>State\<close>

text \<open>The functions a timer may call: none, the wake-up of the scheduler, or one of the application.\<close>

datatype vtfunc = No_func | Wakeup | Func u32

record vts = alarms +
  vt_next :: "ptr \<Rightarrow> ptr"
  vt_prev :: "ptr \<Rightarrow> ptr"
  vt_time :: "ptr \<Rightarrow> u32"
  vt_func :: "ptr \<Rightarrow> vtfunc"
  vt_par :: "ptr \<Rightarrow> ptr"
  vt_systime :: u32

section \<open>Operations\<close>

definition vt_init :: "'a vts_scheme \<Rightarrow> 'a vts_scheme" where
  "vt_init s = s\<lparr>vt_next := (vt_next s)(vtlist := vtlist), vt_prev := (vt_prev s)(vtlist := vtlist),
     vt_time := (vt_time s)(vtlist := - 1), vt_systime := 0\<rparr>"

partial_function (option) vt_seek :: "'a vts_scheme \<Rightarrow> ptr \<Rightarrow> u32 \<Rightarrow> (ptr \<times> u32) option" where
  "vt_seek s p time =
     (if vt_time s p < time then vt_seek s (vt_next s p) (time - vt_time s p) else Some (p, time))"

lemmas [code] = vt_seek.simps

definition vt_link :: "ptr \<Rightarrow> ptr \<Rightarrow> 'a vts_scheme \<Rightarrow> 'a vts_scheme" where
  "vt_link vtp p s0 =
     (let s1 = s0\<lparr>vt_next := (vt_next s0)(vtp := p)\<rparr>;
          s2 = s1\<lparr>vt_prev := (vt_prev s1)(vtp := vt_prev s1 p)\<rparr>;
          s3 = s2\<lparr>vt_prev := (vt_prev s2)(p := vtp)\<rparr> in
      s3\<lparr>vt_next := (vt_next s3)(vt_prev s2 vtp := vtp)\<rparr>)"

definition chVTSetI :: "ptr \<Rightarrow> u32 \<Rightarrow> vtfunc \<Rightarrow> ptr \<Rightarrow> 'a vts_scheme \<Rightarrow> 'a vts_scheme option" where
  "chVTSetI vtp time0 vtfunc par s0 =
     (let s1 = s0\<lparr>vt_par := (vt_par s0)(vtp := par), vt_func := (vt_func s0)(vtp := vtfunc)\<rparr> in
      Option.bind (vt_seek s1 (vt_next s1 vtlist) time0) (\<lambda>(p, time).
      let s2 = vt_link vtp p s1;
          s3 = s2\<lparr>vt_time := (vt_time s2)(vtp := time)\<rparr> in
      Some (if p \<noteq> vtlist then s3\<lparr>vt_time := (vt_time s3)(p := vt_time s3 p - time)\<rparr> else s3)))"

definition chVTResetI :: "ptr \<Rightarrow> 'a vts_scheme \<Rightarrow> 'a vts_scheme" where
  "chVTResetI vtp s0 =
     (let s1 = (if vt_next s0 vtp \<noteq> vtlist
                then s0\<lparr>vt_time := (vt_time s0)(vt_next s0 vtp := vt_time s0 (vt_next s0 vtp) + vt_time s0 vtp)\<rparr>
                else s0);
          s2 = s1\<lparr>vt_next := (vt_next s1)(vt_prev s1 vtp := vt_next s1 vtp)\<rparr>;
          s3 = s2\<lparr>vt_prev := (vt_prev s2)(vt_next s2 vtp := vt_prev s2 vtp)\<rparr> in
      s3\<lparr>vt_func := (vt_func s3)(vtp := No_func)\<rparr>)"

definition chVTIsArmedI :: "ptr \<Rightarrow> 'a vts_scheme \<Rightarrow> bool" where
  "chVTIsArmedI vtp s \<longleftrightarrow> vt_func s vtp \<noteq> No_func"

definition chTimeNow :: "'a vts_scheme \<Rightarrow> u32" where
  "chTimeNow s = vt_systime s"

definition chTimeElapsedSince :: "u32 \<Rightarrow> 'a vts_scheme \<Rightarrow> u32" where
  "chTimeElapsedSince start s = chTimeNow s - start"

definition chTimeIsWithin :: "u32 \<Rightarrow> u32 \<Rightarrow> 'a vts_scheme \<Rightarrow> bool" where
  "chTimeIsWithin start end s \<longleftrightarrow> chTimeElapsedSince start s < end - start"

section \<open>A tick\<close>

type_synonym 's vtcalls = "vtfunc \<Rightarrow> ptr \<Rightarrow> 's \<Rightarrow> 's option"

definition vt_unlink_first :: "ptr \<Rightarrow> 'a vts_scheme \<Rightarrow> 'a vts_scheme" where
  "vt_unlink_first vtp s0 =
     (let s1 = s0\<lparr>vt_func := (vt_func s0)(vtp := No_func)\<rparr>;
          s2 = s1\<lparr>vt_prev := (vt_prev s1)(vt_next s1 vtp := vtlist)\<rparr> in
      s2\<lparr>vt_next := (vt_next s2)(vtlist := vt_next s2 vtp)\<rparr>)"

partial_function (option) vt_expire :: "'a vts_scheme vtcalls \<Rightarrow> 'a vts_scheme \<Rightarrow> 'a vts_scheme option" where
  "vt_expire call s0 =
     (let vtp = vt_next s0 vtlist in
      if vt_time s0 vtp = 0 then
        (let fn = vt_func s0 vtp;
             s1 = vt_unlink_first vtp s0 in
         Option.bind (call fn (vt_par s1 vtp) s1) (\<lambda>s2. vt_expire call s2))
      else Some s0)"

lemmas [code] = vt_expire.simps

definition chVTDoTickI :: "'a vts_scheme vtcalls \<Rightarrow> 'a vts_scheme \<Rightarrow> 'a vts_scheme option" where
  "chVTDoTickI call s0 =
     (let s1 = s0\<lparr>vt_systime := vt_systime s0 + 1\<rparr> in
      if vt_next s1 vtlist \<noteq> vtlist then
        (let first = vt_next s1 vtlist in
         vt_expire call (s1\<lparr>vt_time := (vt_time s1)(first := vt_time s1 first - 1)\<rparr>))
      else Some s1)"

end
