(* ===== verification/Ch_Vt_Props.thy ===== *)
theory Ch_Vt_Props
  imports Ch_Vt
begin

text \<open>
  The virtual timers as a list of times.  \<open>timers_are s ts\<close> relates the delta list to the
  list \<open>ts\<close> of its timers with the number of ticks until each expires; setting and resetting
  a timer insert into and delete from that list, and a tick counts all of it down.
\<close>

record timer =
  tm_at :: ptr
  tm_in :: nat
  tm_func :: vtfunc
  tm_par :: ptr

primrec deltas :: "'a vts_scheme \<Rightarrow> nat \<Rightarrow> timer list \<Rightarrow> bool" where
  "deltas s b [] \<longleftrightarrow> True"
| "deltas s b (t # ts) \<longleftrightarrow> b \<le> tm_in t \<and> tm_in t < 2 ^ 32 \<and> unat (vt_time s (tm_at t)) = tm_in t - b \<and>
     deltas s (tm_in t) ts"

definition timers_are :: "'a vts_scheme \<Rightarrow> timer list \<Rightarrow> bool" where
  "timers_are s ts \<longleftrightarrow> dl (vt_next s) (vt_prev s) vtlist (map tm_at ts) \<and> vt_time s vtlist = - 1 \<and> deltas s 0 ts \<and>
     (\<forall>t \<in> set ts. vt_func s (tm_at t) = tm_func t \<and> vt_par s (tm_at t) = tm_par t \<and> tm_func t \<noteq> No_func)"

definition base_of :: "nat \<Rightarrow> timer list \<Rightarrow> nat" where
  "base_of b ts = (if ts = [] then b else tm_in (last ts))"

lemma at_neq: "t \<in> set ts \<Longrightarrow> p \<notin> tm_at ` set ts \<Longrightarrow> tm_at t \<noteq> p"
  by auto

lemma deltas_append [simp]: "deltas s b (xs @ ys) \<longleftrightarrow> deltas s b xs \<and> deltas s (base_of b xs) ys"
  by (induction xs arbitrary: b) (auto simp: base_of_def)

lemma deltas_cong: "(\<And>p. p \<in> tm_at ` set ts \<Longrightarrow> vt_time s' p = vt_time s p) \<Longrightarrow> deltas s' b ts = deltas s b ts"
  by (induction ts arbitrary: b) auto

lemma deltas_base: "deltas s b xs \<Longrightarrow> b \<le> base_of b xs \<and> (b < 2 ^ 32 \<longrightarrow> base_of b xs < 2 ^ 32)"
  by (induction xs arbitrary: b) (fastforce simp: base_of_def)+

section \<open>Setting a timer\<close>

definition insert_timer :: "timer \<Rightarrow> timer list \<Rightarrow> timer list" where
  "insert_timer x ts = takeWhile (\<lambda>t. tm_in t < tm_in x) ts @ x # dropWhile (\<lambda>t. tm_in t < tm_in x) ts"

lemma seek_run:
  assumes "dl (vt_next s) (vt_prev s) vtlist (map tm_at (xs @ ys))" "vt_time s vtlist = - 1" "deltas s b ys"
    "b \<le> n" "unat w = n - b" "n < 2 ^ 32"
  shows "vt_seek s (hd (map tm_at ys @ [vtlist])) w =
    Some (hd (map tm_at (dropWhile (\<lambda>t. tm_in t < n) ys) @ [vtlist]),
      of_nat (n - base_of b (takeWhile (\<lambda>t. tm_in t < n) ys)))"
  using assms
proof (induction ys arbitrary: xs b w)
  case Nil
  have "\<not> - 1 < w" by (simp add: not_less)
  moreover have "w = of_nat (n - b)" unfolding Nil.prems(5) [symmetric] by simp
  ultimately show ?case using Nil by (simp add: vt_seek.simps [of s vtlist] base_of_def)
next
  case (Cons y ys)
  let ?w = "vt_time s (tm_at y)"
  have y: "b \<le> tm_in y" "unat ?w = tm_in y - b" "deltas s (tm_in y) ys" using Cons.prems(3) by auto
  have l: "?w < w \<longleftrightarrow> tm_in y < n" using y Cons.prems(4,5) by (auto simp: word_less_nat_alt)
  have nx: "vt_next s (tm_at y) = hd (map tm_at ys @ [vtlist])"
    using dl_elem(2) [of "vt_next s" "vt_prev s" vtlist "map tm_at xs" "tm_at y"] Cons.prems(1) by simp
  show ?case
  proof (cases "tm_in y < n")
    case True
    have "unat (w - ?w) = n - tm_in y" using y True l Cons.prems(4,5) by (subst unat_sub) (auto simp: word_less_nat_alt word_le_nat_alt)
    then have "vt_seek s (hd (map tm_at ys @ [vtlist])) (w - ?w) =
        Some (hd (map tm_at (dropWhile (\<lambda>t. tm_in t < n) ys) @ [vtlist]),
          of_nat (n - base_of (tm_in y) (takeWhile (\<lambda>t. tm_in t < n) ys)))"
      using Cons.prems True y by (intro Cons.IH [of "xs @ [y]"]) auto
    moreover have "base_of (tm_in y) zs = base_of b (y # zs)" for zs by (simp add: base_of_def)
    ultimately show ?thesis using True l nx by (simp add: vt_seek.simps [of s "tm_at y"])
  next
    case False
    have "w = of_nat (n - b)" unfolding Cons.prems(5) [symmetric] by simp
    then show ?thesis using False l by (simp add: vt_seek.simps [of s "tm_at y"] base_of_def)
  qed
qed

lemma link_run:
  assumes "dl (vt_next s) (vt_prev s) vtlist (xs @ ys)" "e \<notin> set (vtlist # xs @ ys)"
  shows "dl (vt_next (vt_link e (hd (ys @ [vtlist])) s)) (vt_prev (vt_link e (hd (ys @ [vtlist])) s)) vtlist (xs @ e # ys)"
proof -
  let ?q = "hd (ys @ [vtlist])"
  have p: "vt_prev s ?q = last (vtlist # xs)" by (rule dl_split [OF assms(1)])
  have "?q \<noteq> e" using assms(2) by (cases ys) auto
  then show ?thesis
    using dl_insert [OF assms refl refl] by (simp add: vt_link_def Let_def p)
qed

lemma vt_link_frame [simp]:
  "vt_time (vt_link e q s) = vt_time s" "vt_func (vt_link e q s) = vt_func s" "vt_par (vt_link e q s) = vt_par s"
  "vt_systime (vt_link e q s) = vt_systime s" "vts.more (vt_link e q s) = vts.more s"
  by (simp_all add: vt_link_def Let_def)

text \<open>The differences after a timer with the remaining time \<open>n\<close> was put between \<open>xs\<close> and \<open>ys\<close>.\<close>

lemma insert_deltas:
  assumes "deltas s 0 xs" "deltas s b ys" "b = base_of 0 xs" "b \<le> n" "n < 2 ^ 32" "ys \<noteq> [] \<Longrightarrow> n \<le> tm_in (hd ys)" "tm_in x = n"
    "distinct (vtlist # map tm_at (xs @ ys))" "tm_at x \<notin> tm_at ` set (xs @ ys)" "q = hd (map tm_at ys @ [vtlist])"
    "\<And>p. p \<noteq> tm_at x \<Longrightarrow> p \<noteq> q \<Longrightarrow> vt_time s' p = vt_time s p" "vt_time s' (tm_at x) = of_nat (n - b)"
    "q \<noteq> vtlist \<Longrightarrow> vt_time s' q = vt_time s q - of_nat (n - b)"
  shows "deltas s' 0 (xs @ x # ys)"
proof -
  have nb: "unat (of_nat (n - b) :: u32) = n - b" using assms(5) by (simp add: unsigned_of_nat take_bit_nat_eq_self)
  have "q \<notin> tm_at ` set xs" using assms(8,10) by (cases ys) auto
  moreover have "tm_at x \<notin> tm_at ` set xs" using assms(9) by (simp add: image_Un)
  ultimately have "deltas s' 0 xs = deltas s 0 xs" by (intro deltas_cong assms(11)) metis+
  moreover have "deltas s' n ys"
  proof (cases ys)
    case (Cons y zs)
    have y: "n \<le> tm_in y" using assms(6) Cons by simp
    have qy: "q = tm_at y" "q \<noteq> vtlist" using Cons assms(8,10) by auto
    have dy: "unat (vt_time s q) = tm_in y - b" "tm_in y < 2 ^ 32" "deltas s (tm_in y) zs" using assms(2) Cons qy by auto
    have "q \<notin> tm_at ` set zs" "tm_at x \<notin> tm_at ` set zs" using assms(8,9) Cons qy by auto
    then have "deltas s' (tm_in y) zs = deltas s (tm_in y) zs" by (intro deltas_cong assms(11)) metis+
    moreover have "unat (vt_time s' q) = tm_in y - n"
      unfolding assms(13) [OF qy(2)] using y assms(4) nb dy(1) by (subst unat_sub) (auto simp: word_le_nat_alt)
    ultimately show ?thesis using Cons y dy qy by simp
  qed simp
  ultimately show ?thesis using assms(1,3,4,5,7,12) nb by simp
qed

lemma set_run:
  assumes "timers_are s ts" "vtp \<notin> set (vtlist # map tm_at ts)" "fn \<noteq> No_func"
  shows "\<exists>s'. chVTSetI vtp w fn par s = Some s' \<and>
    timers_are s' (insert_timer \<lparr>tm_at = vtp, tm_in = unat w, tm_func = fn, tm_par = par\<rparr> ts) \<and>
    vt_systime s' = vt_systime s \<and> vts.more s' = vts.more s"
proof -
  let ?x = "\<lparr>tm_at = vtp, tm_in = unat w, tm_func = fn, tm_par = par\<rparr>"
  let ?n = "unat w" and ?s = "s\<lparr>vt_par := (vt_par s)(vtp := par), vt_func := (vt_func s)(vtp := fn)\<rparr>"
  define xs where "xs = takeWhile (\<lambda>t. tm_in t < ?n) ts"
  define ys where "ys = dropWhile (\<lambda>t. tm_in t < ?n) ts"
  define q where "q = hd (map tm_at ys @ [vtlist])"
  define b where "b = base_of 0 xs"
  have ts: "ts = xs @ ys" by (simp add: xs_def ys_def)
  have n: "?n < 2 ^ 32" using unsigned_less [of w] by simp
  have d: "dl (vt_next s) (vt_prev s) vtlist (map tm_at xs @ map tm_at ys)" "deltas s 0 xs" "deltas s b ys"
    "vt_time s vtlist = - 1"
    using assms(1) by (simp_all add: timers_are_def ts b_def)
  have b: "b \<le> ?n" "b < 2 ^ 32"
    using deltas_base [OF d(2)] n set_takeWhileD [of "last xs" "\<lambda>t. tm_in t < ?n" ts]
    by (auto simp: b_def base_of_def xs_def [symmetric])
  have seek: "vt_seek ?s (vt_next ?s vtlist) w = Some (q, of_nat (?n - b))"
  proof -
    have "dl (vt_next s) (vt_prev s) vtlist (map tm_at ts)" "deltas ?s 0 ts"
      using assms(1) deltas_cong [of ts ?s s] by (simp_all add: timers_are_def)
    from seek_run [of ?s "[]" ts 0 ?n w] this d(4) n dl_first [OF this(1)] show ?thesis
      by (simp add: q_def b_def xs_def ys_def)
  qed
  have vq: "vtp \<noteq> q" using assms(2) by (cases ys) (auto simp: q_def ts)
  define s' where "s' = (let s3 = (vt_link vtp q ?s)\<lparr>vt_time := (vt_time s)(vtp := of_nat (?n - b))\<rparr> in
    if q \<noteq> vtlist then s3\<lparr>vt_time := (vt_time s3)(q := vt_time s q - of_nat (?n - b))\<rparr> else s3)"
  have run: "chVTSetI vtp w fn par s = Some s'"
    using seek vq by (auto simp: chVTSetI_def s'_def Let_def)
  have "dl (vt_next s') (vt_prev s') vtlist (map tm_at xs @ vtp # map tm_at ys)"
    using link_run [of ?s "map tm_at xs" "map tm_at ys" vtp, folded q_def] d(1) assms(2) by (auto simp: s'_def Let_def ts)
  moreover have "vt_time s' vtlist = - 1" using d(4) assms(2) by (auto simp: s'_def Let_def)
  moreover have "deltas s' 0 (xs @ ?x # ys)"
  proof (rule insert_deltas [OF d(2,3) b_def b(1) n])
    show "distinct (vtlist # map tm_at (xs @ ys))" "tm_at ?x \<notin> tm_at ` set (xs @ ys)" using dl_distinct [OF d(1)] assms(2) by (auto simp: ts)
    show "ys \<noteq> [] \<Longrightarrow> ?n \<le> tm_in (hd ys)" using hd_dropWhile [of "\<lambda>t. tm_in t < ?n" ts] by (simp flip: ys_def)
    show "q = hd (map tm_at ys @ [vtlist])" by (rule q_def)
    show "vt_time s' p = vt_time s p" if "p \<noteq> tm_at ?x" "p \<noteq> q" for p using that by (simp add: s'_def Let_def)
    show "vt_time s' (tm_at ?x) = of_nat (?n - b)" "q \<noteq> vtlist \<Longrightarrow> vt_time s' q = vt_time s q - of_nat (?n - b)"
      using vq by (simp_all add: s'_def Let_def)
  qed simp
  moreover have "vt_func s' = (vt_func s)(vtp := fn)" "vt_par s' = (vt_par s)(vtp := par)"
    by (simp_all add: s'_def Let_def)
  ultimately have "timers_are s' (xs @ \<lparr>tm_at = vtp, tm_in = unat w, tm_func = fn, tm_par = par\<rparr> # ys)"
    using assms by (auto simp: timers_are_def ts)
  then show ?thesis using run by (simp add: insert_timer_def s'_def Let_def flip: xs_def ys_def)
qed


section \<open>Resetting a timer\<close>

lemma reset_run:
  assumes "timers_are s (xs @ x # ys)"
  shows "timers_are (chVTResetI (tm_at x) s) (xs @ ys)" "\<not> chVTIsArmedI (tm_at x) (chVTResetI (tm_at x) s)"
    "vts.more (chVTResetI (tm_at x) s) = vts.more s"
proof -
  let ?p = "tm_at x" and ?s = "chVTResetI (tm_at x) s" and ?b = "base_of 0 xs"
  let ?q = "hd (map tm_at ys @ [vtlist])"
  have d: "dl (vt_next s) (vt_prev s) vtlist (map tm_at xs @ ?p # map tm_at ys)" "vt_time s vtlist = - 1"
    "deltas s 0 xs" "?b \<le> tm_in x" "unat (vt_time s ?p) = tm_in x - ?b" "deltas s (tm_in x) ys"
    using assms by (simp_all add: timers_are_def)
  note el = dl_elem [OF d(1)] and ne = dl_elem_neq [OF d(1)]
  have dist: "distinct (vtlist # map tm_at (xs @ x # ys))" using dl_distinct [OF d(1)] by simp
  have links: "vt_next ?s = (vt_next s)(vt_prev s ?p := vt_next s ?p)" "vt_prev ?s = (vt_prev s)(vt_next s ?p := vt_prev s ?p)"
    using ne by (simp_all add: chVTResetI_def Let_def)
  have "dl (vt_next ?s) (vt_prev ?s) vtlist (map tm_at (xs @ ys))"
    unfolding links using dl_remove [OF d(1) refl refl] by (simp add: el)
  moreover have tm: "vt_time ?s = (if ?q = vtlist then vt_time s else (vt_time s)(?q := vt_time s ?q + vt_time s ?p))"
    by (simp add: chVTResetI_def Let_def el)
  moreover have "vt_time ?s vtlist = - 1" using d(2) by (simp add: tm)
  moreover have "deltas ?s 0 (xs @ ys)"
  proof -
    have "?q \<notin> tm_at ` set xs" using dist by (cases ys) auto
    then have "deltas ?s 0 xs = deltas s 0 xs" by (intro deltas_cong) (metis tm fun_upd_other)
    moreover have "deltas ?s ?b ys"
    proof (cases ys)
      case (Cons y zs)
      have "?q = tm_at y" "tm_at y \<notin> tm_at ` set zs" using dist Cons by auto
      then have "deltas ?s (tm_in y) zs = deltas s (tm_in y) zs" by (intro deltas_cong) (metis tm fun_upd_other)
      moreover have "tm_at y \<noteq> vtlist" using dist Cons by auto
      moreover have "unat (vt_time s (tm_at y) + vt_time s ?p) = tm_in y - ?b"
        using d(4-6) Cons by (subst unat_add_lem [THEN iffD1]) auto
      ultimately show ?thesis using d(4,6) Cons by (simp add: tm)
    qed simp
    ultimately show ?thesis using d(3) by simp
  qed
  moreover have "vt_func ?s = (vt_func s)(?p := No_func)" "vt_par ?s = vt_par s"
    by (simp_all add: chVTResetI_def Let_def)
  ultimately show "timers_are ?s (xs @ ys)" using assms dist unfolding timers_are_def
    by (intro conjI ballI) (auto dest: at_neq)
  show "\<not> chVTIsArmedI ?p ?s" "vts.more ?s = vts.more s" by (simp_all add: chVTIsArmedI_def chVTResetI_def Let_def)
qed

section \<open>A tick\<close>

definition nearer :: "timer \<Rightarrow> timer" where
  "nearer t = t\<lparr>tm_in := tm_in t - 1\<rparr>"

lemma deltas_nearer: "deltas s (Suc b) ts \<Longrightarrow> deltas s b (map nearer ts)"
  by (induction ts arbitrary: b) (auto simp: nearer_def elim!: meta_mp gr0_implies_Suc)


lemma at_nearer [simp]: "tm_at (nearer t) = tm_at t" "tm_func (nearer t) = tm_func t" "tm_par (nearer t) = tm_par t"
  "tm_in (nearer t) = tm_in t - 1"
  by (simp_all add: nearer_def)

definition count_first :: "'a vts_scheme \<Rightarrow> 'a vts_scheme" where
  "count_first s = s\<lparr>vt_systime := vt_systime s + 1,
     vt_time := (if vt_next s vtlist = vtlist then vt_time s
                 else (vt_time s)(vt_next s vtlist := vt_time s (vt_next s vtlist) - 1))\<rparr>"

lemma tick_start:
  assumes "timers_are s ts" "\<forall>t \<in> set ts. 0 < tm_in t"
  shows "timers_are (count_first s) (map nearer ts)"
    "chVTDoTickI call s = (if ts = [] then Some (count_first s) else vt_expire call (count_first s))"
proof -
  have l: "dl (vt_next s) (vt_prev s) vtlist (map tm_at ts)" using assms(1) by (simp add: timers_are_def)
  have f: "vt_next s vtlist = hd (map tm_at ts @ [vtlist])" by (rule dl_first [OF l])
  have e: "vt_next s vtlist = vtlist \<longleftrightarrow> ts = []" using f dl_distinct [OF l] by (cases ts) auto
  show "chVTDoTickI call s = (if ts = [] then Some (count_first s) else vt_expire call (count_first s))"
    using e by (simp add: chVTDoTickI_def count_first_def Let_def)
  show "timers_are (count_first s) (map nearer ts)"
  proof (cases ts)
    case (Cons t zs)
    have d: "0 < tm_in t" "tm_in t < 2 ^ 32" "unat (vt_time s (tm_at t)) = tm_in t" "deltas s (tm_in t) zs"
      using assms Cons by (auto simp: timers_are_def)
    have dist: "tm_at t \<notin> tm_at ` set zs" "tm_at t \<noteq> vtlist" using dl_distinct [OF l] Cons by auto
    have fst: "vt_next s vtlist = tm_at t" using f Cons by simp
    have "deltas (count_first s) (tm_in t) zs = deltas s (tm_in t) zs"
      using dist fst by (intro deltas_cong) (auto simp: count_first_def dest: at_neq)
    then have "deltas (count_first s) (tm_in t - 1) (map nearer zs)"
      using d(1,4) by (intro deltas_nearer) simp
    moreover have "unat (vt_time s (tm_at t) - 1) = tm_in t - 1"
      using d by (subst unat_minus_one) (auto simp: unat_eq_0)
    ultimately have "deltas (count_first s) 0 (map nearer ts)"
      using d fst dist(2) Cons by (simp add: count_first_def)
    then show ?thesis using assms(1) fst dist(2) by (simp add: timers_are_def count_first_def comp_def)
  qed (use assms(1) e in \<open>simp add: timers_are_def count_first_def\<close>)
qed

lemma unlink_run:
  assumes "timers_are s (t # ts)" "tm_in t = 0"
  shows "vt_next s vtlist = tm_at t" "vt_time s (tm_at t) = 0" "vt_func s (tm_at t) = tm_func t"
    "vt_par s (tm_at t) = tm_par t" "timers_are (vt_unlink_first (tm_at t) s) ts" "tm_func t \<noteq> No_func"
proof -
  let ?s = "vt_unlink_first (tm_at t) s"
  have l: "dl (vt_next s) (vt_prev s) vtlist ([] @ tm_at t # map tm_at ts)" using assms(1) by (simp add: timers_are_def)
  note el = dl_elem [OF l] and dist = dl_distinct [OF l]
  show "vt_next s vtlist = tm_at t" using dl_first [OF l] by simp
  show "vt_time s (tm_at t) = 0" "vt_func s (tm_at t) = tm_func t" "vt_par s (tm_at t) = tm_par t" "tm_func t \<noteq> No_func"
    using assms by (auto simp: timers_are_def unat_eq_0)
  have "dl (vt_next ?s) (vt_prev ?s) vtlist (map tm_at ts)"
    using dl_remove [OF l refl refl] dist el by (auto simp: vt_unlink_first_def Let_def)
  moreover have "deltas ?s 0 ts = deltas s 0 ts" by (rule deltas_cong) (simp add: vt_unlink_first_def Let_def)
  moreover have "vt_func ?s = (vt_func s)(tm_at t := No_func)" "vt_par ?s = vt_par s" "vt_time ?s = vt_time s"
    by (simp_all add: vt_unlink_first_def Let_def)
  ultimately show "timers_are ?s ts" using assms dist by (auto simp: timers_are_def dest: at_neq)
qed

lemma expire_stops:
  assumes "timers_are s ts" "ts = [] \<or> 0 < tm_in (hd ts)"
  shows "vt_expire call s = Some s"
proof -
  have "vt_next s vtlist = hd (map tm_at ts @ [vtlist])" "vt_time s vtlist = - 1" "deltas s 0 ts"
    using assms(1) dl_first by (auto simp: timers_are_def)
  then have "vt_time s (vt_next s vtlist) \<noteq> 0" using assms(2) by (cases ts) auto
  then show ?thesis by (simp add: vt_expire.simps [of call s] Let_def)
qed

section \<open>The functions of the timers\<close>

text \<open>
  What the timers rely on: a relation between states and lists of timers (with the state \<open>v\<close> of
  the clients) that holds before a timer is due and that its function re-establishes.
  The function may set and reset timers, but makes no timer due at once.
\<close>

definition due_count :: "timer list \<Rightarrow> nat" where
  "due_count ts = length (filter (\<lambda>t. tm_in t = 0) ts)"

fun expire :: "(vtfunc \<Rightarrow> ptr \<Rightarrow> timer list \<times> 'b \<Rightarrow> timer list \<times> 'b) \<Rightarrow> nat \<Rightarrow> timer list \<times> 'b \<Rightarrow> timer list \<times> 'b" where
  "expire acts 0 (ts, v) = (ts, v)"
| "expire acts (Suc n) ([], v) = ([], v)"
| "expire acts (Suc n) (t # ts, v) =
     (if tm_in t = 0 then expire acts n (acts (tm_func t) (tm_par t) (ts, v)) else (t # ts, v))"

locale vt_client =
  fixes vtcall :: "vtfunc \<Rightarrow> ptr \<Rightarrow> 'a vts_scheme \<Rightarrow> 'a vts_scheme option"
    and acts :: "vtfunc \<Rightarrow> ptr \<Rightarrow> timer list \<times> 'b \<Rightarrow> timer list \<times> 'b"
    and rel :: "'a vts_scheme \<Rightarrow> timer list \<times> 'b \<Rightarrow> bool"
  assumes rel_timers: "rel s (ts, v) \<Longrightarrow> timers_are s ts"
    and rel_fire: "rel s (t # ts, v) \<Longrightarrow> tm_in t = 0 \<Longrightarrow>
      \<exists>s'. vtcall (tm_func t) (tm_par t) (vt_unlink_first (tm_at t) s) = Some s' \<and> rel s' (acts (tm_func t) (tm_par t) (ts, v))"
    and rel_tick: "rel s (ts, v) \<Longrightarrow> \<forall>t \<in> set ts. 0 < tm_in t \<Longrightarrow> rel (count_first s) (map nearer ts, v)"
    and acts_due: "due_count (fst (acts f p (ts, v))) \<le> due_count ts"
begin

lemma sorted_in: "deltas s b ts \<Longrightarrow> t \<in> set ts \<Longrightarrow> b \<le> tm_in t"
  by (induction ts arbitrary: b) fastforce+

lemma expire_run:
  "rel s (ts, v) \<Longrightarrow> due_count ts \<le> n \<Longrightarrow>
   \<exists>s' ts' v'. expire acts n (ts, v) = (ts', v') \<and> vt_expire vtcall s = Some s' \<and> rel s' (ts', v') \<and> (\<forall>t \<in> set ts'. 0 < tm_in t)"
proof (induction n arbitrary: s ts v)
  case 0
  then have "\<forall>t \<in> set ts. 0 < tm_in t" by (auto simp: due_count_def filter_empty_conv)
  then show ?case using 0 expire_stops [OF rel_timers [OF 0(1)]] by (cases ts) auto
next
  case (Suc n)
  note tm = rel_timers [OF Suc.prems(1)]
  show ?case
  proof (cases "ts = [] \<or> 0 < tm_in (hd ts)")
    case True
    have "\<forall>t \<in> set ts. 0 < tm_in t"
      using True tm sorted_in [of s _ "tl ts"] by (cases ts) (fastforce simp: timers_are_def)+
    then show ?thesis using True expire_stops [OF tm True] Suc.prems by (cases ts) auto
  next
    case False
    then obtain t zs where ts: "ts = t # zs" "tm_in t = 0" by (cases ts) auto
    note u = unlink_run [OF tm [unfolded ts(1)] ts(2)]
    obtain s1 where s1: "vtcall (tm_func t) (tm_par t) (vt_unlink_first (tm_at t) s) = Some s1"
        "rel s1 (acts (tm_func t) (tm_par t) (zs, v))"
      using rel_fire Suc.prems(1) ts by blast
    obtain ts1 v1 where a: "acts (tm_func t) (tm_par t) (zs, v) = (ts1, v1)" by force
    have "due_count ts1 \<le> n"
      using acts_due [of "tm_func t" "tm_par t" zs v] Suc.prems(2) ts a by (simp add: due_count_def)
    with Suc.IH [of s1 ts1 v1] s1 a obtain s' ts' v' where
      r: "expire acts n (ts1, v1) = (ts', v')" "vt_expire vtcall s1 = Some s'" "rel s' (ts', v')" "\<forall>t \<in> set ts'. 0 < tm_in t"
      by auto
    have "vt_par (vt_unlink_first (tm_at t) s) = vt_par s" by (simp add: vt_unlink_first_def Let_def)
    then have "vt_expire vtcall s = Some s'"
      using u s1(1) r(2) by (simp add: vt_expire.simps [of vtcall s] Let_def)
    then show ?thesis using r ts a by auto
  qed
qed

lemma tick_run:
  assumes "rel s (ts, v)" "\<forall>t \<in> set ts. 0 < tm_in t"
    "expire acts (due_count (map nearer ts)) (map nearer ts, v) = (ts', v')"
  shows "\<exists>s'. chVTDoTickI vtcall s = Some s' \<and> rel s' (ts', v') \<and> (\<forall>t \<in> set ts'. 0 < tm_in t)"
proof -
  note t = tick_start [OF rel_timers [OF assms(1)] assms(2)]
  have r: "rel (count_first s) (map nearer ts, v)" by (rule rel_tick [OF assms(1,2)])
  show ?thesis
    using expire_run [OF r order.refl] assms(3) t(2) [of vtcall] r by (cases ts) (auto simp: due_count_def)
qed

end

section \<open>Properties\<close>


text \<open>Two timers, due in 3 and in 10 ticks.\<close>

definition two_timers :: "unit vts_scheme" where
  "two_timers = \<lparr>status = 0, alt_tick_rate = 1000, alt_nticks_var = 0, l_next = (\<lambda>p. p), l_prev = (\<lambda>p. p), a_time = (\<lambda>_. 0),
     a_callback = (\<lambda>_. 0), a_rollover = (\<lambda>_. 0), a_context = (\<lambda>_. 0),
     vt_next = (\<lambda>_. Null)(vtlist := At 8, At 8 := At 32, At 32 := vtlist), vt_prev = (\<lambda>_. Null)(vtlist := At 32, At 32 := At 8, At 8 := vtlist),
     vt_time = (\<lambda>_. 0)(vtlist := - 1, At 8 := 3, At 32 := 7), vt_func = (\<lambda>_. No_func)(At 8 := Func 1, At 32 := Func 2),
     vt_par = (\<lambda>_. Null), vt_systime = 0\<rparr>"


end
