(* ===== verification/Ch_Lists.thy ===== *)
theory Ch_Lists
  imports Ch_Vt_Props
begin

text \<open>
  The state of the kernel and its thread queues (\<^verbatim>\<open>chthreads.h\<close>, \<^verbatim>\<open>chlists.h\<close>,
  \<^verbatim>\<open>chinline.h\<close>).  A queue is headed by the ready list or by a semaphore and linked through the threads
  themselves, so all queues share the maps \<open>p_next\<close> and \<open>p_prev\<close>; \<open>queues\<close> relates them to one list of
  threads for each header.
\<close>

section \<open>State\<close>

datatype tstate = THD_STATE_READY | THD_STATE_CURRENT | THD_STATE_SUSPENDED | THD_STATE_WTSEM | THD_STATE_WTMTX
  | THD_STATE_WTCOND | THD_STATE_SLEEPING | THD_STATE_WTEXIT | THD_STATE_WTOREVT | THD_STATE_WTANDEVT
  | THD_STATE_SNDMSGQ | THD_STATE_SNDMSG | THD_STATE_WTMSG | THD_STATE_WTQUEUE | THD_STATE_FINAL

text \<open>The union of the fields that depend on the state.\<close>

datatype thd_union = Rdymsg int | Exitcode int | Wtobjp ptr | Ewmask u32

text \<open>
  Where a thread continues when it is switched to: in a function that has nothing left to do, or in
  \<^verbatim>\<open>chSchGoSleepTimeoutS\<close>, which cancels the timer on its stack.
\<close>

datatype ctx = Ctx_plain | Ctx_timeout ptr

record kern = vts +
  p_next :: "ptr \<Rightarrow> ptr"
  p_prev :: "ptr \<Rightarrow> ptr"
  p_prio :: "ptr \<Rightarrow> u32"
  p_ctx :: "ptr \<Rightarrow> ctx"
  p_state :: "ptr \<Rightarrow> tstate"
  p_preempt :: "ptr \<Rightarrow> u8"
  p_time :: "ptr \<Rightarrow> u32"
  p_u :: "ptr \<Rightarrow> thd_union"
  p_realprio :: "ptr \<Rightarrow> u32"
  p_mtxlist :: "ptr \<Rightarrow> ptr"
  p_epending :: "ptr \<Rightarrow> u32"
  p_flags :: "ptr \<Rightarrow> u8"
  p_refs :: "ptr \<Rightarrow> u8"
  p_name :: "ptr \<Rightarrow> ptr"
  p_newer :: "ptr \<Rightarrow> ptr"
  p_older :: "ptr \<Rightarrow> ptr"
  r_current :: ptr
  s_cnt :: "ptr \<Rightarrow> int"
  timer_to :: bool

section \<open>Operations on queues\<close>

definition queue_init :: "ptr \<Rightarrow> kern \<Rightarrow> kern" where
  "queue_init tqp s = s\<lparr>p_prev := (p_prev s)(tqp := tqp), p_next := (p_next s)(tqp := tqp)\<rparr>"

text \<open>The two lists that are members of a thread.\<close>

fun waiting_of :: "ptr \<Rightarrow> ptr" where
  "waiting_of (At a) = Waiting_at a"
| "waiting_of p = Null"

fun msgqueue_of :: "ptr \<Rightarrow> ptr" where
  "msgqueue_of (At a) = Msgqueue_at a"
| "msgqueue_of p = Null"

definition list_init :: "ptr \<Rightarrow> kern \<Rightarrow> kern" where
  "list_init tlp s = s\<lparr>p_next := (p_next s)(tlp := tlp)\<rparr>"

definition notempty :: "ptr \<Rightarrow> kern \<Rightarrow> bool" where
  "notempty p s \<longleftrightarrow> p_next s p \<noteq> p"

text \<open>\<^verbatim>\<open>do cp = cp->p_next; while (...)\<close>\<close>

partial_function (option) tq_seek :: "(ptr \<Rightarrow> bool) \<Rightarrow> (ptr \<Rightarrow> ptr) \<Rightarrow> ptr \<Rightarrow> ptr option" where
  "tq_seek go nx cp = (let cp' = nx cp in if go cp' then tq_seek go nx cp' else Some cp')"

lemmas [code] = tq_seek.simps

definition insert_before :: "ptr \<Rightarrow> ptr \<Rightarrow> kern \<Rightarrow> kern" where
  "insert_before cp tp s0 =
     (let s1 = s0\<lparr>p_next := (p_next s0)(tp := cp)\<rparr>;
          s2 = s1\<lparr>p_prev := (p_prev s1)(tp := p_prev s1 cp)\<rparr>;
          s3 = s2\<lparr>p_prev := (p_prev s2)(cp := tp)\<rparr> in
      s3\<lparr>p_next := (p_next s3)(p_prev s2 tp := tp)\<rparr>)"

definition prio_insert :: "ptr \<Rightarrow> ptr \<Rightarrow> kern \<Rightarrow> kern option" where
  "prio_insert tp tqp s =
     Option.bind (tq_seek (\<lambda>cp. cp \<noteq> tqp \<and> p_prio s cp \<ge> p_prio s tp) (p_next s) tqp) (\<lambda>cp.
     Some (insert_before cp tp s))"

definition queue_insert :: "ptr \<Rightarrow> ptr \<Rightarrow> kern \<Rightarrow> kern" where
  "queue_insert tp tqp s0 =
     (let s1 = s0\<lparr>p_next := (p_next s0)(tp := tqp)\<rparr>;
          s2 = s1\<lparr>p_prev := (p_prev s1)(tp := p_prev s1 tqp)\<rparr>;
          s3 = s2\<lparr>p_prev := (p_prev s2)(tqp := tp)\<rparr> in
      s3\<lparr>p_next := (p_next s3)(p_prev s2 tp := tp)\<rparr>)"

definition fifo_remove :: "ptr \<Rightarrow> kern \<Rightarrow> ptr \<times> kern" where
  "fifo_remove tqp s0 =
     (let tp = p_next s0 tqp;
          s1 = s0\<lparr>p_next := (p_next s0)(tqp := p_next s0 tp)\<rparr> in
      (tp, s1\<lparr>p_prev := (p_prev s1)(p_next s1 tqp := tqp)\<rparr>))"

definition lifo_remove :: "ptr \<Rightarrow> kern \<Rightarrow> ptr \<times> kern" where
  "lifo_remove tqp s0 =
     (let tp = p_prev s0 tqp;
          s1 = s0\<lparr>p_prev := (p_prev s0)(tqp := p_prev s0 tp)\<rparr> in
      (tp, s1\<lparr>p_next := (p_next s1)(p_prev s1 tqp := tqp)\<rparr>))"

definition dequeue :: "ptr \<Rightarrow> kern \<Rightarrow> ptr \<times> kern" where
  "dequeue tp s0 =
     (let s1 = s0\<lparr>p_next := (p_next s0)(p_prev s0 tp := p_next s0 tp)\<rparr> in
      (tp, s1\<lparr>p_prev := (p_prev s1)(p_next s1 tp := p_prev s1 tp)\<rparr>))"

section \<open>The queues as lists\<close>

definition queues :: "ptr set \<Rightarrow> (ptr \<Rightarrow> ptr list) \<Rightarrow> kern \<Rightarrow> bool" where
  "queues H Q s \<longleftrightarrow> (\<forall>h \<in> H. dl (p_next s) (p_prev s) h (Q h)) \<and>
     (\<forall>h \<in> H. \<forall>k \<in> H. h \<noteq> k \<longrightarrow> set (h # Q h) \<inter> set (k # Q k) = {})"

definition queued :: "ptr set \<Rightarrow> (ptr \<Rightarrow> ptr list) \<Rightarrow> ptr set" where
  "queued H Q = (\<Union>h \<in> H. set (Q h))"

lemma queuesD: "queues H Q s \<Longrightarrow> h \<in> H \<Longrightarrow> dl (p_next s) (p_prev s) h (Q h)"
  by (simp add: queues_def)

lemma queues_cong: "queues H Q s \<Longrightarrow> p_next s' = p_next s \<Longrightarrow> p_prev s' = p_prev s \<Longrightarrow> queues H Q s'"
  by (simp add: queues_def)

text \<open>A change of one queue: the links of its members and of the added thread.\<close>

lemma queues_upd:
  assumes "queues H Q s" "h \<in> H" "dl (p_next s') (p_prev s') h zs" "set zs \<subseteq> insert e (set (Q h))"
    and "e \<in> set (Q h) \<or> e \<notin> H \<and> e \<notin> queued H Q"
    and "\<And>p. p \<notin> insert e (set (h # Q h)) \<Longrightarrow> p_next s' p = p_next s p \<and> p_prev s' p = p_prev s p"
  shows "queues H (Q(h := zs)) s'"
proof -
  have sub: "set (h # zs) \<subseteq> insert e (set (h # Q h))" using assms(4) by auto
  have out: "p \<notin> insert e (set (h # Q h))" if "k \<in> H" "k \<noteq> h" "p \<in> set (k # Q k)" for k p
  proof -
    have "set (k # Q k) \<inter> set (h # Q h) = {}" using assms(1,2) that(1,2) unfolding queues_def by blast
    moreover have "e \<noteq> p"
      using assms(5)
    proof
      assume "e \<notin> H \<and> e \<notin> queued H Q" then show ?thesis using that by (auto simp: queued_def)
    qed (use calculation that(3) in auto)
    ultimately show ?thesis using that(3) by blast
  qed
  have "dl (p_next s') (p_prev s') k (Q k)" if "k \<in> H" "k \<noteq> h" for k
    by (rule dl_cong [OF queuesD [OF assms(1) that(1)]]) (use out [OF that] assms(6) in blast)
  moreover have "set (h # zs) \<inter> set (k # Q k) = {}" if "k \<in> H" "k \<noteq> h" for k
    using out [OF that] sub by blast
  moreover have "set (j # Q j) \<inter> set (k # Q k) = {}" if "j \<in> H" "k \<in> H" "j \<noteq> k" for j k
    using assms(1) that unfolding queues_def by blast
  ultimately show ?thesis using assms(3) unfolding queues_def by (auto simp: Int_commute)
qed

lemma insert_before_run:
  assumes "queues H Q s" "h \<in> H" "Q h = xs @ ys" "e \<notin> H" "e \<notin> queued H Q"
  shows "queues H (Q(h := xs @ e # ys)) (insert_before (hd (ys @ [h])) e s)"
proof -
  let ?q = "hd (ys @ [h])" and ?s = "insert_before (hd (ys @ [h])) e s"
  have d: "dl (p_next s) (p_prev s) h (xs @ ys)" using queuesD [OF assms(1,2)] assms(3) by simp
  have e: "e \<notin> set (h # xs @ ys)" using assms(2-5) by (auto simp: queued_def)
  have q: "?q \<in> set (h # xs @ ys)" by (cases ys) auto
  have p: "p_prev s ?q = last (h # xs)" "last (h # xs) \<in> set (h # xs @ ys)" using dl_split [OF d] by auto
  have ne: "?q \<noteq> e" using q e by blast
  have links: "p_next ?s = (p_next s)(e := ?q, last (h # xs) := e)" "p_prev ?s = (p_prev s)(e := last (h # xs), ?q := e)"
    using p ne by (simp_all add: insert_before_def Let_def del: last.simps)
  show ?thesis
  proof (rule queues_upd [OF assms(1,2)])
    show "dl (p_next ?s) (p_prev ?s) h (xs @ e # ys)" unfolding links by (rule dl_insert [OF d e refl refl])
    show "e \<in> set (Q h) \<or> e \<notin> H \<and> e \<notin> queued H Q" using assms(4,5) by blast
    show "p_next ?s r = p_next s r \<and> p_prev ?s r = p_prev s r" if "r \<notin> insert e (set (h # Q h))" for r
      unfolding links using that q p(2) assms(3) by (auto simp del: last.simps)
  qed (use assms(3) in auto)
qed

lemma queue_insert_eq: "queue_insert tp tqp = insert_before tqp tp"
  by (rule ext) (simp add: queue_insert_def insert_before_def)

lemma queue_insert_run:
  assumes "queues H Q s" "h \<in> H" "e \<notin> H" "e \<notin> queued H Q"
  shows "queues H (Q(h := Q h @ [e])) (queue_insert e h s)"
  using insert_before_run [OF assms(1,2), of "Q h" "[]" e] assms(3,4) by (simp add: queue_insert_eq)

lemma dequeue_run:
  assumes "queues H Q s" "h \<in> H" "Q h = xs @ e # ys"
  shows "queues H (Q(h := xs @ ys)) (snd (dequeue e s))"
proof -
  let ?s = "snd (dequeue e s)"
  have d: "dl (p_next s) (p_prev s) h (xs @ e # ys)" using queuesD [OF assms(1,2)] assms(3) by simp
  note el = dl_elem [OF d] and ne = dl_elem_neq [OF d]
  have links: "p_next ?s = (p_next s)(p_prev s e := p_next s e)" "p_prev ?s = (p_prev s)(p_next s e := p_prev s e)"
    using ne by (simp_all add: dequeue_def Let_def)
  have mem: "p_prev s e \<in> set (h # xs @ e # ys)" "p_next s e \<in> set (h # xs @ e # ys)"
    unfolding el by (simp, cases ys) auto
  show ?thesis
  proof (rule queues_upd [OF assms(1,2), where e = e])
    show "dl (p_next ?s) (p_prev ?s) h (xs @ ys)" unfolding links using dl_remove [OF d] el by simp
    show "p_next ?s r = p_next s r \<and> p_prev ?s r = p_prev s r" if "r \<notin> insert e (set (h # Q h))" for r
      unfolding links using that mem assms(3) by auto
  qed (use assms(3) in auto)
qed

lemma fifo_remove_run:
  assumes "queues H Q s" "h \<in> H" "Q h = e # ys"
  shows "fifo_remove h s = dequeue e s"
proof -
  have d: "dl (p_next s) (p_prev s) h ([] @ e # ys)" using queuesD [OF assms(1,2)] assms(3) by simp
  have "p_next s h = e" using dl_first [OF d] by simp
  then show ?thesis using dl_elem [OF d] dl_distinct [OF d] by (simp add: fifo_remove_def dequeue_def Let_def)
qed

lemma lifo_remove_run:
  assumes "queues H Q s" "h \<in> H" "Q h = xs @ [e]"
  shows "lifo_remove h s = dequeue e s"
proof -
  have d: "dl (p_next s) (p_prev s) h (xs @ e # [])" using queuesD [OF assms(1,2)] assms(3) by simp
  have "p_prev s h = e" using dl_last [OF d] by simp
  moreover have "p_prev s e \<noteq> e" by (rule dl_elem_neq [OF d])
  ultimately show ?thesis using dl_elem(2) [OF d] by (simp add: lifo_remove_def dequeue_def Let_def)
qed

lemma seek_stops:
  assumes "dl nx pv h (xs @ ys)" "\<forall>p \<in> set xs. go p" "\<not> go (hd (ys @ [h]))"
  shows "tq_seek go nx h = Some (hd (ys @ [h]))"
proof -
  have "\<exists>r. tq_seek go nx (last (h # us)) = Some r \<and> r = hd (ys @ [h])" if "xs = us @ vs" for us vs
    using that
  proof (induction vs arbitrary: us)
    case Nil
    then show ?case using dl_split(1) [OF assms(1)] assms(3) by (subst tq_seek.simps) (simp add: Let_def)
  next
    case (Cons v vs)
    have "nx (last (h # us)) = v" using dl_split(1) [of nx pv h us "v # vs @ ys"] assms(1) Cons.prems by simp
    moreover have "go v" using assms(2) Cons.prems by simp
    ultimately show ?case
      using Cons.IH [of "us @ [v]"] Cons.prems by (subst tq_seek.simps) (simp add: Let_def)
  qed
  from this [of "[]" xs] show ?thesis by simp
qed

end
