(* ===== verification/Ch_Schd.thy ===== *)
theory Ch_Schd
  imports Ch_Lists
begin

text \<open>
  The scheduler, the semaphores and the threads of the kernel (\<^verbatim>\<open>chschd.c\<close>, \<^verbatim>\<open>chsem.c\<close>,
  \<^verbatim>\<open>chthreads.c\<close>, \<^verbatim>\<open>chsys.c\<close> and the port in \<^verbatim>\<open>chcore.c\<close>, \<^verbatim>\<open>alt_hooks.h\<close>), in the configuration of
  \<^verbatim>\<open>chconf.h\<close>: time slices of 20 ticks, semaphores that serve first come first, no debug
  checks.  A call that switches to another thread gives the state in which that thread runs: the new
  thread first completes the function it was suspended in.  A thread that was suspended reads its result in \<open>p_u\<close>.
  The assembly of the switch and of the start of a thread, the idle loop and the interrupt status that the exit from
  an interrupt restores are not modelled.  The lock and unlock macros for interrupt handlers are empty in this port.
\<close>

definition CH_TIME_QUANTUM :: u8 where "CH_TIME_QUANTUM = 20"

definition RDY_OK :: int where "RDY_OK = 0"

definition RDY_TIMEOUT :: int where "RDY_TIMEOUT = - 1"

definition RDY_RESET :: int where "RDY_RESET = - 2"

definition NOPRIO :: u32 where "NOPRIO = 0"

definition TIME_IMMEDIATE :: u32 where "TIME_IMMEDIATE = 0"

definition TIME_INFINITE :: u32 where "TIME_INFINITE = - 1"

section \<open>Locks\<close>

definition chSysLock :: "'a alarms_scheme \<Rightarrow> 'a alarms_scheme" where
  "chSysLock s = snd (alt_irq_disable_all s)"

definition chSysUnlock :: "'a alarms_scheme \<Rightarrow> 'a alarms_scheme" where
  "chSysUnlock s = alt_irq_enable_all PIE_MSK s"

section \<open>Scheduler\<close>

definition scheduler_init :: "kern \<Rightarrow> kern" where
  "scheduler_init s =
     (let s1 = queue_init rlist s in
      s1\<lparr>p_prio := (p_prio s1)(rlist := NOPRIO), p_older := (p_older s1)(rlist := rlist),
         p_newer := (p_newer s1)(rlist := rlist)\<rparr>)"

definition firstprio :: "ptr \<Rightarrow> kern \<Rightarrow> u32" where
  "firstprio rlp s = p_prio s (p_next s rlp)"

text \<open>The thread that is switched to goes on after its own switch, with the kernel locked.\<close>

definition chSysSwitch :: "ptr \<Rightarrow> kern \<Rightarrow> kern" where
  "chSysSwitch ntp s =
     (case p_ctx s ntp of
        Ctx_plain \<Rightarrow> s
      | Ctx_timeout vt \<Rightarrow>
          (let s1 = (if chVTIsArmedI vt s then chVTResetI vt s else s) in
           s1\<lparr>p_ctx := (p_ctx s1)(ntp := Ctx_plain)\<rparr>))"

definition chSchReadyI :: "ptr \<Rightarrow> kern \<Rightarrow> kern option" where
  "chSchReadyI tp s0 =
     (let s1 = s0\<lparr>p_state := (p_state s0)(tp := THD_STATE_READY)\<rparr> in
      Option.bind (tq_seek (\<lambda>cp. p_prio s1 cp \<ge> p_prio s1 tp) (p_next s1) rlist) (\<lambda>cp.
      Some (insert_before cp tp s1)))"

definition run_first :: "kern \<Rightarrow> kern" where
  "run_first s0 =
     (let (tp, s1) = fifo_remove rlist s0;
          s2 = s1\<lparr>r_current := tp\<rparr> in
      s2\<lparr>p_state := (p_state s2)(r_current s2 := THD_STATE_CURRENT)\<rparr>)"

definition chSchGoSleepS :: "tstate \<Rightarrow> kern \<Rightarrow> kern" where
  "chSchGoSleepS newstate s0 =
     (let otp = r_current s0;
          s1 = s0\<lparr>p_state := (p_state s0)(otp := newstate)\<rparr>;
          s2 = s1\<lparr>p_preempt := (p_preempt s1)(otp := CH_TIME_QUANTUM)\<rparr>;
          s3 = run_first s2 in
      chSysSwitch (r_current s3) s3)"

definition chSemFastSignalI :: "ptr \<Rightarrow> kern \<Rightarrow> kern" where
  "chSemFastSignalI sp s = s\<lparr>s_cnt := (s_cnt s)(sp := s_cnt s sp + 1)\<rparr>"

definition wake_timeout :: "ptr \<Rightarrow> kern \<Rightarrow> kern option" where
  "wake_timeout tp s = chSchReadyI tp (s\<lparr>p_u := (p_u s)(tp := Rdymsg RDY_TIMEOUT)\<rparr>)"

definition wakeup :: "ptr \<Rightarrow> kern \<Rightarrow> kern option" where
  "wakeup tp s =
     (case p_state s tp of
        THD_STATE_READY \<Rightarrow> Some s
      | THD_STATE_WTSEM \<Rightarrow>
          (case p_u s tp of
             Wtobjp sp \<Rightarrow> wake_timeout tp (snd (dequeue tp (chSemFastSignalI sp s)))
           | _ \<Rightarrow> None)
      | THD_STATE_WTQUEUE \<Rightarrow> wake_timeout tp (snd (dequeue tp s))
      | THD_STATE_WTCOND \<Rightarrow> wake_timeout tp (snd (dequeue tp s))
      | _ \<Rightarrow> wake_timeout tp s)"

text \<open>\<open>vt\<close> is the address of the timer on the stack of the caller.\<close>

definition chSchGoSleepTimeoutS :: "tstate \<Rightarrow> u32 \<Rightarrow> ptr \<Rightarrow> kern \<Rightarrow> kern option" where
  "chSchGoSleepTimeoutS newstate time vt s0 =
     (if TIME_INFINITE \<noteq> time then
        Option.bind (chVTSetI vt time Wakeup (r_current s0) s0) (\<lambda>s1.
        Some (chSchGoSleepS newstate (s1\<lparr>p_ctx := (p_ctx s1)(r_current s1 := Ctx_timeout vt)\<rparr>)))
      else Some (chSchGoSleepS newstate s0))"

definition chSchWakeupS :: "ptr \<Rightarrow> int \<Rightarrow> kern \<Rightarrow> kern option" where
  "chSchWakeupS ntp msg s0 =
     (let s1 = s0\<lparr>p_u := (p_u s0)(ntp := Rdymsg msg)\<rparr> in
      if p_prio s1 ntp \<le> p_prio s1 (r_current s1) then chSchReadyI ntp s1
      else
        Option.bind (chSchReadyI (r_current s1) s1) (\<lambda>s2.
        let s3 = s2\<lparr>r_current := ntp, p_state := (p_state s2)(ntp := THD_STATE_CURRENT)\<rparr> in
        Some (chSysSwitch ntp s3)))"

definition chSchDoRescheduleBehind :: "kern \<Rightarrow> kern option" where
  "chSchDoRescheduleBehind s0 =
     (let otp = r_current s0;
          s1 = run_first s0;
          s2 = s1\<lparr>p_preempt := (p_preempt s1)(otp := CH_TIME_QUANTUM)\<rparr> in
      Option.bind (chSchReadyI otp s2) (\<lambda>s3.
      Some (chSysSwitch (r_current s3) s3)))"

definition chSchDoRescheduleAhead :: "kern \<Rightarrow> kern option" where
  "chSchDoRescheduleAhead s0 =
     (let otp = r_current s0;
          s1 = run_first s0;
          s2 = s1\<lparr>p_state := (p_state s1)(otp := THD_STATE_READY)\<rparr> in
      Option.bind (tq_seek (\<lambda>cp. p_prio s2 cp > p_prio s2 otp) (p_next s2) rlist) (\<lambda>cp.
      let s3 = insert_before cp otp s2 in
      Some (chSysSwitch (r_current s3) s3)))"

definition chSchIsRescRequiredI :: "kern \<Rightarrow> bool" where
  "chSchIsRescRequiredI s \<longleftrightarrow> firstprio rlist s > p_prio s (r_current s)"

definition chSchRescheduleS :: "kern \<Rightarrow> kern option" where
  "chSchRescheduleS s = (if chSchIsRescRequiredI s then chSchDoRescheduleAhead s else Some s)"

definition chSchCanYieldS :: "kern \<Rightarrow> bool" where
  "chSchCanYieldS s \<longleftrightarrow> firstprio rlist s \<ge> p_prio s (r_current s)"

definition chSchDoYieldS :: "kern \<Rightarrow> kern option" where
  "chSchDoYieldS s = (if chSchCanYieldS s then chSchDoRescheduleBehind s else Some s)"

definition chSchIsPreemptionRequired :: "kern \<Rightarrow> bool" where
  "chSchIsPreemptionRequired s \<longleftrightarrow>
     (let p1 = firstprio rlist s; p2 = p_prio s (r_current s) in
      if p_preempt s (r_current s) \<noteq> 0 then p1 > p2 else p1 \<ge> p2)"

definition chSchDoReschedule :: "kern \<Rightarrow> kern option" where
  "chSchDoReschedule s =
     (if p_preempt s (r_current s) = 0 then chSchDoRescheduleBehind s else chSchDoRescheduleAhead s)"

section \<open>The clock tick\<close>

text \<open>Functions of timers of the application are an argument.\<close>

definition vt_call :: "(u32 \<Rightarrow> ptr \<Rightarrow> kern \<Rightarrow> kern option) \<Rightarrow> kern vtcalls" where
  "vt_call app fn par s =
     (case fn of Wakeup \<Rightarrow> wakeup par s | Func f \<Rightarrow> app f par s | No_func \<Rightarrow> None)"

definition chSysTimerHandlerI :: "(u32 \<Rightarrow> ptr \<Rightarrow> kern \<Rightarrow> kern option) \<Rightarrow> kern \<Rightarrow> kern option" where
  "chSysTimerHandlerI app s0 =
     (let c = r_current s0;
          s1 = (if p_preempt s0 c > 0 then s0\<lparr>p_preempt := (p_preempt s0)(c := p_preempt s0 c - 1)\<rparr> else s0);
          s2 = s1\<lparr>p_time := (p_time s1)(c := p_time s1 c + 1)\<rparr> in
      chVTDoTickI (vt_call app) s2)"

definition port_time_tick :: "(u32 \<Rightarrow> ptr \<Rightarrow> kern \<Rightarrow> kern option) \<Rightarrow> kern \<Rightarrow> kern option" where
  "port_time_tick app s = chSysTimerHandlerI app s"

text \<open>The exit from an interrupt; the interrupt of the system clock.\<close>

definition ALT_OS_INT_EXIT :: "kern \<Rightarrow> kern option" where
  "ALT_OS_INT_EXIT s = (if chSchIsPreemptionRequired s then chSchDoReschedule s else Some s)"

text \<open>
  A write to the status register of the timer clears its timeout bit; the read of the control register that follows has no
  effect.
\<close>

definition IOWR_ALTERA_AVALON_TIMER_STATUS :: "kern \<Rightarrow> kern" where
  "IOWR_ALTERA_AVALON_TIMER_STATUS s = s\<lparr>timer_to := False\<rparr>"

definition alt_avalon_timer_sc_irq ::
  "kern callbacks \<Rightarrow> (u32 \<Rightarrow> ptr \<Rightarrow> kern \<Rightarrow> kern option) \<Rightarrow> kern \<Rightarrow> kern option" where
  "alt_avalon_timer_sc_irq call app s0 =
     (let s1 = IOWR_ALTERA_AVALON_TIMER_STATUS s0;
          (cpu_sr, s2) = alt_irq_disable_all s1 in
      Option.bind (alt_tick call (port_time_tick app) s2) (\<lambda>s3.
      Some (alt_irq_enable_all cpu_sr s3)))"

section \<open>Semaphores\<close>

definition chSemInit :: "ptr \<Rightarrow> int \<Rightarrow> kern \<Rightarrow> kern" where
  "chSemInit sp n s0 = (let s1 = queue_init sp s0 in s1\<lparr>s_cnt := (s_cnt s1)(sp := n)\<rparr>)"

definition ready_msg :: "ptr \<Rightarrow> int \<Rightarrow> kern \<Rightarrow> kern option" where
  "ready_msg tp msg s =
     Option.bind (chSchReadyI tp s) (\<lambda>s1. Some (s1\<lparr>p_u := (p_u s1)(tp := Rdymsg msg)\<rparr>))"

text \<open>\<^verbatim>\<open>while (++cnt <= 0)\<close>: as many rounds as the counter is below zero.\<close>

primrec sem_flush :: "nat \<Rightarrow> ptr \<Rightarrow> kern \<Rightarrow> kern option" where
  "sem_flush 0 sp s = Some s"
| "sem_flush (Suc n) sp s =
     (let (tp, s1) = lifo_remove sp s in Option.bind (ready_msg tp RDY_RESET s1) (sem_flush n sp))"

definition chSemResetI :: "ptr \<Rightarrow> int \<Rightarrow> kern \<Rightarrow> kern option" where
  "chSemResetI sp n s = sem_flush (nat (- s_cnt s sp)) sp (s\<lparr>s_cnt := (s_cnt s)(sp := n)\<rparr>)"

definition chSemReset :: "ptr \<Rightarrow> int \<Rightarrow> kern \<Rightarrow> kern option" where
  "chSemReset sp n s =
     Option.bind (chSemResetI sp n (chSysLock s)) (\<lambda>s1.
     Option.bind (chSchRescheduleS s1) (\<lambda>s2. Some (chSysUnlock s2)))"

definition sem_block :: "ptr \<Rightarrow> kern \<Rightarrow> kern" where
  "sem_block sp s =
     queue_insert (r_current s) sp (s\<lparr>p_u := (p_u s)(r_current s := Wtobjp sp)\<rparr>)"

text \<open>The result of a wait: the message, or none yet if the caller was suspended.\<close>

definition chSemWaitS :: "ptr \<Rightarrow> kern \<Rightarrow> int option \<times> kern" where
  "chSemWaitS sp s0 =
     (let s1 = s0\<lparr>s_cnt := (s_cnt s0)(sp := s_cnt s0 sp - 1)\<rparr> in
      if s_cnt s1 sp < 0 then (None, chSchGoSleepS THD_STATE_WTSEM (sem_block sp s1)) else (Some RDY_OK, s1))"

definition chSemWait :: "ptr \<Rightarrow> kern \<Rightarrow> int option \<times> kern" where
  "chSemWait sp s = (let (msg, s1) = chSemWaitS sp (chSysLock s) in (msg, chSysUnlock s1))"

definition chSemWaitTimeoutS :: "ptr \<Rightarrow> u32 \<Rightarrow> ptr \<Rightarrow> kern \<Rightarrow> (int option \<times> kern) option" where
  "chSemWaitTimeoutS sp time vt s0 =
     (let s1 = s0\<lparr>s_cnt := (s_cnt s0)(sp := s_cnt s0 sp - 1)\<rparr> in
      if s_cnt s1 sp < 0 then
        (if TIME_IMMEDIATE = time then
           Some (Some RDY_TIMEOUT, s1\<lparr>s_cnt := (s_cnt s1)(sp := s_cnt s1 sp + 1)\<rparr>)
         else
           Option.bind (chSchGoSleepTimeoutS THD_STATE_WTSEM time vt (sem_block sp s1)) (\<lambda>s2.
           Some (None, s2)))
      else Some (Some RDY_OK, s1))"

definition chSemWaitTimeout :: "ptr \<Rightarrow> u32 \<Rightarrow> ptr \<Rightarrow> kern \<Rightarrow> (int option \<times> kern) option" where
  "chSemWaitTimeout sp time vt s =
     Option.bind (chSemWaitTimeoutS sp time vt (chSysLock s)) (\<lambda>(msg, s1). Some (msg, chSysUnlock s1))"

definition chSemSignal :: "ptr \<Rightarrow> kern \<Rightarrow> kern option" where
  "chSemSignal sp s =
     (let s0 = chSysLock s;
          s1 = s0\<lparr>s_cnt := (s_cnt s0)(sp := s_cnt s0 sp + 1)\<rparr> in
      Option.bind
        (if s_cnt s1 sp \<le> 0 then (let (tp, s2) = fifo_remove sp s1 in chSchWakeupS tp RDY_OK s2) else Some s1)
        (\<lambda>s3. Some (chSysUnlock s3)))"

definition chSemSignalI :: "ptr \<Rightarrow> kern \<Rightarrow> kern option" where
  "chSemSignalI sp s0 =
     (let s1 = s0\<lparr>s_cnt := (s_cnt s0)(sp := s_cnt s0 sp + 1)\<rparr> in
      if s_cnt s1 sp \<le> 0 then
        (let (tp, s2) = fifo_remove sp s1 in chSchReadyI tp (s2\<lparr>p_u := (p_u s2)(tp := Rdymsg RDY_OK)\<rparr>))
      else Some s1)"

definition sem_add_one :: "ptr \<Rightarrow> kern \<Rightarrow> kern option" where
  "sem_add_one sp s0 =
     (let s1 = s0\<lparr>s_cnt := (s_cnt s0)(sp := s_cnt s0 sp + 1)\<rparr> in
      if s_cnt s1 sp \<le> 0 then (let (tp, s2) = fifo_remove sp s1 in ready_msg tp RDY_OK s2) else Some s1)"

primrec sem_add :: "nat \<Rightarrow> ptr \<Rightarrow> kern \<Rightarrow> kern option" where
  "sem_add 0 sp s = Some s"
| "sem_add (Suc n) sp s = Option.bind (sem_add_one sp s) (sem_add n sp)"

definition chSemAddCounterI :: "ptr \<Rightarrow> int \<Rightarrow> kern \<Rightarrow> kern option" where
  "chSemAddCounterI sp n s = sem_add (nat n) sp s"

definition chSemSignalWait :: "ptr \<Rightarrow> ptr \<Rightarrow> kern \<Rightarrow> (int option \<times> kern) option" where
  "chSemSignalWait sps spw s =
     Option.bind (sem_add_one sps (chSysLock s)) (\<lambda>s1.
     let s2 = s1\<lparr>s_cnt := (s_cnt s1)(spw := s_cnt s1 spw - 1)\<rparr> in
     if s_cnt s2 spw < 0 then
       (let ctp = r_current s2;
            s3 = queue_insert ctp spw s2;
            s4 = s3\<lparr>p_u := (p_u s3)(ctp := Wtobjp spw)\<rparr> in
        Some (None, chSysUnlock (chSchGoSleepS THD_STATE_WTSEM s4)))
     else Option.bind (chSchRescheduleS s2) (\<lambda>s3. Some (Some RDY_OK, chSysUnlock s3)))"

section \<open>Threads\<close>

definition REG_INSERT :: "ptr \<Rightarrow> kern \<Rightarrow> kern" where
  "REG_INSERT tp s0 =
     (let s1 = s0\<lparr>p_newer := (p_newer s0)(tp := rlist)\<rparr>;
          s2 = s1\<lparr>p_older := (p_older s1)(tp := p_older s1 rlist)\<rparr>;
          s3 = s2\<lparr>p_older := (p_older s2)(rlist := tp)\<rparr> in
      s3\<lparr>p_newer := (p_newer s3)(p_older s2 tp := tp)\<rparr>)"

definition thread_init :: "ptr \<Rightarrow> u32 \<Rightarrow> kern \<Rightarrow> kern" where
  "thread_init tp prio s0 =
     (let s1 = s0
        \<lparr>p_prio := (p_prio s0)(tp := prio), p_state := (p_state s0)(tp := THD_STATE_SUSPENDED),
         p_flags := (p_flags s0)(tp := 0), p_preempt := (p_preempt s0)(tp := CH_TIME_QUANTUM),
         p_realprio := (p_realprio s0)(tp := prio), p_mtxlist := (p_mtxlist s0)(tp := Null),
         p_epending := (p_epending s0)(tp := 0), p_time := (p_time s0)(tp := 0), p_refs := (p_refs s0)(tp := 1),
         p_name := (p_name s0)(tp := Null)\<rparr> in
      queue_init (msgqueue_of tp) (list_init (waiting_of tp) (REG_INSERT tp s1)))"

text \<open>The context that is set up starts the function of the thread.\<close>

definition chThdCreateI :: "ptr \<Rightarrow> u32 \<Rightarrow> kern \<Rightarrow> kern" where
  "chThdCreateI wsp prio s = thread_init wsp prio (s\<lparr>p_ctx := (p_ctx s)(wsp := Ctx_plain)\<rparr>)"

definition chThdCreateStatic :: "ptr \<Rightarrow> u32 \<Rightarrow> kern \<Rightarrow> kern option" where
  "chThdCreateStatic wsp prio s =
     Option.bind (chSchWakeupS wsp RDY_OK (chThdCreateI wsp prio (chSysLock s))) (\<lambda>s1. Some (chSysUnlock s1))"

definition chThdSetPriority :: "u32 \<Rightarrow> kern \<Rightarrow> (u32 \<times> kern) option" where
  "chThdSetPriority newprio s =
     (let s0 = chSysLock s;
          c = r_current s0;
          oldprio = p_realprio s0 c;
          s1 = (if p_prio s0 c = p_realprio s0 c \<or> newprio > p_prio s0 c
                then s0\<lparr>p_prio := (p_prio s0)(c := newprio)\<rparr> else s0);
          s2 = s1\<lparr>p_realprio := (p_realprio s1)(c := newprio)\<rparr> in
      Option.bind (chSchRescheduleS s2) (\<lambda>s3. Some (oldprio, chSysUnlock s3)))"

definition chThdResume :: "ptr \<Rightarrow> kern \<Rightarrow> kern option" where
  "chThdResume tp s = Option.bind (chSchWakeupS tp RDY_OK (chSysLock s)) (\<lambda>s1. Some (chSysUnlock s1))"

definition chThdSleepS :: "u32 \<Rightarrow> ptr \<Rightarrow> kern \<Rightarrow> kern option" where
  "chThdSleepS time vt s = chSchGoSleepTimeoutS THD_STATE_SLEEPING time vt s"

definition chThdSleep :: "u32 \<Rightarrow> ptr \<Rightarrow> kern \<Rightarrow> kern option" where
  "chThdSleep time vt s = Option.bind (chThdSleepS time vt (chSysLock s)) (\<lambda>s1. Some (chSysUnlock s1))"

definition chThdSleepUntil :: "u32 \<Rightarrow> ptr \<Rightarrow> kern \<Rightarrow> kern option" where
  "chThdSleepUntil time vt s =
     (let s0 = chSysLock s; d = time - chTimeNow s0 in
      Option.bind (if d > 0 then chThdSleepS d vt s0 else Some s0) (\<lambda>s1. Some (chSysUnlock s1)))"

definition chThdYield :: "kern \<Rightarrow> kern option" where
  "chThdYield s = Option.bind (chSchDoYieldS (chSysLock s)) (\<lambda>s1. Some (chSysUnlock s1))"


section \<open>Start of the kernel\<close>

definition IDLEPRIO :: u32 where "IDLEPRIO = 1"

definition NORMALPRIO :: u32 where "NORMALPRIO = 64"

text \<open>
  The working memory and the heap are initialised in between; they are not part of this state.  The name that is set is
  a string at \<open>main_name\<close>; the structures of the main and of the idle thread are static variables.
\<close>

definition chSysEnable :: "kern \<Rightarrow> kern" where
  "chSysEnable s = alt_irq_enable_all PIE_MSK s"

definition chRegSetThreadName :: "ptr \<Rightarrow> kern \<Rightarrow> kern" where
  "chRegSetThreadName p s = s\<lparr>p_name := (p_name s)(r_current s := p)\<rparr>"

definition chSysInit :: "ptr \<Rightarrow> ptr \<Rightarrow> ptr \<Rightarrow> kern \<Rightarrow> kern option" where
  "chSysInit mainthread idle_wa main_name s =
     (let s1 = thread_init mainthread NORMALPRIO (vt_init (scheduler_init s));
          s2 = s1\<lparr>r_current := mainthread\<rparr>;
          s3 = s2\<lparr>p_state := (p_state s2)(r_current s2 := THD_STATE_CURRENT)\<rparr> in
      chThdCreateStatic idle_wa IDLEPRIO (chRegSetThreadName main_name (chSysEnable s3)))"

end
