(* ===== verification/Ch_Inv.thy ===== *)
theory Ch_Inv
  imports Ch_Schd
begin

text \<open>
  The invariant of the kernel.  \<open>S\<close> is the set of semaphores in use, \<open>idle\<close> the thread that never waits; \<open>Q\<close>
  gives the threads in the ready list and in the queue of each semaphore, and \<open>ts\<close> the timers of
  the threads that wait with a timeout.  Threads in \<open>X\<close> are on their way from one queue to another.
\<close>

section \<open>The invariant\<close>

definition ready_wf :: "(ptr \<Rightarrow> ptr list) \<Rightarrow> kern \<Rightarrow> bool" where
  "ready_wf Q s \<longleftrightarrow> p_prio s rlist = 0 \<and> sorted_wrt (\<lambda>a b. p_prio s b \<le> p_prio s a) (Q rlist) \<and>
     (\<forall>t \<in> set (Q rlist). p_state s t = THD_STATE_READY \<and> 0 < p_prio s t)"

text \<open>
  What the threads of a queue wait for depends on the kind of the object that heads it.  The queues of mutexes and condition
  variables are sorted by priority, the others are served first come first.
\<close>

fun waiter_state :: "ptr \<Rightarrow> tstate" where
  "waiter_state (Ioq_at a) = THD_STATE_WTQUEUE"
| "waiter_state (Mtx_at a) = THD_STATE_WTMTX"
| "waiter_state (Cond_at a) = THD_STATE_WTCOND"
| "waiter_state p = THD_STATE_WTSEM"

definition by_prio :: "ptr \<Rightarrow> bool" where
  "by_prio sp \<longleftrightarrow> waiter_state sp \<in> {THD_STATE_WTMTX, THD_STATE_WTCOND}"

definition waiters_wf :: "ptr set \<Rightarrow> (ptr \<Rightarrow> ptr list) \<Rightarrow> kern \<Rightarrow> bool" where
  "waiters_wf S Q s \<longleftrightarrow> (\<forall>sp \<in> S. (\<forall>t \<in> set (Q sp).
     p_state s t = waiter_state sp \<and> p_u s t = Wtobjp sp \<and> 0 < p_prio s t) \<and>
     (by_prio sp \<longrightarrow> sorted_wrt (\<lambda>a b. p_prio s b \<le> p_prio s a) (Q sp)))"

text \<open>The semaphores among the objects in use.\<close>

abbreviation sems :: "ptr set \<Rightarrow> ptr set" where
  "sems S \<equiv> S \<inter> range At"

definition counts :: "ptr set \<Rightarrow> (ptr \<Rightarrow> ptr list) \<Rightarrow> kern \<Rightarrow> bool" where
  "counts S Q s \<longleftrightarrow> (\<forall>a. At a \<in> S \<longrightarrow> length (Q (At a)) = nat (- s_cnt s (At a)))"

text \<open>States with a timeout in which a thread is in no queue; a thread that a timer may wake.\<close>

fun off_queue :: "tstate \<Rightarrow> bool" where
  "off_queue THD_STATE_SLEEPING = True"
| "off_queue THD_STATE_WTOREVT = True"
| "off_queue THD_STATE_WTANDEVT = True"
| "off_queue st = False"

definition waits :: "ptr set \<Rightarrow> (ptr \<Rightarrow> ptr list) \<Rightarrow> kern \<Rightarrow> ptr \<Rightarrow> bool" where
  "waits S Q s p \<longleftrightarrow> p \<in> queued (insert rlist S) Q \<and> p_state s p \<noteq> THD_STATE_WTMTX \<or>
     off_queue (p_state s p) \<and> p \<in> range At - S \<and> 0 < p_prio s p"

definition timers_wf :: "ptr set \<Rightarrow> (ptr \<Rightarrow> ptr list) \<Rightarrow> timer list \<Rightarrow> ptr set \<Rightarrow> kern \<Rightarrow> bool" where
  "timers_wf S Q ts X s \<longleftrightarrow> timers_are s ts \<and>
     (\<forall>t \<in> set ts. tm_func t = Wakeup \<and> p_ctx s (tm_par t) = Ctx_timeout (tm_at t) \<and>
        (tm_par t \<in> X \<or> waits S Q s (tm_par t))) \<and>
     (\<forall>p vt. p_ctx s p = Ctx_timeout vt \<and> vt_func s vt \<noteq> No_func \<longrightarrow> (\<exists>t \<in> set ts. tm_at t = vt \<and> tm_par t = p))"

abbreviation headers :: "ptr set" where
  "headers \<equiv> range At \<union> range Ioq_at \<union> range Mtx_at \<union> range Cond_at"

definition addrs :: "ptr set \<Rightarrow> (ptr \<Rightarrow> ptr list) \<Rightarrow> bool" where
  "addrs S Q \<longleftrightarrow> S \<subseteq> headers \<and> queued (insert rlist S) Q \<subseteq> range At"

definition kqueues :: "ptr set \<Rightarrow> (ptr \<Rightarrow> ptr list) \<Rightarrow> timer list \<Rightarrow> ptr set \<Rightarrow> kern \<Rightarrow> bool" where
  "kqueues S Q ts X s \<longleftrightarrow> addrs S Q \<and> queues (insert rlist S) Q s \<and> ready_wf Q s \<and> waiters_wf S Q s \<and> timers_wf S Q ts X s"

definition current_wf :: "ptr set \<Rightarrow> ptr \<Rightarrow> (ptr \<Rightarrow> ptr list) \<Rightarrow> kern \<Rightarrow> bool" where
  "current_wf S idle Q s \<longleftrightarrow> r_current s \<in> range At - S \<and> p_state s (r_current s) = THD_STATE_CURRENT \<and>
     0 < p_prio s (r_current s) \<and> p_ctx s (r_current s) = Ctx_plain \<and> idle \<in> insert (r_current s) (set (Q rlist))"

definition runs_top :: "(ptr \<Rightarrow> ptr list) \<Rightarrow> kern \<Rightarrow> bool" where
  "runs_top Q s \<longleftrightarrow> (\<forall>t \<in> set (Q rlist). p_prio s t \<le> p_prio s (r_current s))"

lemma waiter_state_simps [simp]:
  "waiter_state sp \<noteq> THD_STATE_READY" "waiter_state sp \<noteq> THD_STATE_CURRENT" "waiter_state sp \<noteq> THD_STATE_SUSPENDED"
  "\<not> off_queue (waiter_state sp)"
  by (cases sp; simp)+

lemma by_prio_simps: "\<not> by_prio sp \<Longrightarrow> waiter_state sp \<noteq> THD_STATE_WTMTX" "\<not> by_prio (At a)" "\<not> by_prio (Ioq_at a)"
  by (auto simp: by_prio_def)

section \<open>Shapes of the results\<close>

lemma dequeue_shape: "\<exists>nx pv. snd (dequeue e s) = s\<lparr>p_next := nx, p_prev := pv\<rparr>" "fst (dequeue e s) = e"
  by (auto simp: dequeue_def Let_def)

lemma insert_before_shape: "\<exists>nx pv. insert_before cp e s = s\<lparr>p_next := nx, p_prev := pv\<rparr>"
  by (rule exI [of _ "(p_next s)(e := cp, p_prev s cp := e)"], rule exI [of _ "(p_prev s)(e := p_prev s cp, cp := e)"])
    (simp add: insert_before_def Let_def)

lemma queued_simps:
  "queued (insert rlist S) Q = set (Q rlist) \<union> (\<Union>sp \<in> S. set (Q sp))"
  by (simp add: queued_def)

lemma queued_upd: "h \<in> H \<Longrightarrow> queued H (Q(h := zs)) = set zs \<union> (\<Union>k \<in> H - {h}. set (Q k))"
  by (auto simp: queued_def split: if_splits)

lemma queued_split: "h \<in> H \<Longrightarrow> queued H Q = set (Q h) \<union> (\<Union>k \<in> H - {h}. set (Q k))"
  using queued_upd [of h H Q "Q h"] by simp

section \<open>Making a thread ready\<close>

lemma set_takeWhile_dropWhile: "insert t (set (takeWhile go xs) \<union> set (dropWhile go xs)) = insert t (set xs)"
  using set_append [of "takeWhile go xs" "dropWhile go xs"] by simp

text \<open>Behind the threads of the same priority, or ahead of them.\<close>

definition behind :: "kern \<Rightarrow> ptr \<Rightarrow> ptr list \<Rightarrow> ptr list" where
  "behind s t xs = takeWhile (\<lambda>p. p_prio s t \<le> p_prio s p) xs @ t # dropWhile (\<lambda>p. p_prio s t \<le> p_prio s p) xs"

definition ahead :: "kern \<Rightarrow> ptr \<Rightarrow> ptr list \<Rightarrow> ptr list" where
  "ahead s t xs = takeWhile (\<lambda>p. p_prio s t < p_prio s p) xs @ t # dropWhile (\<lambda>p. p_prio s t < p_prio s p) xs"

lemma set_behind [simp]: "set (behind s t xs) = insert t (set xs)"
  and set_ahead [simp]: "set (ahead s t xs) = insert t (set xs)"
  unfolding behind_def ahead_def by (simp_all add: set_takeWhile_dropWhile)

lemma sorted_insert:
  assumes "sorted_wrt (\<lambda>a b. f b \<le> (f a :: 'b :: linorder)) xs"
  shows "sorted_wrt (\<lambda>a b. f b \<le> f a) (takeWhile (\<lambda>p. f t \<le> f p) xs @ t # dropWhile (\<lambda>p. f t \<le> f p) xs)"
    "sorted_wrt (\<lambda>a b. f b \<le> f a) (takeWhile (\<lambda>p. f t < f p) xs @ t # dropWhile (\<lambda>p. f t < f p) xs)"
proof -
  have s: "sorted_wrt (\<lambda>a b. f b \<le> f a) (takeWhile P xs @ dropWhile P xs)" for P using assms by simp
  have "sorted_wrt (\<lambda>a b. f b \<le> f a) ys \<Longrightarrow> \<forall>p \<in> set ys. f p \<le> f (hd ys)" for ys by (cases ys) auto
  then have d: "\<forall>p \<in> set (dropWhile P xs). f p \<le> f (hd (dropWhile P xs))" for P
    using s [of P] unfolding sorted_wrt_append by blast
  show "sorted_wrt (\<lambda>a b. f b \<le> f a) (takeWhile (\<lambda>p. f t \<le> f p) xs @ t # dropWhile (\<lambda>p. f t \<le> f p) xs)"
    using s [of "\<lambda>p. f t \<le> f p"] d [of "\<lambda>p. f t \<le> f p"] hd_dropWhile [of "\<lambda>p. f t \<le> f p" xs]
    by (fastforce simp: sorted_wrt_append dest: set_takeWhileD)
  show "sorted_wrt (\<lambda>a b. f b \<le> f a) (takeWhile (\<lambda>p. f t < f p) xs @ t # dropWhile (\<lambda>p. f t < f p) xs)"
    using s [of "\<lambda>p. f t < f p"] d [of "\<lambda>p. f t < f p"] hd_dropWhile [of "\<lambda>p. f t < f p" xs]
    by (fastforce simp: sorted_wrt_append dest: set_takeWhileD)
qed

lemma insert_seek:
  assumes "queues (insert rlist S) Q s" "t \<notin> insert rlist S" "t \<notin> queued (insert rlist S) Q"
    "\<not> go rlist" "p_next s1 = p_next s" "p_prev s1 = p_prev s"
  shows "\<exists>cp. tq_seek go (p_next s1) rlist = Some cp \<and>
    queues (insert rlist S) (Q(rlist := takeWhile go (Q rlist) @ t # dropWhile go (Q rlist))) (insert_before cp t s1)"
proof -
  let ?xs = "takeWhile go (Q rlist)" and ?ys = "dropWhile go (Q rlist)"
  have q: "queues (insert rlist S) Q s1" by (rule queues_cong [OF assms(1,5,6)])
  have d: "dl (p_next s1) (p_prev s1) rlist (?xs @ ?ys)" using queuesD [OF q, of rlist] by simp
  have "\<not> go (hd (ys @ [rlist]))" if "ys = ?ys" for ys
    using that assms(4) by (cases ys) (simp, metis append_Cons dropWhile_eq_Cons_conv list.sel(1))
  then have "\<not> go (hd (?ys @ [rlist]))" by blast
  then have "tq_seek go (p_next s1) rlist = Some (hd (?ys @ [rlist]))"
    using seek_stops [OF d] by (auto dest: set_takeWhileD)
  moreover have "queues (insert rlist S) (Q(rlist := ?xs @ t # ?ys)) (insert_before (hd (?ys @ [rlist])) t s1)"
    by (rule insert_before_run [OF q]) (use assms in simp_all)
  ultimately show ?thesis by blast
qed

section \<open>Moving threads\<close>

lemma timers_cong:
  assumes "vt_next s' = vt_next s" "vt_prev s' = vt_prev s" "vt_time s' = vt_time s" "vt_func s' = vt_func s" "vt_par s' = vt_par s"
  shows "timers_are s' ts = timers_are s ts"
  using assms deltas_cong [of ts s' s 0] by (simp add: timers_are_def)

lemma waiters_cong:
  assumes "waiters_wf S Q s"
    "\<And>sp t. sp \<in> S \<Longrightarrow> t \<in> set (Q sp) \<Longrightarrow> p_state s' t = p_state s t \<and> p_u s' t = p_u s t \<and> p_prio s' t = p_prio s t"
  shows "waiters_wf S Q s'"
  unfolding waiters_wf_def
proof (intro ballI conjI impI)
  fix sp t assume "sp \<in> S" "t \<in> set (Q sp)"
  then show "p_state s' t = waiter_state sp" "p_u s' t = Wtobjp sp" "0 < p_prio s' t" using assms by (simp_all add: waiters_wf_def)
next
  fix sp assume sp: "sp \<in> S" "by_prio sp"
  then have "sorted_wrt (\<lambda>a b. p_prio s b \<le> p_prio s a) (Q sp)" using assms(1) by (simp add: waiters_wf_def)
  then show "sorted_wrt (\<lambda>a b. p_prio s' b \<le> p_prio s' a) (Q sp)"
    by (rule sorted_wrt_mono_rel [rotated]) (use assms(2) [OF sp(1)] in simp)
qed

lemma kqueues_cong:
  assumes "kqueues S Q ts X s" "vt_next s' = vt_next s" "vt_prev s' = vt_prev s" "vt_time s' = vt_time s" "vt_func s' = vt_func s"
    "vt_par s' = vt_par s" "p_next s' = p_next s" "p_prev s' = p_prev s" "p_prio s' = p_prio s" "p_ctx s' = p_ctx s"
    "\<And>t. t \<in> queued (insert rlist S) Q \<or> off_queue (p_state s t) \<Longrightarrow> p_state s' t = p_state s t"
    "\<And>sp t. sp \<in> S \<Longrightarrow> t \<in> set (Q sp) \<Longrightarrow> p_u s' t = p_u s t"
  shows "kqueues S Q ts X s'"
proof -
  note k = assms(1) [unfolded kqueues_def]
  have st: "t \<in> set (Q rlist) \<Longrightarrow> p_state s' t = p_state s t" "sp \<in> S \<Longrightarrow> t \<in> set (Q sp) \<Longrightarrow> p_state s' t = p_state s t" for sp t
    using assms(11) by (auto simp: queued_simps)
  have "waits S Q s' p" if "waits S Q s p" for p using that assms(9) assms(11) [of p] by (auto simp: waits_def)
  then have "timers_wf S Q ts X s'"
    using k timers_cong [OF assms(2-6), of ts] assms(5,10) by (auto simp: timers_wf_def)
  then show ?thesis
    using k queues_cong [OF _ assms(7,8), of "insert rlist S" Q] assms(9,12) st
    by (auto simp: kqueues_def ready_wf_def waiters_wf_def)
qed

lemma kq_insert:
  assumes "kqueues S Q ts X s" "t \<in> range At - S" "t \<notin> queued (insert rlist S) Q" "0 < p_prio s t" "\<not> go rlist"
    "sorted_wrt (\<lambda>a b. p_prio s b \<le> p_prio s a) (takeWhile go (Q rlist) @ t # dropWhile go (Q rlist))"
  obtains cp nx pv s' where "tq_seek go (p_next s) rlist = Some cp"
    "insert_before cp t (s\<lparr>p_state := (p_state s)(t := THD_STATE_READY)\<rparr>) = s'"
    "s' = s\<lparr>p_state := (p_state s)(t := THD_STATE_READY), p_next := nx, p_prev := pv\<rparr>"
    "kqueues S (Q(rlist := takeWhile go (Q rlist) @ t # dropWhile go (Q rlist))) ts (X - {t}) s'"
proof -
  note k = assms(1) [unfolded kqueues_def]
  have S: "rlist \<notin> S" "t \<notin> insert rlist S" using k assms(2) by (auto simp: addrs_def)
  let ?r = "s\<lparr>p_state := (p_state s)(t := THD_STATE_READY)\<rparr>"
  let ?Q = "Q(rlist := takeWhile go (Q rlist) @ t # dropWhile go (Q rlist))"
  obtain cp where cp: "tq_seek go (p_next ?r) rlist = Some cp" "queues (insert rlist S) ?Q (insert_before cp t ?r)"
    using insert_seek [of S Q s t go ?r] k S assms(3,5) by auto
  obtain nx pv where sh: "insert_before cp t ?r = ?r\<lparr>p_next := nx, p_prev := pv\<rparr>" using insert_before_shape by blast
  let ?s = "?r\<lparr>p_next := nx, p_prev := pv\<rparr>"
  have mem: "set (?Q rlist) = insert t (set (Q rlist))"
    by (simp add: set_takeWhile_dropWhile)
  have q: "queued (insert rlist S) ?Q = insert t (queued (insert rlist S) Q)"
    using mem by (simp add: queued_upd queued_split [of rlist _ Q])
  have "ready_wf ?Q ?s"
    unfolding ready_wf_def mem using k assms(3,4,6) by (simp add: ready_wf_def queued_simps)
  moreover have "waiters_wf S ?Q ?s" using k S assms(3) by (auto simp: waiters_wf_def queued_simps)
  moreover have "timers_wf S ?Q ts (X - {t}) ?s"
    using k timers_cong [of ?s s ts] by (auto simp: timers_wf_def waits_def q)
  moreover have "addrs S ?Q" using k assms(2) by (simp add: addrs_def q)
  ultimately have "kqueues S ?Q ts (X - {t}) ?s" using cp(2) sh by (simp add: kqueues_def)
  then show ?thesis using cp(1) sh by (intro that [OF _ _ refl]) auto
qed

lemma kq_ready:
  assumes "kqueues S Q ts X s" "t \<in> range At - S" "t \<notin> queued (insert rlist S) Q" "0 < p_prio s t"
  obtains nx pv s' where "chSchReadyI t s = Some s'"
    "s' = s\<lparr>p_state := (p_state s)(t := THD_STATE_READY), p_next := nx, p_prev := pv\<rparr>"
    "kqueues S (Q(rlist := behind s t (Q rlist))) ts (X - {t}) s'"
proof -
  have r: "ready_wf Q s" using assms(1) by (simp add: kqueues_def)
  then have g: "\<not> p_prio s t \<le> p_prio s rlist" using assms(4) by (simp add: ready_wf_def word_gt_0)
  have so: "sorted_wrt (\<lambda>a b. p_prio s b \<le> p_prio s a) (behind s t (Q rlist))"
    unfolding behind_def using r sorted_insert(1) [of "p_prio s" "Q rlist" t] by (simp add: ready_wf_def)
  obtain cp nx pv s' where "tq_seek (\<lambda>p. p_prio s t \<le> p_prio s p) (p_next s) rlist = Some cp"
      "insert_before cp t (s\<lparr>p_state := (p_state s)(t := THD_STATE_READY)\<rparr>) = s'"
      "s' = s\<lparr>p_state := (p_state s)(t := THD_STATE_READY), p_next := nx, p_prev := pv\<rparr>"
      "kqueues S (Q(rlist := behind s t (Q rlist))) ts (X - {t}) s'"
    unfolding behind_def by (rule kq_insert [OF assms g so [unfolded behind_def]])
  then show ?thesis by (intro that [of s']) (auto simp: chSchReadyI_def)
qed

lemma kq_dequeue:
  assumes "kqueues S Q ts X s" "h \<in> insert rlist S" "Q h = xs @ t # ys"
  obtains nx pv s' where "dequeue t s = (t, s')" "s' = s\<lparr>p_next := nx, p_prev := pv\<rparr>"
    "kqueues S (Q(h := xs @ ys)) ts (insert t X) s'" "t \<in> range At - S" "t \<notin> queued (insert rlist S) (Q(h := xs @ ys))" "0 < p_prio s t"
proof -
  note k = assms(1) [unfolded kqueues_def]
  let ?Q = "Q(h := xs @ ys)"
  obtain nx pv where sh: "snd (dequeue t s) = s\<lparr>p_next := nx, p_prev := pv\<rparr>" using dequeue_shape(1) by blast
  let ?s = "s\<lparr>p_next := nx, p_prev := pv\<rparr>"
  have "queues (insert rlist S) Q s" using k by simp
  from dequeue_run [OF this assms(2,3)] have q: "queues (insert rlist S) ?Q ?s" using sh by simp
  have dq: "distinct (h # Q h)" using k assms(2) dl_distinct queuesD by metis
  have t: "t \<in> set (Q h)" "t \<notin> set (xs @ ys)" using assms(3) dq by auto
  have other: "t \<notin> set (j # Q j)" if "j \<in> insert rlist S" "j \<noteq> h" for j
    using k t(1) that assms(2) unfolding queues_def by (metis IntI empty_iff list.set_intros(2))
  have tq: "t \<notin> queued (insert rlist S) ?Q" using t(2) other by (auto simp: queued_def)
  have tS: "t \<noteq> h" using dq t(1) by auto
  have "t \<notin> insert rlist S" using other tS assms(2) by (metis list.set_intros(1))
  moreover have "t \<in> range At" using k t(1) assms(2) by (auto simp: addrs_def queued_def)
  moreover have "0 < p_prio s t" using k t(1) assms(2) by (auto simp: ready_wf_def waiters_wf_def)
  moreover have "kqueues S ?Q ts (insert t X) ?s"
  proof -
    have sub: "queued (insert rlist S) Q = insert t (queued (insert rlist S) ?Q)"
      unfolding queued_upd [OF assms(2)] queued_split [OF assms(2), of Q] assms(3) by auto
    have so: "sorted_wrt (\<lambda>a b. p_prio s b \<le> p_prio s a) (?Q rlist)"
      using k assms(3) by (auto simp: ready_wf_def sorted_wrt_append)
    have less: "p \<in> set (?Q j) \<Longrightarrow> p \<in> set (Q j)" for p j using assms(3) by (auto split: if_splits)
    have "ready_wf ?Q ?s" using k so less [of _ rlist] by (simp add: ready_wf_def)
    moreover have "waiters_wf S ?Q ?s" unfolding waiters_wf_def
    proof (intro ballI conjI impI)
      fix sp p assume "sp \<in> S" "p \<in> set (?Q sp)"
      then show "p_state ?s p = waiter_state sp" "p_u ?s p = Wtobjp sp" "0 < p_prio ?s p"
        using k less [of p sp] by (simp_all add: waiters_wf_def)
    next
      fix sp assume "sp \<in> S" "by_prio sp"
      then have "sorted_wrt (\<lambda>a b. p_prio s b \<le> p_prio s a) (Q sp)" using k by (simp add: waiters_wf_def)
      then show "sorted_wrt (\<lambda>a b. p_prio ?s b \<le> p_prio ?s a) (?Q sp)" using assms(3) by (auto simp: sorted_wrt_append)
    qed
    moreover have "waits S ?Q ?s p \<or> p = t" if "waits S Q s p" for p
      using that sub by (auto simp: waits_def)
    then have "timers_wf S ?Q ts (insert t X) ?s"
      using k timers_cong [of ?s s ts] by (simp add: timers_wf_def) blast
    moreover have "addrs S ?Q" using k sub by (auto simp: addrs_def)
    ultimately show ?thesis using q by (simp add: kqueues_def)
  qed
  moreover have "dequeue t s = (t, ?s)" using sh dequeue_shape(2) [of t s] by (metis prod.collapse)
  ultimately show ?thesis using tq by (intro that [OF _ refl]) auto
qed


section \<open>Switching\<close>

text \<open>The timers that are left when \<open>n\<close> goes on.\<close>

definition without :: "ptr \<Rightarrow> timer list \<Rightarrow> timer list" where
  "without n ts = filter (\<lambda>t. tm_par t \<noteq> n) ts"

definition made_current :: "ptr \<Rightarrow> kern \<Rightarrow> kern" where
  "made_current n s = s\<lparr>r_current := n, p_state := (p_state s)(n := THD_STATE_CURRENT)\<rparr>"

lemma no_timer:
  assumes "timers_wf S Q ts X s" "\<And>vt. p_ctx s n = Ctx_timeout vt \<Longrightarrow> vt_func s vt = No_func"
  shows "without n ts = ts"
proof -
  have "tm_par t \<noteq> n" if "t \<in> set ts" for t
    using assms that unfolding timers_wf_def timers_are_def by metis
  then show ?thesis by (simp add: without_def)
qed

lemma one_timer:
  assumes "timers_wf S Q ts X s" "p_ctx s n = Ctx_timeout vt" "vt_func s vt \<noteq> No_func"
  obtains xs t ys where "ts = xs @ t # ys" "tm_at t = vt" "tm_par t = n" "without n ts = xs @ ys"
proof -
  have d: "distinct (map tm_at ts)" using assms(1) dl_distinct by (fastforce simp: timers_wf_def timers_are_def)
  obtain t where t: "t \<in> set ts" "tm_at t = vt" "tm_par t = n" using assms unfolding timers_wf_def by blast
  then obtain xs ys where ts: "ts = xs @ t # ys" by (meson split_list)
  have "tm_par u \<noteq> n" if "u \<in> set xs \<union> set ys" for u
  proof
    assume "tm_par u = n"
    then have "tm_at u = vt" using assms(1,2) that ts unfolding timers_wf_def by (metis UnE UnI1 UnI2 ctx.inject list.set_intros(2) set_append)
    then show False using d ts that t(2) by auto
  qed
  then have "without n ts = xs @ ys" using ts t(3) by (simp add: without_def filter_id_conv)
  then show ?thesis using that ts t by blast
qed

lemma switch_shape:
  obtains nx pv tm fn where "chSysSwitch n s = s\<lparr>vt_next := nx, vt_prev := pv, vt_time := tm, vt_func := fn, p_ctx := (p_ctx s)(n := Ctx_plain)\<rparr>"
proof (cases "p_ctx s n")
  case Ctx_plain
  then have "chSysSwitch n s = s\<lparr>vt_next := vt_next s, vt_prev := vt_prev s, vt_time := vt_time s, vt_func := vt_func s, p_ctx := (p_ctx s)(n := Ctx_plain)\<rparr>"
    by (simp add: chSysSwitch_def fun_upd_idem)
  then show ?thesis by (rule that)
next
  case (Ctx_timeout vt)
  let ?s = "if chVTIsArmedI vt s then chVTResetI vt s else s"
  have "chSysSwitch n s = s\<lparr>vt_next := vt_next ?s, vt_prev := vt_prev ?s, vt_time := vt_time ?s, vt_func := vt_func ?s, p_ctx := (p_ctx s)(n := Ctx_plain)\<rparr>"
    using Ctx_timeout by (simp add: chSysSwitch_def chVTResetI_def Let_def)
  then show ?thesis by (rule that)
qed

text \<open>The timer of \<open>n\<close> is gone, and \<open>n\<close> is no longer suspended.\<close>

lemma timers_wf_without:
  assumes "timers_wf S Q ts X s" "X \<subseteq> {n}" "timers_are s' (without n ts)" "p_ctx s' = (p_ctx s)(n := Ctx_plain)"
    "p_state s' = p_state s" "p_prio s' = p_prio s" "\<And>v. vt_func s' v \<noteq> No_func \<Longrightarrow> vt_func s v \<noteq> No_func"
  shows "timers_wf S Q (without n ts) {} s'"
  unfolding timers_wf_def
proof (intro conjI ballI allI impI)
  fix t assume "t \<in> set (without n ts)"
  then have t: "t \<in> set ts" "tm_par t \<noteq> n" by (auto simp: without_def)
  then have "waits S Q s (tm_par t)" using assms(1,2) by (auto simp: timers_wf_def)
  then show "tm_par t \<in> {} \<or> waits S Q s' (tm_par t)" using assms(5,6) by (simp add: waits_def)
  show "tm_func t = Wakeup" "p_ctx s' (tm_par t) = Ctx_timeout (tm_at t)" using assms(1,4) t by (simp_all add: timers_wf_def)
next
  fix p v assume a: "p_ctx s' p = Ctx_timeout v \<and> vt_func s' v \<noteq> No_func"
  then have "p \<noteq> n" "p_ctx s p = Ctx_timeout v" "vt_func s v \<noteq> No_func" using assms(4,7) by (auto split: if_splits)
  then show "\<exists>t \<in> set (without n ts). tm_at t = v \<and> tm_par t = p" using assms(1) unfolding timers_wf_def without_def by fastforce
qed (rule assms(3))

lemma switch_timers:
  assumes "kqueues S Q ts X s" "X \<subseteq> {n}"
  shows "timers_wf S Q (without n ts) {} (chSysSwitch n s)"
proof (cases "\<exists>vt. p_ctx s n = Ctx_timeout vt \<and> vt_func s vt \<noteq> No_func")
  case True
  have wf: "timers_wf S Q ts X s" using assms(1) by (simp add: kqueues_def)
  obtain vt where vt: "p_ctx s n = Ctx_timeout vt" "vt_func s vt \<noteq> No_func" using True by blast
  obtain xs t ys where ts: "ts = xs @ t # ys" "tm_at t = vt" "tm_par t = n" "without n ts = xs @ ys" by (rule one_timer [OF wf vt])
  let ?s = "chVTResetI vt s"
  let ?t = "?s\<lparr>p_ctx := (p_ctx ?s)(n := Ctx_plain)\<rparr>"
  have sw: "chSysSwitch n s = ?t" using vt by (simp add: chSysSwitch_def chVTIsArmedI_def Let_def)
  have "timers_are ?s (xs @ ys)" using reset_run(1) [of s xs t ys] wf ts by (simp add: timers_wf_def)
  then have "timers_are ?t (without n ts)" using timers_cong [of ?t ?s "xs @ ys"] ts(4) by simp
  then show ?thesis
    unfolding sw by (rule timers_wf_without [OF wf assms(2)]) (auto simp: chVTResetI_def Let_def split: if_splits)
next
  case False
  have wf: "timers_wf S Q ts X s" using assms(1) by (simp add: kqueues_def)
  let ?t = "s\<lparr>p_ctx := (p_ctx s)(n := Ctx_plain)\<rparr>"
  have sw: "chSysSwitch n s = ?t"
  proof (cases "p_ctx s n")
    case Ctx_plain
    then have "(p_ctx s)(n := Ctx_plain) = p_ctx s" by (rule fun_upd_idem)
    then show ?thesis using Ctx_plain by (simp add: chSysSwitch_def)
  next
    case (Ctx_timeout vt)
    then have "\<not> chVTIsArmedI vt s" using False by (simp add: chVTIsArmedI_def)
    then show ?thesis using Ctx_timeout by (simp add: chSysSwitch_def)
  qed
  have "without n ts = ts" by (rule no_timer [OF wf]) (use False in auto)
  then have "timers_are ?t (without n ts)" using wf timers_cong [of ?t s ts] by (simp add: timers_wf_def)
  then show ?thesis unfolding sw by (rule timers_wf_without [OF wf assms(2)]) simp_all
qed

definition kst :: "ptr set \<Rightarrow> ptr \<Rightarrow> (ptr \<Rightarrow> ptr list) \<Rightarrow> timer list \<Rightarrow> kern \<Rightarrow> bool" where
  "kst S idle Q ts s \<longleftrightarrow> kqueues S Q ts {} s \<and> current_wf S idle Q s"

text \<open>A change of the state and the message of threads that are in no queue.\<close>

lemma kq_state:
  assumes "kqueues S Q ts X s" "n \<notin> queued (insert rlist S) Q"
  shows "kqueues S Q ts (insert n X) (s\<lparr>r_current := c, p_state := (p_state s)(n := st), p_u := (p_u s)(n := u)\<rparr>)"
proof -
  note k = assms(1) [unfolded kqueues_def]
  let ?s = "s\<lparr>r_current := c, p_state := (p_state s)(n := st), p_u := (p_u s)(n := u)\<rparr>"
  have "waits S Q ?s p \<or> p = n" if "waits S Q s p" for p using that by (auto simp: waits_def)
  then have "timers_wf S Q ts (insert n X) ?s"
    using k timers_cong [of ?s s ts] by (simp add: timers_wf_def) blast
  moreover have "ready_wf Q ?s" "waiters_wf S Q ?s"
    using k assms(2) by (auto simp: ready_wf_def waiters_wf_def queued_simps)
  moreover have "queues (insert rlist S) Q ?s" using k queues_cong [of _ Q s ?s] by simp
  ultimately show ?thesis using k by (simp add: kqueues_def)
qed

lemma switch_run:
  assumes "kqueues S Q ts X s" "X \<subseteq> {n}" "n \<in> range At - S" "n \<notin> queued (insert rlist S) Q" "0 < p_prio s n"
    "idle \<in> insert n (set (Q rlist))"
  shows "kst S idle Q (without n ts) (chSysSwitch n (made_current n s))"
proof -
  let ?m = "made_current n s"
  have "made_current n s = s\<lparr>r_current := n, p_state := (p_state s)(n := THD_STATE_CURRENT), p_u := (p_u s)(n := p_u s n)\<rparr>"
    by (simp add: made_current_def)
  then have k: "kqueues S Q ts (insert n X) ?m" using kq_state [OF assms(1,4)] by metis
  note kd = k [unfolded kqueues_def]
  have c: "p_state ?m n = THD_STATE_CURRENT" "r_current ?m = n" "p_prio ?m = p_prio s" by (simp_all add: made_current_def)
  have t: "timers_wf S Q (without n ts) {} (chSysSwitch n ?m)" using switch_timers [OF k, of n] assms(2) by blast
  obtain nx pv tm fn where sh: "chSysSwitch n ?m =
      ?m\<lparr>vt_next := nx, vt_prev := pv, vt_time := tm, vt_func := fn, p_ctx := (p_ctx ?m)(n := Ctx_plain)\<rparr>"
    by (rule switch_shape)
  have "queues (insert rlist S) Q (chSysSwitch n ?m)" using kd queues_cong [of _ Q ?m "chSysSwitch n ?m"] by (simp add: sh)
  moreover have "ready_wf Q (chSysSwitch n ?m)" "waiters_wf S Q (chSysSwitch n ?m)"
    using kd by (simp_all add: sh ready_wf_def waiters_wf_def)
  ultimately have "kqueues S Q (without n ts) {} (chSysSwitch n ?m)" using kd t by (simp add: kqueues_def)
  moreover have "current_wf S idle Q (chSysSwitch n ?m)" using c assms(3,5,6) by (simp add: sh current_wf_def)
  ultimately show ?thesis by (simp add: kst_def)
qed

text \<open>The fields that a switch leaves alone.\<close>

lemma switch_frame [simp]:
  "s_cnt (chSysSwitch n s) = s_cnt s" "r_current (chSysSwitch n s) = r_current s" "p_prio (chSysSwitch n s) = p_prio s"
  "p_state (chSysSwitch n s) = p_state s" "p_u (chSysSwitch n s) = p_u s" "p_time (chSysSwitch n s) = p_time s"
  "p_preempt (chSysSwitch n s) = p_preempt s" "p_realprio (chSysSwitch n s) = p_realprio s"
  by (rule switch_shape [of n s], simp)+

text \<open>The first ready thread is run.\<close>

lemma run_first_run:
  assumes "kqueues S Q ts {} s" "Q rlist = n # rest"
  obtains nx pv s1 where "run_first s = made_current n s1" "s1 = s\<lparr>p_next := nx, p_prev := pv\<rparr>"
    "kqueues S (Q(rlist := rest)) ts {n} s1" "n \<in> range At - S" "n \<notin> queued (insert rlist S) (Q(rlist := rest))" "0 < p_prio s n"
proof -
  have q: "Q rlist = [] @ n # rest" using assms(2) by simp
  obtain nx pv s1 where d: "dequeue n s = (n, s1)" "s1 = s\<lparr>p_next := nx, p_prev := pv\<rparr>" "kqueues S (Q(rlist := [] @ rest)) ts {n} s1"
      "n \<in> range At - S" "n \<notin> queued (insert rlist S) (Q(rlist := [] @ rest))" "0 < p_prio s n"
    by (rule kq_dequeue [OF assms(1) insertI1 q])
  have "queues (insert rlist S) Q s" using assms(1) by (simp add: kqueues_def)
  then have f: "fifo_remove rlist s = (n, s1)" using fifo_remove_run [of "insert rlist S" Q s rlist n rest] assms(2) d(1) by simp
  have r: "run_first s = made_current n s1" by (simp add: run_first_def f made_current_def)
  show ?thesis by (rule that [OF r d(2) _ d(4) _ d(6)]) (use d(3,5) in simp_all)
qed

end
