(* ===== verification/Ch_Ops.thy ===== *)
theory Ch_Ops
  imports Ch_Inv
begin

text \<open>
  The operations of the scheduler keep the invariant, and return.  After each of them no ready
  thread has a higher priority than the running one.
\<close>

section \<open>The invariant between two steps\<close>

text \<open>
  \<open>T\<close> is the set of threads that have been created, \<open>stk\<close> gives the stack of each: the timers of a
  thread lie there.
\<close>

definition threads_wf :: "ptr set \<Rightarrow> (ptr \<Rightarrow> ptr set) \<Rightarrow> ptr set \<Rightarrow> (ptr \<Rightarrow> ptr list) \<Rightarrow> timer list \<Rightarrow> kern \<Rightarrow> bool" where
  "threads_wf S stk T Q ts s \<longleftrightarrow> T \<subseteq> range At - S \<and> insert (r_current s) (queued (insert rlist S) Q) \<subseteq> T \<and>
     (\<forall>t \<in> set ts. tm_par t \<in> T) \<and> (\<forall>p \<in> T. 0 < p_prio s p) \<and>
     (\<forall>p vt. p_ctx s p = Ctx_timeout vt \<longrightarrow> vt \<in> stk p)"

definition kmid where
  "kmid S idle stk T Q ts X s \<longleftrightarrow> kqueues S Q ts X s \<and> current_wf S idle Q s \<and> threads_wf S stk T Q ts s \<and>
     l_next s alt_alarm_list = alt_alarm_list"

lemmas kmidD = kmid_def [THEN iffD1]

lemma kmid_facts:
  assumes "kmid S idle stk T Q ts X s"
  shows "rlist \<notin> S" "T \<subseteq> range At - S" "r_current s \<in> T" "queued (insert rlist S) Q \<subseteq> T"
    "r_current s \<notin> queued (insert rlist S) Q" "t \<in> T \<Longrightarrow> 0 < p_prio s t" "kqueues S Q ts X s"
    "idle \<in> insert (r_current s) (set (Q rlist))" "u \<in> set ts \<Longrightarrow> tm_par u \<noteq> r_current s"
proof -
  note m = assms [unfolded kmid_def threads_wf_def kqueues_def]
  show "rlist \<notin> S" "T \<subseteq> range At - S" "r_current s \<in> T" "queued (insert rlist S) Q \<subseteq> T" "t \<in> T \<Longrightarrow> 0 < p_prio s t"
    "kqueues S Q ts X s" "idle \<in> insert (r_current s) (set (Q rlist))"
    using m by (auto simp: addrs_def current_wf_def kqueues_def)
  show "r_current s \<notin> queued (insert rlist S) Q"
    using m by (auto simp: current_wf_def ready_wf_def waiters_wf_def queued_simps)
  show "u \<in> set ts \<Longrightarrow> tm_par u \<noteq> r_current s"
    using m by (auto simp: current_wf_def timers_wf_def)
qed

text \<open>What a step of the scheduler leaves alone.\<close>

definition kstays where
  "kstays S Q ts s Q' ts' s' \<longleftrightarrow> (\<forall>sp \<in> S. Q' sp = Q sp) \<and> set ts' \<subseteq> set ts \<and> s_cnt s' = s_cnt s \<and> l_next s' = l_next s \<and>
     p_prio s' = p_prio s \<and> (\<forall>p. p_ctx s' p = p_ctx s p \<or> p_ctx s' p = Ctx_plain)"

text \<open>A switch between two threads: the others stay as they are, and so do their timers.\<close>

definition kswaps where
  "kswaps Q ts s Q' ts' s' \<longleftrightarrow> insert (r_current s') (set (Q' rlist)) = insert (r_current s) (set (Q rlist)) \<and> p_u s' = p_u s \<and>
     (\<forall>p. p \<notin> insert (r_current s) (set (Q rlist)) \<longrightarrow> p_state s' p = p_state s p) \<and>
     (\<forall>t \<in> set ts. tm_par t \<notin> insert (r_current s) (set (Q rlist)) \<longrightarrow> t \<in> set ts')"

lemma kstays_counts: "kstays S Q ts s Q' ts' s' \<Longrightarrow> C \<subseteq> S \<Longrightarrow> counts C Q s \<Longrightarrow> counts C Q' s'"
  by (auto simp: kstays_def counts_def)

lemma kstays_mid:
  assumes "kmid S idle stk T Q ts X s" "kstays S Q ts s Q' ts' s'" "insert (r_current s') (set (Q' rlist)) \<subseteq> T"
    "kqueues S Q' ts' X' s'" "current_wf S idle Q' s'"
  shows "kmid S idle stk T Q' ts' X' s'"
proof -
  have "queued (insert rlist S) Q' \<subseteq> T"
    using assms(1-3) by (auto simp: kmid_def threads_wf_def kstays_def queued_simps)
  moreover have "vt \<in> stk p" if "p_ctx s' p = Ctx_timeout vt" for p vt
    using assms(1,2) that unfolding kmid_def threads_wf_def kstays_def by (metis ctx.distinct(1))
  ultimately show ?thesis using assms by (auto simp: kmid_def threads_wf_def kstays_def)
qed

lemma kstays_trans: "kstays S Q ts s Q' ts' s' \<Longrightarrow> kstays S Q' ts' s' Q'' ts'' s'' \<Longrightarrow> kstays S Q ts s Q'' ts'' s''"
  unfolding kstays_def by (metis subset_trans)

lemma l_next_switch [simp]: "l_next (chSysSwitch n s) = l_next s"
  by (rule switch_shape [of n s]) simp

lemma ctx_switch: "p_ctx (chSysSwitch n s) p = p_ctx s p \<or> p_ctx (chSysSwitch n s) p = Ctx_plain"
  by (rule switch_shape [of n s]) simp

lemma set_without: "set (without n ts) \<subseteq> set ts"
  by (auto simp: without_def)

lemma sorted_top:
  assumes "ready_wf Q s" "Q rlist = n # rest" "t \<in> set rest"
  shows "p_prio s t \<le> p_prio s n"
  using assms by (simp add: ready_wf_def)

lemma current_same: "current_wf S idle Q s \<Longrightarrow> r_current s' = r_current s \<Longrightarrow> p_state s' (r_current s) = p_state s (r_current s) \<Longrightarrow>
  p_prio s' (r_current s) = p_prio s (r_current s) \<Longrightarrow> p_ctx s' (r_current s) = p_ctx s (r_current s) \<Longrightarrow>
  idle \<in> insert (r_current s) (set (Q' rlist)) \<Longrightarrow> current_wf S idle Q' s'"
  by (simp add: current_wf_def)

lemma queued_ready: "rlist \<notin> S \<Longrightarrow> queued (insert rlist S) (Q(rlist := zs)) = set zs \<union> (\<Union>sp \<in> S. set (Q sp))"
  by (auto simp: queued_def split: if_splits)

section \<open>Sleeping and rescheduling\<close>

text \<open>The running thread stops in the state \<open>st\<close>; it is in a queue already, or in none.\<close>

lemma gosleep_run:
  assumes "kqueues S Q ts {} (s\<lparr>p_state := (p_state s)(r_current s := st)\<rparr>)" "idle \<in> set (Q rlist)"
    "threads_wf S stk T Q ts s" "l_next s alt_alarm_list = alt_alarm_list"
  obtains n rest where "Q rlist = n # rest" "kmid S idle stk T (Q(rlist := rest)) (without n ts) {} (chSchGoSleepS st s)"
    "runs_top (Q(rlist := rest)) (chSchGoSleepS st s)" "s_cnt (chSchGoSleepS st s) = s_cnt s"
    "r_current (chSchGoSleepS st s) = n" "p_u (chSchGoSleepS st s) = p_u s"
    "p_state (chSchGoSleepS st s) = (p_state s)(r_current s := st, n := THD_STATE_CURRENT)"
proof -
  let ?s = "s\<lparr>p_state := (p_state s)(r_current s := st), p_preempt := (p_preempt s)(r_current s := CH_TIME_QUANTUM)\<rparr>"
  let ?g = "chSchGoSleepS st s"
  have k: "kqueues S Q ts {} ?s" by (rule kqueues_cong [OF assms(1)]) simp_all
  have rl: "rlist \<notin> S" using k by (auto simp: kqueues_def addrs_def)
  obtain n rest where q: "Q rlist = n # rest" using assms(2) by (cases "Q rlist") auto
  let ?Q = "Q(rlist := rest)"
  obtain nx pv s1 where r: "run_first ?s = made_current n s1" "s1 = ?s\<lparr>p_next := nx, p_prev := pv\<rparr>"
    "kqueues S ?Q ts {n} s1" "n \<in> range At - S" "n \<notin> queued (insert rlist S) ?Q" "0 < p_prio ?s n"
    by (rule run_first_run [OF k q])
  have e: "?g = chSysSwitch n (made_current n s1)"
    by (simp add: chSchGoSleepS_def Let_def r(1)) (simp add: made_current_def)
  have "0 < p_prio s1 n" "idle \<in> insert n (set (?Q rlist))" using r(2,6) assms(2) q by auto
  then have "kst S idle ?Q (without n ts) (chSysSwitch n (made_current n s1))" using r(4,5) by (intro switch_run [OF r(3)]) auto
  then have sw: "kqueues S ?Q (without n ts) {} ?g" "current_wf S idle ?Q ?g" by (simp_all add: e kst_def)
  have f: "p_prio ?g = p_prio s" "p_u ?g = p_u s" "s_cnt ?g = s_cnt s" "l_next ?g = l_next s" "r_current ?g = n"
    "p_state ?g = (p_state s)(r_current s := st, n := THD_STATE_CURRENT)" by (simp_all add: e r(2) made_current_def)
  have cx: "p_ctx ?g p = p_ctx s p \<or> p_ctx ?g p = Ctx_plain" for p
    using ctx_switch [of n "made_current n s1" p] by (simp add: e r(2) made_current_def)
  have "queued (insert rlist S) Q = insert n (queued (insert rlist S) ?Q)"
    using rl q by (simp add: queued_ready) (simp add: queued_simps)
  then have "threads_wf S stk T ?Q (without n ts) ?g"
    using assms(3) set_without [of n ts] cx unfolding threads_wf_def f by (metis (no_types, lifting) insert_subset ctx.distinct(1) subsetD)
  moreover have "runs_top ?Q ?g" using k q sorted_top [of Q ?s n rest] by (simp add: runs_top_def f kqueues_def)
  ultimately show ?thesis using q f sw assms(4) by (intro that [of n rest]) (simp_all add: kmid_def)
qed

lemma made_current_id: "r_current s = n \<Longrightarrow> p_state s n = THD_STATE_CURRENT \<Longrightarrow> made_current n s = s"
  by (simp add: made_current_def fun_upd_idem)

text \<open>The first ready thread \<open>n\<close> is taken and the running one goes back to the ready list, which is then \<open>zs\<close>.\<close>

lemma first_out:
  assumes "kmid S idle stk T Q ts {} s" "Q rlist = n # rest"
  obtains s1 where "run_first s = s1" "kqueues S (Q(rlist := rest)) ts {n} s1" "n \<notin> queued (insert rlist S) (Q(rlist := rest))"
    "n \<noteq> r_current s" "r_current s \<notin> queued (insert rlist S) (Q(rlist := rest))" "r_current s1 = n" "p_state s1 n = THD_STATE_CURRENT"
    "p_prio s1 = p_prio s" "s_cnt s1 = s_cnt s" "l_next s1 = l_next s" "p_ctx s1 = p_ctx s" "p_u s1 = p_u s"
    "p_state s1 = (p_state s)(n := THD_STATE_CURRENT)"
proof -
  note m = kmid_facts [OF assms(1)]
  obtain nx pv s1 where r: "run_first s = made_current n s1" "s1 = s\<lparr>p_next := nx, p_prev := pv\<rparr>"
    "kqueues S (Q(rlist := rest)) ts {n} s1" "n \<in> range At - S" "n \<notin> queued (insert rlist S) (Q(rlist := rest))" "0 < p_prio s n"
    by (rule run_first_run [OF m(7) assms(2)])
  have "made_current n s1 = s1\<lparr>r_current := n, p_state := (p_state s1)(n := THD_STATE_CURRENT), p_u := (p_u s1)(n := p_u s1 n)\<rparr>"
    by (simp add: made_current_def)
  then have k: "kqueues S (Q(rlist := rest)) ts {n} (made_current n s1)" using kq_state [OF r(3,5)] by (metis insert_absorb2)
  have q: "queued (insert rlist S) Q = insert n (queued (insert rlist S) (Q(rlist := rest)))"
    using m(1) assms(2) by (simp add: queued_ready) (simp add: queued_simps)
  show ?thesis using m(5) q k r(2,5) by (intro that [OF r(1)]) (auto simp: made_current_def)
qed

lemma switch_mid:
  assumes "kmid S idle stk T Q ts {} s" "Q rlist = n # rest" "set zs = insert (r_current s) (set rest)"
    "kqueues S (Q(rlist := zs)) ts {n} s3" "n \<notin> queued (insert rlist S) (Q(rlist := zs))" "r_current s3 = n" "p_state s3 n = THD_STATE_CURRENT"
    "p_prio s3 = p_prio s" "s_cnt s3 = s_cnt s" "l_next s3 = l_next s" "p_ctx s3 = p_ctx s" "p_u s3 = p_u s"
    "p_state s3 = (p_state s)(n := THD_STATE_CURRENT, r_current s := THD_STATE_READY)" "p_prio s (r_current s) \<le> p_prio s n"
  shows "kmid S idle stk T (Q(rlist := zs)) (without n ts) {} (chSysSwitch n s3)"
    "runs_top (Q(rlist := zs)) (chSysSwitch n s3)" "kstays S Q ts s (Q(rlist := zs)) (without n ts) (chSysSwitch n s3)"
    "kswaps Q ts s (Q(rlist := zs)) (without n ts) (chSysSwitch n s3)"
proof -
  note m = kmid_facts [OF assms(1)]
  have n: "n \<in> T" using m(4) assms(2) by (auto simp: queued_simps)
  have "idle \<in> insert n (set ((Q(rlist := zs)) rlist))" using m(8) assms(2,3) by auto
  then have "kst S idle (Q(rlist := zs)) (without n ts) (chSysSwitch n (made_current n s3))"
    using n m(2,6) assms(8) by (intro switch_run [OF assms(4)] assms(5)) auto
  then have k: "kqueues S (Q(rlist := zs)) (without n ts) {} (chSysSwitch n s3)" "current_wf S idle (Q(rlist := zs)) (chSysSwitch n s3)"
    using made_current_id [OF assms(6,7)] by (simp_all add: kst_def)
  show st: "kstays S Q ts s (Q(rlist := zs)) (without n ts) (chSysSwitch n s3)"
    using m(1) set_without ctx_switch [of n s3] assms(8-11) by (auto simp: kstays_def)
  show "kmid S idle stk T (Q(rlist := zs)) (without n ts) {} (chSysSwitch n s3)"
    using m(3,4) n assms(2,3,6) by (intro kstays_mid [OF assms(1) st _ k]) (auto simp: queued_simps)
  show "kswaps Q ts s (Q(rlist := zs)) (without n ts) (chSysSwitch n s3)"
    using assms(2,3,6,12,13) by (auto simp: kswaps_def without_def)
  show "runs_top (Q(rlist := zs)) (chSysSwitch n s3)"
    using m(7) assms(2,3,6,8,14) sorted_top [of Q s n rest] by (auto simp: runs_top_def kqueues_def)
qed

lemma resched_behind_run:
  assumes "kmid S idle stk T Q ts {} s" "Q rlist = n # rest" "p_prio s (r_current s) \<le> p_prio s n"
  shows "\<exists>s' Q' ts'. chSchDoRescheduleBehind s = Some s' \<and> kmid S idle stk T Q' ts' {} s' \<and> runs_top Q' s' \<and> kstays S Q ts s Q' ts' s' \<and>
    kswaps Q ts s Q' ts' s'"
proof -
  note m = kmid_facts [OF assms(1)]
  let ?c = "r_current s"
  obtain s1 where r: "run_first s = s1" "kqueues S (Q(rlist := rest)) ts {n} s1" "n \<notin> queued (insert rlist S) (Q(rlist := rest))"
    "n \<noteq> ?c" "?c \<notin> queued (insert rlist S) (Q(rlist := rest))" "r_current s1 = n" "p_state s1 n = THD_STATE_CURRENT"
    "p_prio s1 = p_prio s" "s_cnt s1 = s_cnt s" "l_next s1 = l_next s" "p_ctx s1 = p_ctx s" "p_u s1 = p_u s"
    "p_state s1 = (p_state s)(n := THD_STATE_CURRENT)"
    by (rule first_out [OF assms(1,2)])
  let ?s2 = "s1\<lparr>p_preempt := (p_preempt s1)(?c := CH_TIME_QUANTUM)\<rparr>"
  have k2: "kqueues S (Q(rlist := rest)) ts {n} ?s2" by (rule kqueues_cong [OF r(2)]) simp_all
  have c: "?c \<in> range At - S" "0 < p_prio ?s2 ?c" using m(2,3,6) r(8) by auto
  obtain nx pv s3 where s3: "chSchReadyI ?c ?s2 = Some s3"
    "s3 = ?s2\<lparr>p_state := (p_state ?s2)(?c := THD_STATE_READY), p_next := nx, p_prev := pv\<rparr>"
    "kqueues S (Q(rlist := rest, rlist := behind ?s2 ?c ((Q(rlist := rest)) rlist))) ts ({n} - {?c}) s3"
    by (rule kq_ready [OF k2 c(1) r(5) c(2)])
  let ?zs = "behind ?s2 ?c rest"
  have k3: "kqueues S (Q(rlist := ?zs)) ts {n} s3" using s3(3) r(4) by simp
  have nq: "n \<notin> queued (insert rlist S) (Q(rlist := ?zs))" using r(3,4) m(1) by (auto simp: queued_simps)
  have f: "r_current s3 = n" "p_state s3 n = THD_STATE_CURRENT" "p_prio s3 = p_prio s" "s_cnt s3 = s_cnt s" "l_next s3 = l_next s" "p_ctx s3 = p_ctx s"
    "p_u s3 = p_u s" "p_state s3 = (p_state s)(n := THD_STATE_CURRENT, ?c := THD_STATE_READY)"
    using r(4,6-13) by (simp_all add: s3(2))
  have e: "chSchDoRescheduleBehind s = Some (chSysSwitch n s3)" by (simp add: chSchDoRescheduleBehind_def r(1) s3(1) Let_def f(1))
  show ?thesis using switch_mid [OF assms(1,2) set_behind k3 nq f assms(3)] e by blast
qed

lemma resched_ahead_run:
  assumes "kmid S idle stk T Q ts {} s" "Q rlist = n # rest" "p_prio s (r_current s) \<le> p_prio s n"
  shows "\<exists>s' Q' ts'. chSchDoRescheduleAhead s = Some s' \<and> kmid S idle stk T Q' ts' {} s' \<and> runs_top Q' s' \<and> kstays S Q ts s Q' ts' s' \<and>
    kswaps Q ts s Q' ts' s'"
proof -
  note m = kmid_facts [OF assms(1)]
  let ?c = "r_current s"
  obtain s1 where r: "run_first s = s1" "kqueues S (Q(rlist := rest)) ts {n} s1" "n \<notin> queued (insert rlist S) (Q(rlist := rest))"
    "n \<noteq> ?c" "?c \<notin> queued (insert rlist S) (Q(rlist := rest))" "r_current s1 = n" "p_state s1 n = THD_STATE_CURRENT"
    "p_prio s1 = p_prio s" "s_cnt s1 = s_cnt s" "l_next s1 = l_next s" "p_ctx s1 = p_ctx s" "p_u s1 = p_u s"
    "p_state s1 = (p_state s)(n := THD_STATE_CURRENT)"
    by (rule first_out [OF assms(1,2)])
  have c: "?c \<in> range At - S" "0 < p_prio s1 ?c" using m(2,3,6) r(8) by auto
  have rw: "ready_wf (Q(rlist := rest)) s1" using r(2) by (simp add: kqueues_def)
  then have g: "\<not> p_prio s1 ?c < p_prio s1 rlist" by (simp add: ready_wf_def)
  let ?go = "\<lambda>p. p_prio s1 ?c < p_prio s1 p"
  have so: "sorted_wrt (\<lambda>a b. p_prio s1 b \<le> p_prio s1 a) (takeWhile ?go ((Q(rlist := rest)) rlist) @ ?c # dropWhile ?go ((Q(rlist := rest)) rlist))"
    using rw sorted_insert(2) [of "p_prio s1" rest ?c] by (simp add: ready_wf_def)
  obtain cp nx pv s3 where s3: "tq_seek ?go (p_next s1) rlist = Some cp"
    "insert_before cp ?c (s1\<lparr>p_state := (p_state s1)(?c := THD_STATE_READY)\<rparr>) = s3"
    "s3 = s1\<lparr>p_state := (p_state s1)(?c := THD_STATE_READY), p_next := nx, p_prev := pv\<rparr>"
    "kqueues S (Q(rlist := rest, rlist := takeWhile ?go ((Q(rlist := rest)) rlist) @ ?c # dropWhile ?go ((Q(rlist := rest)) rlist))) ts ({n} - {?c}) s3"
    by (rule kq_insert [OF r(2) c(1) r(5) c(2) g so])
  let ?zs = "ahead s1 ?c rest"
  have k3: "kqueues S (Q(rlist := ?zs)) ts {n} s3" using s3(4) r(4) by (simp add: ahead_def)
  have nq: "n \<notin> queued (insert rlist S) (Q(rlist := ?zs))" using r(3,4) m(1) by (auto simp: queued_simps)
  have f: "r_current s3 = n" "p_state s3 n = THD_STATE_CURRENT" "p_prio s3 = p_prio s" "s_cnt s3 = s_cnt s" "l_next s3 = l_next s" "p_ctx s3 = p_ctx s"
    "p_u s3 = p_u s" "p_state s3 = (p_state s)(n := THD_STATE_CURRENT, ?c := THD_STATE_READY)"
    using r(4,6-13) by (simp_all add: s3(3))
  have e: "chSchDoRescheduleAhead s = Some (chSysSwitch n s3)"
    using s3(1,2) f(1) by (simp add: chSchDoRescheduleAhead_def r(1) Let_def)
  show ?thesis using switch_mid [OF assms(1,2) set_ahead k3 nq f assms(3)] e by blast
qed

text \<open>The priority of the first ready thread decides.\<close>

lemma firstprio_run:
  assumes "kmid S idle stk T Q ts X s"
  shows "firstprio rlist s = (case Q rlist of [] \<Rightarrow> 0 | n # rest \<Rightarrow> p_prio s n)"
proof -
  have "dl (p_next s) (p_prev s) rlist (Q rlist)" "p_prio s rlist = 0"
    using kmid_facts(7) [OF assms] queuesD [of "insert rlist S" Q s rlist] by (auto simp: kqueues_def ready_wf_def)
  from dl_first [OF this(1)] this(2) show ?thesis by (simp add: firstprio_def split: list.split)
qed

lemma first_tops:
  assumes "kmid S idle stk T Q ts X s" "firstprio rlist s \<le> p_prio s (r_current s)"
  shows "runs_top Q s"
  using assms(2) sorted_top [of Q s] kmid_facts(7) [OF assms(1)] firstprio_run [OF assms(1)]
  by (cases "Q rlist") (fastforce simp: runs_top_def kqueues_def)+

lemma first_exists:
  assumes "kmid S idle stk T Q ts X s" "p_prio s (r_current s) \<le> firstprio rlist s"
  obtains n rest where "Q rlist = n # rest" "p_prio s (r_current s) \<le> p_prio s n"
  using assms(2) kmid_facts(6) [OF assms(1) kmid_facts(3) [OF assms(1)]] firstprio_run [OF assms(1)] that
  by (cases "Q rlist") (auto simp: word_gt_0)

text \<open>
  A step of the scheduler that switches if it has to: \<open>f\<close> returns, and the thread that runs
  has the highest priority.
\<close>

definition reschedules :: "(kern \<Rightarrow> kern option) \<Rightarrow> (kern \<Rightarrow> bool) \<Rightarrow> bool" where
  "reschedules f ok \<longleftrightarrow> (\<forall>S idle stk T Q ts s. kmid S idle stk T Q ts {} s \<and> ok s \<longrightarrow>
     (\<exists>s' Q' ts'. f s = Some s' \<and> kmid S idle stk T Q' ts' {} s' \<and> runs_top Q' s' \<and> kstays S Q ts s Q' ts' s' \<and>
       kswaps Q ts s Q' ts' s'))"

lemma reschedulesD:
  assumes "reschedules f ok" "kmid S idle stk T Q ts {} s" "ok s"
  obtains s' Q' ts' where "f s = Some s'" "kmid S idle stk T Q' ts' {} s'" "runs_top Q' s'" "kstays S Q ts s Q' ts' s'"
    "kswaps Q ts s Q' ts' s'"
  using assms unfolding reschedules_def by blast

lemma kstays_refl: "kstays S Q ts s Q ts s"
  and kswaps_refl: "kswaps Q ts s Q ts s"
  by (simp_all add: kstays_def kswaps_def)

lemma resched_behind: "reschedules chSchDoRescheduleBehind (\<lambda>s. p_prio s (r_current s) \<le> firstprio rlist s)"
  unfolding reschedules_def using resched_behind_run first_exists by metis

lemma resched_ahead: "reschedules chSchDoRescheduleAhead (\<lambda>s. p_prio s (r_current s) \<le> firstprio rlist s)"
  unfolding reschedules_def using resched_ahead_run first_exists by metis

lemma resched_if:
  assumes "reschedules f (\<lambda>s. p_prio s (r_current s) \<le> firstprio rlist s)" "reschedules g (\<lambda>s. p_prio s (r_current s) \<le> firstprio rlist s)"
    "\<And>s. c s \<Longrightarrow> p_prio s (r_current s) \<le> firstprio rlist s" "\<And>s. \<not> c s \<Longrightarrow> firstprio rlist s \<le> p_prio s (r_current s)"
  shows "reschedules (\<lambda>s. if c s then (if d s then f s else g s) else Some s) (\<lambda>s. True)"
  unfolding reschedules_def
proof (intro allI impI)
  fix S idle stk T Q ts s assume k: "kmid S idle stk T Q ts {} s \<and> True"
  show "\<exists>s' Q' ts'. (if c s then (if d s then f s else g s) else Some s) = Some s' \<and> kmid S idle stk T Q' ts' {} s' \<and> runs_top Q' s' \<and> kstays S Q ts s Q' ts' s' \<and>
      kswaps Q ts s Q' ts' s'"
  proof (cases "c s")
    case False
    then have "runs_top Q s" using k first_tops [of S idle stk T Q ts "{}" s] assms(4) by blast
    then show ?thesis using False k kstays_refl [of S Q ts s] kswaps_refl [of Q ts s] by (intro exI [of _ s] exI [of _ Q] exI [of _ ts]) simp
  next
    case True
    note o = assms(3) [OF True]
    have m: "kmid S idle stk T Q ts {} s" using k by blast
    show ?thesis using True assms(1,2) m o unfolding reschedules_def by (cases "d s") auto
  qed
qed

lemma resched_S: "reschedules chSchRescheduleS (\<lambda>s. True)"
proof -
  have "chSchRescheduleS = (\<lambda>s. if chSchIsRescRequiredI s then (if True then chSchDoRescheduleAhead s else chSchDoRescheduleAhead s) else Some s)"
    by (rule ext) (simp add: chSchRescheduleS_def)
  then show ?thesis using resched_if [OF resched_ahead resched_ahead, of chSchIsRescRequiredI "\<lambda>s. True"] by (auto simp: chSchIsRescRequiredI_def)
qed

lemma resched_yield: "reschedules chSchDoYieldS (\<lambda>s. True)"
proof -
  have "chSchDoYieldS = (\<lambda>s. if chSchCanYieldS s then (if True then chSchDoRescheduleBehind s else chSchDoRescheduleBehind s) else Some s)"
    by (rule ext) (simp add: chSchDoYieldS_def)
  then show ?thesis using resched_if [OF resched_behind resched_behind, of chSchCanYieldS "\<lambda>s. True"] by (auto simp: chSchCanYieldS_def)
qed

lemma resched_exit: "reschedules ALT_OS_INT_EXIT (\<lambda>s. True)"
proof -
  have "ALT_OS_INT_EXIT = (\<lambda>s. if chSchIsPreemptionRequired s then (if p_preempt s (r_current s) = 0 then chSchDoRescheduleBehind s
      else chSchDoRescheduleAhead s) else Some s)"
    by (rule ext) (simp add: ALT_OS_INT_EXIT_def chSchDoReschedule_def)
  moreover have "chSchIsPreemptionRequired s \<Longrightarrow> p_prio s (r_current s) \<le> firstprio rlist s"
    "\<not> chSchIsPreemptionRequired s \<Longrightarrow> firstprio rlist s \<le> p_prio s (r_current s)" for s
    by (auto simp: chSchIsPreemptionRequired_def Let_def split: if_splits)
  ultimately show ?thesis
    using resched_if [OF resched_behind resched_ahead, of chSchIsPreemptionRequired "\<lambda>s. p_preempt s (r_current s) = 0"] by simp
qed

section \<open>Waking threads\<close>

text \<open>A thread \<open>t\<close> that is in no queue and does not run is made ready; or the message in it is changed.\<close>

lemma ready_mid:
  assumes "kmid S idle stk T Q ts X s" "t \<in> T" "t \<notin> queued (insert rlist S) Q" "t \<noteq> r_current s"
  obtains s' where "chSchReadyI t s = Some s'" "kmid S idle stk T (Q(rlist := behind s t (Q rlist))) ts (X - {t}) s'"
    "kstays S Q ts s (Q(rlist := behind s t (Q rlist))) ts s'" "r_current s' = r_current s" "p_u s' = p_u s"
    "p_state s' = (p_state s)(t := THD_STATE_READY)"
proof -
  note m = kmid_facts [OF assms(1)]
  have t: "t \<in> range At - S" "0 < p_prio s t" using m(2,6) assms(2) by auto
  obtain nx pv s' where s': "chSchReadyI t s = Some s'"
    "s' = s\<lparr>p_state := (p_state s)(t := THD_STATE_READY), p_next := nx, p_prev := pv\<rparr>"
    "kqueues S (Q(rlist := behind s t (Q rlist))) ts (X - {t}) s'"
    by (rule kq_ready [OF m(7) t(1) assms(3) t(2)])
  have st: "kstays S Q ts s (Q(rlist := behind s t (Q rlist))) ts s'" using m(1) by (auto simp: s'(2) kstays_def)
  have c: "current_wf S idle (Q(rlist := behind s t (Q rlist))) s'"
    using assms(1,4) by (auto simp: s'(2) kmid_def current_wf_def)
  have "kmid S idle stk T (Q(rlist := behind s t (Q rlist))) ts (X - {t}) s'"
    using m(3,4) assms(2) by (intro kstays_mid [OF assms(1) st _ s'(3) c]) (auto simp: s'(2) queued_simps)
  then show ?thesis by (intro that [OF s'(1) _ st]) (simp_all add: s'(2))
qed

lemma msg_mid:
  assumes "kmid S idle stk T Q ts X s" "\<forall>sp \<in> S. t \<notin> set (Q sp)"
  shows "kmid S idle stk T Q ts X (s\<lparr>p_u := (p_u s)(t := u)\<rparr>)" "kstays S Q ts s Q ts (s\<lparr>p_u := (p_u s)(t := u)\<rparr>)"
proof -
  let ?s = "s\<lparr>p_u := (p_u s)(t := u)\<rparr>"
  have k: "kqueues S Q ts X s" "current_wf S idle Q s" using assms(1) by (simp_all add: kmid_def)
  have kq: "kqueues S Q ts X ?s" by (rule kqueues_cong [OF k(1)]) (use assms(2) in auto)
  have c: "current_wf S idle Q ?s" using k(2) by (simp add: current_wf_def)
  show st: "kstays S Q ts s Q ts ?s" by (simp add: kstays_def)
  show "kmid S idle stk T Q ts X ?s"
    using kmid_facts(3,4) [OF assms(1)] by (intro kstays_mid [OF assms(1) st _ kq c]) (auto simp: queued_simps)
qed

lemma tops_behind: "runs_top Q s \<Longrightarrow> p_prio s t \<le> p_prio s (r_current s) \<Longrightarrow> p_prio s' = p_prio s \<Longrightarrow> r_current s' = r_current s \<Longrightarrow>
  runs_top (Q(rlist := behind s0 t (Q rlist))) s'"
  by (auto simp: runs_top_def)

text \<open>The thread that is woken runs at once if its priority is higher.\<close>

lemma wake_ready:
  assumes "kmid S idle stk T Q ts X s" "X \<subseteq> {t}" "t \<in> T" "t \<notin> queued (insert rlist S) Q" "t \<noteq> r_current s" "runs_top Q s"
    "p_prio s t \<le> p_prio s (r_current s)"
  shows "\<exists>s' Q' ts'. chSchReadyI t s = Some s' \<and> kmid S idle stk T Q' ts' {} s' \<and> runs_top Q' s' \<and> kstays S Q ts s Q' ts' s' \<and>
    t \<in> insert (r_current s') (set (Q' rlist))"
proof -
  let ?Q = "Q(rlist := behind s t (Q rlist))"
  obtain s' where s': "chSchReadyI t s = Some s'" "kmid S idle stk T ?Q ts (X - {t}) s'" "kstays S Q ts s ?Q ts s'"
    "r_current s' = r_current s" "p_u s' = p_u s" "p_state s' = (p_state s)(t := THD_STATE_READY)"
    by (rule ready_mid [OF assms(1,3-5)])
  have x: "X - {t} = {}" and "p_prio s' = p_prio s" using assms(2) s'(3) by (auto simp: kstays_def)
  then show ?thesis using s' [unfolded x] tops_behind [OF assms(6,7), of s' s] by (intro exI [of _ s'] exI [of _ ?Q] exI [of _ ts]) simp
qed

lemma wake_switch:
  assumes "kmid S idle stk T Q ts X s" "X \<subseteq> {t}" "t \<in> T" "t \<notin> queued (insert rlist S) Q" "t \<noteq> r_current s" "runs_top Q s"
    "p_prio s (r_current s) < p_prio s t"
  shows "\<exists>s2 Q' ts'. chSchReadyI (r_current s) s = Some s2 \<and> kmid S idle stk T Q' ts' {} (chSysSwitch t (made_current t s2)) \<and>
    runs_top Q' (chSysSwitch t (made_current t s2)) \<and> kstays S Q ts s Q' ts' (chSysSwitch t (made_current t s2))"
proof -
  note m = kmid_facts [OF assms(1)]
  let ?c = "r_current s" and ?Q = "Q(rlist := behind s (r_current s) (Q rlist))"
  have c: "?c \<in> range At - S" "?c \<notin> queued (insert rlist S) Q" "0 < p_prio s ?c" using m(2,3,5,6) by auto
  obtain nx pv s2 where s2: "chSchReadyI ?c s = Some s2"
    "s2 = s\<lparr>p_state := (p_state s)(?c := THD_STATE_READY), p_next := nx, p_prev := pv\<rparr>" "kqueues S ?Q ts (X - {?c}) s2"
    by (rule kq_ready [OF m(7) c])
  let ?g = "chSysSwitch t (made_current t s2)"
  have "t \<notin> queued (insert rlist S) ?Q" using assms(4,5) m(1) by (simp add: queued_ready) (simp add: queued_simps)
  then have "kst S idle ?Q (without t ts) ?g" using assms(2,3) m(2,6,8) by (intro switch_run [OF s2(3)]) (auto simp: s2(2))
  then have kk: "kqueues S ?Q (without t ts) {} ?g" "current_wf S idle ?Q ?g" by (simp_all add: kst_def)
  have st: "kstays S Q ts s ?Q (without t ts) ?g"
    using m(1) set_without ctx_switch [of t "made_current t s2"] by (auto simp: kstays_def made_current_def s2(2))
  have "kmid S idle stk T ?Q (without t ts) {} ?g"
    using m(3,4) assms(3) by (intro kstays_mid [OF assms(1) st _ kk]) (auto simp: made_current_def queued_simps)
  moreover have "runs_top ?Q ?g" using assms(6,7) by (auto simp: runs_top_def made_current_def s2(2))
  ultimately show ?thesis using s2(1) st by blast
qed

lemma wakeupS_run:
  assumes "kmid S idle stk T Q ts X s" "X \<subseteq> {t}" "t \<in> T" "t \<notin> queued (insert rlist S) Q" "t \<noteq> r_current s" "runs_top Q s"
  obtains s' Q' ts' where "chSchWakeupS t msg s = Some s'" "kmid S idle stk T Q' ts' {} s'" "runs_top Q' s'" "kstays S Q ts s Q' ts' s'"
    "t \<in> insert (r_current s') (set (Q' rlist))"
proof -
  let ?s = "s\<lparr>p_u := (p_u s)(t := Rdymsg msg)\<rparr>"
  have "\<forall>sp \<in> S. t \<notin> set (Q sp)" using assms(4) by (auto simp: queued_simps)
  note m = msg_mid [OF assms(1) this, where u = "Rdymsg msg"]
  have pre: "t \<noteq> r_current ?s" "runs_top Q ?s" using assms(5,6) by (simp_all add: runs_top_def)
  show ?thesis
  proof (cases "p_prio s t \<le> p_prio s (r_current s)")
    case True
    then have "p_prio ?s t \<le> p_prio ?s (r_current ?s)" by simp
    from wake_ready [OF m(1) assms(2-4) pre this]
    obtain s' Q' ts' where s': "chSchReadyI t ?s = Some s'" "kmid S idle stk T Q' ts' {} s'" "runs_top Q' s'" "kstays S Q ts ?s Q' ts' s'"
      "t \<in> insert (r_current s') (set (Q' rlist))" by blast
    have "chSchWakeupS t msg s = Some s'" using True s'(1) by (simp add: chSchWakeupS_def)
    then show ?thesis by (rule that [OF _ s'(2,3) kstays_trans [OF m(2) s'(4)] s'(5)])
  next
    case False
    then have "p_prio ?s (r_current ?s) < p_prio ?s t" by simp
    from wake_switch [OF m(1) assms(2-4) pre this]
    obtain s2 Q' ts' where s2: "chSchReadyI (r_current s) ?s = Some s2" "kmid S idle stk T Q' ts' {} (chSysSwitch t (made_current t s2))"
      "runs_top Q' (chSysSwitch t (made_current t s2))" "kstays S Q ts ?s Q' ts' (chSysSwitch t (made_current t s2))" by auto
    have "chSchWakeupS t msg s = Some (chSysSwitch t (made_current t s2))"
      using False s2(1) by (simp add: chSchWakeupS_def made_current_def Let_def)
    moreover have "t \<in> insert (r_current (chSysSwitch t (made_current t s2))) (set (Q' rlist))" by (auto simp: made_current_def)
    ultimately show ?thesis by (rule that [OF _ s2(2,3) kstays_trans [OF m(2) s2(4)]])
  qed
qed

end
