(* ===== verification/Ch_Calls.thy ===== *)
theory Ch_Calls
  imports Ch_Ops
begin

text \<open>
  The calls of the kernel keep its invariant: semaphores, threads, and the clock interrupt.
\<close>

section \<open>The invariant between two calls\<close>

definition kinv where
  "kinv S idle stk T Q ts s \<longleftrightarrow> kmid S idle stk T Q ts {} s \<and> counts S Q s \<and> (\<forall>t \<in> set ts. 0 < tm_in t)"

definition kok where
  "kok S idle stk T s \<longleftrightarrow> (\<exists>Q ts. kinv S idle stk T Q ts s \<and> runs_top Q s)"

lemma kokI: "kmid S idle stk T Q ts {} s \<Longrightarrow> counts S Q s \<Longrightarrow> \<forall>t \<in> set ts. 0 < tm_in t \<Longrightarrow> runs_top Q s \<Longrightarrow> kok S idle stk T s"
  by (auto simp: kok_def kinv_def)

lemma kokE:
  assumes "kok S idle stk T s"
  obtains Q ts where "kmid S idle stk T Q ts {} s" "counts S Q s" "\<forall>t \<in> set ts. 0 < tm_in t" "runs_top Q s"
  using assms by (auto simp: kok_def kinv_def)

text \<open>Fields that the invariant does not mention, or mentions apart.\<close>

lemma kmid_cong:
  assumes "kmid S idle stk T Q ts X s" "vt_next s' = vt_next s" "vt_prev s' = vt_prev s" "vt_time s' = vt_time s" "vt_func s' = vt_func s"
    "vt_par s' = vt_par s" "p_next s' = p_next s" "p_prev s' = p_prev s" "p_prio s' = p_prio s" "p_ctx s' = p_ctx s"
    "p_state s' = p_state s" "p_u s' = p_u s" "r_current s' = r_current s" "l_next s' = l_next s"
  shows "kmid S idle stk T Q ts X s'"
proof -
  have "kqueues S Q ts X s'" by (rule kqueues_cong [of S Q ts X s]) (use assms in \<open>simp_all add: kmid_def\<close>)
  then show ?thesis using assms by (simp add: kmid_def current_wf_def threads_wf_def)
qed

lemma kmid_cnt: "kmid S idle stk T Q ts X s \<Longrightarrow> kmid S idle stk T Q ts X (s\<lparr>s_cnt := c\<rparr>)"
  and kmid_status: "kmid S idle stk T Q ts X s \<Longrightarrow> kmid S idle stk T Q ts X (s\<lparr>status := w\<rparr>)"
  by (erule kmid_cong; simp)+

lemma counts_status [simp]: "counts C Q (s\<lparr>status := w\<rparr>) = counts C Q s"
  by (simp add: counts_def)

lemma runs_top_status [simp]: "runs_top Q (s\<lparr>status := w\<rparr>) = runs_top Q s"
  by (simp add: runs_top_def)

lemma lock_simps: "chSysLock s = s\<lparr>status := status s AND NOT PIE_MSK\<rparr>" "chSysUnlock s = s\<lparr>status := PIE_MSK\<rparr>"
  by (simp_all add: chSysLock_def chSysUnlock_def alt_irq_disable_all_def alt_irq_enable_all_def)

lemma kok_status: "kok S idle stk T s \<Longrightarrow> kok S idle stk T (s\<lparr>status := w\<rparr>)"
  by (erule kokE) (rule kokI [OF kmid_status]; simp)

lemma kok_lock: "kok S idle stk T s \<Longrightarrow> kok S idle stk T (chSysLock s)"
  and kok_unlock: "kok S idle stk T s \<Longrightarrow> kok S idle stk T (chSysUnlock s)"
  by (simp_all add: lock_simps kok_status)

section \<open>Semaphores\<close>

text \<open>A thread leaves the queue of a semaphore.\<close>

lemma sem_dequeue:
  assumes "kmid S idle stk T Q ts {} s" "sp \<in> S" "Q sp = xs @ t # ys"
  obtains s' where "dequeue t s = (t, s')" "kmid S idle stk T (Q(sp := xs @ ys)) ts {t} s'" "t \<in> T"
    "t \<notin> queued (insert rlist S) (Q(sp := xs @ ys))" "t \<noteq> r_current s" "r_current s' = r_current s" "p_prio s' = p_prio s"
    "s_cnt s' = s_cnt s" "p_u s' = p_u s" "p_state s' = p_state s"
proof -
  note m = kmid_facts [OF assms(1)]
  have sp: "sp \<in> insert rlist S" using assms(2) by simp
  obtain nx pv s' where s': "dequeue t s = (t, s')" "s' = s\<lparr>p_next := nx, p_prev := pv\<rparr>" "kqueues S (Q(sp := xs @ ys)) ts {t} s'"
    "t \<in> range At - S" "t \<notin> queued (insert rlist S) (Q(sp := xs @ ys))" "0 < p_prio s t"
    by (rule kq_dequeue [OF m(7) sp assms(3)])
  have q: "queued (insert rlist S) Q = insert t (queued (insert rlist S) (Q(sp := xs @ ys)))"
    unfolding queued_upd [OF sp] queued_split [OF sp, of Q] assms(3) by auto
  have "current_wf S idle (Q(sp := xs @ ys)) s'" using assms(1,2) m(1) by (auto simp: kmid_def current_wf_def s'(2))
  moreover have "threads_wf S stk T (Q(sp := xs @ ys)) ts s'"
    using assms(1) q unfolding kmid_def threads_wf_def s'(2) by simp
  ultimately have "kmid S idle stk T (Q(sp := xs @ ys)) ts {t} s'" using assms(1) s'(3) by (simp add: kmid_def s'(2))
  then show ?thesis using m(4,5) q s'(5) by (intro that [OF s'(1)]) (auto simp: s'(2))
qed

lemma counts_pop:
  assumes "counts C Q s" "Q sp = xs @ t # ys" "s_cnt s' = (s_cnt s)(sp := s_cnt s sp + 1)"
  shows "counts C (Q(sp := xs @ ys)) s'"
  using assms by (auto simp: counts_def)

lemma sem_nonempty:
  assumes "counts S Q s" "sp \<in> sems S"
  shows "s_cnt s sp < 0 \<longleftrightarrow> Q sp \<noteq> []"
  using assms by (cases "Q sp") (fastforce simp: counts_def)+

lemma sem_first:
  assumes "kmid S idle stk T Q ts {} s" "counts S Q s" "sp \<in> sems S" "s_cnt s sp < 0"
  obtains t ys s' where "Q sp = t # ys" "fifo_remove sp (s\<lparr>s_cnt := (s_cnt s)(sp := s_cnt s sp + 1)\<rparr>) = (t, s')"
    "kmid S idle stk T (Q(sp := ys)) ts {t} s'" "counts S (Q(sp := ys)) s'" "t \<in> T" "t \<notin> queued (insert rlist S) (Q(sp := ys))"
    "t \<noteq> r_current s" "r_current s' = r_current s" "p_prio s' = p_prio s"
proof -
  let ?s = "s\<lparr>s_cnt := (s_cnt s)(sp := s_cnt s sp + 1)\<rparr>"
  note m = kmid_cnt [OF assms(1), of "(s_cnt s)(sp := s_cnt s sp + 1)"]
  obtain t ys where q: "Q sp = t # ys" using sem_nonempty [OF assms(2,3)] assms(4) by (cases "Q sp") auto
  then have q': "Q sp = [] @ t # ys" by simp
  obtain s' where s': "dequeue t ?s = (t, s')" "kmid S idle stk T (Q(sp := [] @ ys)) ts {t} s'" "t \<in> T"
    "t \<notin> queued (insert rlist S) (Q(sp := [] @ ys))" "t \<noteq> r_current ?s" "r_current s' = r_current ?s" "p_prio s' = p_prio ?s"
    "s_cnt s' = s_cnt ?s" "p_u s' = p_u ?s" "p_state s' = p_state ?s"
    by (rule sem_dequeue [OF m IntD1 [OF assms(3)] q'])
  have "queues (insert rlist S) Q ?s" using m by (simp add: kmid_def kqueues_def)
  then have "fifo_remove sp ?s = (t, s')" using fifo_remove_run [of "insert rlist S" Q ?s sp t ys] assms(3) q s'(1) by simp
  moreover have "counts S (Q(sp := [] @ ys)) s'" using s'(8) by (intro counts_pop [OF assms(2) q']) simp
  ultimately show ?thesis using s' by (intro that [OF q, of s']) simp_all
qed

lemma counts_up: "counts S Q s \<Longrightarrow> \<not> s_cnt s sp < 0 \<Longrightarrow> counts S Q (s\<lparr>s_cnt := (s_cnt s)(sp := s_cnt s sp + 1)\<rparr>)"
  by (auto simp: counts_def)

lemma runs_top_cong: "runs_top Q s \<Longrightarrow> Q' rlist = Q rlist \<Longrightarrow> p_prio s' = p_prio s \<Longrightarrow> r_current s' = r_current s \<Longrightarrow> runs_top Q' s'"
  by (simp add: runs_top_def)

lemma sig_run:
  assumes "kok S idle stk T s" "sp \<in> sems S"
  shows "\<exists>s'. chSemSignal sp s = Some s' \<and> kok S idle stk T s'"
proof -
  let ?s0 = "chSysLock s"
  obtain Q ts where k: "kmid S idle stk T Q ts {} ?s0" "counts S Q ?s0" "\<forall>t \<in> set ts. 0 < tm_in t" "runs_top Q ?s0"
    using kok_lock [OF assms(1)] by (rule kokE)
  have rl: "rlist \<noteq> sp" using kmid_facts(1) [OF k(1)] assms(2) by auto
  show ?thesis
  proof (cases "s_cnt ?s0 sp < 0")
    case True
    obtain t ys s2 where s2: "Q sp = t # ys" "fifo_remove sp (?s0\<lparr>s_cnt := (s_cnt ?s0)(sp := s_cnt ?s0 sp + 1)\<rparr>) = (t, s2)"
      "kmid S idle stk T (Q(sp := ys)) ts {t} s2" "counts S (Q(sp := ys)) s2" "t \<in> T" "t \<notin> queued (insert rlist S) (Q(sp := ys))"
      "t \<noteq> r_current ?s0" "r_current s2 = r_current ?s0" "p_prio s2 = p_prio ?s0"
      by (rule sem_first [OF k(1,2) assms(2) True])
    have top: "runs_top (Q(sp := ys)) s2" by (rule runs_top_cong [OF k(4)]) (use s2 rl in simp_all)
    have tc: "t \<noteq> r_current s2" using s2(7,8) by simp
    obtain s3 Q' ts' where s3: "chSchWakeupS t RDY_OK s2 = Some s3" "kmid S idle stk T Q' ts' {} s3" "runs_top Q' s3"
      "kstays S (Q(sp := ys)) ts s2 Q' ts' s3" "t \<in> insert (r_current s3) (set (Q' rlist))"
      by (rule wakeupS_run [OF s2(3) subset_refl s2(5,6) tc top])
    have "counts S Q' s3" by (rule kstays_counts [OF s3(4) subset_refl s2(4)])
    moreover have "\<forall>t \<in> set ts'. 0 < tm_in t" using k(3) s3(4) by (auto simp: kstays_def)
    ultimately have "kok S idle stk T s3" by (rule kokI [OF s3(2) _ _ s3(3)])
    moreover have "chSemSignal sp s = Some (chSysUnlock s3)" using True s2(2) s3(1) by (simp add: chSemSignal_def Let_def)
    ultimately show ?thesis using kok_unlock by blast
  next
    case False
    let ?s1 = "?s0\<lparr>s_cnt := (s_cnt ?s0)(sp := s_cnt ?s0 sp + 1)\<rparr>"
    have "kok S idle stk T ?s1"
      by (rule kokI [OF kmid_cnt [OF k(1)] counts_up [OF k(2) False] k(3)]) (rule runs_top_cong [OF k(4)]; simp)
    moreover have "chSemSignal sp s = Some (chSysUnlock ?s1)" using False by (simp add: chSemSignal_def Let_def)
    ultimately show ?thesis using kok_unlock by blast
  qed
qed

text \<open>Calls from interrupts leave the switch to the end of the interrupt.\<close>

definition kpend where
  "kpend S idle stk T s \<longleftrightarrow> (\<exists>Q ts. kinv S idle stk T Q ts s)"

lemma kpendI: "kmid S idle stk T Q ts {} s \<Longrightarrow> counts S Q s \<Longrightarrow> \<forall>t \<in> set ts. 0 < tm_in t \<Longrightarrow> kpend S idle stk T s"
  by (auto simp: kpend_def kinv_def)

lemma kpendE:
  assumes "kpend S idle stk T s"
  obtains Q ts where "kmid S idle stk T Q ts {} s" "counts S Q s" "\<forall>t \<in> set ts. 0 < tm_in t"
  using assms by (auto simp: kpend_def kinv_def)

lemma kok_pend: "kok S idle stk T s \<Longrightarrow> kpend S idle stk T s"
  by (auto simp: kok_def kpend_def)

lemma resched_kok:
  assumes "reschedules f ok" "kpend S idle stk T s" "ok s"
  shows "\<exists>s'. f s = Some s' \<and> kok S idle stk T s'"
proof -
  obtain Q ts where k: "kmid S idle stk T Q ts {} s" "counts S Q s" "\<forall>t \<in> set ts. 0 < tm_in t" using assms(2) by (rule kpendE)
  obtain s' Q' ts' where r: "f s = Some s'" "kmid S idle stk T Q' ts' {} s'" "runs_top Q' s'" "kstays S Q ts s Q' ts' s'"
    "kswaps Q ts s Q' ts' s'"
    by (rule reschedulesD [OF assms(1) k(1) assms(3)])
  have "kok S idle stk T s'"
    by (rule kokI [OF r(2) kstays_counts [OF r(4) subset_refl k(2)] _ r(3)]) (use k(3) r(4) in \<open>auto simp: kstays_def\<close>)
  then show ?thesis using r(1) by blast
qed

text \<open>The first waiting thread, or the counter: what all signals have in common.\<close>

lemma ready_msg_run:
  assumes "kmid S idle stk T Q ts {t} s" "counts C Q s" "C \<subseteq> S" "\<forall>t \<in> set ts. 0 < tm_in t" "t \<in> T"
    "t \<notin> queued (insert rlist S) Q" "t \<noteq> r_current s"
  shows "\<exists>s'. ready_msg t msg s = Some s' \<and> kmid S idle stk T (Q(rlist := behind s t (Q rlist))) ts {} s' \<and>
      counts C (Q(rlist := behind s t (Q rlist))) s' \<and> r_current s' = r_current s \<and> s_cnt s' = s_cnt s"
    "\<exists>s'. chSchReadyI t (s\<lparr>p_u := (p_u s)(t := Rdymsg msg)\<rparr>) = Some s' \<and>
      kmid S idle stk T (Q(rlist := behind s t (Q rlist))) ts {} s' \<and> counts C (Q(rlist := behind s t (Q rlist))) s' \<and> r_current s' = r_current s"
proof -
  let ?Q = "Q(rlist := behind s t (Q rlist))"
  have tq: "\<forall>sp \<in> S. t \<notin> set (Q sp)" using assms(6) by (auto simp: queued_simps)
  obtain s1 where s1: "chSchReadyI t s = Some s1" "kmid S idle stk T ?Q ts ({t} - {t}) s1" "kstays S Q ts s ?Q ts s1"
    "r_current s1 = r_current s" "p_u s1 = p_u s" "p_state s1 = (p_state s)(t := THD_STATE_READY)"
    by (rule ready_mid [OF assms(1,5-7)])
  have "\<forall>sp \<in> S. t \<notin> set (?Q sp)" using tq kmid_facts(1) [OF assms(1)] by auto
  then have m: "kmid S idle stk T ?Q ts {} (s1\<lparr>p_u := (p_u s1)(t := Rdymsg msg)\<rparr>)"
    "kstays S ?Q ts s1 ?Q ts (s1\<lparr>p_u := (p_u s1)(t := Rdymsg msg)\<rparr>)" using msg_mid [of S idle stk T ?Q ts "{}" s1] s1(2) by simp_all
  note st = kstays_trans [OF s1(3) m(2)]
  show "\<exists>s'. ready_msg t msg s = Some s' \<and> kmid S idle stk T ?Q ts {} s' \<and> counts C ?Q s' \<and> r_current s' = r_current s \<and> s_cnt s' = s_cnt s"
    using m(1) st kstays_counts [OF st assms(3,2)] s1(1,4) by (simp add: ready_msg_def kstays_def)
  let ?s = "s\<lparr>p_u := (p_u s)(t := Rdymsg msg)\<rparr>"
  note n = msg_mid [OF assms(1) tq, where u = "Rdymsg msg"]
  have "t \<noteq> r_current ?s" using assms(7) by simp
  then obtain s2 where s2: "chSchReadyI t ?s = Some s2" "kmid S idle stk T (Q(rlist := behind ?s t (Q rlist))) ts ({t} - {t}) s2"
    "kstays S Q ts ?s (Q(rlist := behind ?s t (Q rlist))) ts s2"
    "r_current s2 = r_current ?s" "p_u s2 = p_u ?s" "p_state s2 = (p_state ?s)(t := THD_STATE_READY)"
    by (rule ready_mid [OF n(1) assms(5,6)])
  have b: "behind ?s t (Q rlist) = behind s t (Q rlist)" by (simp add: behind_def)
  show "\<exists>s'. chSchReadyI t ?s = Some s' \<and> kmid S idle stk T ?Q ts {} s' \<and> counts C ?Q s' \<and> r_current s' = r_current s"
    using s2 kstays_counts [OF kstays_trans [OF n(2) s2(3)] assms(3,2)] by (simp add: b)
qed

lemma sem_add_one_run:
  assumes "kpend S idle stk T s" "sp \<in> sems S"
  shows "\<exists>s'. sem_add_one sp s = Some s' \<and> kpend S idle stk T s' \<and> r_current s' = r_current s"
    "\<exists>s'. chSemSignalI sp s = Some s' \<and> kpend S idle stk T s' \<and> r_current s' = r_current s"
proof -
  obtain Q ts where k: "kmid S idle stk T Q ts {} s" "counts S Q s" "\<forall>t \<in> set ts. 0 < tm_in t" using assms(1) by (rule kpendE)
  let ?s1 = "s\<lparr>s_cnt := (s_cnt s)(sp := s_cnt s sp + 1)\<rparr>"
  have up: "kpend S idle stk T ?s1" if "\<not> s_cnt s sp < 0"
    by (rule kpendI [OF kmid_cnt [OF k(1)] counts_up [OF k(2) that] k(3)])
  have pop: "\<exists>s'. sem_add_one sp s = Some s' \<and> kpend S idle stk T s' \<and> r_current s' = r_current s"
    "\<exists>s'. chSemSignalI sp s = Some s' \<and> kpend S idle stk T s' \<and> r_current s' = r_current s" if n: "s_cnt s sp < 0"
  proof -
    obtain t ys s2 where s2: "Q sp = t # ys" "fifo_remove sp ?s1 = (t, s2)"
      "kmid S idle stk T (Q(sp := ys)) ts {t} s2" "counts S (Q(sp := ys)) s2" "t \<in> T" "t \<notin> queued (insert rlist S) (Q(sp := ys))"
      "t \<noteq> r_current s" "r_current s2 = r_current s" "p_prio s2 = p_prio s"
      by (rule sem_first [OF k(1,2) assms(2) n])
    have tc: "t \<noteq> r_current s2" using s2(7,8) by simp
    note r = ready_msg_run [OF s2(3,4) subset_refl k(3) s2(5,6) tc, of RDY_OK]
    show "\<exists>s'. sem_add_one sp s = Some s' \<and> kpend S idle stk T s' \<and> r_current s' = r_current s"
      using r(1) n s2(2,8) kpendI [OF _ _ k(3)] by (auto simp: sem_add_one_def)
    show "\<exists>s'. chSemSignalI sp s = Some s' \<and> kpend S idle stk T s' \<and> r_current s' = r_current s"
      using r(2) n s2(2,8) kpendI [OF _ _ k(3)] by (auto simp: chSemSignalI_def)
  qed
  show "\<exists>s'. sem_add_one sp s = Some s' \<and> kpend S idle stk T s' \<and> r_current s' = r_current s"
    using up pop(1) by (cases "s_cnt s sp < 0") (auto simp: sem_add_one_def Let_def)
  show "\<exists>s'. chSemSignalI sp s = Some s' \<and> kpend S idle stk T s' \<and> r_current s' = r_current s"
    using up pop(2) by (cases "s_cnt s sp < 0") (auto simp: chSemSignalI_def Let_def)
qed

lemma sem_add_run:
  assumes "kpend S idle stk T s" "sp \<in> sems S"
  shows "\<exists>s'. sem_add n sp s = Some s' \<and> kpend S idle stk T s'"
  using assms(1)
proof (induction n arbitrary: s)
  case (Suc n)
  obtain s1 where "sem_add_one sp s = Some s1" "kpend S idle stk T s1" using sem_add_one_run(1) [OF Suc.prems assms(2)] by blast
  then show ?case using Suc.IH [of s1] by simp
qed simp

text \<open>Resetting: the waiting threads are made ready, the last one first.\<close>

lemma sem_flush_run:
  assumes "kmid S idle stk T Q ts {} s" "counts (S - {sp}) Q s" "\<forall>t \<in> set ts. 0 < tm_in t" "sp \<in> sems S" "length (Q sp) = n" "0 \<le> s_cnt s sp"
  shows "\<exists>s'. sem_flush n sp s = Some s' \<and> kpend S idle stk T s'"
  using assms
proof (induction n arbitrary: Q s)
  case 0
  have "counts S Q s" using 0 by (auto simp: counts_def)
  then show ?case using kpendI [OF 0(1) _ 0(3)] by simp
next
  case (Suc n)
  obtain xs t where q: "Q sp = xs @ [t]" using Suc.prems(5) by (cases "Q sp" rule: rev_cases) auto
  have rl: "sp \<noteq> rlist" using kmid_facts(1) [OF Suc.prems(1)] assms(4) by auto
  obtain s1 where s1: "dequeue t s = (t, s1)" "kmid S idle stk T (Q(sp := xs @ [])) ts {t} s1" "t \<in> T"
    "t \<notin> queued (insert rlist S) (Q(sp := xs @ []))" "t \<noteq> r_current s" "r_current s1 = r_current s" "p_prio s1 = p_prio s"
    "s_cnt s1 = s_cnt s" "p_u s1 = p_u s" "p_state s1 = p_state s"
    by (rule sem_dequeue [OF Suc.prems(1) IntD1 [OF Suc.prems(4)] q])
  have "queues (insert rlist S) Q s" using Suc.prems(1) by (simp add: kmid_def kqueues_def)
  then have l: "lifo_remove sp s = (t, s1)" using lifo_remove_run [of "insert rlist S" Q s sp xs t] assms(4) q s1(1) by simp
  have c: "counts (S - {sp}) (Q(sp := xs @ [])) s1" using Suc.prems(2) s1(8) by (simp add: counts_def)
  have tc: "t \<noteq> r_current s1" using s1(5,6) by simp
  obtain s2 where s2: "ready_msg t RDY_RESET s1 = Some s2" "kmid S idle stk T (Q(sp := xs, rlist := behind s1 t (Q rlist))) ts {} s2"
    "counts (S - {sp}) (Q(sp := xs, rlist := behind s1 t (Q rlist))) s2" "s_cnt s2 = s_cnt s1"
    using ready_msg_run(1) [OF s1(2) c Diff_subset Suc.prems(3) s1(3,4) tc, of RDY_RESET] rl by auto
  have "length ((Q(sp := xs, rlist := behind s1 t (Q rlist))) sp) = n" "0 \<le> s_cnt s2 sp" using Suc.prems(5,6) q rl s2(4) s1(8) by auto
  from Suc.IH [OF s2(2,3) Suc.prems(3,4) this] show ?case using l s2(1) by simp
qed

end
