(* ===== verification/Ch_Waits.thy ===== *)
theory Ch_Waits
  imports Ch_Calls
begin

text \<open>
  Calls that suspend the running thread keep the invariant: waiting on a semaphore, with or without a timeout, and
  sleeping.
\<close>

section \<open>The state in which a thread is suspended\<close>

lemma kq_none: "kqueues S Q ts X s \<Longrightarrow> \<forall>t \<in> set ts. tm_par t \<notin> X \<Longrightarrow> kqueues S Q ts {} s"
  by (auto simp: kqueues_def timers_wf_def)

lemma kq_sleep:
  assumes "kmid S idle stk T Q ts {} s"
  shows "kqueues S Q ts {} (s\<lparr>p_state := (p_state s)(r_current s := st)\<rparr>)"
proof -
  note m = kmid_facts [OF assms]
  have "kqueues S Q ts {r_current s} (s\<lparr>p_state := (p_state s)(r_current s := st)\<rparr>)"
    using kq_state [OF m(7,5), where c = "r_current s" and st = st and u = "p_u s (r_current s)"] by simp
  then show ?thesis by (rule kq_none) (use m(9) in auto)
qed

lemma kq_block:
  assumes "kqueues S Q ts {} s" "sp \<in> S" "c \<in> range At - S" "c \<notin> queued (insert rlist S) Q" "0 < p_prio s c"
    "p_next s' = p_next (queue_insert c sp s)" "p_prev s' = p_prev (queue_insert c sp s)" "p_u s' = (p_u s)(c := Wtobjp sp)"
    "p_state s' = (p_state s)(c := waiter_state sp)" "p_prio s' = p_prio s" "p_ctx s' = p_ctx s" "vt_next s' = vt_next s"
    "vt_prev s' = vt_prev s" "vt_time s' = vt_time s" "vt_func s' = vt_func s" "vt_par s' = vt_par s"
    "\<not> by_prio sp"
  shows "kqueues S (Q(sp := Q sp @ [c])) ts {} s'"
proof -
  let ?Q = "Q(sp := Q sp @ [c])"
  note k = assms(1) [unfolded kqueues_def]
  have S: "rlist \<notin> S" "c \<notin> insert rlist S" using k assms(3) by (auto simp: addrs_def)
  have sp: "sp \<in> insert rlist S" "sp \<noteq> rlist" using S(1) assms(2) by auto
  have "queues (insert rlist S) ?Q (queue_insert c sp s)"
    using queue_insert_run [of "insert rlist S" Q s sp c] k sp(1) S(2) assms(4) by blast
  then have "queues (insert rlist S) ?Q s'" by (rule queues_cong [OF _ assms(6,7)])
  moreover have q: "queued (insert rlist S) ?Q = insert c (queued (insert rlist S) Q)"
    unfolding queued_upd [OF sp(1)] queued_split [OF sp(1), of Q] by simp
  moreover have "ready_wf ?Q s'" using k assms(4,9,10) sp(2) by (auto simp: ready_wf_def queued_simps)
  moreover have "waiters_wf S ?Q s'" unfolding waiters_wf_def
  proof (intro ballI conjI impI)
    fix h assume "h \<in> S" "by_prio h"
    then show "sorted_wrt (\<lambda>a b. p_prio s' b \<le> p_prio s' a) (?Q h)" using k assms(10,17) by (auto simp: waiters_wf_def)
  next
    fix h p assume h: "h \<in> S" "p \<in> set (?Q h)"
    have "p_state s' p = waiter_state h \<and> p_u s' p = Wtobjp h \<and> 0 < p_prio s' p"
    proof (cases "p = c")
      case True
      then have "h = sp" using h assms(4) by (auto simp: queued_simps split: if_splits)
      then show ?thesis using True assms(5,8-10) by simp
    next
      case False
      then have "p \<in> set (Q h)" using h by (auto split: if_splits)
      then show ?thesis using k h(1) False assms(8-10) by (simp add: waiters_wf_def)
    qed
    then show "p_state s' p = waiter_state h" "p_u s' p = Wtobjp h" "0 < p_prio s' p" by simp_all
  qed
  moreover have w: "waits S ?Q s' p" if "waits S Q s p" for p using that q assms(9,10) by_prio_simps(1) [OF assms(17)] by (auto simp: waits_def)
  have "timers_wf S ?Q ts {} s'"
    using k w timers_cong [OF assms(12-16), of ts] unfolding timers_wf_def assms(11,15) by auto
  moreover have "addrs S ?Q" using k q assms(3) by (simp add: addrs_def)
  ultimately show ?thesis by (simp add: kqueues_def)
qed

text \<open>The timer of the thread that waits.\<close>

lemma kq_timer:
  assumes "kqueues S Q ts {} s" "timers_are s' ts'" "set ts' = insert u (set ts)" "tm_at u = vt" "tm_func u = Wakeup" "tm_par u = c"
    "p_ctx s' = (p_ctx s)(c := Ctx_timeout vt)" "vt_func s' = (vt_func s)(vt := Wakeup)" "\<forall>t \<in> set ts. tm_par t \<noteq> c"
    "\<forall>p. p \<noteq> c \<longrightarrow> p_ctx s p \<noteq> Ctx_timeout vt" "waits S Q s c"
    "p_next s' = p_next s" "p_prev s' = p_prev s" "p_prio s' = p_prio s" "p_state s' = p_state s" "p_u s' = p_u s"
  shows "kqueues S Q ts' {} s'"
proof -
  note k = assms(1) [unfolded kqueues_def]
  have w: "waits S Q s' p" if "waits S Q s p" for p using that assms(14,15) by (simp add: waits_def)
  have "timers_wf S Q ts' {} s'"
    unfolding timers_wf_def
  proof (intro conjI ballI allI impI)
    fix t assume t: "t \<in> set ts'"
    show "tm_func t = Wakeup" "p_ctx s' (tm_par t) = Ctx_timeout (tm_at t)" "tm_par t \<in> {} \<or> waits S Q s' (tm_par t)"
      using t k assms(3-7,9,11) w by (auto simp: timers_wf_def)
  next
    fix p v assume a: "p_ctx s' p = Ctx_timeout v \<and> vt_func s' v \<noteq> No_func"
    show "\<exists>t \<in> set ts'. tm_at t = v \<and> tm_par t = p"
    proof (cases "p = c")
      case True then show ?thesis using a assms(3,4,6,7) by auto
    next
      case False
      then have "p_ctx s p = Ctx_timeout v" "v \<noteq> vt" using a assms(7,10) by auto
      then have "vt_func s v \<noteq> No_func" using a assms(8) by simp
      then show ?thesis using k \<open>p_ctx s p = Ctx_timeout v\<close> assms(3) unfolding timers_wf_def by blast
    qed
  qed (rule assms(2))
  moreover have "queues (insert rlist S) Q s'" using k queues_cong [OF _ assms(12,13), of _ Q] by blast
  moreover have "ready_wf Q s'" "waiters_wf S Q s'" using k assms(14-16) by (simp_all add: ready_wf_def waiters_wf_def)
  ultimately show ?thesis using k by (simp add: kqueues_def)
qed

lemma set_insert_timer: "set (insert_timer u ts) = insert u (set ts)"
  by (simp add: insert_timer_def) (metis set_append takeWhile_dropWhile_id)

lemma set_shape:
  assumes "chVTSetI vt w fn par s = Some s'"
  obtains nx pv tm where "s' = s\<lparr>vt_next := nx, vt_prev := pv, vt_time := tm, vt_func := (vt_func s)(vt := fn), vt_par := (vt_par s)(vt := par)\<rparr>"
proof -
  have "s' = s\<lparr>vt_next := vt_next s', vt_prev := vt_prev s', vt_time := vt_time s', vt_func := (vt_func s)(vt := fn), vt_par := (vt_par s)(vt := par)\<rparr>"
    using assms by (auto simp: chVTSetI_def Let_def vt_link_def bind_eq_Some_conv)
  then show ?thesis by (rule that)
qed

section \<open>Going to sleep\<close>

definition stacks :: "(ptr \<Rightarrow> ptr set) \<Rightarrow> bool" where
  "stacks stk \<longleftrightarrow> (\<forall>p q. p \<noteq> q \<longrightarrow> stk p \<inter> stk q = {}) \<and> (\<forall>p. vtlist \<notin> stk p)"

text \<open>A thread \<open>p\<close> that is not ready and has a timer that ends in \<open>d\<close> ticks.\<close>

definition pending where
  "pending S idle stk T p d s \<longleftrightarrow> (\<exists>Q ts. kinv S idle stk T Q ts s \<and> runs_top Q s \<and> p \<notin> insert (r_current s) (set (Q rlist)) \<and>
     (\<exists>t \<in> set ts. tm_par t = p \<and> tm_in t = d))"

lemma sleep_run:
  assumes "kqueues S Q ts {} (s\<lparr>p_state := (p_state s)(r_current s := st)\<rparr>)" "idle \<in> set (Q rlist)" "threads_wf S stk T Q ts s"
    "l_next s alt_alarm_list = alt_alarm_list" "counts S Q s" "\<forall>t \<in> set ts. 0 < tm_in t"
  shows "kok S idle stk T (chSchGoSleepS st s)"
    "st \<noteq> THD_STATE_READY \<Longrightarrow> t \<in> set ts \<Longrightarrow> tm_par t = r_current s \<Longrightarrow> pending S idle stk T (r_current s) (tm_in t) (chSchGoSleepS st s)"
    "st \<noteq> THD_STATE_READY \<Longrightarrow> p_state (chSchGoSleepS st s) (r_current s) = st"
proof -
  let ?g = "chSchGoSleepS st s" and ?c = "r_current s"
  obtain n rest where r: "Q rlist = n # rest" "kmid S idle stk T (Q(rlist := rest)) (without n ts) {} ?g"
    "runs_top (Q(rlist := rest)) ?g" "s_cnt ?g = s_cnt s" "r_current ?g = n" "p_u ?g = p_u s"
    "p_state ?g = (p_state s)(?c := st, n := THD_STATE_CURRENT)"
    by (rule gosleep_run [OF assms(1-4)])
  have "rlist \<notin> S" by (rule kmid_facts(1) [OF r(2)])
  then have c: "counts S (Q(rlist := rest)) ?g" using assms(5) r(4) by (auto simp: counts_def)
  have pos: "\<forall>t \<in> set (without n ts). 0 < tm_in t" using assms(6) set_without by blast
  show "kok S idle stk T ?g" by (rule kokI [OF r(2) c pos r(3)])
  have nr: "?c \<notin> set (Q rlist)" if "st \<noteq> THD_STATE_READY" using assms(1) that by (auto simp: kqueues_def ready_wf_def)
  then show "st \<noteq> THD_STATE_READY \<Longrightarrow> p_state ?g ?c = st" using r(1,7) by auto
  assume a: "st \<noteq> THD_STATE_READY" "t \<in> set ts" "tm_par t = ?c"
  have "?c \<notin> insert (r_current ?g) (set ((Q(rlist := rest)) rlist))" "t \<in> set (without n ts)"
    using nr [OF a(1)] a(2,3) r(1,5) by (auto simp: without_def)
  then show "pending S idle stk T ?c (tm_in t) ?g" using r(2,3) c pos a(3) unfolding pending_def kinv_def by blast
qed

lemmas sleep_kok = sleep_run(1)

text \<open>The timer, if there is a timeout, is set before the thread goes to sleep.\<close>

lemma timer_armed:
  assumes k: "kqueues S Q ts {} (s\<lparr>p_state := (p_state s)(r_current s := st)\<rparr>)"
    and th: "threads_wf S stk T Q ts s" and cn: "counts S Q s" and pos: "\<forall>t \<in> set ts. 0 < tm_in t"
    and w: "waits S Q (s\<lparr>p_state := (p_state s)(r_current s := st)\<rparr>) (r_current s)"
    and cur: "\<forall>t \<in> set ts. tm_par t \<noteq> r_current s" and time: "time \<noteq> 0" and vt: "vt \<in> stk (r_current s)" and stk: "stacks stk"
  obtains s2 ts2 where "chSchGoSleepTimeoutS st time vt s = Some (chSchGoSleepS st s2)"
    "kqueues S Q ts2 {} (s2\<lparr>p_state := (p_state s2)(r_current s2 := st)\<rparr>)" "threads_wf S stk T Q ts2 s2" "counts S Q s2"
    "\<forall>t \<in> set ts2. 0 < tm_in t" "l_next s2 = l_next s" "r_current s2 = r_current s" "p_u s2 = p_u s" "p_state s2 = p_state s"
    "time \<noteq> TIME_INFINITE \<longrightarrow> (\<exists>t \<in> set ts2. tm_par t = r_current s \<and> tm_in t = unat time)" "s_cnt s2 = s_cnt s"
proof (cases "time = TIME_INFINITE")
  case True
  then show ?thesis by (intro that [OF _ k th cn pos]) (simp_all add: chSchGoSleepTimeoutS_def)
next
  case False
  let ?c = "r_current s"
  let ?u = "\<lparr>tm_at = vt, tm_in = unat time, tm_func = Wakeup, tm_par = ?c\<rparr>"
  let ?ts = "insert_timer ?u ts"
  have t0: "timers_are s ts"
    using k timers_cong [of "s\<lparr>p_state := (p_state s)(r_current s := st)\<rparr>" s ts] by (simp add: kqueues_def timers_wf_def)
  have ctx: "p_ctx s (tm_par t) = Ctx_timeout (tm_at t)" if "t \<in> set ts" for t using k that by (simp add: kqueues_def timers_wf_def)
  have own: "v \<in> stk p" if "p_ctx s p = Ctx_timeout v" for p v using th that by (simp add: threads_wf_def)
  have other: "p_ctx s p \<noteq> Ctx_timeout vt" if "p \<noteq> ?c" for p
  proof
    assume "p_ctx s p = Ctx_timeout vt"
    then show False using own [of p vt] stk vt that unfolding stacks_def by blast
  qed
  have "tm_at t \<noteq> vt" if "t \<in> set ts" for t using other [of "tm_par t"] ctx [OF that] cur that by metis
  then have "vt \<notin> set (vtlist # map tm_at ts)" using stk vt by (auto simp: stacks_def)
  from set_run [OF t0 this, of Wakeup time ?c]
  obtain s1 where s1: "chVTSetI vt time Wakeup ?c s = Some s1" "timers_are s1 ?ts" by auto
  obtain nx pv tm where sh: "s1 = s\<lparr>vt_next := nx, vt_prev := pv, vt_time := tm, vt_func := (vt_func s)(vt := Wakeup), vt_par := (vt_par s)(vt := ?c)\<rparr>"
    by (rule set_shape [OF s1(1)])
  let ?s2 = "s1\<lparr>p_ctx := (p_ctx s1)(?c := Ctx_timeout vt)\<rparr>"
  let ?s3 = "?s2\<lparr>p_state := (p_state ?s2)(r_current ?s2 := st)\<rparr>"
  have t3: "timers_are ?s3 ?ts" using s1(2) timers_cong [of ?s3 s1 ?ts] by simp
  have k3: "kqueues S Q ?ts {} ?s3"
    by (rule kq_timer [OF k t3 set_insert_timer, where vt = vt and c = ?c]) (use cur other w in \<open>simp_all add: sh\<close>)
  have th2: "threads_wf S stk T Q ?ts ?s2" using th vt by (auto simp: threads_wf_def set_insert_timer sh)
  have cl: "counts S Q ?s2" using cn by (simp add: counts_def sh)
  have pos2: "\<forall>t \<in> set ?ts. 0 < tm_in t" using pos time by (auto simp: set_insert_timer unat_gt_0)
  have "chSchGoSleepTimeoutS st time vt s = Some (chSchGoSleepS st ?s2)"
    using False s1(1) by (simp add: chSchGoSleepTimeoutS_def sh)
  then show ?thesis by (rule that [OF _ k3 th2 cl pos2]) (simp_all add: sh set_insert_timer)
qed

lemma go_timeout_run:
  assumes k: "kqueues S Q ts {} (s\<lparr>p_state := (p_state s)(r_current s := st)\<rparr>)" and idle: "idle \<in> set (Q rlist)"
    and th: "threads_wf S stk T Q ts s" and al: "l_next s alt_alarm_list = alt_alarm_list" and cn: "counts S Q s"
    and pos: "\<forall>t \<in> set ts. 0 < tm_in t"
    and w: "waits S Q (s\<lparr>p_state := (p_state s)(r_current s := st)\<rparr>) (r_current s)"
    and cur: "\<forall>t \<in> set ts. tm_par t \<noteq> r_current s" and time: "time \<noteq> 0" and vt: "vt \<in> stk (r_current s)" and stk: "stacks stk"
  shows "\<exists>s'. chSchGoSleepTimeoutS st time vt s = Some s' \<and> kok S idle stk T s' \<and>
    (st \<noteq> THD_STATE_READY \<and> time \<noteq> TIME_INFINITE \<longrightarrow>
     pending S idle stk T (r_current s) (unat time) s' \<and> p_state s' (r_current s) = st)"
proof -
  obtain s2 ts2 where a: "chSchGoSleepTimeoutS st time vt s = Some (chSchGoSleepS st s2)"
    "kqueues S Q ts2 {} (s2\<lparr>p_state := (p_state s2)(r_current s2 := st)\<rparr>)" "threads_wf S stk T Q ts2 s2" "counts S Q s2"
    "\<forall>t \<in> set ts2. 0 < tm_in t" "l_next s2 = l_next s" "r_current s2 = r_current s" "p_u s2 = p_u s" "p_state s2 = p_state s"
    "time \<noteq> TIME_INFINITE \<longrightarrow> (\<exists>t \<in> set ts2. tm_par t = r_current s \<and> tm_in t = unat time)" "s_cnt s2 = s_cnt s"
    by (rule timer_armed [OF k th cn pos w cur time vt stk])
  have al2: "l_next s2 alt_alarm_list = alt_alarm_list" using al a(6) by simp
  note r = sleep_run [where idle = idle and stk = stk and T = T, OF a(2) idle a(3) al2 a(4,5)]
  have "pending S idle stk T (r_current s) (unat time) (chSchGoSleepS st s2)" if "st \<noteq> THD_STATE_READY" "time \<noteq> TIME_INFINITE"
    using a(7,10) that r(2) by metis
  then show ?thesis using a(1,7) r(1,3) by auto
qed

section \<open>The calls\<close>

text \<open>The running thread in a queue that is served first come first.\<close>

lemma enqueue_run:
  assumes "kmid S idle stk T Q ts {} s" "sp \<in> S" "\<not> by_prio sp"
    "s' = (queue_insert c sp s)\<lparr>p_u := (p_u s)(c := Wtobjp sp), s_cnt := cnt\<rparr>" "c = r_current s"
  shows "kqueues S (Q(sp := Q sp @ [c])) ts {} (s'\<lparr>p_state := (p_state s')(c := waiter_state sp)\<rparr>)"
    "threads_wf S stk T (Q(sp := Q sp @ [c])) ts s'" "l_next s' alt_alarm_list = alt_alarm_list"
    "r_current s' = c" "p_u s' c = Wtobjp sp" "idle \<noteq> c \<Longrightarrow> idle \<in> set ((Q(sp := Q sp @ [c])) rlist)"
    "waits S (Q(sp := Q sp @ [c])) (s'\<lparr>p_state := (p_state s')(c := waiter_state sp)\<rparr>) c"
proof -
  note m = kmid_facts [OF assms(1)]
  have sp: "sp \<noteq> rlist" "sp \<in> insert rlist S" using m(1) assms(2) by auto
  obtain nx pv where sh: "queue_insert c sp s = s\<lparr>p_next := nx, p_prev := pv\<rparr>" using insert_before_shape unfolding queue_insert_eq by blast
  have s': "s' = s\<lparr>p_next := nx, p_prev := pv, p_u := (p_u s)(c := Wtobjp sp), s_cnt := cnt\<rparr>"
    unfolding assms(4) sh ..
  show "kqueues S (Q(sp := Q sp @ [c])) ts {} (s'\<lparr>p_state := (p_state s')(c := waiter_state sp)\<rparr>)"
    using m(2,6) m(3,5) [folded assms(5)] assms(3) by (intro kq_block [OF m(7) assms(2)]) (auto simp: s' sh)
  have q: "queued (insert rlist S) (Q(sp := Q sp @ [c])) = insert c (queued (insert rlist S) Q)"
    unfolding queued_upd [OF sp(2)] queued_split [OF sp(2), of Q] by simp
  show "threads_wf S stk T (Q(sp := Q sp @ [c])) ts s'"
    using assms(1) m(3) unfolding kmid_def threads_wf_def q by (simp add: s' assms(5))
  show "l_next s' alt_alarm_list = alt_alarm_list" "r_current s' = c" "p_u s' c = Wtobjp sp"
    using assms(1,5) by (simp_all add: s' kmid_def)
  show "idle \<noteq> c \<Longrightarrow> idle \<in> set ((Q(sp := Q sp @ [c])) rlist)" using m(8) sp(1) assms(5) by auto
  show "waits S (Q(sp := Q sp @ [c])) (s'\<lparr>p_state := (p_state s')(c := waiter_state sp)\<rparr>) c"
    using by_prio_simps(1) [OF assms(3)] by (simp add: waits_def q)
qed

text \<open>The running thread in the queue of a semaphore, whose counter goes below zero.\<close>

lemma block_run:
  assumes "kmid S idle stk T Q ts {} s" "counts S Q s" "sp \<in> sems S" "s_cnt s sp \<le> 0"
    "s' = (queue_insert c sp s)\<lparr>p_u := (p_u s)(c := Wtobjp sp), s_cnt := (s_cnt s)(sp := s_cnt s sp - 1)\<rparr>" "c = r_current s"
  shows "kqueues S (Q(sp := Q sp @ [c])) ts {} (s'\<lparr>p_state := (p_state s')(c := THD_STATE_WTSEM)\<rparr>)"
    "threads_wf S stk T (Q(sp := Q sp @ [c])) ts s'" "counts S (Q(sp := Q sp @ [c])) s'" "l_next s' alt_alarm_list = alt_alarm_list"
    "r_current s' = c" "p_u s' c = Wtobjp sp" "idle \<noteq> c \<Longrightarrow> idle \<in> set ((Q(sp := Q sp @ [c])) rlist)"
    "waits S (Q(sp := Q sp @ [c])) (s'\<lparr>p_state := (p_state s')(c := THD_STATE_WTSEM)\<rparr>) c"
proof -
  obtain a where a: "sp = At a" using assms(3) by blast
  have sp: "sp \<in> S" "\<not> by_prio sp" "waiter_state sp = THD_STATE_WTSEM" using assms(3) a by (simp_all add: by_prio_simps)
  note e = enqueue_run [OF assms(1) sp(1,2) assms(5,6)]
  show "kqueues S (Q(sp := Q sp @ [c])) ts {} (s'\<lparr>p_state := (p_state s')(c := THD_STATE_WTSEM)\<rparr>)"
    "waits S (Q(sp := Q sp @ [c])) (s'\<lparr>p_state := (p_state s')(c := THD_STATE_WTSEM)\<rparr>) c"
    using e(1,7) sp(3) by simp_all
  show "threads_wf S stk T (Q(sp := Q sp @ [c])) ts s'" "l_next s' alt_alarm_list = alt_alarm_list" "r_current s' = c" "p_u s' c = Wtobjp sp"
    "idle \<noteq> c \<Longrightarrow> idle \<in> set ((Q(sp := Q sp @ [c])) rlist)"
    by (rule e)+
  show "counts S (Q(sp := Q sp @ [c])) s'" using assms(2-5) by (auto simp: counts_def)
qed

lemma sem_block_eq:
  "sem_block sp (s\<lparr>s_cnt := (s_cnt s)(sp := s_cnt s sp - 1)\<rparr>) =
   (queue_insert (r_current s) sp s)\<lparr>p_u := (p_u s)(r_current s := Wtobjp sp), s_cnt := (s_cnt s)(sp := s_cnt s sp - 1)\<rparr>"
  by (simp add: sem_block_def queue_insert_def Let_def)

lemma counts_down: "counts S Q s \<Longrightarrow> 0 < s_cnt s sp \<Longrightarrow> counts S Q (s\<lparr>s_cnt := (s_cnt s)(sp := s_cnt s sp - 1)\<rparr>)"
  by (auto simp: counts_def)

lemma kok_take:
  assumes "kmid S idle stk T Q ts {} s" "counts S Q s" "\<forall>t \<in> set ts. 0 < tm_in t" "runs_top Q s" "0 < s_cnt s sp"
  shows "kok S idle stk T (s\<lparr>s_cnt := (s_cnt s)(sp := s_cnt s sp - 1)\<rparr>)"
  by (rule kokI [OF kmid_cnt [OF assms(1)] counts_down [OF assms(2,5)] assms(3)]) (rule runs_top_cong [OF assms(4)]; simp)

lemma wait_run:
  assumes "kok S idle stk T s" "sp \<in> sems S" "r_current s \<noteq> idle"
  shows "kok S idle stk T (snd (chSemWait sp s))"
proof -
  let ?s = "chSysLock s"
  obtain Q ts where k: "kmid S idle stk T Q ts {} ?s" "counts S Q ?s" "\<forall>t \<in> set ts. 0 < tm_in t" "runs_top Q ?s"
    using kok_lock [OF assms(1)] by (rule kokE)
  have "kok S idle stk T (snd (chSemWaitS sp ?s))"
  proof (cases "s_cnt ?s sp \<le> 0")
    case True
    note b = block_run [OF k(1,2) assms(2) True refl refl]
    have i: "idle \<noteq> r_current ?s" using assms(3) by (simp add: lock_simps)
    have "kok S idle stk T (chSchGoSleepS THD_STATE_WTSEM (sem_block sp (?s\<lparr>s_cnt := (s_cnt ?s)(sp := s_cnt ?s sp - 1)\<rparr>)))"
      unfolding sem_block_eq using b(1-5) b(7) [OF i] k(3) by (intro sleep_kok [where Q = "Q(sp := Q sp @ [r_current ?s])"]) simp_all
    then show ?thesis using True by (simp add: chSemWaitS_def Let_def)
  next
    case False
    then show ?thesis using kok_take [OF k, of sp] by (simp add: chSemWaitS_def Let_def)
  qed
  then show ?thesis using kok_unlock by (simp add: chSemWait_def split_beta)
qed

lemma pending_unlock: "pending S idle stk T p d s \<Longrightarrow> pending S idle stk T p d (chSysUnlock s)"
  unfolding pending_def kinv_def lock_simps by (simp, blast intro: kmid_status)

lemma wait_timeout_run:
  assumes "kok S idle stk T s" "sp \<in> sems S" "r_current s \<noteq> idle" "vt \<in> stk (r_current s)" "stacks stk"
  shows "\<exists>r s'. chSemWaitTimeout sp time vt s = Some (r, s') \<and> kok S idle stk T s' \<and>
    (s_cnt s sp \<le> 0 \<and> time \<noteq> 0 \<and> time \<noteq> TIME_INFINITE \<longrightarrow>
     pending S idle stk T (r_current s) (unat time) s' \<and> p_state s' (r_current s) = THD_STATE_WTSEM)"
proof -
  let ?s = "chSysLock s"
  obtain Q ts where k: "kmid S idle stk T Q ts {} ?s" "counts S Q ?s" "\<forall>t \<in> set ts. 0 < tm_in t" "runs_top Q ?s"
    using kok_lock [OF assms(1)] by (rule kokE)
  let ?s1 = "?s\<lparr>s_cnt := (s_cnt ?s)(sp := s_cnt ?s sp - 1)\<rparr>"
  have c: "r_current ?s = r_current s" "s_cnt ?s = s_cnt s" by (simp_all add: lock_simps)
  show ?thesis
  proof (cases "s_cnt ?s sp \<le> 0 \<and> time \<noteq> 0")
    case True
    then have le: "s_cnt ?s sp \<le> 0" by blast
    note b = block_run [OF k(1,2) assms(2) le refl refl]
    have i: "idle \<noteq> r_current ?s" using assms(3) c by simp
    have "\<exists>s'. chSchGoSleepTimeoutS THD_STATE_WTSEM time vt (sem_block sp ?s1) = Some s' \<and> kok S idle stk T s' \<and>
        (THD_STATE_WTSEM \<noteq> THD_STATE_READY \<and> time \<noteq> TIME_INFINITE \<longrightarrow>
         pending S idle stk T (r_current (sem_block sp ?s1)) (unat time) s' \<and> p_state s' (r_current (sem_block sp ?s1)) = THD_STATE_WTSEM)"
      unfolding sem_block_eq using b(1-5,8) b(7) [OF i] k(3) assms(4,5) True kmid_facts(9) [OF k(1)] c
      by (intro go_timeout_run [where Q = "Q(sp := Q sp @ [r_current ?s])" and ts = ts]) simp_all
    then obtain s' where s': "chSchGoSleepTimeoutS THD_STATE_WTSEM time vt (sem_block sp ?s1) = Some s'" "kok S idle stk T s'"
      "time \<noteq> TIME_INFINITE \<Longrightarrow> pending S idle stk T (r_current s) (unat time) s' \<and> p_state s' (r_current s) = THD_STATE_WTSEM"
      using b(5) c unfolding sem_block_eq by auto
    have "chSemWaitTimeout sp time vt s = Some (None, chSysUnlock s')"
      using True s'(1) by (simp add: chSemWaitTimeout_def chSemWaitTimeoutS_def TIME_IMMEDIATE_def Let_def)
    moreover have "p_state (chSysUnlock s') = p_state s'" by (simp add: lock_simps)
    ultimately show ?thesis using s'(2,3) kok_unlock pending_unlock by auto
  next
    case False
    have "?s1\<lparr>s_cnt := (s_cnt ?s1)(sp := s_cnt ?s1 sp + 1)\<rparr> = ?s" by (simp add: fun_upd_idem)
    then have "\<exists>r s'. chSemWaitTimeoutS sp time vt ?s = Some (r, s') \<and> kok S idle stk T s'"
      using False kok_take [OF k, of sp] kok_lock [OF assms(1)] by (auto simp: chSemWaitTimeoutS_def TIME_IMMEDIATE_def Let_def)
    then show ?thesis using kok_unlock False c(2) by (fastforce simp: chSemWaitTimeout_def)
  qed
qed

lemma sleepS_run:
  assumes "kok S idle stk T s" "r_current s \<noteq> idle" "vt \<in> stk (r_current s)" "stacks stk" "time \<noteq> 0"
  shows "\<exists>s'. chThdSleepS time vt s = Some s' \<and> kok S idle stk T s' \<and> (time \<noteq> TIME_INFINITE \<longrightarrow>
    pending S idle stk T (r_current s) (unat time) s' \<and> p_state s' (r_current s) = THD_STATE_SLEEPING)"
proof -
  obtain Q ts where k: "kmid S idle stk T Q ts {} s" "counts S Q s" "\<forall>t \<in> set ts. 0 < tm_in t" "runs_top Q s"
    using assms(1) by (rule kokE)
  note m = kmid_facts [OF k(1)]
  have "waits S Q (s\<lparr>p_state := (p_state s)(r_current s := THD_STATE_SLEEPING)\<rparr>) (r_current s)" using m(2,3,6) by (auto simp: waits_def)
  moreover have "idle \<in> set (Q rlist)" "threads_wf S stk T Q ts s" "l_next s alt_alarm_list = alt_alarm_list" "\<forall>t \<in> set ts. tm_par t \<noteq> r_current s"
    using k(1) m(8,9) assms(2) by (auto simp: kmid_def)
  ultimately show ?thesis
    unfolding chThdSleepS_def using go_timeout_run [where Q = Q and ts = ts and s = s and st = THD_STATE_SLEEPING and vt = vt,
      OF kq_sleep [OF k(1)] _ _ _ k(2,3) _ _ assms(5,3,4)] by (metis tstate.distinct(11))
qed

lemma thd_sleep_run:
  assumes "kok S idle stk T s" "r_current s \<noteq> idle" "vt \<in> stk (r_current s)" "stacks stk"
  shows "time \<noteq> 0 \<Longrightarrow> \<exists>s'. chThdSleep time vt s = Some s' \<and> kok S idle stk T s' \<and> (time \<noteq> TIME_INFINITE \<longrightarrow>
      pending S idle stk T (r_current s) (unat time) s' \<and> p_state s' (r_current s) = THD_STATE_SLEEPING)"
    "\<exists>s'. chThdSleepUntil time vt s = Some s' \<and> kok S idle stk T s'"
proof -
  have c: "r_current (chSysLock s) = r_current s" by (simp add: lock_simps)
  have run: "\<exists>s'. chThdSleepS w vt (chSysLock s) = Some s' \<and> kok S idle stk T s' \<and> (w \<noteq> TIME_INFINITE \<longrightarrow>
      pending S idle stk T (r_current s) (unat w) s' \<and> p_state s' (r_current s) = THD_STATE_SLEEPING)" if "w \<noteq> 0" for w
    using sleepS_run [OF kok_lock [OF assms(1)] _ _ assms(4) that, of vt] assms(2,3) c by simp
  show "\<exists>s'. chThdSleep time vt s = Some s' \<and> kok S idle stk T s' \<and> (time \<noteq> TIME_INFINITE \<longrightarrow>
      pending S idle stk T (r_current s) (unat time) s' \<and> p_state s' (r_current s) = THD_STATE_SLEEPING)" if z: "time \<noteq> 0"
  proof -
    obtain s1 where s1: "chThdSleepS time vt (chSysLock s) = Some s1" "kok S idle stk T s1" "time \<noteq> TIME_INFINITE \<longrightarrow>
        pending S idle stk T (r_current s) (unat time) s1 \<and> p_state s1 (r_current s) = THD_STATE_SLEEPING"
      using run [OF z] by blast
    then show ?thesis using kok_unlock [OF s1(2)] pending_unlock by (auto simp: chThdSleep_def) (simp add: lock_simps)
  qed
  show "\<exists>s'. chThdSleepUntil time vt s = Some s' \<and> kok S idle stk T s'"
  proof (cases "time - chTimeNow (chSysLock s) = 0")
    case True
    then show ?thesis using kok_lock [OF assms(1)] kok_unlock by (simp add: chThdSleepUntil_def)
  next
    case False
    from run [OF this] show ?thesis using False kok_unlock by (fastforce simp: chThdSleepUntil_def Let_def word_gt_0)
  qed
qed

end
