(* ===== verification/Ch_Tick.thy ===== *)
theory Ch_Tick
  imports Ch_Waits
begin

text \<open>
  A tick of the clock: the timers that are due wake their threads, and the kernel keeps its
  invariant.
\<close>

section \<open>A timeout\<close>

lemma wake_timeout_run:
  assumes "kmid S idle stk T Q ts X s" "X \<subseteq> {t}" "counts S Q s" "t \<in> T" "t \<notin> queued (insert rlist S) Q" "t \<noteq> r_current s"
  obtains s' where "wake_timeout t s = Some s'" "kmid S idle stk T (Q(rlist := behind s t (Q rlist))) ts {} s'"
    "counts S (Q(rlist := behind s t (Q rlist))) s'" "p_state s' = (p_state s)(t := THD_STATE_READY)"
    "p_u s' = (p_u s)(t := Rdymsg RDY_TIMEOUT)" "r_current s' = r_current s"
proof -
  let ?s = "s\<lparr>p_u := (p_u s)(t := Rdymsg RDY_TIMEOUT)\<rparr>"
  have tq: "\<forall>sp \<in> S. t \<notin> set (Q sp)" using assms(5) by (auto simp: queued_simps)
  note n = msg_mid [OF assms(1) tq, where u = "Rdymsg RDY_TIMEOUT"]
  have "t \<noteq> r_current ?s" using assms(6) by simp
  then obtain s2 where s2: "chSchReadyI t ?s = Some s2" "kmid S idle stk T (Q(rlist := behind ?s t (Q rlist))) ts (X - {t}) s2"
    "kstays S Q ts ?s (Q(rlist := behind ?s t (Q rlist))) ts s2"
    "r_current s2 = r_current ?s" "p_u s2 = p_u ?s" "p_state s2 = (p_state ?s)(t := THD_STATE_READY)"
    by (rule ready_mid [OF n(1) assms(4,5)])
  have b: "behind ?s t (Q rlist) = behind s t (Q rlist)" by (simp add: behind_def)
  have X: "X - {t} = {}" using assms(2) by blast
  show ?thesis
    using s2 kstays_counts [OF kstays_trans [OF n(2) s2(3)] subset_refl assms(3)] X by (intro that [of s2]) (simp_all add: wake_timeout_def b)
qed

text \<open>The queues without the thread that was taken from one of them.\<close>

lemma filter_queue:
  assumes "p \<notin> queued (insert rlist S) (Q(sp := xs @ ys))" "Q sp = xs @ p # ys" "rlist \<notin> S"
  shows "\<forall>h \<in> S. (Q(sp := xs @ ys, rlist := zs)) h = filter (\<lambda>q. q \<noteq> p) (Q h)"
proof
  fix h assume h: "h \<in> S"
  then have "p \<notin> set ((Q(sp := xs @ ys)) h)" using assms(1) by (auto simp: queued_simps)
  then have f: "filter (\<lambda>q. q \<noteq> p) ((Q(sp := xs @ ys)) h) = (Q(sp := xs @ ys)) h" by (auto simp: filter_id_conv)
  have "h \<noteq> rlist" using h assms(3) by auto
  then show "(Q(sp := xs @ ys, rlist := zs)) h = filter (\<lambda>q. q \<noteq> p) (Q h)" using f assms(2) by (cases "h = sp") auto
qed

lemma filter_none: "p \<notin> (\<Union>h \<in> S. set (Q h)) \<Longrightarrow> rlist \<notin> S \<Longrightarrow> \<forall>h \<in> S. (Q(rlist := zs)) h = filter (\<lambda>q. q \<noteq> p) (Q h)"
  by (auto simp: filter_id_conv [THEN iffD2] intro!: filter_id_conv [THEN iffD2, symmetric])

lemma wakeup_run:
  assumes "kmid S idle stk T Q ts {} s" "counts S Q s" "p \<in> T" "waits S Q s p"
  obtains s' Q' where "wakeup p s = Some s'" "kmid S idle stk T Q' ts {} s'" "counts S Q' s'" "p_state s' = (p_state s)(p := THD_STATE_READY)"
    "p_u s' = (if p_state s p = THD_STATE_READY then p_u s else (p_u s)(p := Rdymsg RDY_TIMEOUT))" "r_current s' = r_current s"
    "\<forall>sp \<in> S. Q' sp = filter (\<lambda>q. q \<noteq> p) (Q sp)" "set (Q' rlist) = insert p (set (Q rlist))"
proof -
  note m = kmid_facts [OF assms(1)]
  have kd: "ready_wf Q s" "waiters_wf S Q s" "p_state s (r_current s) = THD_STATE_CURRENT"
    using assms(1) by (simp_all add: kmid_def kqueues_def current_wf_def)
  consider (ready) "p \<in> set (Q rlist)" | (sem) sp where "sp \<in> sems S" "p \<in> set (Q sp)"
    | (other) sp where "sp \<in> S" "p \<in> set (Q sp)" "sp \<notin> range At" "waiter_state sp \<in> {THD_STATE_WTQUEUE, THD_STATE_WTCOND}"
    | (sleeping) "off_queue (p_state s p)" "p \<notin> queued (insert rlist S) Q"
  proof (cases "p \<in> queued (insert rlist S) Q - set (Q rlist)")
    case True
    then obtain sp where sp: "sp \<in> S" "p \<in> set (Q sp)" by (auto simp: queued_simps)
    then have "p_state s p = waiter_state sp" using kd(2) by (simp add: waiters_wf_def)
    then have "waiter_state sp \<noteq> THD_STATE_WTMTX" using assms(4) by (auto simp: waits_def)
    then have "waiter_state sp \<in> {THD_STATE_WTQUEUE, THD_STATE_WTCOND}" if "sp \<notin> range At"
      using that sp(1) m(7) by (cases sp) (auto simp: kqueues_def addrs_def)
    then show thesis using sp that(2,3) by blast
  next
    case False
    then show thesis using assms(4) that(1,4) by (cases "p \<in> set (Q rlist)") (simp_all add: waits_def)
  qed
  then show ?thesis
  proof cases
    case ready
    then have "p_state s p = THD_STATE_READY" using kd(1) by (simp add: ready_wf_def)
    have "queues (insert rlist S) Q s" using m(7) by (simp add: kqueues_def)
    then have "set (rlist # Q rlist) \<inter> set (h # Q h) = {}" if "h \<in> S" for h
      using that m(1) unfolding queues_def by (metis insertI1 insertI2)
    then have "p \<notin> (\<Union>h \<in> S. set (Q h))" using ready by auto
    from filter_none [OF this m(1), of "Q rlist"] have "\<forall>h \<in> S. Q h = filter (\<lambda>q. q \<noteq> p) (Q h)" by simp
    then show ?thesis using assms(1,2) \<open>p_state s p = THD_STATE_READY\<close> ready
      by (intro that [of s Q]) (simp_all add: wakeup_def fun_upd_idem insert_absorb)
  next
    case sem
    have sp: "sp \<in> S" "waiter_state sp = THD_STATE_WTSEM" using sem(1) by auto
    then have st: "p_state s p = THD_STATE_WTSEM" "p_u s p = Wtobjp sp" using kd(2) sem(2) by (simp_all add: waiters_wf_def)
    obtain xs ys where q: "Q sp = xs @ p # ys" using sem(2) by (meson split_list)
    let ?s = "chSemFastSignalI sp s"
    have m1: "kmid S idle stk T Q ts {} ?s" unfolding chSemFastSignalI_def by (rule kmid_cnt [OF assms(1)])
    obtain s1 where s1: "dequeue p ?s = (p, s1)" "kmid S idle stk T (Q(sp := xs @ ys)) ts {p} s1" "p \<in> T"
      "p \<notin> queued (insert rlist S) (Q(sp := xs @ ys))" "p \<noteq> r_current ?s" "r_current s1 = r_current ?s" "p_prio s1 = p_prio ?s"
      "s_cnt s1 = s_cnt ?s" "p_u s1 = p_u ?s" "p_state s1 = p_state ?s"
      by (rule sem_dequeue [OF m1 sp(1) q])
    have c: "counts S (Q(sp := xs @ ys)) s1" using s1(8) by (intro counts_pop [OF assms(2) q]) (simp add: chSemFastSignalI_def)
    have pc: "p \<noteq> r_current s1" using s1(5,6) by simp
    obtain s2 where s2: "wake_timeout p s1 = Some s2"
      "kmid S idle stk T (Q(sp := xs @ ys, rlist := behind s1 p ((Q(sp := xs @ ys)) rlist))) ts {} s2"
      "counts S (Q(sp := xs @ ys, rlist := behind s1 p ((Q(sp := xs @ ys)) rlist))) s2" "p_state s2 = (p_state s1)(p := THD_STATE_READY)"
      "p_u s2 = (p_u s1)(p := Rdymsg RDY_TIMEOUT)" "r_current s2 = r_current s1"
      by (rule wake_timeout_run [OF s1(2) subset_refl c s1(3,4) pc])
    show ?thesis
      using s2 s1 st sp m(1) by (intro that [OF _ s2(2,3) _ _ _ filter_queue [OF s1(4) q m(1)]]) (auto simp: wakeup_def chSemFastSignalI_def)
  next
    case other
    have st: "p_state s p \<in> {THD_STATE_WTQUEUE, THD_STATE_WTCOND}" using kd(2) other by (simp add: waiters_wf_def)
    obtain xs ys where q: "Q sp = xs @ p # ys" using other(2) by (meson split_list)
    obtain s1 where s1: "dequeue p s = (p, s1)" "kmid S idle stk T (Q(sp := xs @ ys)) ts {p} s1" "p \<in> T"
      "p \<notin> queued (insert rlist S) (Q(sp := xs @ ys))" "p \<noteq> r_current s" "r_current s1 = r_current s" "p_prio s1 = p_prio s"
      "s_cnt s1 = s_cnt s" "p_u s1 = p_u s" "p_state s1 = p_state s"
      by (rule sem_dequeue [OF assms(1) other(1) q])
    have c: "counts S (Q(sp := xs @ ys)) s1" using s1(8) other(3) assms(2) by (auto simp: counts_def)
    have pc: "p \<noteq> r_current s1" using s1(5,6) by simp
    obtain s2 where s2: "wake_timeout p s1 = Some s2"
      "kmid S idle stk T (Q(sp := xs @ ys, rlist := behind s1 p ((Q(sp := xs @ ys)) rlist))) ts {} s2"
      "counts S (Q(sp := xs @ ys, rlist := behind s1 p ((Q(sp := xs @ ys)) rlist))) s2" "p_state s2 = (p_state s1)(p := THD_STATE_READY)"
      "p_u s2 = (p_u s1)(p := Rdymsg RDY_TIMEOUT)" "r_current s2 = r_current s1"
      by (rule wake_timeout_run [OF s1(2) subset_refl c s1(3,4) pc])
    show ?thesis
      using s2 s1 st other(1) m(1) by (intro that [OF _ s2(2,3) _ _ _ filter_queue [OF s1(4) q m(1)]]) (auto simp: wakeup_def)
  next
    case sleeping
    have pc: "p \<noteq> r_current s" using sleeping(1) kd(3) by auto
    obtain s2 where s2: "wake_timeout p s = Some s2" "kmid S idle stk T (Q(rlist := behind s p (Q rlist))) ts {} s2"
      "counts S (Q(rlist := behind s p (Q rlist))) s2" "p_state s2 = (p_state s)(p := THD_STATE_READY)"
      "p_u s2 = (p_u s)(p := Rdymsg RDY_TIMEOUT)" "r_current s2 = r_current s"
      by (rule wake_timeout_run [OF assms(1) empty_subsetI assms(2,3) sleeping(2) pc])
    have "p \<notin> (\<Union>h \<in> S. set (Q h))" using sleeping(2) by (simp add: queued_simps)
    then show ?thesis using s2 sleeping(1)
      by (intro that [OF _ s2(2,3) _ _ _ filter_none [OF _ m(1)]]) (auto simp: wakeup_def split: tstate.splits)
  qed
qed

section \<open>The kernel as a client of its timers\<close>

text \<open>
  The second component is the list of the threads that were woken; \<open>st\<close> and \<open>u\<close> are the states and the messages of the
  threads before the tick.
\<close>

definition wakes :: "vtfunc \<Rightarrow> ptr \<Rightarrow> timer list \<times> ptr list \<Rightarrow> timer list \<times> ptr list" where
  "wakes f p v = (fst v, snd v @ [p])"

definition woken :: "(ptr \<Rightarrow> tstate) \<Rightarrow> (ptr \<Rightarrow> thd_union) \<Rightarrow> ptr list \<Rightarrow> kern \<Rightarrow> bool" where
  "woken st u log s \<longleftrightarrow> (\<forall>p. p_state s p = (if p \<in> set log then THD_STATE_READY else st p) \<and>
     p_u s p = (if p \<in> set log \<and> st p \<noteq> THD_STATE_READY then Rdymsg RDY_TIMEOUT else u p))"

definition krel where
  "krel S idle stk T Q0 st u c s v \<longleftrightarrow>
     (\<exists>Q. kmid S idle stk T Q (fst v) {} s \<and> counts S Q s \<and> (\<forall>sp \<in> S. Q sp = filter (\<lambda>q. q \<notin> set (snd v)) (Q0 sp)) \<and>
        set (Q rlist) = set (Q0 rlist) \<union> set (snd v)) \<and>
     woken st u (snd v) s \<and> r_current s = c"

lemma kmid_timers:
  assumes "kmid S idle stk T Q ts {} s" "timers_are s' ts'" "\<And>t. t \<in> set ts' \<Longrightarrow> \<exists>r \<in> set ts. tm_at t = tm_at r \<and> tm_par t = tm_par r \<and> tm_func t = tm_func r"
    "\<And>r. r \<in> set ts \<Longrightarrow> vt_func s' (tm_at r) \<noteq> No_func \<Longrightarrow> \<exists>t \<in> set ts'. tm_at t = tm_at r \<and> tm_par t = tm_par r"
    "\<And>p. vt_func s' p \<noteq> No_func \<Longrightarrow> vt_func s p \<noteq> No_func"
    "p_next s' = p_next s" "p_prev s' = p_prev s" "p_prio s' = p_prio s" "p_ctx s' = p_ctx s" "p_state s' = p_state s" "p_u s' = p_u s"
    "r_current s' = r_current s" "l_next s' = l_next s"
  shows "kmid S idle stk T Q ts' {} s'"
proof -
  note k = kmid_facts(7) [OF assms(1), unfolded kqueues_def]
  have w: "waits S Q s' p" if "waits S Q s p" for p using that assms(8,10) by (simp add: waits_def)
  have "timers_wf S Q ts' {} s'"
    unfolding timers_wf_def
  proof (intro conjI ballI allI impI)
    fix t assume "t \<in> set ts'"
    then obtain r where r: "r \<in> set ts" "tm_at t = tm_at r" "tm_par t = tm_par r" "tm_func t = tm_func r" using assms(3) by blast
    show "tm_func t = Wakeup" "p_ctx s' (tm_par t) = Ctx_timeout (tm_at t)" "tm_par t \<in> {} \<or> waits S Q s' (tm_par t)"
      using r k w by (simp_all add: timers_wf_def assms(9))
  next
    fix p v assume a: "p_ctx s' p = Ctx_timeout v \<and> vt_func s' v \<noteq> No_func"
    then have "p_ctx s p = Ctx_timeout v" "vt_func s v \<noteq> No_func" using assms(5,9) by auto
    then obtain r where "r \<in> set ts" "tm_at r = v" "tm_par r = p" using k unfolding timers_wf_def by blast
    then show "\<exists>t \<in> set ts'. tm_at t = v \<and> tm_par t = p" using assms(4) [of r] a by auto
  qed (rule assms(2))
  moreover have "queues (insert rlist S) Q s'" using k queues_cong [OF _ assms(6,7), of _ Q] by blast
  moreover have "ready_wf Q s'" "waiters_wf S Q s'" using k assms(8,10,11) by (simp_all add: ready_wf_def waiters_wf_def)
  ultimately have "kqueues S Q ts' {} s'" using k by (simp add: kqueues_def)
  moreover have "current_wf S idle Q s'" using assms(1,8-10,12) by (simp add: kmid_def current_wf_def)
  moreover have "threads_wf S stk T Q ts' s'" using assms(1,3,8,9,12) unfolding kmid_def threads_wf_def by metis
  ultimately show ?thesis using assms(1,13) by (simp add: kmid_def)
qed

interpretation kt: vt_client "vt_call app" wakes "krel S idle stk T Q0 st u c" for app S idle stk T Q0 st u c
proof
  show "timers_are s ts" if "krel S idle stk T Q0 st u c s (ts, v)" for s ts v
    using that by (auto simp: krel_def kmid_def kqueues_def timers_wf_def)
  show "due_count (fst (wakes f p (ts, v))) \<le> due_count ts" for f p ts v by (simp add: wakes_def)
next
  fix s t ts v assume r: "krel S idle stk T Q0 st u c s (t # ts, v)" and t: "tm_in t = 0"
  then obtain Q where k: "kmid S idle stk T Q (t # ts) {} s" "counts S Q s"
    and q: "\<forall>sp \<in> S. Q sp = filter (\<lambda>q. q \<notin> set v) (Q0 sp)" "set (Q rlist) = set (Q0 rlist) \<union> set v" by (auto simp: krel_def)
  have tm: "timers_are s (t # ts)" "tm_func t = Wakeup" "waits S Q s (tm_par t)" "tm_par t \<in> T"
    using k(1) by (auto simp: kmid_def kqueues_def timers_wf_def threads_wf_def)
  let ?s = "vt_unlink_first (tm_at t) s"
  have ta: "timers_are ?s ts" by (rule unlink_run(5) [OF tm(1) t])
  have f: "vt_func ?s = (vt_func s)(tm_at t := No_func)" by (simp add: vt_unlink_first_def Let_def)
  have m: "kmid S idle stk T Q ts {} ?s"
    by (rule kmid_timers [OF k(1) ta]) (auto simp: f vt_unlink_first_def Let_def split: if_splits)
  have c2: "counts S Q ?s" "waits S Q ?s (tm_par t)" "p_state ?s = p_state s" "p_u ?s = p_u s" "r_current ?s = r_current s"
    using k(2) tm(3) by (simp_all add: counts_def waits_def vt_unlink_first_def Let_def)
  obtain s' Q' where s': "wakeup (tm_par t) ?s = Some s'" "kmid S idle stk T Q' ts {} s'" "counts S Q' s'" "p_state s' = (p_state ?s)(tm_par t := THD_STATE_READY)"
    "p_u s' = (if p_state ?s (tm_par t) = THD_STATE_READY then p_u ?s else (p_u ?s)(tm_par t := Rdymsg RDY_TIMEOUT))" "r_current s' = r_current ?s"
    "\<forall>sp \<in> S. Q' sp = filter (\<lambda>q. q \<noteq> tm_par t) (Q sp)" "set (Q' rlist) = insert (tm_par t) (set (Q rlist))"
    by (rule wakeup_run [OF m c2(1) tm(4) c2(2)])
  moreover have "\<forall>sp \<in> S. Q' sp = filter (\<lambda>q. q \<notin> set (v @ [tm_par t])) (Q0 sp)" using q(1) s'(7) by (auto intro: filter_cong)
  moreover have "set (Q' rlist) = set (Q0 rlist) \<union> set (v @ [tm_par t])" using q(2) s'(8) by auto
  moreover have "woken st u (v @ [tm_par t]) s'" using r s'(4,5) c2 by (auto simp: krel_def woken_def)
  ultimately show "\<exists>s'. vt_call app (tm_func t) (tm_par t) ?s = Some s' \<and> krel S idle stk T Q0 st u c s' (wakes (tm_func t) (tm_par t) (ts, v))"
    using s' r c2(5) tm(2) unfolding vt_call_def krel_def wakes_def by auto
next
  fix s ts v assume r: "krel S idle stk T Q0 st u c s (ts, v)" and t: "\<forall>t \<in> set ts. 0 < tm_in t"
  then obtain Q where k: "kmid S idle stk T Q ts {} s" "counts S Q s" "\<forall>sp \<in> S. Q sp = filter (\<lambda>q. q \<notin> set v) (Q0 sp)"
      "set (Q rlist) = set (Q0 rlist) \<union> set v"
    by (auto simp: krel_def)
  have tm: "timers_are s ts" using k(1) by (simp add: kmid_def kqueues_def timers_wf_def)
  have "kmid S idle stk T Q (map nearer ts) {} (count_first s)"
    by (rule kmid_timers [OF k(1) tick_start(1) [OF tm t]]) (auto simp: count_first_def)
  moreover have "counts S Q (count_first s)" using k(2) by (simp add: counts_def count_first_def)
  ultimately show "krel S idle stk T Q0 st u c (count_first s) (map nearer ts, v)"
    using r k(3,4) by (auto simp: krel_def woken_def count_first_def)
qed

section \<open>The clock interrupt\<close>

text \<open>The timers that are left after a tick, and the threads whose timers ended.\<close>

definition left :: "timer list \<Rightarrow> timer list" where
  "left ts = dropWhile (\<lambda>t. tm_in t = 0) (map nearer ts)"

definition ended :: "timer list \<Rightarrow> ptr list" where
  "ended ts = map tm_par (takeWhile (\<lambda>t. tm_in t = 0) (map nearer ts))"

lemma expire_wakes:
  "due_count ts \<le> n \<Longrightarrow> expire wakes n (ts, log) = (dropWhile (\<lambda>t. tm_in t = 0) ts, log @ map tm_par (takeWhile (\<lambda>t. tm_in t = 0) ts))"
proof (induction n arbitrary: ts log)
  case 0
  then have "\<forall>t \<in> set ts. tm_in t \<noteq> 0" by (auto simp: due_count_def filter_empty_conv)
  then show ?case by (cases ts) auto
next
  case (Suc n)
  show ?case using Suc.prems Suc.IH by (cases ts) (auto simp: due_count_def wakes_def)
qed

lemma handler_run:
  assumes "kmid S idle stk T Q ts {} s" "counts S Q s" "\<forall>t \<in> set ts. 0 < tm_in t"
  obtains s' Q' where "port_time_tick app s = Some s'" "kmid S idle stk T Q' (left ts) {} s'" "counts S Q' s'"
    "\<forall>t \<in> set (left ts). 0 < tm_in t" "woken (p_state s) (p_u s) (ended ts) s'" "r_current s' = r_current s"
    "\<forall>sp \<in> S. Q' sp = filter (\<lambda>q. q \<notin> set (ended ts)) (Q sp)" "set (Q' rlist) = set (Q rlist) \<union> set (ended ts)"
proof -
  let ?c = "r_current s"
  define s1 where "s1 = (if p_preempt s ?c > 0 then s\<lparr>p_preempt := (p_preempt s)(?c := p_preempt s ?c - 1)\<rparr> else s)"
  let ?s2 = "s1\<lparr>p_time := (p_time s1)(?c := p_time s1 ?c + 1)\<rparr>"
  have e: "port_time_tick app s = chVTDoTickI (vt_call app) ?s2" by (simp add: port_time_tick_def chSysTimerHandlerI_def s1_def Let_def)
  have "kmid S idle stk T Q ts {} ?s2" by (rule kmid_cong [OF assms(1)]) (simp_all add: s1_def)
  then have "krel S idle stk T Q (p_state s) (p_u s) ?c ?s2 (ts, [])" using assms(2) by (auto simp: krel_def woken_def counts_def s1_def)
  moreover have "expire wakes (due_count (map nearer ts)) (map nearer ts, []) = (left ts, ended ts)"
    by (simp add: expire_wakes left_def ended_def)
  ultimately obtain s' where s': "chVTDoTickI (vt_call app) ?s2 = Some s'" "krel S idle stk T Q (p_state s) (p_u s) ?c s' (left ts, ended ts)"
    "\<forall>t \<in> set (left ts). 0 < tm_in t"
    using kt.tick_run [OF _ assms(3), of S idle stk T Q "p_state s" "p_u s" ?c ?s2 "[]" "left ts" "ended ts" app] by blast
  then obtain Q' where "kmid S idle stk T Q' (left ts) {} s'" "counts S Q' s'" "\<forall>sp \<in> S. Q' sp = filter (\<lambda>q. q \<notin> set (ended ts)) (Q sp)"
    "set (Q' rlist) = set (Q rlist) \<union> set (ended ts)"
    by (auto simp: krel_def)
  then show ?thesis using s' e by (intro that [of s' Q']) (auto simp: krel_def)
qed

text \<open>No alarm of the HAL is set, so the handler goes on to the kernel at once.\<close>

lemma clock_run:
  assumes "kmid S idle stk T Q ts {} s" "counts S Q s" "\<forall>t \<in> set ts. 0 < tm_in t"
  obtains s' Q' where "alt_avalon_timer_sc_irq call app s = Some s'" "kmid S idle stk T Q' (left ts) {} s'" "counts S Q' s'"
    "\<forall>t \<in> set (left ts). 0 < tm_in t" "woken (p_state s) (p_u s) (ended ts) s'" "r_current s' = r_current s"
    "\<forall>sp \<in> S. Q' sp = filter (\<lambda>q. q \<notin> set (ended ts)) (Q sp)" "set (Q' rlist) = set (Q rlist) \<union> set (ended ts)"
proof -
  let ?s = "s\<lparr>timer_to := False, status := status s AND NOT PIE_MSK, alt_nticks_var := alt_nticks_var s + 1\<rparr>"
  have m: "kmid S idle stk T Q ts {} ?s" by (rule kmid_cong [OF assms(1)]) simp_all
  have c: "counts S Q ?s" using assms(2) by (simp add: counts_def)
  obtain s' Q' where s': "port_time_tick app ?s = Some s'" "kmid S idle stk T Q' (left ts) {} s'" "counts S Q' s'"
    "\<forall>t \<in> set (left ts). 0 < tm_in t" "woken (p_state ?s) (p_u ?s) (ended ts) s'" "r_current s' = r_current ?s"
    "\<forall>sp \<in> S. Q' sp = filter (\<lambda>q. q \<notin> set (ended ts)) (Q sp)" "set (Q' rlist) = set (Q rlist) \<union> set (ended ts)"
    by (rule handler_run [OF m c assms(3)])
  have "l_next s alt_alarm_list = alt_alarm_list" using assms(1) by (simp add: kmid_def)
  then have "alt_avalon_timer_sc_irq call app s = Some (s'\<lparr>status := status s\<rparr>)"
    using s'(1) by (simp add: alt_avalon_timer_sc_irq_def IOWR_ALTERA_AVALON_TIMER_STATUS_def alt_irq_disable_all_def alt_irq_enable_all_def alt_tick_def
      alarm_loop.simps [of call alt_alarm_list] Let_def)
  moreover have "kmid S idle stk T Q' (left ts) {} (s'\<lparr>status := status s\<rparr>)" by (rule kmid_status [OF s'(2)])
  ultimately show ?thesis using s' by (intro that [of "s'\<lparr>status := status s\<rparr>" Q']) (simp_all add: woken_def)
qed

lemma clock_pend:
  assumes "kpend S idle stk T s"
  shows "\<exists>s'. alt_avalon_timer_sc_irq call app s = Some s' \<and> kpend S idle stk T s'"
proof -
  obtain Q ts where k: "kmid S idle stk T Q ts {} s" "counts S Q s" "\<forall>t \<in> set ts. 0 < tm_in t" using assms by (rule kpendE)
  obtain s' Q' where "alt_avalon_timer_sc_irq call app s = Some s'" "kmid S idle stk T Q' (left ts) {} s'" "counts S Q' s'"
    "\<forall>t \<in> set (left ts). 0 < tm_in t" "woken (p_state s) (p_u s) (ended ts) s'" "r_current s' = r_current s"
    "\<forall>sp \<in> S. Q' sp = filter (\<lambda>q. q \<notin> set (ended ts)) (Q sp)" "set (Q' rlist) = set (Q rlist) \<union> set (ended ts)"
    by (rule clock_run [OF k])
  then show ?thesis using kpendI by blast
qed

end
