(* ===== verification/Ch_Kernel.thy ===== *)
theory Ch_Kernel
  imports Ch_Tick
begin

text \<open>
  The kernel as a state machine: the calls of the running thread, the clock interrupt and the calls of other
  interrupts, from the start of the kernel on.
\<close>

section \<open>The remaining calls\<close>

lemma signal_wait_run:
  assumes "kok S idle stk T s" "sps \<in> sems S" "spw \<in> sems S" "r_current s \<noteq> idle"
  shows "\<exists>r s'. chSemSignalWait sps spw s = Some (r, s') \<and> kok S idle stk T s'"
proof -
  obtain s1 where s1: "sem_add_one sps (chSysLock s) = Some s1" "kpend S idle stk T s1" "r_current s1 = r_current (chSysLock s)"
    using sem_add_one_run(1) [OF kok_pend [OF kok_lock [OF assms(1)]] assms(2)] by blast
  obtain Q ts where k: "kmid S idle stk T Q ts {} s1" "counts S Q s1" "\<forall>t \<in> set ts. 0 < tm_in t" using s1(2) by (rule kpendE)
  let ?s2 = "s1\<lparr>s_cnt := (s_cnt s1)(spw := s_cnt s1 spw - 1)\<rparr>" and ?c = "r_current s1"
  show ?thesis
  proof (cases "s_cnt s1 spw \<le> 0")
    case True
    note b = block_run [OF k(1,2) assms(3) True refl refl]
    have i: "idle \<noteq> ?c" using assms(4) s1(3) by (simp add: lock_simps)
    let ?s4 = "(queue_insert ?c spw s1)\<lparr>p_u := (p_u s1)(?c := Wtobjp spw), s_cnt := (s_cnt s1)(spw := s_cnt s1 spw - 1)\<rparr>"
    have "(queue_insert ?c spw ?s2)\<lparr>p_u := (p_u (queue_insert ?c spw ?s2))(?c := Wtobjp spw)\<rparr> = ?s4"
      by (simp add: queue_insert_def Let_def)
    then have e: "chSemSignalWait sps spw s = Some (None, chSysUnlock (chSchGoSleepS THD_STATE_WTSEM ?s4))"
      using True s1(1) by (simp add: chSemSignalWait_def Let_def)
    have "kok S idle stk T (chSchGoSleepS THD_STATE_WTSEM ?s4)"
      using b(1-5) b(7) [OF i] k(3) by (intro sleep_kok [where Q = "Q(spw := Q spw @ [?c])"]) simp_all
    then show ?thesis using e kok_unlock by blast
  next
    case False
    have "kpend S idle stk T ?s2" by (rule kpendI [OF kmid_cnt [OF k(1)] counts_down [OF k(2)] k(3)]) (use False in simp)
    from resched_kok [OF resched_S this TrueI] show ?thesis
      using False s1(1) kok_unlock by (fastforce simp: chSemSignalWait_def Let_def)
  qed
qed

lemma resetI_run:
  assumes "kpend S idle stk T s" "sp \<in> sems S" "0 \<le> n"
  shows "\<exists>s'. chSemResetI sp n s = Some s' \<and> kpend S idle stk T s'"
proof -
  obtain Q ts where k: "kmid S idle stk T Q ts {} s" "counts S Q s" "\<forall>t \<in> set ts. 0 < tm_in t" using assms(1) by (rule kpendE)
  show ?thesis
    unfolding chSemResetI_def
    by (rule sem_flush_run [OF kmid_cnt [OF k(1)] _ k(3) assms(2)]) (use k(2) assms(2,3) in \<open>auto simp: counts_def\<close>)
qed

lemma reset_call_run:
  assumes "kok S idle stk T s" "sp \<in> sems S" "0 \<le> n"
  shows "\<exists>s'. chSemReset sp n s = Some s' \<and> kok S idle stk T s'"
proof -
  obtain s1 where s1: "chSemResetI sp n (chSysLock s) = Some s1" "kpend S idle stk T s1"
    using resetI_run [OF kok_pend [OF kok_lock [OF assms(1)]] assms(2,3)] by blast
  from resched_kok [OF resched_S s1(2) TrueI] show ?thesis using s1(1) kok_unlock by (fastforce simp: chSemReset_def)
qed

text \<open>A change of the members of one thread that is in no queue and has no timer.\<close>

lemma kq_frame:
  assumes "kqueues S Q ts X s" "n \<notin> queued (insert rlist S) Q" "n \<noteq> rlist" "\<forall>t \<in> set ts. tm_par t \<noteq> n" "p_ctx s' n = Ctx_plain"
    "\<And>p. p \<noteq> n \<Longrightarrow> p_prio s' p = p_prio s p \<and> p_ctx s' p = p_ctx s p \<and> p_state s' p = p_state s p \<and> p_u s' p = p_u s p"
    "\<And>p. p \<in> headers \<or> p = rlist \<Longrightarrow> p_next s' p = p_next s p \<and> p_prev s' p = p_prev s p"
    "vt_next s' = vt_next s" "vt_prev s' = vt_prev s" "vt_time s' = vt_time s" "vt_func s' = vt_func s" "vt_par s' = vt_par s"
  shows "kqueues S Q ts X s'"
proof -
  note k = assms(1) [unfolded kqueues_def]
  have ne: "p \<noteq> n" if "p \<in> queued (insert rlist S) Q" for p using that assms(2) by blast
  have "dl (p_next s') (p_prev s') h (Q h)" if h: "h \<in> insert rlist S" for h
  proof (rule dl_cong)
    show "dl (p_next s) (p_prev s) h (Q h)" using k h queuesD by blast
    fix p assume "p \<in> set (h # Q h)"
    then have "p \<in> headers \<or> p = rlist" using k h by (auto simp: addrs_def queued_def)
    then show "p_next s' p = p_next s p \<and> p_prev s' p = p_prev s p" by (rule assms(7))
  qed
  then have "queues (insert rlist S) Q s'" using k unfolding queues_def by blast
  moreover have "ready_wf Q s'"
  proof -
    have pr: "p_prio s' p = p_prio s p \<and> p_state s' p = p_state s p" if "p \<in> set (Q rlist)" for p
      using ne [of p] assms(6) that by (auto simp: queued_simps)
    have "sorted_wrt (\<lambda>a b. p_prio s' b \<le> p_prio s' a) (Q rlist)"
      by (rule sorted_wrt_mono_rel [of "Q rlist" "\<lambda>a b. p_prio s b \<le> p_prio s a"]) (use pr k in \<open>auto simp: ready_wf_def\<close>)
    then show ?thesis using k pr assms(3) assms(6) [of rlist] by (auto simp: ready_wf_def)
  qed
  moreover have "waiters_wf S Q s'"
    by (rule waiters_cong [where s = s]) (use k assms(6) ne in \<open>auto simp: queued_simps\<close>)
  moreover have "timers_wf S Q ts X s'"
  proof -
    have w: "waits S Q s' p" if "waits S Q s p" "p \<noteq> n" for p using that assms(6) [of p] by (auto simp: waits_def)
    show ?thesis unfolding timers_wf_def
    proof (intro conjI ballI allI impI)
      show "timers_are s' ts" using k timers_cong [OF assms(8-12), of ts] by (simp add: timers_wf_def)
      fix t assume t: "t \<in> set ts"
      show "tm_func t = Wakeup" "p_ctx s' (tm_par t) = Ctx_timeout (tm_at t)" "tm_par t \<in> X \<or> waits S Q s' (tm_par t)"
        using k t assms(4) assms(6) [of "tm_par t"] w by (auto simp: timers_wf_def)
    next
      fix p v assume a: "p_ctx s' p = Ctx_timeout v \<and> vt_func s' v \<noteq> No_func"
      then have "p \<noteq> n" using assms(5) by auto
      then show "\<exists>t \<in> set ts. tm_at t = v \<and> tm_par t = p" using a k assms(6) [of p] assms(11) unfolding timers_wf_def by metis
    qed
  qed
  ultimately show ?thesis using k by (simp add: kqueues_def)
qed

lemma create_fields:
  "p_next (chThdCreateI (At a) prio s) = (p_next s)(Waiting_at a := Waiting_at a, Msgqueue_at a := Msgqueue_at a)"
  "p_prev (chThdCreateI (At a) prio s) = (p_prev s)(Msgqueue_at a := Msgqueue_at a)"
  "p_prio (chThdCreateI (At a) prio s) = (p_prio s)(At a := prio)" "p_ctx (chThdCreateI (At a) prio s) = (p_ctx s)(At a := Ctx_plain)"
  "p_state (chThdCreateI (At a) prio s) = (p_state s)(At a := THD_STATE_SUSPENDED)" "p_u (chThdCreateI (At a) prio s) = p_u s"
  "r_current (chThdCreateI (At a) prio s) = r_current s" "s_cnt (chThdCreateI (At a) prio s) = s_cnt s"
  "l_next (chThdCreateI (At a) prio s) = l_next s" "vt_next (chThdCreateI (At a) prio s) = vt_next s"
  "vt_prev (chThdCreateI (At a) prio s) = vt_prev s" "vt_time (chThdCreateI (At a) prio s) = vt_time s"
  "vt_func (chThdCreateI (At a) prio s) = vt_func s" "vt_par (chThdCreateI (At a) prio s) = vt_par s"
  by (simp_all add: chThdCreateI_def thread_init_def REG_INSERT_def list_init_def queue_init_def Let_def)

lemma create_mid:
  assumes "kmid S idle stk T Q ts {} s" "wsp \<in> range At - S" "wsp \<notin> T" "0 < prio"
  shows "kmid S idle stk (insert wsp T) Q ts {} (chThdCreateI wsp prio s)" "r_current (chThdCreateI wsp prio s) = r_current s"
    "s_cnt (chThdCreateI wsp prio s) = s_cnt s" "\<And>p. p \<noteq> wsp \<Longrightarrow> p_prio (chThdCreateI wsp prio s) p = p_prio s p"
    "p_state (chThdCreateI wsp prio s) wsp = THD_STATE_SUSPENDED"
proof -
  note m = kmid_facts [OF assms(1)]
  obtain a where a: "wsp = At a" using assms(2) by blast
  note sh = create_fields [of a prio s]
  let ?s = "chThdCreateI wsp prio s"
  have tp: "\<forall>t \<in> set ts. tm_par t \<noteq> wsp" using assms(1,3) by (auto simp: kmid_def threads_wf_def)
  have "kqueues S Q ts {} ?s"
    using m(4) assms(3) a tp by (intro kq_frame [OF m(7), where n = wsp]) (auto simp: sh)
  moreover have c: "wsp \<noteq> r_current s" using m(3) assms(3) by blast
  then have "current_wf S idle Q ?s" using assms(1) by (simp add: kmid_def current_wf_def a sh)
  moreover have "threads_wf S stk (insert wsp T) Q ts ?s"
    using assms c by (auto simp: kmid_def threads_wf_def a sh split: if_splits)
  ultimately show "kmid S idle stk (insert wsp T) Q ts {} ?s" using assms(1) by (simp add: kmid_def a sh)
  show "r_current ?s = r_current s" "s_cnt ?s = s_cnt s" "\<And>p. p \<noteq> wsp \<Longrightarrow> p_prio ?s p = p_prio s p" "p_state ?s wsp = THD_STATE_SUSPENDED"
    by (simp_all add: a sh)
qed

text \<open>Any thread that is ready may take the part of the idle thread.\<close>

lemma kmid_idle: "kmid S i stk T Q ts X s \<Longrightarrow> j \<in> insert (r_current s) (set (Q rlist)) \<Longrightarrow> kmid S j stk T Q ts X s"
  by (simp add: kmid_def current_wf_def)

lemma create_run:
  assumes "kok S idle stk T s" "wsp \<in> range At - S" "wsp \<notin> T" "0 < prio"
  shows "kok S idle stk (insert wsp T) (chThdCreateI wsp prio s)"
    "\<exists>s'. chThdCreateStatic wsp prio s = Some s' \<and> kok S idle stk (insert wsp T) s' \<and> kok S wsp stk (insert wsp T) s'"
proof -
  have new: "\<exists>Q ts. kmid S idle stk (insert wsp T) Q ts {} (chThdCreateI wsp prio r) \<and> counts S Q (chThdCreateI wsp prio r) \<and> (\<forall>t \<in> set ts. 0 < tm_in t) \<and>
      runs_top Q (chThdCreateI wsp prio r) \<and> wsp \<notin> queued (insert rlist S) Q \<and> wsp \<noteq> r_current (chThdCreateI wsp prio r)"
    if kr: "kok S idle stk T r" for r
  proof -
    obtain Q ts where k: "kmid S idle stk T Q ts {} r" "counts S Q r" "\<forall>t \<in> set ts. 0 < tm_in t" "runs_top Q r" using kr by (rule kokE)
    note c = create_mid [OF k(1) assms(2-4)] and m = kmid_facts [OF k(1)]
    have "p \<noteq> wsp" if "p \<in> set (Q rlist)" for p using m(4) assms(3) that by (auto simp: queued_simps)
    moreover have "r_current r \<noteq> wsp" using m(3) assms(3) by auto
    ultimately have "runs_top Q (chThdCreateI wsp prio r)" using k(4) c(2,4) by (simp add: runs_top_def)
    moreover have "counts S Q (chThdCreateI wsp prio r)" using k(2) c(3) by (simp add: counts_def)
    moreover have "wsp \<notin> queued (insert rlist S) Q" "wsp \<noteq> r_current (chThdCreateI wsp prio r)" using m(3,4) assms(3) c(2) by auto
    ultimately show ?thesis using c(1) k(3) by blast
  qed
  show "kok S idle stk (insert wsp T) (chThdCreateI wsp prio s)" using new [OF assms(1)] kokI by blast
  let ?s = "chThdCreateI wsp prio (chSysLock s)"
  obtain Q ts where k: "kmid S idle stk (insert wsp T) Q ts {} ?s" "counts S Q ?s" "\<forall>t \<in> set ts. 0 < tm_in t" "runs_top Q ?s"
    "wsp \<notin> queued (insert rlist S) Q" "wsp \<noteq> r_current ?s"
    using new [OF kok_lock [OF assms(1)]] by blast
  obtain s' Q' ts' where s': "chSchWakeupS wsp RDY_OK ?s = Some s'" "kmid S idle stk (insert wsp T) Q' ts' {} s'" "runs_top Q' s'" "kstays S Q ts ?s Q' ts' s'"
    "wsp \<in> insert (r_current s') (set (Q' rlist))"
    by (rule wakeupS_run [OF k(1) empty_subsetI insertI1 k(5,6,4)])
  have "kok S idle stk (insert wsp T) s'"
    by (rule kokI [OF s'(2) kstays_counts [OF s'(4) subset_refl k(2)] _ s'(3)]) (use k(3) s'(4) in \<open>auto simp: kstays_def\<close>)
  moreover have "kok S wsp stk (insert wsp T) s'"
    by (rule kokI [OF kmid_idle [OF s'(2,5)] kstays_counts [OF s'(4) subset_refl k(2)] _ s'(3)]) (use k(3) s'(4) in \<open>auto simp: kstays_def\<close>)
  ultimately show "\<exists>s'. chThdCreateStatic wsp prio s = Some s' \<and> kok S idle stk (insert wsp T) s' \<and> kok S wsp stk (insert wsp T) s'"
    using s'(1) kok_unlock by (simp add: chThdCreateStatic_def)
qed

lemma resume_run:
  assumes "kok S idle stk T s" "tp \<in> T" "p_state s tp = THD_STATE_SUSPENDED"
  shows "\<exists>s'. chThdResume tp s = Some s' \<and> kok S idle stk T s'"
proof -
  let ?s = "chSysLock s"
  obtain Q ts where k: "kmid S idle stk T Q ts {} ?s" "counts S Q ?s" "\<forall>t \<in> set ts. 0 < tm_in t" "runs_top Q ?s"
    using kok_lock [OF assms(1)] by (rule kokE)
  have st: "p_state ?s tp = THD_STATE_SUSPENDED" using assms(3) by (simp add: lock_simps)
  then have "tp \<notin> queued (insert rlist S) Q" "tp \<noteq> r_current ?s"
    using k(1) by (auto simp: kmid_def kqueues_def ready_wf_def waiters_wf_def queued_simps current_wf_def)
  then obtain s' Q' ts' where s': "chSchWakeupS tp RDY_OK ?s = Some s'" "kmid S idle stk T Q' ts' {} s'" "runs_top Q' s'" "kstays S Q ts ?s Q' ts' s'"
    "tp \<in> insert (r_current s') (set (Q' rlist))"
    by (rule wakeupS_run [OF k(1) empty_subsetI assms(2) _ _ k(4)])
  have "kok S idle stk T s'"
    by (rule kokI [OF s'(2) kstays_counts [OF s'(4) subset_refl k(2)] _ s'(3)]) (use k(3) s'(4) in \<open>auto simp: kstays_def\<close>)
  then show ?thesis using s'(1) kok_unlock by (simp add: chThdResume_def)
qed

lemma suspend_run:
  assumes "kok S idle stk T s" "r_current s \<noteq> idle"
  shows "kok S idle stk T (chSchGoSleepS st s)"
proof -
  obtain Q ts where k: "kmid S idle stk T Q ts {} s" "counts S Q s" "\<forall>t \<in> set ts. 0 < tm_in t" "runs_top Q s" using assms(1) by (rule kokE)
  show ?thesis
    by (rule sleep_kok [OF kq_sleep [OF k(1)] _ _ _ k(2,3)]) (use k(1) kmid_facts(8) [OF k(1)] assms(2) in \<open>auto simp: kmid_def\<close>)
qed

lemma set_priority_run:
  assumes "kok S idle stk T s" "0 < newprio"
  shows "\<exists>old s'. chThdSetPriority newprio s = Some (old, s') \<and> kok S idle stk T s'"
proof -
  let ?s = "chSysLock s" and ?c = "r_current (chSysLock s)"
  obtain Q ts where k: "kmid S idle stk T Q ts {} ?s" "counts S Q ?s" "\<forall>t \<in> set ts. 0 < tm_in t" "runs_top Q ?s"
    using kok_lock [OF assms(1)] by (rule kokE)
  note m = kmid_facts [OF k(1)]
  define s1 where "s1 = (if p_prio ?s ?c = p_realprio ?s ?c \<or> newprio > p_prio ?s ?c then ?s\<lparr>p_prio := (p_prio ?s)(?c := newprio)\<rparr> else ?s)"
  let ?s2 = "s1\<lparr>p_realprio := (p_realprio s1)(?c := newprio)\<rparr>"
  have pc: "p_ctx ?s ?c = Ctx_plain" using k(1) by (simp add: kmid_def current_wf_def)
  have c: "?c \<noteq> rlist" using m(2,3) by auto
  have "kqueues S Q ts {} ?s2"
    using pc c m(5,9) by (intro kq_frame [OF m(7), where n = ?c]) (auto simp: s1_def)
  moreover have pos: "0 < p_prio ?s2 p" if "p \<in> T" for p using m(6) that assms(2) by (auto simp: s1_def)
  moreover have "current_wf S idle Q ?s2" using k(1) pos [OF m(3)] by (auto simp: kmid_def current_wf_def s1_def split: if_splits)
  moreover have "threads_wf S stk T Q ts ?s2" using k(1) pos by (auto simp: kmid_def threads_wf_def s1_def)
  ultimately have "kmid S idle stk T Q ts {} ?s2" using k(1) by (simp add: kmid_def s1_def)
  then have "kpend S idle stk T ?s2" by (rule kpendI [OF _ _ k(3)]) (use k(2) in \<open>simp add: counts_def s1_def\<close>)
  from resched_kok [OF resched_S this TrueI] show ?thesis
    using kok_unlock by (fastforce simp: chThdSetPriority_def Let_def s1_def)
qed

lemma yield_run:
  assumes "kok S idle stk T s"
  shows "\<exists>s'. chThdYield s = Some s' \<and> kok S idle stk T s'"
  using resched_kok [OF resched_yield kok_pend [OF kok_lock [OF assms]] TrueI] kok_unlock by (fastforce simp: chThdYield_def)

text \<open>The queue of a new object.\<close>

lemma header_init_run:
  assumes "kmid S idle stk T Q ts {} s" "sp \<in> headers - S - T"
  shows "kmid (insert sp S) idle stk T (Q(sp := [])) ts {} ((queue_init sp s)\<lparr>s_cnt := cnt\<rparr>)"
proof -
  note k = assms(1) and m = kmid_facts [OF assms(1)] and kd = kmid_facts(7) [OF assms(1), unfolded kqueues_def]
  let ?s = "(queue_init sp s)\<lparr>s_cnt := cnt\<rparr>" and ?Q = "Q(sp := [])" and ?S = "insert sp S"
  have f: "p_next ?s = (p_next s)(sp := sp)" "p_prev ?s = (p_prev s)(sp := sp)"
    by (simp_all add: queue_init_def)
  have fr: "p_prio ?s = p_prio s" "p_ctx ?s = p_ctx s" "p_state ?s = p_state s" "p_u ?s = p_u s" "r_current ?s = r_current s" "l_next ?s = l_next s"
    "vt_next ?s = vt_next s" "vt_prev ?s = vt_prev s" "vt_time ?s = vt_time s" "vt_func ?s = vt_func s" "vt_par ?s = vt_par s"
    by (simp_all add: queue_init_def)
  have sp: "sp \<noteq> rlist" "sp \<notin> insert rlist S" "sp \<notin> queued (insert rlist S) Q" using assms(2) m(4) by auto
  have q: "queued (insert rlist ?S) ?Q = queued (insert rlist S) Q"
    using sp(2) by (auto simp: queued_def split: if_splits)
  have "dl (p_next ?s) (p_prev ?s) h (?Q h)" if h: "h \<in> insert rlist ?S" for h
  proof (cases "h = sp")
    case True then show ?thesis by (simp add: f)
  next
    case False
    then have "h \<in> insert rlist S" using h by auto
    then have d: "dl (p_next s) (p_prev s) h (Q h)" and n: "sp \<notin> set (h # Q h)" using kd queuesD sp(3) False by (blast, auto simp: queued_def)
    have "dl (p_next ?s) (p_prev ?s) h (Q h)" by (rule dl_cong [OF d]) (use n in \<open>auto simp: f\<close>)
    then show ?thesis using False by simp
  qed
  moreover have "set (h # ?Q h) \<inter> set (j # ?Q j) = {}" if "h \<in> insert rlist ?S" "j \<in> insert rlist ?S" "h \<noteq> j" for h j
  proof -
    have "sp \<notin> set (i # Q i)" if "i \<in> insert rlist S" for i using that sp by (auto simp: queued_def)
    moreover have "set (h # Q h) \<inter> set (j # Q j) = {}" if "h \<in> insert rlist S" "j \<in> insert rlist S" "h \<noteq> j" for h j
      using kd that unfolding queues_def by blast
    from this [of h j] show ?thesis using calculation that by (cases "h = sp"; cases "j = sp") auto
  qed
  ultimately have "queues (insert rlist ?S) ?Q ?s" by (auto simp: queues_def)
  moreover have "ready_wf ?Q ?s" "waiters_wf ?S ?Q ?s" using kd sp by (auto simp: ready_wf_def waiters_wf_def fr)
  moreover have "timers_wf ?S ?Q ts {} ?s"
  proof -
    have "waits ?S ?Q ?s p" if "waits S Q s p" "p \<in> T" for p using that assms(2) unfolding waits_def q fr by auto
    then show ?thesis using kd k timers_cong [OF fr(7-11), of ts] unfolding timers_wf_def fr kmid_def threads_wf_def by auto
  qed
  moreover have "addrs ?S ?Q" using kd assms(2) by (simp add: addrs_def q)
  ultimately have "kqueues ?S ?Q ts {} ?s" by (simp add: kqueues_def)
  moreover have "current_wf ?S idle ?Q ?s" using k m(3) sp(1) assms(2) by (auto simp: kmid_def current_wf_def fr)
  moreover have "threads_wf ?S stk T ?Q ts ?s" using k assms(2) unfolding kmid_def threads_wf_def q fr by blast
  ultimately show "kmid ?S idle stk T ?Q ts {} ?s" using k by (simp add: kmid_def fr)
qed

lemma sem_init_run:
  assumes "kok S idle stk T s" "sp \<in> range At - S - T" "0 \<le> n"
  shows "kok (insert sp S) idle stk T (chSemInit sp n s)"
proof -
  obtain Q ts where k: "kmid S idle stk T Q ts {} s" "counts S Q s" "\<forall>t \<in> set ts. 0 < tm_in t" "runs_top Q s" using assms(1) by (rule kokE)
  have e: "chSemInit sp n s = (queue_init sp s)\<lparr>s_cnt := (s_cnt s)(sp := n)\<rparr>" by (simp add: chSemInit_def queue_init_def)
  have sp: "sp \<in> headers - S - T" using assms(2) by blast
  show ?thesis unfolding e
    by (rule kokI [OF header_init_run [OF k(1) sp] _ k(3)]) (use k(2,4) assms in \<open>auto simp: counts_def runs_top_def queue_init_def\<close>)
qed

section \<open>The start\<close>

lemma kok_start:
  assumes "main = At a" "0 < prio" "l_next s alt_alarm_list = alt_alarm_list" "\<forall>p. p_ctx s p = Ctx_plain"
    "s' = (thread_init main prio (vt_init (scheduler_init s)))\<lparr>r_current := main\<rparr>"
  shows "kok {} main stk {main} (s'\<lparr>p_state := (p_state s')(main := THD_STATE_CURRENT)\<rparr>)"
proof (rule kokI)
  let ?s = "s'\<lparr>p_state := (p_state s')(main := THD_STATE_CURRENT)\<rparr>"
  have f: "p_next ?s rlist = rlist" "p_prev ?s rlist = rlist" "vt_next ?s vtlist = vtlist" "vt_prev ?s vtlist = vtlist" "vt_time ?s vtlist = - 1"
    "p_prio ?s rlist = 0" "p_prio ?s main = prio" "p_ctx ?s = p_ctx s" "l_next ?s = l_next s" "r_current ?s = main"
    using assms(1) by (simp_all add: assms(5) thread_init_def REG_INSERT_def list_init_def queue_init_def scheduler_init_def vt_init_def NOPRIO_def Let_def)
  have "kqueues {} (\<lambda>_. []) [] {} ?s"
    using f assms(4) by (simp add: kqueues_def addrs_def queued_def queues_def ready_wf_def waiters_wf_def timers_wf_def timers_are_def)
  then show "kmid {} main stk {main} (\<lambda>_. []) [] {} ?s"
    using f assms by (simp add: kmid_def current_wf_def threads_wf_def queued_def)
qed (simp_all add: counts_def runs_top_def)

lemma init_run:
  assumes "mainthread = At a" "idle = At b" "a \<noteq> b" "l_next s alt_alarm_list = alt_alarm_list" "\<forall>p. p_ctx s p = Ctx_plain"
  shows "\<exists>s'. chSysInit mainthread idle name s = Some s' \<and> kok {} idle stk {mainthread, idle} s'"
proof -
  define s' where "s' = (thread_init mainthread NORMALPRIO (vt_init (scheduler_init s)))\<lparr>r_current := mainthread\<rparr>"
  let ?s3 = "s'\<lparr>p_state := (p_state s')(mainthread := THD_STATE_CURRENT)\<rparr>"
  have "0 < NORMALPRIO" by (simp add: NORMALPRIO_def)
  then have k: "kok {} mainthread stk {mainthread} ?s3" using kok_start [OF assms(1) _ assms(4,5) s'_def] by blast
  let ?s4 = "chRegSetThreadName name (chSysEnable ?s3)"
  have "kok {} mainthread stk {mainthread} ?s4"
    using k
  proof (rule kokE)
    fix Q ts assume k3: "kmid {} mainthread stk {mainthread} Q ts {} ?s3" "counts {} Q ?s3" "\<forall>t \<in> set ts. 0 < tm_in t" "runs_top Q ?s3"
    have fr: "?s4 = ?s3\<lparr>status := PIE_MSK, p_name := (p_name ?s3)(r_current ?s3 := name)\<rparr>"
      by (simp add: chRegSetThreadName_def chSysEnable_def alt_irq_enable_all_def)
    have "kmid {} mainthread stk {mainthread} Q ts {} ?s4" by (rule kmid_cong [OF k3(1)]) (simp_all add: fr)
    then show ?thesis by (rule kokI [OF _ _ k3(3)]) (use k3(4) in \<open>simp_all add: fr counts_def runs_top_def\<close>)
  qed
  from create_run(2) [OF this, of idle IDLEPRIO] assms(1-3)
  obtain s5 where "chThdCreateStatic idle IDLEPRIO ?s4 = Some s5" "kok {} idle stk (insert idle {mainthread}) s5"
    by (auto simp: IDLEPRIO_def)
  moreover have "chSysInit mainthread idle name s = chThdCreateStatic idle IDLEPRIO ?s4"
    by (simp add: chSysInit_def s'_def Let_def)
  ultimately show ?thesis by (simp add: insert_commute)
qed

end
