(* ===== verification/Ch_Timing.thy ===== *)
theory Ch_Timing
  imports Ch_Kernel
begin

text \<open>
  Timeouts are on time: a thread that is suspended for a number of ticks becomes ready at the clock interrupt
  of that number, and not before.
\<close>

definition clock_interrupt :: "kern callbacks \<Rightarrow> (u32 \<Rightarrow> ptr \<Rightarrow> kern \<Rightarrow> kern option) \<Rightarrow> kern \<Rightarrow> kern option" where
  "clock_interrupt call app s = Option.bind (alt_avalon_timer_sc_irq call app s) ALT_OS_INT_EXIT"

primrec clocks :: "kern callbacks \<Rightarrow> (u32 \<Rightarrow> ptr \<Rightarrow> kern \<Rightarrow> kern option) \<Rightarrow> nat \<Rightarrow> kern \<Rightarrow> kern option" where
  "clocks call app 0 s = Some s"
| "clocks call app (Suc n) s = Option.bind (clock_interrupt call app s) (clocks call app n)"

text \<open>A thread has one timer at most.\<close>

lemma own_timer:
  assumes "timers_wf S Q ts X s" "t \<in> set ts" "r \<in> set ts" "tm_par t = tm_par r"
  shows "t = r"
proof -
  have "distinct (map tm_at ts)" using assms(1) dl_distinct by (fastforce simp: timers_wf_def timers_are_def)
  moreover have "tm_at t = tm_at r" using assms unfolding timers_wf_def by (metis ctx.inject)
  ultimately show ?thesis using assms(2,3) by (simp add: distinct_map inj_on_def)
qed

lemma left_or_ended:
  assumes "t \<in> set ts"
  shows "nearer t \<in> set (left ts) \<or> tm_par t \<in> set (ended ts) \<and> tm_in t \<le> 1"
proof -
  have "nearer t \<in> set (takeWhile (\<lambda>t. tm_in t = 0) (map nearer ts) @ dropWhile (\<lambda>t. tm_in t = 0) (map nearer ts))"
    using assms by simp
  then have "nearer t \<in> set (takeWhile (\<lambda>t. tm_in t = 0) (map nearer ts)) \<or> nearer t \<in> set (left ts)"
    unfolding set_append left_def by blast
  moreover have "tm_par t \<in> set (ended ts) \<and> tm_in t \<le> 1" if "nearer t \<in> set (takeWhile (\<lambda>t. tm_in t = 0) (map nearer ts))"
    using imageI [OF that, of tm_par] set_takeWhileD [OF that] by (auto simp: ended_def)
  ultimately show ?thesis by blast
qed

lemma ended_timer: "p \<in> set (ended ts) \<Longrightarrow> \<exists>t \<in> set ts. tm_par t = p \<and> tm_in t \<le> 1"
  by (fastforce simp: ended_def dest!: set_takeWhileD)

text \<open>A state of a thread that is neither ready nor running.\<close>

lemma pending_state:
  assumes "kmid S idle stk T Q ts {} s" "p \<notin> insert (r_current s) (set (Q rlist))" "t \<in> set ts" "tm_par t = p"
  shows "p_state s p \<notin> {THD_STATE_READY, THD_STATE_CURRENT}"
proof -
  have k: "waiters_wf S Q s" "waits S Q s p"
    using assms by (auto simp: kmid_def kqueues_def timers_wf_def)
  then show ?thesis using assms(2) by (auto simp: waits_def waiters_wf_def queued_simps)
qed

lemma ready_states:
  assumes "kmid S idle stk T Q ts X s" "p \<in> insert (r_current s) (set (Q rlist))"
  shows "p_state s p \<in> {THD_STATE_READY, THD_STATE_CURRENT}"
  using assms by (auto simp: kmid_def kqueues_def ready_wf_def current_wf_def)

text \<open>One clock interrupt.\<close>

lemma clock_step:
  assumes "pending S idle stk T p d s"
  shows "\<exists>s'. clock_interrupt call app s = Some s' \<and>
    (if 1 < d then pending S idle stk T p (d - 1) s' \<and> p_state s' p = p_state s p
     else kok S idle stk T s' \<and> p_state s' p \<in> {THD_STATE_READY, THD_STATE_CURRENT} \<and> p_u s' p = Rdymsg RDY_TIMEOUT)"
proof -
  obtain Q ts t where k: "kmid S idle stk T Q ts {} s" "counts S Q s" "\<forall>t \<in> set ts. 0 < tm_in t"
      "p \<notin> insert (r_current s) (set (Q rlist))" and t: "t \<in> set ts" "tm_par t = p" "tm_in t = d"
    using assms unfolding pending_def kinv_def by blast
  obtain s1 Q1 where s1: "alt_avalon_timer_sc_irq call app s = Some s1" "kmid S idle stk T Q1 (left ts) {} s1" "counts S Q1 s1"
    "\<forall>t \<in> set (left ts). 0 < tm_in t" "woken (p_state s) (p_u s) (ended ts) s1" "r_current s1 = r_current s"
    "\<forall>sp \<in> S. Q1 sp = filter (\<lambda>q. q \<notin> set (ended ts)) (Q sp)" "set (Q1 rlist) = set (Q rlist) \<union> set (ended ts)"
    by (rule clock_run [OF k(1-3)])
  obtain s2 Q2 ts2 where s2: "ALT_OS_INT_EXIT s1 = Some s2" "kmid S idle stk T Q2 ts2 {} s2" "runs_top Q2 s2" "kstays S Q1 (left ts) s1 Q2 ts2 s2"
    "kswaps Q1 (left ts) s1 Q2 ts2 s2"
    by (rule reschedulesD [OF resched_exit s1(2) TrueI])
  have run: "clock_interrupt call app s = Some s2" using s1(1) s2(1) by (simp add: clock_interrupt_def)
  have c2: "counts S Q2 s2" "\<forall>t \<in> set ts2. 0 < tm_in t" using kstays_counts [OF s2(4) subset_refl s1(3)] s1(4) s2(4) by (auto simp: kstays_def)
  have st: "p_state s p \<notin> {THD_STATE_READY, THD_STATE_CURRENT}" by (rule pending_state [OF k(1,4) t(1,2)])
  have wf: "timers_wf S Q ts {} s" using k(1) by (simp add: kmid_def kqueues_def)
  show ?thesis
  proof (cases "1 < d")
    case True
    have ne: "p \<notin> set (ended ts)"
    proof
      assume "p \<in> set (ended ts)"
      then obtain r where "r \<in> set ts" "tm_par r = p" "tm_in r \<le> 1" using ended_timer by blast
      then show False using own_timer [OF wf t(1), of r] t True by simp
    qed
    then have p1: "p_state s1 p = p_state s p" "nearer t \<in> set (left ts)" using s1(5) left_or_ended [OF t(1)] t(2) by (auto simp: woken_def)
    have out: "p \<notin> insert (r_current s1) (set (Q1 rlist))" using ready_states [OF s1(2), of p] st p1(1) by auto
    then have p2: "p \<notin> insert (r_current s2) (set (Q2 rlist))" "p_state s2 p = p_state s p" "nearer t \<in> set ts2"
      using s2(5) p1 t(2) unfolding kswaps_def by (metis, metis, metis at_nearer(3))
    have "\<exists>u \<in> set ts2. tm_par u = p \<and> tm_in u = d - 1" using p2(3) t by (intro bexI [of _ "nearer t"]) simp_all
    then have "pending S idle stk T p (d - 1) s2" using s2(2,3) c2 p2(1) unfolding pending_def kinv_def by blast
    then show ?thesis using run True p2(2) by simp
  next
    case False
    have "p \<in> set (ended ts)" using left_or_ended [OF t(1)] s1(4) t False by auto
    then have p1: "p_state s1 p = THD_STATE_READY" "p_u s1 p = Rdymsg RDY_TIMEOUT" using s1(5) st by (auto simp: woken_def)
    have "p_state s2 p \<in> {THD_STATE_READY, THD_STATE_CURRENT}" "p_u s2 p = Rdymsg RDY_TIMEOUT"
      using s2(5) p1 ready_states [OF s2(2), of p] unfolding kswaps_def by (metis insert_iff, metis)
    then show ?thesis using run False kokI [OF s2(2) c2 s2(3)] by simp
  qed
qed

lemma clock_steps:
  assumes "pending S idle stk T p d s" "0 < d"
  shows "k < d \<Longrightarrow> \<exists>s'. clocks call app k s = Some s' \<and> pending S idle stk T p (d - k) s' \<and> p_state s' p = p_state s p"
    "\<exists>s'. clocks call app d s = Some s' \<and> kok S idle stk T s' \<and> p_state s' p \<in> {THD_STATE_READY, THD_STATE_CURRENT} \<and> p_u s' p = Rdymsg RDY_TIMEOUT"
proof -
  show "\<exists>s'. clocks call app k s = Some s' \<and> pending S idle stk T p (d - k) s' \<and> p_state s' p = p_state s p" if "k < d"
    using assms(1) that
  proof (induction k arbitrary: s d)
    case (Suc k)
    then obtain s1 where "clock_interrupt call app s = Some s1" "pending S idle stk T p (d - 1) s1" "p_state s1 p = p_state s p"
      using clock_step [OF Suc.prems(1), of call app] by auto
    then show ?case using Suc.IH [of "d - 1" s1] Suc.prems(2) by auto
  qed simp
  show "\<exists>s'. clocks call app d s = Some s' \<and> kok S idle stk T s' \<and> p_state s' p \<in> {THD_STATE_READY, THD_STATE_CURRENT} \<and> p_u s' p = Rdymsg RDY_TIMEOUT"
    using assms
  proof (induction d arbitrary: s)
    case (Suc d)
    show ?case
    proof (cases "d = 0")
      case True
      then show ?thesis using clock_step [OF Suc.prems(1), of call app] by auto
    next
      case False
      then obtain s1 where "clock_interrupt call app s = Some s1" "pending S idle stk T p d s1"
        using clock_step [OF Suc.prems(1), of call app] by auto
      then show ?thesis using Suc.IH [of s1] False by auto
    qed
  qed simp
qed

end
