(* ===== verification/Ch_Machine.thy ===== *)
theory Ch_Machine
  imports Ch_Timing
begin

text \<open>
  The kernel as a state machine.  A step is a call of the running thread, the clock interrupt, or another
  interrupt that uses a semaphore; \<open>S\<close> and \<open>T\<close> are the semaphores and the threads that have been created.
  What a caller has to respect is \<open>kallowed\<close>: semaphores and threads are initialised once and before they are
  used, priorities are not zero, the idle thread does not wait, and the timer of a wait lies on the stack of the
  thread that waits.
\<close>

section \<open>Steps\<close>

datatype kcall =
    Sem_init ptr int | Sem_wait ptr | Sem_wait_timeout ptr u32 ptr | Sem_signal ptr | Sem_reset ptr int | Sem_signal_wait ptr ptr
  | Thd_create ptr u32 | Thd_create_suspended ptr u32 | Thd_set_priority u32 | Thd_suspend | Thd_resume ptr
  | Thd_sleep u32 ptr | Thd_sleep_until u32 ptr | Thd_yield
  | Clock | Irq_signal ptr | Irq_add ptr int | Irq_reset ptr int

fun kexec :: "kern callbacks \<Rightarrow> (u32 \<Rightarrow> ptr \<Rightarrow> kern \<Rightarrow> kern option) \<Rightarrow> kcall \<Rightarrow> kern \<Rightarrow> kern option" where
  "kexec call app (Sem_init sp n) s = Some (chSemInit sp n s)"
| "kexec call app (Sem_wait sp) s = Some (snd (chSemWait sp s))"
| "kexec call app (Sem_wait_timeout sp time vt) s = map_option snd (chSemWaitTimeout sp time vt s)"
| "kexec call app (Sem_signal sp) s = chSemSignal sp s"
| "kexec call app (Sem_reset sp n) s = chSemReset sp n s"
| "kexec call app (Sem_signal_wait sps spw) s = map_option snd (chSemSignalWait sps spw s)"
| "kexec call app (Thd_create wsp prio) s = chThdCreateStatic wsp prio s"
| "kexec call app (Thd_create_suspended wsp prio) s = Some (chSysUnlock (chThdCreateI wsp prio (chSysLock s)))"
| "kexec call app (Thd_set_priority newprio) s = map_option snd (chThdSetPriority newprio s)"
| "kexec call app Thd_suspend s = Some (chSysUnlock (chSchGoSleepS THD_STATE_SUSPENDED (chSysLock s)))"
| "kexec call app (Thd_resume tp) s = chThdResume tp s"
| "kexec call app (Thd_sleep time vt) s = chThdSleep time vt s"
| "kexec call app (Thd_sleep_until time vt) s = chThdSleepUntil time vt s"
| "kexec call app Thd_yield s = chThdYield s"
| "kexec call app Clock s = clock_interrupt call app s"
| "kexec call app (Irq_signal sp) s = Option.bind (chSemSignalI sp s) ALT_OS_INT_EXIT"
| "kexec call app (Irq_add sp n) s = Option.bind (chSemAddCounterI sp n s) ALT_OS_INT_EXIT"
| "kexec call app (Irq_reset sp n) s = Option.bind (chSemResetI sp n s) ALT_OS_INT_EXIT"

fun kallowed :: "ptr \<Rightarrow> (ptr \<Rightarrow> ptr set) \<Rightarrow> ptr set \<Rightarrow> ptr set \<Rightarrow> kern \<Rightarrow> kcall \<Rightarrow> bool" where
  "kallowed idle stk S T s (Sem_init sp n) \<longleftrightarrow> sp \<in> range At - S - T \<and> 0 \<le> n"
| "kallowed idle stk S T s (Sem_wait sp) \<longleftrightarrow> sp \<in> sems S \<and> r_current s \<noteq> idle"
| "kallowed idle stk S T s (Sem_wait_timeout sp time vt) \<longleftrightarrow> sp \<in> sems S \<and> r_current s \<noteq> idle \<and> vt \<in> stk (r_current s)"
| "kallowed idle stk S T s (Sem_signal sp) \<longleftrightarrow> sp \<in> sems S"
| "kallowed idle stk S T s (Sem_reset sp n) \<longleftrightarrow> sp \<in> sems S \<and> 0 \<le> n"
| "kallowed idle stk S T s (Sem_signal_wait sps spw) \<longleftrightarrow> sps \<in> sems S \<and> spw \<in> sems S \<and> r_current s \<noteq> idle"
| "kallowed idle stk S T s (Thd_create wsp prio) \<longleftrightarrow> wsp \<in> range At - S - T \<and> 0 < prio"
| "kallowed idle stk S T s (Thd_create_suspended wsp prio) \<longleftrightarrow> wsp \<in> range At - S - T \<and> 0 < prio"
| "kallowed idle stk S T s (Thd_set_priority newprio) \<longleftrightarrow> 0 < newprio"
| "kallowed idle stk S T s Thd_suspend \<longleftrightarrow> r_current s \<noteq> idle"
| "kallowed idle stk S T s (Thd_resume tp) \<longleftrightarrow> tp \<in> T \<and> p_state s tp = THD_STATE_SUSPENDED"
| "kallowed idle stk S T s (Thd_sleep time vt) \<longleftrightarrow> 0 < time \<and> r_current s \<noteq> idle \<and> vt \<in> stk (r_current s)"
| "kallowed idle stk S T s (Thd_sleep_until time vt) \<longleftrightarrow> r_current s \<noteq> idle \<and> vt \<in> stk (r_current s)"
| "kallowed idle stk S T s Thd_yield \<longleftrightarrow> True"
| "kallowed idle stk S T s Clock \<longleftrightarrow> True"
| "kallowed idle stk S T s (Irq_signal sp) \<longleftrightarrow> sp \<in> sems S"
| "kallowed idle stk S T s (Irq_add sp n) \<longleftrightarrow> sp \<in> sems S \<and> 0 < n"
| "kallowed idle stk S T s (Irq_reset sp n) \<longleftrightarrow> sp \<in> sems S \<and> 0 \<le> n"

fun sems_after :: "kcall \<Rightarrow> ptr set \<Rightarrow> ptr set" where
  "sems_after (Sem_init sp n) S = insert sp S"
| "sems_after c S = S"

fun threads_after :: "kcall \<Rightarrow> ptr set \<Rightarrow> ptr set" where
  "threads_after (Thd_create wsp prio) T = insert wsp T"
| "threads_after (Thd_create_suspended wsp prio) T = insert wsp T"
| "threads_after c T = T"

text \<open>The states that the kernel reaches from its start in the state \<open>s0\<close>, before which no alarm was set.\<close>

inductive kreach for call app mainthread idle name stk s0 where
  start: "chSysInit mainthread idle name s0 = Some s \<Longrightarrow> kreach call app mainthread idle name stk s0 {} {mainthread, idle} s"
| step: "kreach call app mainthread idle name stk s0 S T s \<Longrightarrow> kallowed idle stk S T s c \<Longrightarrow> kexec call app c s = Some s' \<Longrightarrow>
    kreach call app mainthread idle name stk s0 (sems_after c S) (threads_after c T) s'"

section \<open>Every step returns and keeps the invariant\<close>

lemma irq_kok:
  assumes "\<exists>s'. f s = Some s' \<and> kpend S idle stk T s'"
  shows "\<exists>s'. Option.bind (f s) ALT_OS_INT_EXIT = Some s' \<and> kok S idle stk T s'"
proof -
  obtain s1 where s1: "f s = Some s1" "kpend S idle stk T s1" using assms by blast
  from resched_kok [OF resched_exit s1(2) TrueI] show ?thesis using s1(1) by auto
qed

lemma kstep:
  assumes "kok S idle stk T s" "kallowed idle stk S T s c" "stacks stk"
  shows "\<exists>s'. kexec call app c s = Some s' \<and> kok (sems_after c S) idle stk (threads_after c T) s'"
proof (cases c)
  case (Sem_wait_timeout sp time vt)
  then show ?thesis using wait_timeout_run [OF assms(1) _ _ _ assms(3), of sp vt time] assms(2) by fastforce
next
  case (Sem_signal_wait sps spw)
  then show ?thesis using signal_wait_run [OF assms(1), of sps spw] assms(2) by fastforce
next
  case (Thd_create wsp prio)
  then show ?thesis using create_run(2) [OF assms(1), of wsp prio] assms(2) by auto
next
  case (Thd_create_suspended wsp prio)
  then show ?thesis using create_run(1) [OF kok_lock [OF assms(1)], of wsp prio] assms(2) by (auto intro: kok_unlock)
next
  case (Thd_set_priority newprio)
  then show ?thesis using set_priority_run [OF assms(1), of newprio] assms(2) by fastforce
next
  case Thd_suspend
  have "r_current (chSysLock s) = r_current s" by (simp add: lock_simps)
  then show ?thesis using Thd_suspend suspend_run [OF kok_lock [OF assms(1)]] assms(2) by (auto intro: kok_unlock)
next
  case (Thd_sleep time vt)
  then show ?thesis using thd_sleep_run(1) [OF assms(1) _ _ assms(3), of vt time] assms(2) by (auto simp: word_gt_0)
next
  case (Thd_sleep_until time vt)
  then show ?thesis using thd_sleep_run(2) [OF assms(1) _ _ assms(3), of vt time] assms(2) by auto
next
  case Clock
  then show ?thesis using irq_kok [of "alt_avalon_timer_sc_irq call app" s] clock_pend [OF kok_pend [OF assms(1)], of call app] by (simp add: clock_interrupt_def)
next
  case (Irq_signal sp)
  then have "\<exists>s'. chSemSignalI sp s = Some s' \<and> kpend S idle stk T s'" using sem_add_one_run(2) [OF kok_pend [OF assms(1)], of sp] assms(2) by auto
  then show ?thesis using Irq_signal irq_kok [of "chSemSignalI sp" s] by simp
next
  case (Irq_add sp n)
  then have "\<exists>s'. chSemAddCounterI sp n s = Some s' \<and> kpend S idle stk T s'"
    using sem_add_run [OF kok_pend [OF assms(1)], of sp "nat n"] assms(2) by (simp add: chSemAddCounterI_def)
  then show ?thesis using Irq_add irq_kok [of "chSemAddCounterI sp n" s] by simp
next
  case (Irq_reset sp n)
  then have "\<exists>s'. chSemResetI sp n s = Some s' \<and> kpend S idle stk T s'" using resetI_run [OF kok_pend [OF assms(1)], of sp n] assms(2) by simp
  then show ?thesis using Irq_reset irq_kok [of "chSemResetI sp n" s] by simp
qed (use assms wait_run sig_run sem_init_run reset_call_run resume_run yield_run in auto)

text \<open>
  The start: the two threads are at different addresses, stacks do not overlap, no alarm of the HAL is set and no thread
  has run.
\<close>

definition kboot :: "ptr \<Rightarrow> ptr \<Rightarrow> (ptr \<Rightarrow> ptr set) \<Rightarrow> kern \<Rightarrow> bool" where
  "kboot mainthread idle stk s0 \<longleftrightarrow> mainthread \<in> range At \<and> idle \<in> range At \<and> mainthread \<noteq> idle \<and> stacks stk \<and>
     l_next s0 alt_alarm_list = alt_alarm_list \<and> (\<forall>p. p_ctx s0 p = Ctx_plain)"

lemma boot_kok:
  assumes "kboot mainthread idle stk s0"
  shows "\<exists>s. chSysInit mainthread idle name s0 = Some s \<and> kok {} idle stk {mainthread, idle} s"
proof -
  obtain a b where "mainthread = At a" "idle = At b" "a \<noteq> b" using assms by (auto simp: kboot_def)
  then show ?thesis using init_run [of mainthread a idle b s0 name stk] assms by (simp add: kboot_def)
qed

lemma kreach_kok:
  assumes "kreach call app mainthread idle name stk s0 S T s" "kboot mainthread idle stk s0"
  shows "kok S idle stk T s"
  using assms(1)
proof (induction rule: kreach.induct)
  case (start s)
  then show ?case using boot_kok [OF assms(2), of name] by auto
next
  case (step S T s c s')
  have "stacks stk" using assms(2) by (simp add: kboot_def)
  then show ?case using kstep [OF step.IH step.hyps(2), of call app] step.hyps(3) by auto
qed

section \<open>Properties\<close>


text \<open>A start at two addresses, with a stack of one word for each thread.\<close>

definition boot_state :: kern where
  "boot_state = \<lparr>status = 0, alt_tick_rate = 1000, alt_nticks_var = 0, l_next = (\<lambda>p. p), l_prev = (\<lambda>p. p), a_time = (\<lambda>_. 0),
     a_callback = (\<lambda>_. 0), a_rollover = (\<lambda>_. 0), a_context = (\<lambda>_. 0), vt_next = (\<lambda>_. Null), vt_prev = (\<lambda>_. Null), vt_time = (\<lambda>_. 0),
     vt_func = (\<lambda>_. No_func), vt_par = (\<lambda>_. Null), vt_systime = 0, p_next = (\<lambda>_. Null), p_prev = (\<lambda>_. Null), p_prio = (\<lambda>_. 0),
     p_ctx = (\<lambda>_. Ctx_plain), p_state = (\<lambda>_. THD_STATE_READY), p_preempt = (\<lambda>_. 0), p_time = (\<lambda>_. 0), p_u = (\<lambda>_. Rdymsg 0),
     p_realprio = (\<lambda>_. 0), p_mtxlist = (\<lambda>_. Null), p_epending = (\<lambda>_. 0), p_flags = (\<lambda>_. 0), p_refs = (\<lambda>_. 0), p_name = (\<lambda>_. Null),
     p_newer = (\<lambda>_. Null), p_older = (\<lambda>_. Null), r_current = Null, s_cnt = (\<lambda>_. 0), timer_to = False\<rparr>"

definition boot_stacks :: "ptr \<Rightarrow> ptr set" where
  "boot_stacks p = (case p of At a \<Rightarrow> {At (a + 64)} | _ \<Rightarrow> {})"

lemma boot_ok: "kboot (At 4096) (At 8192) boot_stacks boot_state"
  by (auto simp: kboot_def stacks_def boot_stacks_def boot_state_def split: ptr.splits)

lemma boot_main: "map_option r_current (chSysInit (At 4096) (At 8192) (At 16) boot_state) = Some (At 4096)"
  by (simp add: chSysInit_def chThdCreateStatic_def chThdCreateI_def chSchWakeupS_def chSchReadyI_def tq_seek.simps [of _ _ rlist]
    insert_before_def thread_init_def REG_INSERT_def list_init_def queue_init_def scheduler_init_def vt_init_def chRegSetThreadName_def
    chSysEnable_def alt_irq_enable_all_def lock_simps boot_state_def NOPRIO_def NORMALPRIO_def IDLEPRIO_def Let_def)

lemma boot_reach:
  obtains s where "chSysInit (At 4096) (At 8192) (At 16) boot_state = Some s" "r_current s = At 4096"
    "kreach call app (At 4096) (At 8192) (At 16) boot_stacks boot_state {} {At 4096, At 8192} s"
  using boot_main boot_kok [OF boot_ok, of "At 16"] kreach.start by fastforce


text \<open>
  C16. Timeouts are on time: a thread that calls \<^verbatim>\<open>chThdSleep\<close>, in any state the kernel reaches, sleeps through every clock interrupt
  but the last of those it asked for, and at that one it becomes ready, or runs at once, with the message of a timeout.  The same
  holds of a wait on a semaphore whose counter is not positive, as long as nobody signals it.
\<close>

theorem timeout_on_time:
  assumes "kreach call app mainthread idle name stk s0 S T s" "kboot mainthread idle stk s0" "0 < time" "time \<noteq> TIME_INFINITE"
    "r_current s \<noteq> idle" "vt \<in> stk (r_current s)"
    "m = Thd_sleep time vt \<and> st = THD_STATE_SLEEPING \<or>
     m = Sem_wait_timeout sp time vt \<and> sp \<in> sems S \<and> s_cnt s sp \<le> 0 \<and> st = THD_STATE_WTSEM"
  shows "\<exists>s1. kexec call app m s = Some s1 \<and>
    (\<forall>k < unat time. \<exists>s'. clocks call app k s1 = Some s' \<and> p_state s' (r_current s) = st) \<and>
    (\<exists>s'. clocks call app (unat time) s1 = Some s' \<and> p_state s' (r_current s) \<in> {THD_STATE_READY, THD_STATE_CURRENT} \<and>
       p_u s' (r_current s) = Rdymsg RDY_TIMEOUT)"
proof -
  have k: "kok S idle stk T s" by (rule kreach_kok [OF assms(1,2)])
  have stk: "stacks stk" using assms(2) by (simp add: kboot_def)
  have "time \<noteq> 0" using assms(3) by (simp add: word_gt_0)
  then have "\<exists>s1. kexec call app m s = Some s1 \<and> pending S idle stk T (r_current s) (unat time) s1 \<and> p_state s1 (r_current s) = st"
    using thd_sleep_run(1) [OF k assms(5,6) stk, of time] wait_timeout_run [OF k _ assms(5,6) stk, of sp time] assms(4,7) by fastforce
  then obtain s1 where s1: "kexec call app m s = Some s1" "pending S idle stk T (r_current s) (unat time) s1" "p_state s1 (r_current s) = st" by blast
  have "0 < unat time" using \<open>time \<noteq> 0\<close> by (simp add: unat_gt_0)
  from clock_steps [OF s1(2) this, where call = call and app = app] s1(1,3) show ?thesis by blast
qed

theorem timeout_on_time_witness:
  "\<exists>s1 s2 s3. chSysInit (At 4096) (At 8192) (At 16) boot_state = Some s1 \<and>
     kexec (\<lambda>_ _ _. None) (\<lambda>_ _ _. None) (Sem_init (At 512) 0) s1 = Some s2 \<and>
     kexec (\<lambda>_ _ _. None) (\<lambda>_ _ _. None) (Sem_wait_timeout (At 512) 5 (At 4160)) s2 = Some s3 \<and>
     (\<exists>s4. clocks (\<lambda>_ _ _. None) (\<lambda>_ _ _. None) 4 s3 = Some s4 \<and> p_state s4 (At 4096) = THD_STATE_WTSEM) \<and>
     (\<exists>s5. clocks (\<lambda>_ _ _. None) (\<lambda>_ _ _. None) 5 s3 = Some s5 \<and> p_u s5 (At 4096) = Rdymsg RDY_TIMEOUT)"
proof -
  obtain s1 where s1: "chSysInit (At 4096) (At 8192) (At 16) boot_state = Some s1" "r_current s1 = At 4096"
      "kreach (\<lambda>_ _ _. None) (\<lambda>_ _ _. None) (At 4096) (At 8192) (At 16) boot_stacks boot_state {} {At 4096, At 8192} s1"
    by (rule boot_reach)
  let ?s2 = "chSemInit (At 512) 0 s1"
  have s2: "kexec (\<lambda>_ _ _. None) (\<lambda>_ _ _. None) (Sem_init (At 512) 0) s1 = Some ?s2" by simp
  have "kallowed (At 8192) boot_stacks {} {At 4096, At 8192} s1 (Sem_init (At 512) 0)" by simp
  from kreach.step [OF s1(3) this s2]
  have r: "kreach (\<lambda>_ _ _. None) (\<lambda>_ _ _. None) (At 4096) (At 8192) (At 16) boot_stacks boot_state {At 512} {At 4096, At 8192} ?s2" by simp
  have c: "r_current ?s2 = At 4096" "s_cnt ?s2 (At 512) = 0" using s1(2) by (simp_all add: chSemInit_def queue_init_def Let_def)
  have t: "unat (5 :: u32) = 5" "(4 :: nat) < 5" by simp_all
  have "(0 :: u32) < 5" "(5 :: u32) \<noteq> TIME_INFINITE" "r_current ?s2 \<noteq> At 8192" "At 4160 \<in> boot_stacks (r_current ?s2)"
    using c(1) by (simp_all add: boot_stacks_def TIME_INFINITE_def)
  from timeout_on_time [OF r boot_ok this, of "Sem_wait_timeout (At 512) 5 (At 4160)" THD_STATE_WTSEM "At 512"] c
  obtain s3 where "kexec (\<lambda>_ _ _. None) (\<lambda>_ _ _. None) (Sem_wait_timeout (At 512) 5 (At 4160)) ?s2 = Some s3"
    "\<forall>k < 5. \<exists>s'. clocks (\<lambda>_ _ _. None) (\<lambda>_ _ _. None) k s3 = Some s' \<and> p_state s' (At 4096) = THD_STATE_WTSEM"
    "\<exists>s'. clocks (\<lambda>_ _ _. None) (\<lambda>_ _ _. None) 5 s3 = Some s' \<and> p_u s' (At 4096) = Rdymsg RDY_TIMEOUT" unfolding t(1) by auto
  then show ?thesis using s1(1) s2 t(2) by blast
qed

section \<open>Priority zero\<close>

text \<open>A thread of priority zero cannot be made ready: the search passes the header of the ready list and never ends.\<close>

lemma seek_forever: "(\<And>p. go p) \<Longrightarrow> tq_seek go nx cp = None"
proof -
  assume go: "\<And>p. go p"
  have "tq_seek g n c = Some r \<Longrightarrow> g = go \<Longrightarrow> False" for g n c r
    by (rule tq_seek.raw_induct [where P = "\<lambda>g n c r. g = go \<longrightarrow> False", rule_format]) (use go in \<open>auto simp: Let_def split: if_splits\<close>)
  then show ?thesis by fastforce
qed

lemma prio_zero_never_ready: "p_prio s tp = 0 \<Longrightarrow> chSchReadyI tp s = None"
  by (simp add: chSchReadyI_def seek_forever)

end
