(* ===== verification/Ch_Mem.thy ===== *)
theory Ch_Mem
  imports Ch_Schd
begin

text \<open>
  The memory core and the memory pools of the kernel (\<^verbatim>\<open>chmemcore.c\<close>, \<^verbatim>\<open>chmempools.c\<close>).  The core gives
  away memory from the front of one area and never takes it back; a pool is a list of free objects of one size, linked
  through the objects themselves.  Addresses and sizes are words, \<open>NULL\<close> is zero.
\<close>

section \<open>State\<close>

text \<open>A function that provides memory: none, the core, or one of the application.\<close>

datatype memgetfunc = No_provider | Core_alloc | Provider u32

record kmem = alarms +
  nextmem :: u32
  endmem :: u32
  ph_next :: "u32 \<Rightarrow> u32"
  mp_next :: "u32 \<Rightarrow> u32"
  mp_object_size :: "u32 \<Rightarrow> u32"
  mp_provider :: "u32 \<Rightarrow> memgetfunc"

section \<open>The core\<close>

definition MEM_ALIGN_MASK :: u32 where "MEM_ALIGN_MASK = 3"

definition MEM_ALIGN_PREV :: "u32 \<Rightarrow> u32" where
  "MEM_ALIGN_PREV p = p AND NOT MEM_ALIGN_MASK"

definition MEM_ALIGN_NEXT :: "u32 \<Rightarrow> u32" where
  "MEM_ALIGN_NEXT p = MEM_ALIGN_PREV (p + MEM_ALIGN_MASK)"

definition core_init :: "u32 \<Rightarrow> u32 \<Rightarrow> kmem \<Rightarrow> kmem" where
  "core_init heap_base heap_end s = s\<lparr>nextmem := MEM_ALIGN_NEXT heap_base, endmem := MEM_ALIGN_PREV heap_end\<rparr>"

definition chCoreAllocI :: "u32 \<Rightarrow> kmem \<Rightarrow> u32 \<times> kmem" where
  "chCoreAllocI size0 s =
     (let sz = MEM_ALIGN_NEXT size0 in
      if endmem s - nextmem s < sz then (0, s)
      else (nextmem s, s\<lparr>nextmem := nextmem s + sz\<rparr>))"

definition chCoreAlloc :: "u32 \<Rightarrow> kmem \<Rightarrow> u32 \<times> kmem" where
  "chCoreAlloc sz s = (let (p, s1) = chCoreAllocI sz (chSysLock s) in (p, chSysUnlock s1))"

definition chCoreStatus :: "kmem \<Rightarrow> u32" where
  "chCoreStatus s = endmem s - nextmem s"

section \<open>Pools\<close>

definition chPoolInit :: "u32 \<Rightarrow> u32 \<Rightarrow> memgetfunc \<Rightarrow> kmem \<Rightarrow> kmem" where
  "chPoolInit mp sz provider s =
     s\<lparr>mp_next := (mp_next s)(mp := 0), mp_object_size := (mp_object_size s)(mp := sz),
       mp_provider := (mp_provider s)(mp := provider)\<rparr>"

definition provide :: "(u32 \<Rightarrow> u32 \<Rightarrow> kmem \<Rightarrow> u32 \<times> kmem) \<Rightarrow> memgetfunc \<Rightarrow> u32 \<Rightarrow> kmem \<Rightarrow> u32 \<times> kmem" where
  "provide app f sz s =
     (case f of No_provider \<Rightarrow> (0, s) | Core_alloc \<Rightarrow> chCoreAllocI sz s | Provider g \<Rightarrow> app g sz s)"

definition chPoolAllocI :: "(u32 \<Rightarrow> u32 \<Rightarrow> kmem \<Rightarrow> u32 \<times> kmem) \<Rightarrow> u32 \<Rightarrow> kmem \<Rightarrow> u32 \<times> kmem" where
  "chPoolAllocI app mp s =
     (let objp = mp_next s mp in
      if objp \<noteq> 0 then (objp, s\<lparr>mp_next := (mp_next s)(mp := ph_next s (mp_next s mp))\<rparr>)
      else if mp_provider s mp \<noteq> No_provider then provide app (mp_provider s mp) (mp_object_size s mp) s
      else (objp, s))"

definition chPoolAlloc :: "(u32 \<Rightarrow> u32 \<Rightarrow> kmem \<Rightarrow> u32 \<times> kmem) \<Rightarrow> u32 \<Rightarrow> kmem \<Rightarrow> u32 \<times> kmem" where
  "chPoolAlloc app mp s = (let (objp, s1) = chPoolAllocI app mp (chSysLock s) in (objp, chSysUnlock s1))"

definition chPoolFreeI :: "u32 \<Rightarrow> u32 \<Rightarrow> kmem \<Rightarrow> kmem" where
  "chPoolFreeI mp objp s =
     (let s1 = s\<lparr>ph_next := (ph_next s)(objp := mp_next s mp)\<rparr> in s1\<lparr>mp_next := (mp_next s1)(mp := objp)\<rparr>)"

definition chPoolFree :: "u32 \<Rightarrow> u32 \<Rightarrow> kmem \<Rightarrow> kmem" where
  "chPoolFree mp objp s = chSysUnlock (chPoolFreeI mp objp (chSysLock s))"

text \<open>\<^verbatim>\<open>while (n)\<close>: as many rounds as \<open>n\<close> says.\<close>

primrec load_loop :: "nat \<Rightarrow> u32 \<Rightarrow> u32 \<Rightarrow> kmem \<Rightarrow> kmem" where
  "load_loop 0 mp p s = s"
| "load_loop (Suc n) mp p s = (let s1 = chPoolFree mp p s in load_loop n mp (p + mp_object_size s1 mp) s1)"

definition chPoolLoadArray :: "u32 \<Rightarrow> u32 \<Rightarrow> u32 \<Rightarrow> kmem \<Rightarrow> kmem" where
  "chPoolLoadArray mp p n s = load_loop (unat n) mp p s"

section \<open>The core gives away disjoint blocks\<close>

lemma u32_bound: "unat p < 2 ^ 32" for p :: u32
  using unsigned_less [of p] by simp

lemma align_prev: "unat (MEM_ALIGN_PREV p) = unat p div 4 * 4"
proof -
  have "p AND NOT (mask 2) = push_bit 2 (drop_bit 2 p)"
  proof (rule bit_word_eqI)
    fix n show "bit (p AND NOT (mask 2)) n = bit (push_bit 2 (drop_bit 2 p)) n" if "n < LENGTH(32)"
    proof (cases "2 \<le> n")
      case True
      then obtain k where "n = 2 + k" using le_Suc_ex by blast
      then show ?thesis using that by (simp add: bit_simps)
    qed (simp add: bit_simps)
  qed
  then have "MEM_ALIGN_PREV p = push_bit 2 (drop_bit 2 p)"
    by (simp add: MEM_ALIGN_PREV_def MEM_ALIGN_MASK_def mask_eq_exp_minus_1 del: push_bit_numeral)
  moreover have "unat p < 2 ^ 32" using u32_bound [of p] by simp
  ultimately show ?thesis
    by (simp add: push_bit_eq_mult drop_bit_eq_div unat_word_ariths mod_less)
qed

lemma align_next:
  "unat p \<le> 2 ^ 32 - 4 \<Longrightarrow> unat (MEM_ALIGN_NEXT p) = (unat p + 3) div 4 * 4"
  "2 ^ 32 - 4 < unat p \<Longrightarrow> MEM_ALIGN_NEXT p = 0"
proof -
  show "unat (MEM_ALIGN_NEXT p) = (unat p + 3) div 4 * 4" if "unat p \<le> 2 ^ 32 - 4"
    using that unat_add_lem [of p 3] by (simp add: MEM_ALIGN_NEXT_def align_prev MEM_ALIGN_MASK_def)
  show "MEM_ALIGN_NEXT p = 0" if a: "2 ^ 32 - 4 < unat p"
  proof -
    have "unat (p + 3) = (unat p + 3) mod 2 ^ 32" by (simp add: unat_word_ariths)
    moreover have "unat p < 2 ^ 32" using u32_bound [of p] by simp
    ultimately have "unat (p + 3) < 4" using a by (simp add: le_mod_geq)
    then show ?thesis by (simp add: MEM_ALIGN_NEXT_def align_prev MEM_ALIGN_MASK_def flip: unat_eq_0)
  qed
qed

definition core_wf :: "kmem \<Rightarrow> bool" where
  "core_wf s \<longleftrightarrow> 0 < nextmem s \<and> nextmem s \<le> endmem s \<and> 4 dvd unat (nextmem s)"

lemma lock_core [simp]:
  "nextmem (chSysLock s) = nextmem s" "endmem (chSysLock s) = endmem s"
  "nextmem (chSysUnlock s) = nextmem s" "endmem (chSysUnlock s) = endmem s"
  for s :: kmem
  by (simp_all add: chSysLock_def chSysUnlock_def alt_irq_disable_all_def alt_irq_enable_all_def)

text \<open>One request: the rounded size is taken from the front, if so much is left.\<close>

lemma core_step:
  assumes "core_wf s" "unat n \<le> 2 ^ 32 - 4" "chCoreAlloc n s = (p, s')" "k = (unat n + 3) div 4 * 4"
  shows "core_wf s'" "endmem s' = endmem s" "p = 0 \<longleftrightarrow> unat (endmem s) - unat (nextmem s) < k"
    "p \<noteq> 0 \<Longrightarrow> p = nextmem s \<and> unat (nextmem s') = unat p + k" "p = 0 \<Longrightarrow> nextmem s' = nextmem s" "unat n \<le> k"
proof -
  have k: "unat (MEM_ALIGN_NEXT n) = k" using align_next(1) [OF assms(2)] assms(4) by simp
  have le: "unat (nextmem s) \<le> unat (endmem s)" "0 < unat (nextmem s)"
    using assms(1) by (simp_all add: core_wf_def word_le_nat_alt word_less_nat_alt)
  have d: "unat (endmem s - nextmem s) = unat (endmem s) - unat (nextmem s)" using assms(1) by (simp add: core_wf_def unat_sub)
  have run: "chCoreAlloc n s = (if unat (endmem s) - unat (nextmem s) < k then (0, chSysUnlock (chSysLock s))
      else (nextmem s, chSysUnlock ((chSysLock s)\<lparr>nextmem := nextmem s + MEM_ALIGN_NEXT n\<rparr>)))"
    using k d by (simp add: chCoreAlloc_def chCoreAllocI_def word_less_nat_alt Let_def)
  have sum: "unat (nextmem s + MEM_ALIGN_NEXT n) = unat (nextmem s) + k" if "k \<le> unat (endmem s) - unat (nextmem s)"
    using that le u32_bound [of "endmem s"] k by (subst unat_add_lem [THEN iffD1]) auto
  have nz: "nextmem s \<noteq> 0" using le(2) by auto
  show "p = 0 \<longleftrightarrow> unat (endmem s) - unat (nextmem s) < k" "endmem s' = endmem s" "p = 0 \<Longrightarrow> nextmem s' = nextmem s"
    "p \<noteq> 0 \<Longrightarrow> p = nextmem s \<and> unat (nextmem s') = unat p + k"
    using run assms(3) nz sum by (auto split: if_splits)
  show "unat n \<le> k" using assms(4) by presburger
  have "4 dvd k" using assms(4) by simp
  then show "core_wf s'"
    using run assms(1,3) sum le by (auto simp: core_wf_def word_le_nat_alt word_less_nat_alt split: if_splits)
qed

primrec core_allocs :: "u32 list \<Rightarrow> kmem \<Rightarrow> u32 list \<times> kmem" where
  "core_allocs [] s = ([], s)"
| "core_allocs (n # ns) s = (let (p, s1) = chCoreAlloc n s; (ps, s2) = core_allocs ns s1 in (p # ps, s2))"

text \<open>The blocks that were given away, with the sizes that were asked for.\<close>

definition blocks :: "u32 list \<Rightarrow> u32 list \<Rightarrow> (nat \<times> nat) list" where
  "blocks ps ns = map (\<lambda>(p, n). (unat p, unat n)) (filter (\<lambda>(p, n). p \<noteq> 0) (zip ps ns))"

lemma core_allocs_run:
  assumes "core_wf s" "\<forall>n \<in> set ns. unat n \<le> 2 ^ 32 - 4" "core_allocs ns s = (ps, s')"
  shows "sorted_wrt (\<lambda>b c. fst b + snd b \<le> fst c) (blocks ps ns) \<and>
    (\<forall>(p, n) \<in> set (blocks ps ns). unat (nextmem s) \<le> p \<and> p + n \<le> unat (endmem s) \<and> 4 dvd p)"
  using assms
proof (induction ns arbitrary: s ps)
  case Nil then show ?case by (simp add: blocks_def)
next
  case (Cons n ns)
  obtain p s1 where a: "chCoreAlloc n s = (p, s1)" by force
  obtain qs where b: "core_allocs ns s1 = (qs, s')" "ps = p # qs" using Cons.prems(3) a by (auto split: prod.splits)
  have n: "unat n \<le> 2 ^ 32 - 4" using Cons.prems(2) by simp
  note st = core_step [OF Cons.prems(1) n a refl]
  have ih: "sorted_wrt (\<lambda>b c. fst b + snd b \<le> fst c) (blocks qs ns)"
    "\<And>q m. (q, m) \<in> set (blocks qs ns) \<Longrightarrow> unat (nextmem s1) \<le> q \<and> q + m \<le> unat (endmem s) \<and> 4 dvd q"
    using Cons.IH [OF st(1) _ b(1)] Cons.prems(2) st(2) by auto
  show ?case
  proof (cases "p = 0")
    case True
    then have "blocks ps (n # ns) = blocks qs ns" using b(2) by (simp add: blocks_def)
    then show ?thesis using ih st(5) [OF True] by auto
  next
    case False
    have e: "blocks ps (n # ns) = (unat p, unat n) # blocks qs ns" using False b(2) by (simp add: blocks_def)
    have p: "p = nextmem s" "unat (nextmem s1) = unat p + (unat n + 3) div 4 * 4" using st(4) False by auto
    have "unat (nextmem s1) \<le> unat (endmem s)" "4 dvd unat p"
      using st(1,2) Cons.prems(1) p(1) by (simp_all add: core_wf_def word_le_nat_alt)
    then show ?thesis using ih st(6) p unfolding e by fastforce
  qed
qed

text \<open>
  C21. Blocks of the memory core are disjoint: for any sequence of requests of at most \<open>2\<^sup>3\<^sup>2 - 4\<close> bytes, those that succeed get
  aligned blocks inside the area of the core, each behind the ones before; a request fails exactly if less than its rounded
  size is left.  A larger request wraps around when it is rounded: it succeeds and reserves nothing.
\<close>

theorem core_blocks_disjoint:
  assumes "core_wf s" "core_allocs ns s = (ps, s')" "\<forall>n \<in> set ns. unat n \<le> 2 ^ 32 - 4" "2 ^ 32 - 4 < unat big"
  shows "sorted_wrt (\<lambda>b c. fst b + snd b \<le> fst c) (blocks ps ns) \<and>
    (\<forall>(p, n) \<in> set (blocks ps ns). unat (nextmem s) \<le> p \<and> p + n \<le> unat (endmem s) \<and> 4 dvd p) \<and>
    (unat n \<le> 2 ^ 32 - 4 \<longrightarrow> (fst (chCoreAlloc n s) = 0 \<longleftrightarrow> unat (endmem s) - unat (nextmem s) < (unat n + 3) div 4 * 4)) \<and>
    fst (chCoreAlloc big s) = nextmem s \<and> nextmem (snd (chCoreAlloc big s)) = nextmem s"
proof -
  have "MEM_ALIGN_NEXT big = 0" by (rule align_next(2) [OF assms(4)])
  then have "fst (chCoreAlloc big s) = nextmem s" "nextmem (snd (chCoreAlloc big s)) = nextmem s"
    by (simp_all add: chCoreAlloc_def chCoreAllocI_def)
  moreover have "fst (chCoreAlloc n s) = 0 \<longleftrightarrow> unat (endmem s) - unat (nextmem s) < (unat n + 3) div 4 * 4" if "unat n \<le> 2 ^ 32 - 4"
    by (rule core_step(3) [OF assms(1) that prod.collapse [symmetric] refl])
  ultimately show ?thesis using core_allocs_run [OF assms(1,3,2)] by blast
qed

text \<open>An area of a hundred bytes, three requests, the second of which does not fit.\<close>

definition small_core :: kmem where
  "small_core = core_init 4093 4200 \<lparr>status = 0, alt_tick_rate = 0, alt_nticks_var = 0, l_next = (\<lambda>p. p), l_prev = (\<lambda>p. p),
     a_time = (\<lambda>_. 0), a_callback = (\<lambda>_. 0), a_rollover = (\<lambda>_. 0), a_context = (\<lambda>_. 0), nextmem = 0, endmem = 0, ph_next = (\<lambda>_. 0),
     mp_next = (\<lambda>_. 0), mp_object_size = (\<lambda>_. 0), mp_provider = (\<lambda>_. No_provider)\<rparr>"

theorem core_blocks_disjoint_witness:
  "fst (core_allocs [30, 90, 41] small_core) = [4096, 0, 4128] \<and>
   sorted_wrt (\<lambda>b c. fst b + snd b \<le> fst c) (blocks [4096, 0, 4128] [30, 90, 41]) \<and> fst (chCoreAlloc 4294967295 small_core) = 4096"
proof -
  have s: "nextmem small_core = 4096" "endmem small_core = 4200"
    by (simp_all add: small_core_def core_init_def MEM_ALIGN_NEXT_def MEM_ALIGN_PREV_def MEM_ALIGN_MASK_def)
  have a: "MEM_ALIGN_NEXT 30 = 32" "MEM_ALIGN_NEXT 90 = 92" "MEM_ALIGN_NEXT 41 = 44"
    by (simp_all add: MEM_ALIGN_NEXT_def MEM_ALIGN_PREV_def MEM_ALIGN_MASK_def)
  have r: "fst (core_allocs [30, 90, 41] small_core) = [4096, 0, 4128]"
    by (simp add: s a chCoreAlloc_def chCoreAllocI_def)
  have w: "core_wf small_core" by (simp add: core_wf_def s)
  have c: "core_allocs [30, 90, 41] small_core = ([4096, 0, 4128], snd (core_allocs [30, 90, 41] small_core))"
    using r by (metis prod.collapse)
  from core_blocks_disjoint [OF w c, of 4294967295] r s show ?thesis by simp
qed

section \<open>Pools as lists\<close>

primrec chain :: "(u32 \<Rightarrow> u32) \<Rightarrow> u32 \<Rightarrow> u32 list \<Rightarrow> bool" where
  "chain nx p [] \<longleftrightarrow> p = 0"
| "chain nx p (x # xs) \<longleftrightarrow> p = x \<and> x \<noteq> 0 \<and> chain nx (nx x) xs"

definition pool_is :: "kmem \<Rightarrow> u32 \<Rightarrow> u32 list \<Rightarrow> bool" where
  "pool_is s mp objs \<longleftrightarrow> chain (ph_next s) (mp_next s mp) objs \<and> distinct objs"

lemma chain_upd: "x \<notin> set xs \<Longrightarrow> chain (nx(x := y)) p xs = chain nx p xs"
  by (induction xs arbitrary: p) auto

lemma lock_pool [simp]:
  "ph_next (chSysLock s) = ph_next s" "mp_next (chSysLock s) = mp_next s" "mp_provider (chSysLock s) = mp_provider s"
  "mp_object_size (chSysLock s) = mp_object_size s"
  "ph_next (chSysUnlock s) = ph_next s" "mp_next (chSysUnlock s) = mp_next s" "mp_provider (chSysUnlock s) = mp_provider s"
  "mp_object_size (chSysUnlock s) = mp_object_size s"
  for s :: kmem
  by (simp_all add: chSysLock_def chSysUnlock_def alt_irq_disable_all_def alt_irq_enable_all_def)

lemma pool_free_run:
  assumes "pool_is s mp objs" "x \<notin> set objs" "x \<noteq> 0"
  shows "pool_is (chPoolFree mp x s) mp (x # objs)" "mp_object_size (chPoolFree mp x s) = mp_object_size s"
    "mp_provider (chPoolFree mp x s) = mp_provider s"
  using assms by (simp_all add: pool_is_def chPoolFree_def chPoolFreeI_def chain_upd Let_def)

lemma pool_alloc_run:
  assumes "pool_is s mp (x # objs)"
  shows "fst (chPoolAlloc app mp s) = x" "pool_is (snd (chPoolAlloc app mp s)) mp objs"
    "mp_provider (snd (chPoolAlloc app mp s)) = mp_provider s"
  using assms by (auto simp: pool_is_def chPoolAlloc_def chPoolAllocI_def split_beta Let_def)

lemma pool_empty:
  assumes "pool_is s mp []" "mp_provider s mp = No_provider"
  shows "fst (chPoolAlloc app mp s) = 0"
  using assms by (simp add: pool_is_def chPoolAlloc_def chPoolAllocI_def split_beta)

text \<open>The objects of an array.\<close>

definition cells :: "u32 \<Rightarrow> u32 \<Rightarrow> nat \<Rightarrow> u32 list" where
  "cells p sz n = map (\<lambda>i. p + of_nat i * sz) [0..<n]"

lemma cells_Suc: "cells p sz (Suc n) = p # cells (p + sz) sz n"
  unfolding cells_def upt_conv_Cons [OF zero_less_Suc] map_Suc_upt [symmetric] by (simp add: algebra_simps)

lemma load_run:
  assumes "pool_is s mp objs" "distinct (cells p (mp_object_size s mp) n)" "set (cells p (mp_object_size s mp) n) \<inter> insert 0 (set objs) = {}"
  shows "pool_is (load_loop n mp p s) mp (rev (cells p (mp_object_size s mp) n) @ objs) \<and>
    mp_provider (load_loop n mp p s) = mp_provider s"
  using assms
proof (induction n arbitrary: p s objs)
  case 0 then show ?case by (simp add: cells_def)
next
  case (Suc n)
  let ?s = "chPoolFree mp p s"
  note f = pool_free_run [OF Suc.prems(1), of p]
  have "pool_is (load_loop n mp (p + mp_object_size ?s mp) ?s) mp (rev (cells (p + mp_object_size ?s mp) (mp_object_size ?s mp) n) @ p # objs) \<and>
    mp_provider (load_loop n mp (p + mp_object_size ?s mp) ?s) = mp_provider ?s"
    using Suc.prems f by (intro Suc.IH) (auto simp: cells_Suc)
  then show ?case using Suc.prems f by (simp add: cells_Suc Let_def)
qed

lemma cells_unat:
  fixes p sz :: u32
  assumes "unat p + n * unat sz \<le> 2 ^ 32" "i < n" "0 < unat sz"
  shows "unat (p + of_nat i * sz) = unat p + i * unat sz"
proof -
  have "Suc i * unat sz \<le> n * unat sz" using assms(2) by (intro mult_le_mono1) simp
  then have l: "unat p + i * unat sz < 2 ^ 32" using assms(1,3) by simp
  have "i \<le> i * unat sz" using assms(3) by simp
  then have "i < 2 ^ 32" using l by linarith
  then have i: "unat (of_nat i :: u32) = i" by (simp add: unsigned_of_nat take_bit_nat_eq_self)
  have "unat (of_nat i * sz) = i * unat sz" using l i by (simp add: unat_word_ariths)
  then show ?thesis using l by (simp add: unat_word_ariths)
qed

lemma cells_ok:
  assumes "unat p + n * unat sz \<le> 2 ^ 32" "0 < unat p" "0 < unat sz"
  shows "distinct (cells p sz n)" "0 \<notin> set (cells p sz n)"
proof -
  have u: "unat (p + of_nat i * sz) = unat p + i * unat sz" if "i < n" for i by (rule cells_unat [OF assms(1) that assms(3)])
  have "i = j" if "i < n" "j < n" "p + of_nat i * sz = p + of_nat j * sz" for i j
  proof -
    have "unat p + i * unat sz = unat p + j * unat sz" unfolding u [OF that(1), symmetric] u [OF that(2), symmetric] that(3) ..
    then show ?thesis using assms(3) by simp
  qed
  then have "inj_on (\<lambda>i. p + of_nat i * sz) (set [0..<n])" by (intro inj_onI) auto
  then show "distinct (cells p sz n)" unfolding cells_def distinct_map by simp
  show "0 \<notin> set (cells p sz n)"
  proof
    assume "0 \<in> set (cells p sz n)"
    then obtain i where "i < n" "p + of_nat i * sz = 0" by (auto simp: cells_def)
    then show False using u [of i] assms(2) by simp
  qed
qed

primrec pool_allocs :: "(u32 \<Rightarrow> u32 \<Rightarrow> kmem \<Rightarrow> u32 \<times> kmem) \<Rightarrow> u32 \<Rightarrow> nat \<Rightarrow> kmem \<Rightarrow> u32 list \<times> kmem" where
  "pool_allocs app mp 0 s = ([], s)"
| "pool_allocs app mp (Suc n) s =
     (let (x, s1) = chPoolAlloc app mp s; (xs, s2) = pool_allocs app mp n s1 in (x # xs, s2))"

lemma pool_allocs_run:
  "pool_is s mp objs \<Longrightarrow> fst (pool_allocs app mp (length objs) s) = objs \<and> pool_is (snd (pool_allocs app mp (length objs) s)) mp [] \<and>
   mp_provider (snd (pool_allocs app mp (length objs) s)) = mp_provider s"
proof (induction objs arbitrary: s)
  case (Cons x xs)
  note a = pool_alloc_run [OF Cons.prems, of app]
  from Cons.IH [OF a(2)] a show ?case by (auto simp: split_beta Let_def)
qed simp



end
