(* ===== verification/Ch_Queues.thy ===== *)
theory Ch_Queues
  imports Ch_Machine
begin

text \<open>
  The I/O queues of the kernel (\<^verbatim>\<open>chqueues.c\<close>, \<^verbatim>\<open>chqueues.h\<close>): ring buffers of bytes between threads and interrupt handlers.
  A thread that finds an input queue empty or an output queue full waits in the thread queue of the I/O queue.  The functions
  for threads are given in pieces: the code up to the point where the caller may be suspended, and the code that it runs when it is
  switched to again, with the message it was woken with.  A piece that suspends its caller gives the state in which the
  next thread runs, with the kernel locked.  The callbacks of the drivers are an argument, \<open>nfy\<close>.
\<close>

section \<open>State\<close>

record 'd ioqs =
  krn :: kern
  q_counter :: "ptr \<Rightarrow> u32"
  q_buffer :: "ptr \<Rightarrow> u32"
  q_top :: "ptr \<Rightarrow> u32"
  q_wrptr :: "ptr \<Rightarrow> u32"
  q_rdptr :: "ptr \<Rightarrow> u32"
  q_notify :: "ptr \<Rightarrow> u32"
  q_link :: "ptr \<Rightarrow> u32"
  ram :: "u32 \<Rightarrow> u8"
  driver :: 'd

definition Q_OK :: int where "Q_OK = RDY_OK"

definition Q_TIMEOUT :: int where "Q_TIMEOUT = RDY_TIMEOUT"

definition Q_RESET :: int where "Q_RESET = RDY_RESET"

definition Q_EMPTY :: int where "Q_EMPTY = - 3"

definition Q_FULL :: int where "Q_FULL = - 4"

definition chQSizeI :: "ptr \<Rightarrow> 'd ioqs \<Rightarrow> u32" where
  "chQSizeI qp s = q_top s qp - q_buffer s qp"

definition chQSpaceI :: "ptr \<Rightarrow> 'd ioqs \<Rightarrow> u32" where
  "chQSpaceI qp s = q_counter s qp"

definition chQGetLink :: "ptr \<Rightarrow> 'd ioqs \<Rightarrow> u32" where
  "chQGetLink qp s = q_link s qp"

definition chIQGetFullI :: "ptr \<Rightarrow> 'd ioqs \<Rightarrow> u32" where
  "chIQGetFullI iqp s = chQSpaceI iqp s"

definition chIQGetEmptyI :: "ptr \<Rightarrow> 'd ioqs \<Rightarrow> u32" where
  "chIQGetEmptyI iqp s = chQSizeI iqp s - chQSpaceI iqp s"

definition chIQIsEmptyI :: "ptr \<Rightarrow> 'd ioqs \<Rightarrow> bool" where
  "chIQIsEmptyI iqp s \<longleftrightarrow> chQSpaceI iqp s \<le> 0"

definition chIQIsFullI :: "ptr \<Rightarrow> 'd ioqs \<Rightarrow> bool" where
  "chIQIsFullI iqp s \<longleftrightarrow> q_wrptr s iqp = q_rdptr s iqp \<and> q_counter s iqp \<noteq> 0"

definition chOQGetFullI :: "ptr \<Rightarrow> 'd ioqs \<Rightarrow> u32" where
  "chOQGetFullI oqp s = chQSizeI oqp s - chQSpaceI oqp s"

definition chOQGetEmptyI :: "ptr \<Rightarrow> 'd ioqs \<Rightarrow> u32" where
  "chOQGetEmptyI oqp s = chQSpaceI oqp s"

definition chOQIsEmptyI :: "ptr \<Rightarrow> 'd ioqs \<Rightarrow> bool" where
  "chOQIsEmptyI oqp s \<longleftrightarrow> q_wrptr s oqp = q_rdptr s oqp \<and> q_counter s oqp \<noteq> 0"

definition chOQIsFullI :: "ptr \<Rightarrow> 'd ioqs \<Rightarrow> bool" where
  "chOQIsFullI oqp s \<longleftrightarrow> chQSpaceI oqp s \<le> 0"

section \<open>Parts that the functions share\<close>

text \<open>\<^verbatim>\<open>*wrptr++ = b\<close> and \<^verbatim>\<open>b = *rdptr++\<close>, with the wrap around at the end of the buffer.\<close>

definition q_store :: "ptr \<Rightarrow> u8 \<Rightarrow> 'd ioqs \<Rightarrow> 'd ioqs" where
  "q_store qp b s0 =
     (let s1 = s0\<lparr>ram := (ram s0)(q_wrptr s0 qp := b), q_wrptr := (q_wrptr s0)(qp := q_wrptr s0 qp + 1)\<rparr> in
      if q_wrptr s1 qp \<ge> q_top s1 qp then s1\<lparr>q_wrptr := (q_wrptr s1)(qp := q_buffer s1 qp)\<rparr> else s1)"

definition q_load :: "ptr \<Rightarrow> 'd ioqs \<Rightarrow> u8 \<times> 'd ioqs" where
  "q_load qp s0 =
     (let b = ram s0 (q_rdptr s0 qp);
          s1 = s0\<lparr>q_rdptr := (q_rdptr s0)(qp := q_rdptr s0 qp + 1)\<rparr> in
      (b, if q_rdptr s1 qp \<ge> q_top s1 qp then s1\<lparr>q_rdptr := (q_rdptr s1)(qp := q_buffer s1 qp)\<rparr> else s1))"

definition q_count :: "ptr \<Rightarrow> (u32 \<Rightarrow> u32) \<Rightarrow> 'd ioqs \<Rightarrow> 'd ioqs" where
  "q_count qp f s = s\<lparr>q_counter := (q_counter s)(qp := f (q_counter s qp))\<rparr>"

text \<open>The first thread of the queue is made ready.\<close>

definition wake_first :: "ptr \<Rightarrow> int \<Rightarrow> kern \<Rightarrow> kern option" where
  "wake_first qp msg s = (let (tp, s1) = fifo_remove qp s in ready_msg tp msg s1)"

definition wake_waiting :: "ptr \<Rightarrow> 'd ioqs \<Rightarrow> 'd ioqs option" where
  "wake_waiting qp s =
     (if notempty qp (krn s) then Option.bind (wake_first qp Q_OK (krn s)) (\<lambda>k. Some (s\<lparr>krn := k\<rparr>)) else Some s)"

text \<open>\<^verbatim>\<open>while (notempty(&qp->q_waiting))\<close>\<close>

partial_function (option) wake_all :: "ptr \<Rightarrow> int \<Rightarrow> kern \<Rightarrow> kern option" where
  "wake_all qp msg s = (if notempty qp s then Option.bind (wake_first qp msg s) (wake_all qp msg) else Some s)"

lemmas [code] = wake_all.simps

text \<open>The message, or none yet if the caller was suspended; \<open>vt\<close> is the address of the timer on its stack.\<close>

definition qwait :: "ptr \<Rightarrow> u32 \<Rightarrow> ptr \<Rightarrow> kern \<Rightarrow> (int option \<times> kern) option" where
  "qwait qp time vt s0 =
     (if TIME_IMMEDIATE = time then Some (Some Q_TIMEOUT, s0)
      else
        (let s1 = s0\<lparr>p_u := (p_u s0)(r_current s0 := Wtobjp qp)\<rparr>;
             s2 = queue_insert (r_current s1) qp s1 in
         Option.bind (chSchGoSleepTimeoutS THD_STATE_WTQUEUE time vt s2) (\<lambda>s3. Some (None, s3))))"

definition q_lock :: "'d ioqs \<Rightarrow> 'd ioqs" where
  "q_lock s = s\<lparr>krn := chSysLock (krn s)\<rparr>"

definition q_unlock :: "'d ioqs \<Rightarrow> 'd ioqs" where
  "q_unlock s = s\<lparr>krn := chSysUnlock (krn s)\<rparr>"

section \<open>Input queues\<close>

definition chIQInit :: "ptr \<Rightarrow> u32 \<Rightarrow> u32 \<Rightarrow> u32 \<Rightarrow> u32 \<Rightarrow> 'd ioqs \<Rightarrow> 'd ioqs" where
  "chIQInit iqp bp sz infy link s =
     s\<lparr>krn := queue_init iqp (krn s), q_counter := (q_counter s)(iqp := 0), q_wrptr := (q_wrptr s)(iqp := bp),
       q_rdptr := (q_rdptr s)(iqp := bp), q_buffer := (q_buffer s)(iqp := bp), q_top := (q_top s)(iqp := bp + sz),
       q_notify := (q_notify s)(iqp := infy), q_link := (q_link s)(iqp := link)\<rparr>"

definition chIQResetI :: "ptr \<Rightarrow> 'd ioqs \<Rightarrow> 'd ioqs option" where
  "chIQResetI iqp s =
     (let s1 = s\<lparr>q_wrptr := (q_wrptr s)(iqp := q_buffer s iqp), q_rdptr := (q_rdptr s)(iqp := q_buffer s iqp),
                q_counter := (q_counter s)(iqp := 0)\<rparr> in
      Option.bind (wake_all iqp Q_RESET (krn s1)) (\<lambda>k. Some (s1\<lparr>krn := k\<rparr>)))"

definition chIQPutI :: "ptr \<Rightarrow> u8 \<Rightarrow> 'd ioqs \<Rightarrow> (int \<times> 'd ioqs) option" where
  "chIQPutI iqp b s =
     (if chIQIsFullI iqp s then Some (Q_FULL, s)
      else Option.bind (wake_waiting iqp (q_store iqp b (q_count iqp (\<lambda>n. n + 1) s))) (\<lambda>s1. Some (Q_OK, s1)))"

type_synonym 'd notify = "u32 \<Rightarrow> ptr \<Rightarrow> 'd ioqs \<Rightarrow> 'd ioqs"

text \<open>A call of a callback that may be \<open>NULL\<close>.\<close>

definition q_call :: "'d notify \<Rightarrow> u32 \<Rightarrow> ptr \<Rightarrow> 'd ioqs \<Rightarrow> 'd ioqs" where
  "q_call nfy f qp s = (if f \<noteq> 0 then nfy f qp s else s)"

text \<open>One byte is taken from the queue.\<close>

definition iq_take :: "ptr \<Rightarrow> 'd ioqs \<Rightarrow> u8 \<times> 'd ioqs" where
  "iq_take iqp s = q_load iqp (q_count iqp (\<lambda>n. n - 1) s)"

text \<open>\<open>chIQGetTimeout\<close>: the loop, the way on when the caller has been woken with a message, and the start.\<close>

partial_function (option) iq_get_loop :: "ptr \<Rightarrow> u32 \<Rightarrow> ptr \<Rightarrow> 'd ioqs \<Rightarrow> (int option \<times> 'd ioqs) option" where
  "iq_get_loop iqp time vt s =
     (if chIQIsEmptyI iqp s then
        Option.bind (qwait iqp time vt (krn s)) (\<lambda>(r, k).
        let s1 = s\<lparr>krn := k\<rparr> in
        case r of
          None \<Rightarrow> Some (None, s1)
        | Some msg \<Rightarrow> if msg < Q_OK then Some (Some msg, q_unlock s1) else iq_get_loop iqp time vt s1)
      else
        (let (b, s1) = iq_take iqp s in Some (Some (uint b), q_unlock s1)))"

definition iq_get_resumed :: "ptr \<Rightarrow> u32 \<Rightarrow> ptr \<Rightarrow> int \<Rightarrow> 'd ioqs \<Rightarrow> (int option \<times> 'd ioqs) option" where
  "iq_get_resumed iqp time vt msg s =
     (if msg < Q_OK then Some (Some msg, q_unlock s) else iq_get_loop iqp time vt s)"

definition chIQGetTimeout :: "'d notify \<Rightarrow> ptr \<Rightarrow> u32 \<Rightarrow> ptr \<Rightarrow> 'd ioqs \<Rightarrow> (int option \<times> 'd ioqs) option" where
  "chIQGetTimeout nfy iqp time vt s =
     (let s0 = q_lock s in iq_get_loop iqp time vt (q_call nfy (q_notify s0 iqp) iqp s0))"

text \<open>The parameters and variables of \<open>chIQReadTimeout\<close> and \<open>chOQWriteTimeout\<close>; \<open>x_done\<close> is \<open>r\<close> or \<open>w\<close>.\<close>

record xfer =
  x_q :: ptr
  x_nfy :: u32
  x_bp :: u32
  x_n :: u32
  x_done :: u32
  x_time :: u32
  x_vt :: ptr

text \<open>A transfer returns the number of bytes, or its caller is suspended, or it goes on with the next byte.\<close>

datatype progress = Moved u32 | Blocked xfer | Next xfer

definition xfer_next :: "xfer \<Rightarrow> progress" where
  "xfer_next x =
     (let y = x\<lparr>x_bp := x_bp x + 1, x_done := x_done x + 1, x_n := x_n x - 1\<rparr> in
      if x_n y = 0 then Moved (x_done y) else Next y)"

partial_function (option) iq_read_loop :: "xfer \<Rightarrow> 'd ioqs \<Rightarrow> (progress \<times> 'd ioqs) option" where
  "iq_read_loop x s =
     (if chIQIsEmptyI (x_q x) s then
        Option.bind (qwait (x_q x) (x_time x) (x_vt x) (krn s)) (\<lambda>(r, k).
        let s1 = s\<lparr>krn := k\<rparr> in
        case r of
          None \<Rightarrow> Some (Blocked x, s1)
        | Some msg \<Rightarrow> if msg \<noteq> Q_OK then Some (Moved (x_done x), q_unlock s1) else iq_read_loop x s1)
      else
        (let (b, s1) = iq_take (x_q x) s;
             s2 = s1\<lparr>ram := (ram s1)(x_bp x := b)\<rparr> in
         Some (xfer_next x, q_unlock s2)))"

definition iq_read_resumed :: "xfer \<Rightarrow> int \<Rightarrow> 'd ioqs \<Rightarrow> (progress \<times> 'd ioqs) option" where
  "iq_read_resumed x msg s =
     (if msg \<noteq> Q_OK then Some (Moved (x_done x), q_unlock s) else iq_read_loop x s)"

definition iq_read_next :: "'d notify \<Rightarrow> xfer \<Rightarrow> 'd ioqs \<Rightarrow> (progress \<times> 'd ioqs) option" where
  "iq_read_next nfy x s = iq_read_loop x (q_call nfy (x_nfy x) (x_q x) (q_lock s))"

definition chIQReadTimeout ::
  "'d notify \<Rightarrow> ptr \<Rightarrow> u32 \<Rightarrow> u32 \<Rightarrow> u32 \<Rightarrow> ptr \<Rightarrow> 'd ioqs \<Rightarrow> (progress \<times> 'd ioqs) option" where
  "chIQReadTimeout nfy iqp bp n time vt s =
     iq_read_next nfy \<lparr>x_q = iqp, x_nfy = q_notify s iqp, x_bp = bp, x_n = n, x_done = 0, x_time = time, x_vt = vt\<rparr> s"

section \<open>Output queues\<close>

definition chOQInit :: "ptr \<Rightarrow> u32 \<Rightarrow> u32 \<Rightarrow> u32 \<Rightarrow> u32 \<Rightarrow> 'd ioqs \<Rightarrow> 'd ioqs" where
  "chOQInit oqp bp sz onfy link s =
     s\<lparr>krn := queue_init oqp (krn s), q_counter := (q_counter s)(oqp := sz), q_wrptr := (q_wrptr s)(oqp := bp),
       q_rdptr := (q_rdptr s)(oqp := bp), q_buffer := (q_buffer s)(oqp := bp), q_top := (q_top s)(oqp := bp + sz),
       q_notify := (q_notify s)(oqp := onfy), q_link := (q_link s)(oqp := link)\<rparr>"

definition chOQResetI :: "ptr \<Rightarrow> 'd ioqs \<Rightarrow> 'd ioqs option" where
  "chOQResetI oqp s =
     (let s1 = s\<lparr>q_wrptr := (q_wrptr s)(oqp := q_buffer s oqp), q_rdptr := (q_rdptr s)(oqp := q_buffer s oqp)\<rparr>;
          s2 = s1\<lparr>q_counter := (q_counter s1)(oqp := chQSizeI oqp s1)\<rparr> in
      Option.bind (wake_all oqp Q_RESET (krn s2)) (\<lambda>k. Some (s2\<lparr>krn := k\<rparr>)))"

definition oq_add :: "ptr \<Rightarrow> u8 \<Rightarrow> 'd ioqs \<Rightarrow> 'd ioqs" where
  "oq_add oqp b s = q_store oqp b (q_count oqp (\<lambda>n. n - 1) s)"

partial_function (option) oq_put_loop ::
  "'d notify \<Rightarrow> ptr \<Rightarrow> u8 \<Rightarrow> u32 \<Rightarrow> ptr \<Rightarrow> 'd ioqs \<Rightarrow> (int option \<times> 'd ioqs) option" where
  "oq_put_loop nfy oqp b time vt s =
     (if chOQIsFullI oqp s then
        Option.bind (qwait oqp time vt (krn s)) (\<lambda>(r, k).
        let s1 = s\<lparr>krn := k\<rparr> in
        case r of
          None \<Rightarrow> Some (None, s1)
        | Some msg \<Rightarrow> if msg < Q_OK then Some (Some msg, q_unlock s1) else oq_put_loop nfy oqp b time vt s1)
      else
        (let s1 = oq_add oqp b s in Some (Some Q_OK, q_unlock (q_call nfy (q_notify s1 oqp) oqp s1))))"

definition oq_put_resumed ::
  "'d notify \<Rightarrow> ptr \<Rightarrow> u8 \<Rightarrow> u32 \<Rightarrow> ptr \<Rightarrow> int \<Rightarrow> 'd ioqs \<Rightarrow> (int option \<times> 'd ioqs) option" where
  "oq_put_resumed nfy oqp b time vt msg s =
     (if msg < Q_OK then Some (Some msg, q_unlock s) else oq_put_loop nfy oqp b time vt s)"

definition chOQPutTimeout :: "'d notify \<Rightarrow> ptr \<Rightarrow> u8 \<Rightarrow> u32 \<Rightarrow> ptr \<Rightarrow> 'd ioqs \<Rightarrow> (int option \<times> 'd ioqs) option" where
  "chOQPutTimeout nfy oqp b time vt s = oq_put_loop nfy oqp b time vt (q_lock s)"

definition chOQGetI :: "ptr \<Rightarrow> 'd ioqs \<Rightarrow> (int \<times> 'd ioqs) option" where
  "chOQGetI oqp s =
     (if chOQIsEmptyI oqp s then Some (Q_EMPTY, s)
      else
        (let (b, s1) = q_load oqp (q_count oqp (\<lambda>n. n + 1) s) in
         Option.bind (wake_waiting oqp s1) (\<lambda>s2. Some (uint b, s2))))"

partial_function (option) oq_write_loop :: "'d notify \<Rightarrow> xfer \<Rightarrow> 'd ioqs \<Rightarrow> (progress \<times> 'd ioqs) option" where
  "oq_write_loop nfy x s =
     (if chOQIsFullI (x_q x) s then
        Option.bind (qwait (x_q x) (x_time x) (x_vt x) (krn s)) (\<lambda>(r, k).
        let s1 = s\<lparr>krn := k\<rparr> in
        case r of
          None \<Rightarrow> Some (Blocked x, s1)
        | Some msg \<Rightarrow> if msg \<noteq> Q_OK then Some (Moved (x_done x), q_unlock s1) else oq_write_loop nfy x s1)
      else
        (let s1 = oq_add (x_q x) (ram s (x_bp x)) s in
         Some (xfer_next x, q_unlock (q_call nfy (x_nfy x) (x_q x) s1))))"

definition oq_write_resumed :: "'d notify \<Rightarrow> xfer \<Rightarrow> int \<Rightarrow> 'd ioqs \<Rightarrow> (progress \<times> 'd ioqs) option" where
  "oq_write_resumed nfy x msg s =
     (if msg \<noteq> Q_OK then Some (Moved (x_done x), q_unlock s) else oq_write_loop nfy x s)"

definition oq_write_next :: "'d notify \<Rightarrow> xfer \<Rightarrow> 'd ioqs \<Rightarrow> (progress \<times> 'd ioqs) option" where
  "oq_write_next nfy x s = oq_write_loop nfy x (q_lock s)"

definition chOQWriteTimeout ::
  "'d notify \<Rightarrow> ptr \<Rightarrow> u32 \<Rightarrow> u32 \<Rightarrow> u32 \<Rightarrow> ptr \<Rightarrow> 'd ioqs \<Rightarrow> (progress \<times> 'd ioqs) option" where
  "chOQWriteTimeout nfy oqp bp n time vt s =
     oq_write_next nfy \<lparr>x_q = oqp, x_nfy = q_notify s oqp, x_bp = bp, x_n = n, x_done = 0, x_time = time, x_vt = vt\<rparr> s"

lemmas [code] = iq_get_loop.simps iq_read_loop.simps oq_put_loop.simps oq_write_loop.simps

end
