(* ===== verification/Ch_Ring.thy ===== *)
theory Ch_Ring
  imports Ledos_Prelude
begin

text \<open>
  Ring buffers.  Both the I/O queues and the mailboxes keep their items in an array, between a read and a write position that
  wrap around at its end.  The locale states what such a buffer has; its lemmas say what storing and loading an item
  does to the sequence of the items.
\<close>

definition ring_list :: "(nat \<Rightarrow> 'a) \<Rightarrow> nat \<Rightarrow> nat \<Rightarrow> nat \<Rightarrow> 'a list" where
  "ring_list f sz rd n = map (\<lambda>i. f ((rd + i) mod sz)) [0..<n]"

lemma length_ring_list [simp]: "length (ring_list f sz rd n) = n"
  by (simp add: ring_list_def)

lemma ring_cong: "0 < sz \<Longrightarrow> \<forall>i < sz. f i = g i \<Longrightarrow> ring_list f sz rd n = ring_list g sz rd n"
  by (simp add: ring_list_def)

locale ring =
  fixes cells :: "'s \<Rightarrow> nat \<Rightarrow> 'a" and sz rd used :: "'s \<Rightarrow> nat" and ok :: "'s \<Rightarrow> bool"
  assumes used_le: "ok s \<Longrightarrow> used s \<le> sz s"
    and rd_less: "ok s \<Longrightarrow> rd s < sz s"
begin

lemma push:
  assumes "ok s" "used s < sz s" "sz s' = sz s" "rd s' = rd s" "used s' = Suc (used s)"
    "\<forall>i < sz s. cells s' i = (if i = (rd s + used s) mod sz s then b else cells s i)"
  shows "ring_list (cells s') (sz s') (rd s') (used s') = ring_list (cells s) (sz s) (rd s) (used s) @ [b]"
proof -
  have "(rd s + i) mod sz s \<noteq> (rd s + used s) mod sz s" if "i < used s" for i
  proof
    assume "(rd s + i) mod sz s = (rd s + used s) mod sz s"
    then have "sz s dvd (rd s + used s) - (rd s + i)" using that by (intro mod_eq_dvd_iff_nat [THEN iffD1]) simp_all
    then have "sz s \<le> used s - i" using that by (intro dvd_imp_le) auto
    then show False using assms(2) by simp
  qed
  then have "map (\<lambda>i. cells s' ((rd s + i) mod sz s)) [0..<used s] = map (\<lambda>i. cells s ((rd s + i) mod sz s)) [0..<used s]"
    using assms(2,6) by simp
  moreover have "cells s' ((rd s + used s) mod sz s) = b" using assms(2,6) by simp
  ultimately show ?thesis using assms(3-5) by (simp add: ring_list_def)
qed

lemma pop:
  assumes "ok s" "0 < used s" "sz s' = sz s" "rd s' = (rd s + 1) mod sz s" "used s' = used s - 1" "\<forall>i < sz s. cells s' i = cells s i"
  shows "ring_list (cells s) (sz s) (rd s) (used s) = cells s (rd s) # ring_list (cells s') (sz s') (rd s') (used s')"
proof -
  obtain n where n: "used s = Suc n" using assms(2) by (cases "used s") auto
  have pos: "0 < sz s" "rd s mod sz s = rd s" using rd_less [OF assms(1)] by simp_all
  have "(rd s + Suc i) mod sz s = (rd s' + i) mod sz s" for i using assms(4) by (simp add: mod_simps)
  then have "map (\<lambda>i. cells s ((rd s + i) mod sz s)) (map Suc [0..<n]) = map (\<lambda>i. cells s' ((rd s' + i) mod sz s)) [0..<n]"
    using assms(6) pos(1) by simp
  then show ?thesis
    using pos(2) assms(3,5) unfolding ring_list_def n upt_conv_Cons [OF zero_less_Suc] map_Suc_upt [symmetric] by simp
qed

lemma push_front:
  assumes "ok s" "used s < sz s" "sz s' = sz s" "rd s = (rd s' + 1) mod sz s" "rd s' < sz s" "used s' = Suc (used s)"
    "\<forall>i < sz s. cells s' i = (if i = rd s' then b else cells s i)"
  shows "ring_list (cells s') (sz s') (rd s') (used s') = b # ring_list (cells s) (sz s) (rd s) (used s)"
proof -
  have pos: "0 < sz s" "rd s' mod sz s = rd s'" using assms(5) by simp_all
  have e: "(rd s' + Suc i) mod sz s = (rd s + i) mod sz s" for i using assms(4) by (simp add: mod_simps)
  have "(rd s' + Suc i) mod sz s \<noteq> rd s'" if "i < used s" for i
  proof
    assume "(rd s' + Suc i) mod sz s = rd s'"
    then have "(rd s' + Suc i) mod sz s = rd s' mod sz s" using pos(2) by simp
    then have "sz s dvd (rd s' + Suc i) - rd s'" by (intro mod_eq_dvd_iff_nat [THEN iffD1]) simp_all
    then have "sz s \<le> Suc i" by (intro dvd_imp_le) auto
    then show False using assms(2) that by simp
  qed
  then have "map (\<lambda>i. cells s' ((rd s' + i) mod sz s)) (map Suc [0..<used s]) = map (\<lambda>i. cells s ((rd s + i) mod sz s)) [0..<used s]"
    using assms(7) pos(1) e by simp
  then show ?thesis
    using pos(2) assms(3,5-7) unfolding ring_list_def assms(6) upt_conv_Cons [OF zero_less_Suc] map_Suc_upt [symmetric] by simp
qed

lemma empty: "used s = 0 \<Longrightarrow> ring_list (cells s) (sz s) (rd s) (used s) = []"
  by (simp add: ring_list_def)

end

end
