(* ===== verification/Ch_Queues_Ring.thy ===== *)
theory Ch_Queues_Ring
  imports Ch_Queues Ch_Ring
begin

text \<open>
  The I/O queues as bounded first-in first-out buffers.  The counter of a queue counts what a thread waits for: the bytes of an
  input queue, the free places of an output queue.
\<close>

definition qsize :: "ptr \<Rightarrow> 'd ioqs \<Rightarrow> nat" where
  "qsize q s = unat (chQSizeI q s)"

definition qrd :: "ptr \<Rightarrow> 'd ioqs \<Rightarrow> nat" where
  "qrd q s = unat (q_rdptr s q - q_buffer s q)"

definition qused :: "bool \<Rightarrow> ptr \<Rightarrow> 'd ioqs \<Rightarrow> nat" where
  "qused inp q s = (if inp then unat (q_counter s q) else qsize q s - unat (q_counter s q))"

definition qcell :: "ptr \<Rightarrow> 'd ioqs \<Rightarrow> nat \<Rightarrow> u8" where
  "qcell q s i = ram s (q_buffer s q + of_nat i)"

definition qbytes :: "bool \<Rightarrow> ptr \<Rightarrow> 'd ioqs \<Rightarrow> u8 list" where
  "qbytes inp q s = ring_list (qcell q s) (qsize q s) (qrd q s) (qused inp q s)"

definition region :: "ptr \<Rightarrow> 'd ioqs \<Rightarrow> u32 set" where
  "region q s = {q_buffer s q ..< q_top s q}"

definition q_wf :: "bool \<Rightarrow> ptr \<Rightarrow> 'd ioqs \<Rightarrow> bool" where
  "q_wf inp q s \<longleftrightarrow> q_rdptr s q \<in> region q s \<and> q_wrptr s q \<in> region q s \<and> unat (q_counter s q) \<le> qsize q s \<and>
     unat (q_wrptr s q - q_buffer s q) = (qrd q s + qused inp q s) mod qsize q s"

lemma region_pos:
  fixes a b p :: u32
  assumes "p \<in> {a ..< b}"
  shows "unat (p - a) < unat (b - a)" "unat (p - a) = unat p - unat a" "unat (b - a) = unat b - unat a"
  using assms by (auto simp: unat_sub word_le_nat_alt word_less_nat_alt)

lemma region_inj:
  fixes a b p q :: u32
  assumes "p \<in> {a ..< b}" "q \<in> {a ..< b}" "unat (p - a) = unat (q - a)"
  shows "p = q"
  using assms by (auto simp: unat_sub word_le_nat_alt word_less_nat_alt word_unat_eq_iff)

lemma advance:
  fixes a b p :: u32
  assumes "p \<in> {a ..< b}" "p' = (if p + 1 \<ge> b then a else p + 1)"
  shows "p' \<in> {a ..< b}" "unat (p' - a) = (unat (p - a) + 1) mod unat (b - a)"
proof -
  have le: "unat a \<le> unat p" "unat p < unat b" using assms(1) by (auto simp: word_le_nat_alt word_less_nat_alt)
  have "unat b < 2 ^ 32" using unsigned_less [of b] by simp
  then have s: "unat (p + 1) = unat p + 1"
    using le by (subst unat_add_lem [THEN iffD1]) auto
  note r = region_pos [OF assms(1)]
  show m: "p' \<in> {a ..< b}" using le s assms(2) by (auto simp: word_le_nat_alt word_less_nat_alt)
  show "unat (p' - a) = (unat (p - a) + 1) mod unat (b - a)"
  proof (cases "b \<le> p + 1")
    case True
    then have "unat (p - a) + 1 = unat (b - a)" using le s r by (simp add: word_le_nat_alt)
    then show ?thesis using True assms(2) by simp
  next
    case False
    then have "unat (p - a) + 1 < unat (b - a)" "unat (p' - a) = unat (p - a) + 1"
      using le s r assms(2) region_pos(2) [OF m] by (auto simp: word_le_nat_alt)
    then show ?thesis by simp
  qed
qed

lemma cell_at:
  fixes a b p :: u32
  assumes "p \<in> {a ..< b}" "i < unat (b - a)"
  shows "a + of_nat i \<in> {a ..< b}" "a + of_nat i = p \<longleftrightarrow> i = unat (p - a)"
proof -
  have le: "unat a \<le> unat p" "unat p < unat b" using assms(1) by (auto simp: word_le_nat_alt word_less_nat_alt)
  note r = region_pos [OF assms(1)]
  have b: "unat b < 2 ^ 32" using unsigned_less [of b] by simp
  have "i < 2 ^ 32" "unat a + i < 2 ^ 32" using assms(2) r(3) le b by linarith+
  then have i: "unat (of_nat i :: u32) = i" by (simp add: unsigned_of_nat take_bit_nat_eq_self)
  have s: "unat (a + of_nat i) = unat a + i" using i \<open>unat a + i < 2 ^ 32\<close> by (subst unat_add_lem [THEN iffD1]) auto
  show "a + of_nat i \<in> {a ..< b}" using s assms(2) r(3) le by (auto simp: word_le_nat_alt word_less_nat_alt)
  show "a + of_nat i = p \<longleftrightarrow> i = unat (p - a)" using s r(2) le by (auto simp: word_unat_eq_iff)
qed

lemma qsize_eq: "qsize q s = unat (q_top s q - q_buffer s q)"
  by (simp add: qsize_def chQSizeI_def)

lemma q_wf_pos: "q_wf inp q s \<Longrightarrow> 0 < qsize q s"
  using region_pos(1) [of "q_rdptr s q" "q_buffer s q" "q_top s q"] by (simp add: q_wf_def region_def qsize_eq)

interpretation rq: ring "qcell q" "qsize q" "qrd q" "qused inp q" "q_wf inp q" for inp q
proof
  fix s :: "'a ioqs" assume w: "q_wf inp q s"
  then show "qused inp q s \<le> qsize q s" by (simp add: q_wf_def qused_def)
  show "qrd q s < qsize q s" using w region_pos(1) [of "q_rdptr s q" "q_buffer s q" "q_top s q"]
    by (simp add: q_wf_def region_def qsize_eq qrd_def)
qed

text \<open>Full and empty, as the code tests them.\<close>

lemma q_same_pos:
  assumes "q_wf inp q s"
  shows "q_wrptr s q = q_rdptr s q \<longleftrightarrow> qused inp q s = 0 \<or> qused inp q s = qsize q s"
proof -
  have u: "qused inp q s \<le> qsize q s" "qrd q s < qsize q s" using rq.used_le rq.rd_less assms by blast+
  have "q_wrptr s q = q_rdptr s q \<longleftrightarrow> (qrd q s + qused inp q s) mod qsize q s = qrd q s"
    using assms region_inj [of "q_wrptr s q" "q_buffer s q" "q_top s q" "q_rdptr s q"] by (auto simp: q_wf_def region_def qrd_def)
  also have "\<dots> \<longleftrightarrow> qused inp q s = 0 \<or> qused inp q s = qsize q s"
  proof (cases "qrd q s + qused inp q s < qsize q s")
    case True then show ?thesis by auto
  next
    case False
    then have "(qrd q s + qused inp q s) mod qsize q s = qrd q s + qused inp q s - qsize q s"
      using u by (simp add: le_mod_geq)
    then show ?thesis using u False by auto
  qed
  finally show ?thesis .
qed

lemma q_tests:
  shows "q_wf True q s \<Longrightarrow> chIQIsFullI q s \<longleftrightarrow> qused True q s = qsize q s"
    "chIQIsEmptyI q s \<longleftrightarrow> qused True q s = 0"
    "q_wf False q s \<Longrightarrow> chOQIsEmptyI q s \<longleftrightarrow> qused False q s = 0"
    "q_wf False q s \<Longrightarrow> chOQIsFullI q s \<longleftrightarrow> qused False q s = qsize q s"
proof -
  have z: "q_counter s q = 0 \<longleftrightarrow> unat (q_counter s q) = 0" by (simp add: unat_eq_0)
  show "chIQIsEmptyI q s \<longleftrightarrow> qused True q s = 0" by (simp add: chIQIsEmptyI_def chQSpaceI_def qused_def z)
  show "chIQIsFullI q s \<longleftrightarrow> qused True q s = qsize q s" if w: "q_wf True q s"
    using q_same_pos [OF w] q_wf_pos [OF w] z by (auto simp: chIQIsFullI_def qused_def)
  show "chOQIsEmptyI q s \<longleftrightarrow> qused False q s = 0" if w: "q_wf False q s"
    using q_same_pos [OF w] q_wf_pos [OF w] z w by (auto simp: chOQIsEmptyI_def qused_def q_wf_def)
  show "chOQIsFullI q s \<longleftrightarrow> qused False q s = qsize q s" if w: "q_wf False q s"
    using q_wf_pos [OF w] z w by (auto simp: chOQIsFullI_def chQSpaceI_def qused_def q_wf_def)
qed

text \<open>The counter after one step up or down.\<close>

lemma counter_up:
  fixes c :: u32
  assumes "unat c < n" "n < 2 ^ 32"
  shows "unat (c + 1) = unat c + 1"
  using assms by (subst unat_add_lem [THEN iffD1]) auto

lemma counter_down: "c \<noteq> 0 \<Longrightarrow> unat (c - 1) = unat c - 1" for c :: u32
  using unat_sub [of 1 c] by (simp add: word_le_nat_alt Suc_le_eq unat_gt_0)

lemma qsize_bound: "qsize q s < 2 ^ 32"
  using unsigned_less [of "chQSizeI q s"] by (simp add: qsize_def)

section \<open>Storing and loading a byte\<close>

lemma store_fields:
  "q_wrptr (q_store q b s) = (q_wrptr s)(q := (if q_wrptr s q + 1 \<ge> q_top s q then q_buffer s q else q_wrptr s q + 1))"
  "ram (q_store q b s) = (ram s)(q_wrptr s q := b)" "q_buffer (q_store q b s) = q_buffer s" "q_top (q_store q b s) = q_top s"
  "q_rdptr (q_store q b s) = q_rdptr s" "q_counter (q_store q b s) = q_counter s" "krn (q_store q b s) = krn s"
  "q_notify (q_store q b s) = q_notify s" "driver (q_store q b s) = driver s"
  by (auto simp: q_store_def Let_def)

lemma load_fields:
  "fst (q_load q s) = ram s (q_rdptr s q)"
  "q_rdptr (snd (q_load q s)) = (q_rdptr s)(q := (if q_rdptr s q + 1 \<ge> q_top s q then q_buffer s q else q_rdptr s q + 1))"
  "ram (snd (q_load q s)) = ram s" "q_buffer (snd (q_load q s)) = q_buffer s" "q_top (snd (q_load q s)) = q_top s"
  "q_wrptr (snd (q_load q s)) = q_wrptr s" "q_counter (snd (q_load q s)) = q_counter s" "krn (snd (q_load q s)) = krn s"
  "q_notify (snd (q_load q s)) = q_notify s" "driver (snd (q_load q s)) = driver s"
  by (auto simp: q_load_def Let_def)

lemma count_fields [simp]:
  "q_counter (q_count q f s) = (q_counter s)(q := f (q_counter s q))" "q_wrptr (q_count q f s) = q_wrptr s" "ram (q_count q f s) = ram s"
  "q_buffer (q_count q f s) = q_buffer s" "q_top (q_count q f s) = q_top s" "q_rdptr (q_count q f s) = q_rdptr s"
  "krn (q_count q f s) = krn s" "q_notify (q_count q f s) = q_notify s" "driver (q_count q f s) = driver s"
  by (simp_all add: q_count_def)

text \<open>The step of the counter when a byte comes in: up for an input queue, down for an output queue; and when one goes out.\<close>

definition in_step :: "bool \<Rightarrow> u32 \<Rightarrow> u32" where
  "in_step inp n = (if inp then n + 1 else n - 1)"

definition out_step :: "bool \<Rightarrow> u32 \<Rightarrow> u32" where
  "out_step inp n = (if inp then n - 1 else n + 1)"

lemma in_step_used:
  assumes "q_wf inp q s" "qused inp q s < qsize q s" "q_counter s' q = in_step inp (q_counter s q)" "qsize q s' = qsize q s"
  shows "qused inp q s' = Suc (qused inp q s)" "unat (q_counter s' q) \<le> qsize q s'"
proof -
  have c: "unat (q_counter s q) \<le> qsize q s" using assms(1) by (simp add: q_wf_def)
  have up: "unat (q_counter s q + 1) = unat (q_counter s q) + 1" if "unat (q_counter s q) < qsize q s"
    by (rule counter_up [OF that qsize_bound])
  have down: "unat (q_counter s q - 1) = unat (q_counter s q) - 1" "0 < unat (q_counter s q)" if "\<not> inp"
  proof -
    have "q_counter s q \<noteq> 0" using that assms(2) by (auto simp: qused_def)
    then show "unat (q_counter s q - 1) = unat (q_counter s q) - 1" "0 < unat (q_counter s q)"
      by (simp_all add: counter_down unat_gt_0)
  qed
  show "qused inp q s' = Suc (qused inp q s)" "unat (q_counter s' q) \<le> qsize q s'"
    using c up down assms(2-4) by (cases inp; simp add: qused_def in_step_def)+
qed

lemma out_step_used:
  assumes "q_wf inp q s" "0 < qused inp q s" "q_counter s' q = out_step inp (q_counter s q)" "qsize q s' = qsize q s"
  shows "qused inp q s' = qused inp q s - 1" "unat (q_counter s' q) \<le> qsize q s'"
proof -
  have c: "unat (q_counter s q) \<le> qsize q s" using assms(1) by (simp add: q_wf_def)
  have up: "unat (q_counter s q + 1) = unat (q_counter s q) + 1" if "unat (q_counter s q) < qsize q s"
    by (rule counter_up [OF that qsize_bound])
  have down: "unat (q_counter s q - 1) = unat (q_counter s q) - 1" if "inp"
  proof -
    have "q_counter s q \<noteq> 0" using that assms(2) by (auto simp: qused_def)
    then show ?thesis by (rule counter_down)
  qed
  show "qused inp q s' = qused inp q s - 1" "unat (q_counter s' q) \<le> qsize q s'"
    using c up down assms(2-4) by (cases inp; simp add: qused_def out_step_def)+
qed

lemma store_run:
  assumes "q_wf inp q s" "qused inp q s < qsize q s" "s' = q_store q b (q_count q (in_step inp) s)"
  shows "q_wf inp q s'" "qbytes inp q s' = qbytes inp q s @ [b]" "qused inp q s' = Suc (qused inp q s)"
proof -
  have f: "q_buffer s' = q_buffer s" "q_top s' = q_top s" "q_rdptr s' = q_rdptr s" "q_counter s' q = in_step inp (q_counter s q)"
    "ram s' = (ram s)(q_wrptr s q := b)" "q_wrptr s' q = (if q_wrptr s q + 1 \<ge> q_top s q then q_buffer s q else q_wrptr s q + 1)"
    by (simp_all add: assms(3) store_fields)
  have sz: "qsize q s' = qsize q s" "qrd q s' = qrd q s" by (simp_all add: qsize_eq qrd_def f)
  note u = in_step_used [OF assms(1,2) f(4) sz(1)]
  have w: "q_wrptr s q \<in> {q_buffer s q ..< q_top s q}" "unat (q_wrptr s q - q_buffer s q) = (qrd q s + qused inp q s) mod qsize q s"
    using assms(1) by (simp_all add: q_wf_def region_def)
  note adv = advance [OF w(1) f(6)]
  have "unat (q_wrptr s' q - q_buffer s' q) = (qrd q s' + qused inp q s') mod qsize q s'"
    using adv(2) w(2) u(1) by (simp add: f(1) sz qsize_eq [symmetric] mod_simps)
  then show "q_wf inp q s'" using assms(1) adv(1) u(2) by (simp add: q_wf_def region_def f(1,2,3))
  have "\<forall>i < qsize q s. qcell q s' i = (if i = (qrd q s + qused inp q s) mod qsize q s then b else qcell q s i)"
    using cell_at [OF w(1)] w(2) by (simp add: qcell_def f(1,5) qsize_eq)
  from rq.push [OF assms(1,2) sz u(1) this] show "qbytes inp q s' = qbytes inp q s @ [b]" by (simp add: qbytes_def)
  show "qused inp q s' = Suc (qused inp q s)" by (rule u(1))
qed

lemma q_load_run:
  assumes "q_wf inp q s" "0 < qused inp q s" "(b, s') = q_load q (q_count q (out_step inp) s)"
  shows "q_wf inp q s'" "qbytes inp q s = b # qbytes inp q s'" "qused inp q s' = qused inp q s - 1"
proof -
  let ?l = "q_load q (q_count q (out_step inp) s)"
  have s': "s' = snd ?l" "b = fst ?l" using assms(3) by (metis snd_conv, metis fst_conv)
  have f: "q_buffer s' = q_buffer s" "q_top s' = q_top s" "q_wrptr s' = q_wrptr s" "q_counter s' q = out_step inp (q_counter s q)"
    "ram s' = ram s" "q_rdptr s' q = (if q_rdptr s q + 1 \<ge> q_top s q then q_buffer s q else q_rdptr s q + 1)"
    by (simp_all add: s' load_fields)
  have sz: "qsize q s' = qsize q s" by (simp add: qsize_eq f)
  note u = out_step_used [OF assms(1,2) f(4) sz]
  have w: "q_rdptr s q \<in> {q_buffer s q ..< q_top s q}" using assms(1) by (simp add: q_wf_def region_def)
  note adv = advance [OF w f(6)]
  have rd: "qrd q s' = (qrd q s + 1) mod qsize q s" using adv(2) by (simp add: qrd_def f(1) qsize_eq)
  have "(qrd q s' + qused inp q s') mod qsize q s' = (qrd q s + qused inp q s) mod qsize q s"
    unfolding sz rd u(1) mod_add_left_eq using assms(2) by simp
  then show "q_wf inp q s'" using assms(1) adv(1) u(2) by (simp add: q_wf_def region_def f(1,2,3))
  have "\<forall>i < qsize q s. qcell q s' i = qcell q s i" by (simp add: qcell_def f(1,5))
  from rq.pop [OF assms(1,2) sz rd u(1) this]
  have "qbytes inp q s = qcell q s (qrd q s) # qbytes inp q s'" by (simp add: qbytes_def)
  moreover have "q_buffer s q + of_nat (qrd q s) = q_rdptr s q"
    using cell_at(2) [OF w, of "qrd q s"] region_pos(1) [OF w] by (simp add: qrd_def)
  then have "qcell q s (qrd q s) = b" by (simp add: qcell_def s'(2) load_fields)
  ultimately show "qbytes inp q s = b # qbytes inp q s'" by simp
  show "qused inp q s' = qused inp q s - 1" by (rule u(1))
qed

text \<open>A queue whose fields and cells did not change.\<close>

lemma q_same:
  assumes "q_wf inp q s" "q_buffer s' q = q_buffer s q" "q_top s' q = q_top s q" "q_rdptr s' q = q_rdptr s q" "q_wrptr s' q = q_wrptr s q"
    "q_counter s' q = q_counter s q" "\<forall>a \<in> region q s. ram s' a = ram s a"
  shows "q_wf inp q s'" "qbytes inp q s' = qbytes inp q s" "region q s' = region q s"
proof -
  have e: "qsize q s' = qsize q s" "qrd q s' = qrd q s" "qused inp q s' = qused inp q s"
    using assms(2-6) by (simp_all add: qsize_eq qrd_def qused_def)
  have w: "q_rdptr s q \<in> {q_buffer s q ..< q_top s q}" using assms(1) by (simp add: q_wf_def region_def)
  show r: "region q s' = region q s" using assms(2,3) by (simp add: region_def)
  show "q_wf inp q s'" using assms(1-6) by (simp add: q_wf_def e r)
  have "\<forall>i < qsize q s. qcell q s' i = qcell q s i"
    using cell_at(1) [OF w] assms(2,7) by (simp add: qcell_def region_def qsize_eq)
  then show "qbytes inp q s' = qbytes inp q s"
    unfolding qbytes_def e by (intro ring_cong) (simp_all add: q_wf_pos [OF assms(1)])
qed

lemma q_init_run:
  assumes "0 < sz" "unat bp + unat sz < 2 ^ 32"
  shows "q_wf True q (chIQInit q bp sz f l s)" "qbytes True q (chIQInit q bp sz f l s) = []"
    "q_wf False q (chOQInit q bp sz f l s)" "qbytes False q (chOQInit q bp sz f l s) = []"
proof -
  have t: "unat (bp + sz) = unat bp + unat sz" using assms(2) by (subst unat_add_lem [THEN iffD1]) auto
  have "bp \<in> {bp ..< bp + sz}" using assms(1) t by (auto simp: word_less_nat_alt)
  then show "q_wf True q (chIQInit q bp sz f l s)" "qbytes True q (chIQInit q bp sz f l s) = []"
    "q_wf False q (chOQInit q bp sz f l s)" "qbytes False q (chOQInit q bp sz f l s) = []"
    by (simp_all add: q_wf_def chIQInit_def chOQInit_def region_def qrd_def qused_def qsize_eq qbytes_def ring_list_def)
qed

lemma q_reset_run:
  assumes "q_wf inp q s" "q_buffer s' = q_buffer s" "q_top s' = q_top s" "q_wrptr s' q = q_buffer s q" "q_rdptr s' q = q_buffer s q"
    "q_counter s' q = (if inp then 0 else chQSizeI q s)"
  shows "q_wf inp q s'" "qbytes inp q s' = []"
proof -
  have "q_buffer s q \<in> {q_buffer s q ..< q_top s q}" using assms(1) by (auto simp: q_wf_def region_def)
  then show "q_wf inp q s'" "qbytes inp q s' = []"
    using assms(2-6) by (simp_all add: q_wf_def region_def qrd_def qused_def qsize_eq qbytes_def ring_list_def chQSizeI_def)
qed

end
