(* ===== verification/Ch_Rooms.thy ===== *)
theory Ch_Rooms
  imports Ch_Machine
begin

text \<open>
  What the services on top of the scheduler need to know of it.  A service lets threads wait in the queues of its own
  objects, wakes them with a message, and lets them go on where they were suspended; in between other threads run and the clock
  ticks.  \<open>rooms\<close> says where the threads are that a service has suspended: in the queue of the object they wait for, or already
  ready or running again, with a message to read.
\<close>

section \<open>Steps of the scheduler as the services see them\<close>

definition rdy :: "(ptr \<Rightarrow> ptr list) \<Rightarrow> kern \<Rightarrow> ptr set" where
  "rdy Q s = insert (r_current s) (set (Q rlist))"

text \<open>Threads that can run stay so and keep their messages; a thread leaves the queue of an object only by a timeout.\<close>

definition kmoves :: "ptr set \<Rightarrow> (ptr \<Rightarrow> ptr list) \<Rightarrow> kern \<Rightarrow> (ptr \<Rightarrow> ptr list) \<Rightarrow> kern \<Rightarrow> bool" where
  "kmoves S Q s Q' s' \<longleftrightarrow> (\<forall>h \<in> S. set (Q' h) \<subseteq> set (Q h) \<and> (\<forall>p \<in> set (Q h) - set (Q' h). p \<in> rdy Q' s' \<and> p_u s' p = Rdymsg RDY_TIMEOUT)) \<and>
     rdy Q s \<subseteq> rdy Q' s' \<and> (\<forall>p \<in> rdy Q s. p_u s' p = p_u s p)"

lemma resched_fine:
  assumes "reschedules f ok" "kinv S idle stk T Q ts s" "ok s"
  obtains s' Q' ts' where "f s = Some s'" "kinv S idle stk T Q' ts' s'" "runs_top Q' s'" "kmoves S Q s Q' s'" "s_cnt s' = s_cnt s"
    "rdy Q' s' = rdy Q s" "p_u s' = p_u s" "\<forall>h \<in> S. Q' h = Q h"
proof -
  have k: "kmid S idle stk T Q ts {} s" "counts S Q s" "\<forall>t \<in> set ts. 0 < tm_in t" using assms(2) by (simp_all add: kinv_def)
  obtain s' Q' ts' where r: "f s = Some s'" "kmid S idle stk T Q' ts' {} s'" "runs_top Q' s'" "kstays S Q ts s Q' ts' s'"
    "kswaps Q ts s Q' ts' s'"
    by (rule reschedulesD [OF assms(1) k(1) assms(3)])
  have "counts S Q' s'" by (rule kstays_counts [OF r(4) subset_refl k(2)])
  then have i: "kinv S idle stk T Q' ts' s'" using r(2,4) k(3) by (auto simp: kinv_def kstays_def)
  have e: "rdy Q' s' = rdy Q s" "p_u s' = p_u s" "\<forall>h \<in> S. Q' h = Q h" "s_cnt s' = s_cnt s"
    using r(4,5) by (auto simp: rdy_def kswaps_def kstays_def)
  show ?thesis by (rule that [OF r(1) i r(3) _ e(4,1,2,3)]) (use e in \<open>simp add: kmoves_def\<close>)
qed

lemma clock_fine:
  assumes "kinv S idle stk T Q ts s"
  obtains s' Q' ts' where "clock_interrupt call app s = Some s'" "kinv S idle stk T Q' ts' s'" "runs_top Q' s'" "kmoves S Q s Q' s'"
proof -
  have k: "kmid S idle stk T Q ts {} s" "counts S Q s" "\<forall>t \<in> set ts. 0 < tm_in t" using assms by (simp_all add: kinv_def)
  obtain s1 Q1 where s1: "alt_avalon_timer_sc_irq call app s = Some s1" "kmid S idle stk T Q1 (left ts) {} s1" "counts S Q1 s1"
    "\<forall>t \<in> set (left ts). 0 < tm_in t" "woken (p_state s) (p_u s) (ended ts) s1" "r_current s1 = r_current s"
    "\<forall>sp \<in> S. Q1 sp = filter (\<lambda>q. q \<notin> set (ended ts)) (Q sp)" "set (Q1 rlist) = set (Q rlist) \<union> set (ended ts)"
    by (rule clock_run [OF k])
  have i1: "kinv S idle stk T Q1 (left ts) s1" using s1(2-4) by (simp add: kinv_def)
  obtain s2 Q2 ts2 where s2: "ALT_OS_INT_EXIT s1 = Some s2" "kinv S idle stk T Q2 ts2 s2" "runs_top Q2 s2" "kmoves S Q1 s1 Q2 s2"
    "s_cnt s2 = s_cnt s1" "rdy Q2 s2 = rdy Q1 s1" "p_u s2 = p_u s1" "\<forall>h \<in> S. Q2 h = Q1 h"
    by (rule resched_fine [OF resched_exit i1 TrueI])
  have run: "clock_interrupt call app s = Some s2" using s1(1) s2(1) by (simp add: clock_interrupt_def)
  have ce: "r_current s \<notin> set (ended ts)"
    using kmid_facts(9) [OF k(1)] ended_timer by blast
  have kd: "ready_wf Q s" "waiters_wf S Q s" using k(1) by (simp_all add: kmid_def kqueues_def)
  have "p_u s1 p = p_u s p" if "p \<in> rdy Q s" for p
    using that s1(5) ce kd(1) by (auto simp: rdy_def woken_def ready_wf_def)
  moreover have "p_u s1 p = Rdymsg RDY_TIMEOUT" if "h \<in> S" "p \<in> set (Q h)" "p \<in> set (ended ts)" for h p
    using that s1(5) kd(2) by (auto simp: woken_def waiters_wf_def)
  ultimately have "kmoves S Q s Q2 s2"
    using s1(6,7,8) s2(6,7,8) by (auto simp: kmoves_def rdy_def)
  then show ?thesis by (rule that [OF run s2(2,3)])
qed

section \<open>Sleeping\<close>

text \<open>The running thread stops in the state \<open>st\<close>, with a timeout or without.\<close>

lemma go_fine:
  assumes "kqueues S Q ts {} (s\<lparr>p_state := (p_state s)(r_current s := st)\<rparr>)" "threads_wf S stk T Q ts s" "counts S Q s"
    "\<forall>t \<in> set ts. 0 < tm_in t" "waits S Q (s\<lparr>p_state := (p_state s)(r_current s := st)\<rparr>) (r_current s)"
    "\<forall>t \<in> set ts. tm_par t \<noteq> r_current s" "time \<noteq> 0" "vt \<in> stk (r_current s)" "stacks stk" "idle \<in> set (Q rlist)"
    "l_next s alt_alarm_list = alt_alarm_list"
  obtains n rest ts' s' where "chSchGoSleepTimeoutS st time vt s = Some s'" "Q rlist = n # rest"
    "kinv S idle stk T (Q(rlist := rest)) ts' s'" "runs_top (Q(rlist := rest)) s'" "r_current s' = n" "p_u s' = p_u s" "s_cnt s' = s_cnt s"
    "p_state s' = (p_state s)(r_current s := st, n := THD_STATE_CURRENT)"
proof -
  obtain s2 ts2 where a: "chSchGoSleepTimeoutS st time vt s = Some (chSchGoSleepS st s2)"
    "kqueues S Q ts2 {} (s2\<lparr>p_state := (p_state s2)(r_current s2 := st)\<rparr>)" "threads_wf S stk T Q ts2 s2" "counts S Q s2"
    "\<forall>t \<in> set ts2. 0 < tm_in t" "l_next s2 = l_next s" "r_current s2 = r_current s" "p_u s2 = p_u s" "p_state s2 = p_state s"
    "time \<noteq> TIME_INFINITE \<longrightarrow> (\<exists>t \<in> set ts2. tm_par t = r_current s \<and> tm_in t = unat time)" "s_cnt s2 = s_cnt s"
    by (rule timer_armed [OF assms(1-9)])
  let ?g = "chSchGoSleepS st s2"
  have al: "l_next s2 alt_alarm_list = alt_alarm_list" using assms(11) a(6) by simp
  obtain n rest where r: "Q rlist = n # rest" "kmid S idle stk T (Q(rlist := rest)) (without n ts2) {} ?g"
    "runs_top (Q(rlist := rest)) ?g" "s_cnt ?g = s_cnt s2" "r_current ?g = n" "p_u ?g = p_u s2"
    "p_state ?g = (p_state s2)(r_current s2 := st, n := THD_STATE_CURRENT)"
    by (rule gosleep_run [OF a(2) assms(10) a(3) al])
  have "counts S (Q(rlist := rest)) ?g" using a(4) r(4) by (auto simp: counts_def)
  moreover have "\<forall>t \<in> set (without n ts2). 0 < tm_in t" using a(5) set_without by blast
  ultimately have "kinv S idle stk T (Q(rlist := rest)) (without n ts2) ?g" using r(2) by (simp add: kinv_def)
  then show ?thesis using a(7,8,9,11) r by (intro that [OF a(1) r(1)]) simp_all
qed

lemma kinvD:
  assumes "kinv S idle stk T Q ts s"
  shows "kmid S idle stk T Q ts {} s" "counts S Q s" "\<forall>t \<in> set ts. 0 < tm_in t" "rlist \<notin> S" "r_current s \<in> T"
    "r_current s \<notin> queued (insert rlist S) Q" "idle \<in> rdy Q s"
  using assms kmid_facts [of S idle stk T Q ts "{}" s] by (simp_all add: kinv_def rdy_def)

lemma sleep_fine:
  assumes "kinv S idle stk T Q ts s" "r_current s \<noteq> idle" "off_queue st" "time \<noteq> 0" "vt \<in> stk (r_current s)" "stacks stk"
  obtains n rest ts' s' where "chSchGoSleepTimeoutS st time vt s = Some s'" "Q rlist = n # rest"
    "kinv S idle stk T (Q(rlist := rest)) ts' s'" "runs_top (Q(rlist := rest)) s'" "r_current s' = n" "p_u s' = p_u s" "s_cnt s' = s_cnt s"
    "p_state s' = (p_state s)(r_current s := st, n := THD_STATE_CURRENT)"
proof -
  note k = kinvD [OF assms(1)] and m = kmid_facts [OF kinvD(1) [OF assms(1)]]
  have w: "waits S Q (s\<lparr>p_state := (p_state s)(r_current s := st)\<rparr>) (r_current s)" using m(2,3,6) assms(3) by (auto simp: waits_def)
  have cur: "\<forall>t \<in> set ts. tm_par t \<noteq> r_current s" using m(9) by blast
  have i: "idle \<in> set (Q rlist)" "threads_wf S stk T Q ts s" "l_next s alt_alarm_list = alt_alarm_list"
    using k(1,7) assms(2) by (auto simp: rdy_def kmid_def)
  show ?thesis by (rule go_fine [OF kq_sleep [OF k(1)] i(2) k(2,3) w cur assms(4-6) i(1,3)]) (rule that)
qed

text \<open>The running thread waits in a queue that is served first come first and is not that of a semaphore.\<close>

lemma wait_fine:
  assumes "kinv S idle stk T Q ts s" "r_current s \<noteq> idle" "h \<in> S" "\<not> by_prio h" "h \<notin> range At" "time \<noteq> 0" "vt \<in> stk (r_current s)"
    "stacks stk" "s1 = (queue_insert (r_current s) h s)\<lparr>p_u := (p_u s)(r_current s := Wtobjp h)\<rparr>"
  obtains n rest ts' s' where "chSchGoSleepTimeoutS (waiter_state h) time vt s1 = Some s'" "Q rlist = n # rest"
    "kinv S idle stk T (Q(h := Q h @ [r_current s], rlist := rest)) ts' s'" "runs_top (Q(h := Q h @ [r_current s], rlist := rest)) s'"
    "r_current s' = n" "p_u s' = (p_u s)(r_current s := Wtobjp h)"
proof -
  note k = kinvD [OF assms(1)] and m = kmid_facts [OF kinvD(1) [OF assms(1)]]
  let ?c = "r_current s" and ?Q = "Q(h := Q h @ [r_current s])"
  have s1: "s1 = (queue_insert ?c h s)\<lparr>p_u := (p_u s)(?c := Wtobjp h), s_cnt := s_cnt s\<rparr>"
    using assms(9) by (simp add: queue_insert_def Let_def)
  have pu: "p_u s1 = (p_u s)(?c := Wtobjp h)" "s_cnt s1 = s_cnt s" by (simp_all add: s1)
  note e = enqueue_run [OF k(1) assms(3,4) s1 refl]
  have hr: "h \<noteq> rlist" using assms(3) k(4) by auto
  have kq: "kqueues S ?Q ts {} (s1\<lparr>p_state := (p_state s1)(r_current s1 := waiter_state h)\<rparr>)" using e(1,4) by simp
  have cn: "counts S ?Q s1" using k(2) assms(5) pu(2) by (auto simp: counts_def)
  have w: "waits S ?Q (s1\<lparr>p_state := (p_state s1)(r_current s1 := waiter_state h)\<rparr>) (r_current s1)" using e(4,7) by simp
  have cur: "\<forall>t \<in> set ts. tm_par t \<noteq> r_current s1" using m(9) e(4) by simp
  have vt: "vt \<in> stk (r_current s1)" using assms(7) e(4) by simp
  have i: "idle \<in> set (?Q rlist)" using e(6) assms(2) by blast
  obtain n rest ts' s' where g: "chSchGoSleepTimeoutS (waiter_state h) time vt s1 = Some s'" "?Q rlist = n # rest"
    "kinv S idle stk T (?Q(rlist := rest)) ts' s'" "runs_top (?Q(rlist := rest)) s'" "r_current s' = n" "p_u s' = p_u s1" "s_cnt s' = s_cnt s1"
    "p_state s' = (p_state s1)(r_current s1 := waiter_state h, n := THD_STATE_CURRENT)"
    by (rule go_fine [OF kq e(2) cn k(3) w cur assms(6) vt assms(8) i e(3)])
  show ?thesis using g(2,5,6) hr pu(1) by (intro that [OF g(1) _ g(3,4)]) simp_all
qed

section \<open>Waking\<close>

lemma fifo_fine:
  assumes "kinv S idle stk T Q ts s" "h \<in> S" "Q h = t # ys"
  obtains s1 where "fifo_remove h s = (t, s1)" "kmid S idle stk T (Q(h := ys)) ts {t} s1" "t \<in> T"
    "t \<notin> queued (insert rlist S) (Q(h := ys))" "t \<noteq> r_current s" "r_current s1 = r_current s" "p_prio s1 = p_prio s" "s_cnt s1 = s_cnt s"
    "p_u s1 = p_u s" "p_state s1 = p_state s"
proof -
  note k = kinvD [OF assms(1)]
  have q: "Q h = [] @ t # ys" using assms(3) by simp
  obtain s1 where s1: "dequeue t s = (t, s1)" "kmid S idle stk T (Q(h := [] @ ys)) ts {t} s1" "t \<in> T"
    "t \<notin> queued (insert rlist S) (Q(h := [] @ ys))" "t \<noteq> r_current s" "r_current s1 = r_current s" "p_prio s1 = p_prio s"
    "s_cnt s1 = s_cnt s" "p_u s1 = p_u s" "p_state s1 = p_state s"
    by (rule sem_dequeue [OF k(1) assms(2) q])
  have "queues (insert rlist S) Q s" using k(1) by (simp add: kmid_def kqueues_def)
  then have "fifo_remove h s = (t, s1)" using fifo_remove_run [of "insert rlist S" Q s h t ys] assms(2,3) s1(1) by simp
  then show ?thesis using s1 by (intro that [of s1]) simp_all
qed

lemma ready_fine:
  assumes "kmid S idle stk T Q ts {t} s" "counts S Q s" "\<forall>t \<in> set ts. 0 < tm_in t" "t \<in> T" "t \<notin> queued (insert rlist S) Q" "t \<noteq> r_current s"
  obtains s' where "ready_msg t msg s = Some s'" "kinv S idle stk T (Q(rlist := behind s t (Q rlist))) ts s'" "r_current s' = r_current s"
    "p_u s' = (p_u s)(t := Rdymsg msg)" "s_cnt s' = s_cnt s" "p_state s' = (p_state s)(t := THD_STATE_READY)"
proof -
  let ?Q = "Q(rlist := behind s t (Q rlist))"
  have tq: "\<forall>sp \<in> S. t \<notin> set (Q sp)" using assms(5) by (auto simp: queued_simps)
  obtain s1 where s1: "chSchReadyI t s = Some s1" "kmid S idle stk T ?Q ts ({t} - {t}) s1" "kstays S Q ts s ?Q ts s1"
    "r_current s1 = r_current s" "p_u s1 = p_u s" "p_state s1 = (p_state s)(t := THD_STATE_READY)"
    by (rule ready_mid [OF assms(1,4-6)])
  let ?s = "s1\<lparr>p_u := (p_u s1)(t := Rdymsg msg)\<rparr>"
  have "\<forall>sp \<in> S. t \<notin> set (?Q sp)" using tq kmid_facts(1) [OF assms(1)] by auto
  then have m: "kmid S idle stk T ?Q ts {} ?s" using msg_mid(1) [of S idle stk T ?Q ts "{}" s1] s1(2) by simp
  have "counts S ?Q ?s" using kstays_counts [OF s1(3) subset_refl assms(2)] by (simp add: counts_def)
  then have "kinv S idle stk T ?Q ts ?s" using m assms(3) by (simp add: kinv_def)
  then show ?thesis using s1 by (intro that [of ?s]) (simp_all add: ready_msg_def kstays_def)
qed

section \<open>The threads that a service has suspended\<close>

definition rooms :: "ptr set \<Rightarrow> (ptr \<Rightarrow> ptr option) \<Rightarrow> (ptr \<Rightarrow> ptr list) \<Rightarrow> kern \<Rightarrow> bool" where
  "rooms H room Q s \<longleftrightarrow> (\<forall>p h. room p = Some h \<longrightarrow> h \<in> H \<and> (p \<in> set (Q h) \<or> p \<in> rdy Q s \<and> (\<exists>m. p_u s p = Rdymsg m))) \<and>
     (\<forall>h \<in> H. \<forall>p \<in> set (Q h). room p = Some h)"

text \<open>The threads that were woken because what they waited for has come, and that have not run since.\<close>

definition inflight :: "(ptr \<Rightarrow> ptr option) \<Rightarrow> ptr \<Rightarrow> kern \<Rightarrow> ptr set" where
  "inflight room h s = {p. room p = Some h \<and> p_u s p = Rdymsg RDY_OK}"

lemma waiting_u: "kinv S idle stk T Q ts s \<Longrightarrow> h \<in> S \<Longrightarrow> p \<in> set (Q h) \<Longrightarrow> p_u s p = Wtobjp h"
  by (auto simp: kinv_def kmid_def kqueues_def waiters_wf_def)

lemma rooms_moves:
  assumes "rooms H room Q s" "H \<subseteq> S" "kmoves S Q s Q' s'"
  shows "rooms H room Q' s'"
  unfolding rooms_def
proof (intro conjI allI impI ballI)
  fix p h assume r: "room p = Some h"
  then have h: "h \<in> H" and w: "p \<in> set (Q h) \<or> p \<in> rdy Q s \<and> (\<exists>m. p_u s p = Rdymsg m)" using assms(1) unfolding rooms_def by (blast, blast)
  then show "h \<in> H" by simp
  have "h \<in> S" using h assms(2) by blast
  then have "\<forall>p \<in> set (Q h) - set (Q' h). p \<in> rdy Q' s' \<and> p_u s' p = Rdymsg RDY_TIMEOUT"
    and "rdy Q s \<subseteq> rdy Q' s'" "\<forall>p \<in> rdy Q s. p_u s' p = p_u s p"
    using assms(3) by (simp_all add: kmoves_def)
  then show "p \<in> set (Q' h) \<or> p \<in> rdy Q' s' \<and> (\<exists>m. p_u s' p = Rdymsg m)" using w by fastforce
next
  fix h p assume h: "h \<in> H" "p \<in> set (Q' h)"
  then have "p \<in> set (Q h)" using assms(2,3) unfolding kmoves_def by blast
  moreover have "\<forall>h \<in> H. \<forall>p \<in> set (Q h). room p = Some h" using assms(1) unfolding rooms_def by (rule conjunct2)
  ultimately show "room p = Some h" using h(1) by blast
qed

lemma inflight_moves:
  assumes "rooms H room Q s" "H \<subseteq> S" "kmoves S Q s Q' s'" "kinv S idle stk T Q ts s" "kinv S idle stk T Q' ts' s'"
  shows "inflight room h s' = inflight room h s"
proof -
  have "p_u s' p = Rdymsg RDY_OK \<longleftrightarrow> p_u s p = Rdymsg RDY_OK" if r: "room p = Some h" for p
  proof -
    have h: "h \<in> S" and w: "p \<in> set (Q h) \<or> p \<in> rdy Q s" using assms(1,2) r unfolding rooms_def by (blast, blast)
    show ?thesis
    proof (cases "p \<in> set (Q h)")
      case True
      then have u: "p_u s p = Wtobjp h" by (rule waiting_u [OF assms(4) h])
      show ?thesis
      proof (cases "p \<in> set (Q' h)")
        case True
        then show ?thesis using u waiting_u [OF assms(5) h True] by simp
      next
        case False
        then have "p_u s' p = Rdymsg RDY_TIMEOUT" using assms(3) h \<open>p \<in> set (Q h)\<close> by (simp add: kmoves_def)
        then show ?thesis using u by (simp add: RDY_OK_def RDY_TIMEOUT_def)
      qed
    next
      case False
      then show ?thesis using w assms(3) by (simp add: kmoves_def)
    qed
  qed
  then show ?thesis by (auto simp: inflight_def)
qed

lemma moves_empty: "kmoves S Q s Q' s' \<Longrightarrow> h \<in> S \<Longrightarrow> Q h = [] \<Longrightarrow> Q' h = []"
  by (auto simp: kmoves_def)

section \<open>How a service changes its rooms\<close>

lemma roomsD:
  "rooms H room Q s \<Longrightarrow> room p = Some h \<Longrightarrow> h \<in> H"
  "rooms H room Q s \<Longrightarrow> room p = Some h \<Longrightarrow> p \<notin> set (Q h) \<Longrightarrow> p \<in> rdy Q s"
  "rooms H room Q s \<Longrightarrow> room p = Some h \<Longrightarrow> p \<notin> set (Q h) \<Longrightarrow> \<exists>m. p_u s p = Rdymsg m"
  "rooms H room Q s \<Longrightarrow> h \<in> H \<Longrightarrow> p \<in> set (Q h) \<Longrightarrow> room p = Some h"
  unfolding rooms_def by (blast, blast, blast, blast)

lemma roomsI:
  assumes "\<And>p h. room p = Some h \<Longrightarrow> h \<in> H" "\<And>p h. room p = Some h \<Longrightarrow> p \<notin> set (Q h) \<Longrightarrow> p \<in> rdy Q s \<and> (\<exists>m. p_u s p = Rdymsg m)"
    "\<And>p h. h \<in> H \<Longrightarrow> p \<in> set (Q h) \<Longrightarrow> room p = Some h"
  shows "rooms H room Q s"
  unfolding rooms_def using assms by blast

text \<open>The first thread of the queue of \<open>h\<close> is woken.\<close>

lemma rooms_wake:
  assumes "rooms H room Q s" "h \<in> H" "Q h = t # ys" "rlist \<notin> H" "set zs = insert t (set (Q rlist))" "r_current s' = r_current s"
    "p_u s' = (p_u s)(t := Rdymsg msg)"
  shows "rooms H room (Q(h := ys, rlist := zs)) s'"
proof (rule roomsI)
  let ?Q = "Q(h := ys, rlist := zs)"
  have rd: "rdy ?Q s' = insert t (rdy Q s)" using assms(5,6) by (auto simp: rdy_def)
  have Qh: "?Q k = (if k = h then ys else Q k)" if "k \<in> H" for k using that assms(4) by auto
  fix p k
  show "k \<in> H" if "room p = Some k" using roomsD(1) [OF assms(1) that] .
  show "p \<in> rdy ?Q s' \<and> (\<exists>m. p_u s' p = Rdymsg m)" if r: "room p = Some k" "p \<notin> set (?Q k)"
  proof (cases "p = t")
    case True then show ?thesis using rd assms(7) by simp
  next
    case False
    then have "p \<notin> set (Q k)" using r Qh [OF roomsD(1) [OF assms(1) r(1)]] assms(3) by (auto split: if_splits)
    then show ?thesis using False rd assms(7) roomsD(2,3) [OF assms(1) r(1)] by auto
  qed
  show "room p = Some k" if "k \<in> H" "p \<in> set (?Q k)"
    using that Qh [OF that(1)] assms(3) roomsD(4) [OF assms(1) that(1)] by (auto split: if_splits)
qed

lemma inflight_wake:
  assumes "room t = Some h" "p_u s' = (p_u s)(t := Rdymsg msg)"
  shows "k \<noteq> h \<Longrightarrow> inflight room k s' = inflight room k s" "msg = RDY_OK \<Longrightarrow> inflight room h s' = insert t (inflight room h s)"
  using assms by (auto simp: inflight_def)

text \<open>The running thread waits for \<open>h\<close>, or returns from the service; the next thread runs.\<close>

lemma rooms_block:
  assumes "rooms H room Q s" "h \<in> H" "rlist \<notin> H" "r_current s \<notin> (\<Union>k \<in> H. set (Q k))" "Q rlist = n # rest" "r_current s' = n"
    "p_u s' = (p_u s)(r_current s := Wtobjp h)"
  shows "rooms H (room(r_current s := Some h)) (Q(h := Q h @ [r_current s], rlist := rest)) s'"
proof (rule roomsI)
  let ?c = "r_current s" and ?Q = "Q(h := Q h @ [r_current s], rlist := rest)"
  have rd: "rdy Q s - {?c} \<subseteq> rdy ?Q s'" using assms(5,6) by (auto simp: rdy_def)
  have Qh: "?Q k = (if k = h then Q h @ [?c] else Q k)" if "k \<in> H" for k using that assms(3) by auto
  fix p k
  show k: "k \<in> H" if "(room(?c := Some h)) p = Some k"
    using that roomsD(1) [OF assms(1)] assms(2) by (auto split: if_splits)
  show "p \<in> rdy ?Q s' \<and> (\<exists>m. p_u s' p = Rdymsg m)" if r: "(room(?c := Some h)) p = Some k" "p \<notin> set (?Q k)"
  proof (cases "p = ?c")
    case True then show ?thesis using r Qh [OF assms(2)] by auto
  next
    case False
    then have r': "room p = Some k" "p \<notin> set (Q k)" using r Qh [OF k [OF r(1)]] by (auto split: if_splits)
    then show ?thesis using False rd assms(7) roomsD(2,3) [OF assms(1) r'] by auto
  qed
  show "(room(?c := Some h)) p = Some k" if "k \<in> H" "p \<in> set (?Q k)"
    using that Qh [OF that(1)] roomsD(4) [OF assms(1) that(1)] assms(4) by (auto split: if_splits)
qed

lemma rooms_leave:
  assumes "rooms H room Q s" "c \<notin> (\<Union>k \<in> H. set (Q k))"
  shows "rooms H (room(c := None)) Q s"
proof (rule roomsI)
  fix p k
  show "k \<in> H" if "(room(c := None)) p = Some k" using that roomsD(1) [OF assms(1)] by (auto split: if_splits)
  show "p \<in> rdy Q s \<and> (\<exists>m. p_u s p = Rdymsg m)" if "(room(c := None)) p = Some k" "p \<notin> set (Q k)"
    using that roomsD(2,3) [OF assms(1)] by (auto split: if_splits)
  show "(room(c := None)) p = Some k" if "k \<in> H" "p \<in> set (Q k)"
    using that roomsD(4) [OF assms(1) that] assms(2) by auto
qed

lemma rooms_sleep:
  assumes "rooms H room Q s" "rlist \<notin> H" "room (r_current s) = None" "Q rlist = n # rest" "r_current s' = n" "p_u s' = p_u s"
  shows "rooms H room (Q(rlist := rest)) s'"
proof (rule roomsI)
  let ?Q = "Q(rlist := rest)"
  have rd: "rdy Q s - {r_current s} \<subseteq> rdy ?Q s'" using assms(4,5) by (auto simp: rdy_def)
  have Qh: "?Q k = Q k" if "k \<in> H" for k using that assms(2) by auto
  fix p k
  show k: "k \<in> H" if "room p = Some k" using roomsD(1) [OF assms(1) that] .
  show "p \<in> rdy ?Q s' \<and> (\<exists>m. p_u s' p = Rdymsg m)" if r: "room p = Some k" "p \<notin> set (?Q k)"
  proof -
    have "p \<notin> set (Q k)" "p \<noteq> r_current s" using r Qh [OF k [OF r(1)]] assms(3) by auto
    then show ?thesis using rd assms(6) roomsD(2,3) [OF assms(1) r(1)] by auto
  qed
  show "room p = Some k" if "k \<in> H" "p \<in> set (?Q k)" using that roomsD(4) [OF assms(1) that(1)] Qh [OF that(1)] by simp
qed

lemma rooms_new:
  assumes "rooms H room Q s" "h \<notin> insert rlist H" "r_current s' = r_current s" "p_u s' = p_u s"
  shows "rooms (insert h H) room (Q(h := [])) s'"
proof (rule roomsI)
  have rd: "rdy (Q(h := [])) s' = rdy Q s" using assms(2,3) by (auto simp: rdy_def)
  fix p k
  show k: "k \<in> insert h H" if "room p = Some k" using roomsD(1) [OF assms(1) that] by blast
  show "p \<in> rdy (Q(h := [])) s' \<and> (\<exists>m. p_u s' p = Rdymsg m)" if r: "room p = Some k" "p \<notin> set ((Q(h := [])) k)"
    using roomsD(1-3) [OF assms(1) r(1)] r(2) assms(2,4) rd by (auto split: if_splits)
  show "room p = Some k" if "k \<in> insert h H" "p \<in> set ((Q(h := [])) k)"
    using that roomsD(4) [OF assms(1)] by (auto split: if_splits)
qed

end
