(* ===== verification/Ch_Io.thy ===== *)
theory Ch_Io
  imports Ch_Queues_Ring Ch_Rooms
begin

text \<open>
  Threads and interrupts that use I/O queues, as a state machine.  Besides the kernel and the queues the state has the point
  that each thread has reached in a function of the queues; a step is a call, the way on of a thread that has been switched to
  inside such a function, the next byte of a transfer, or an interrupt.  A thread that was suspended inside a queue function
  goes on with the kernel locked, so its next step comes before any other.
\<close>

section \<open>Steps\<close>

text \<open>
  \<open>App\<close>: outside the functions of the queues; \<open>Getting\<close>, \<open>Reading\<close>, \<open>Putting\<close>, \<open>Writing\<close>: suspended in \<open>qwait\<close>, or woken
  but not yet run; \<open>Read_on\<close>, \<open>Write_on\<close>: between two bytes of a transfer, with the kernel unlocked.
\<close>

datatype iopc = App | Getting ptr u32 ptr | Reading xfer | Read_on xfer | Putting ptr u8 u32 ptr | Writing xfer | Write_on xfer

fun room_of :: "iopc \<Rightarrow> ptr option" where
  "room_of (Getting q time vt) = Some q"
| "room_of (Reading x) = Some (x_q x)"
| "room_of (Putting q b time vt) = Some q"
| "room_of (Writing x) = Some (x_q x)"
| "room_of p = None"

record 'd iom =
  io :: "'d ioqs"
  pc :: "ptr \<Rightarrow> iopc"

datatype ioev = Quiet | Accepted ptr u8 | Delivered ptr u8 | Cleared ptr

datatype ioact =
    In_init ptr u32 u32 u32 u32 | Out_init ptr u32 u32 u32 u32
  | Get ptr u32 ptr | Read ptr u32 u32 u32 ptr | Put ptr u8 u32 ptr | Write ptr u32 u32 u32 ptr
  | Resume | Go_on
  | Irq_put ptr u8 | Irq_get ptr | Irq_in_reset ptr | Irq_out_reset ptr | Tick | Yield | Sleep u32 ptr

definition cur :: "'d iom \<Rightarrow> ptr" where
  "cur m = r_current (krn (io m))"

text \<open>The thread that is switched to unlocks the kernel, unless it is inside a queue function.\<close>

definition settle :: "'d iom \<Rightarrow> 'd iom" where
  "settle m = (if room_of (pc m (cur m)) = None then m\<lparr>io := q_unlock (io m)\<rparr> else m)"

definition set_pc :: "ptr \<Rightarrow> iopc \<Rightarrow> 'd ioqs \<Rightarrow> 'd iom \<Rightarrow> 'd iom" where
  "set_pc c w s m = m\<lparr>io := s, pc := (pc m)(c := w)\<rparr>"

definition after_msg :: "iopc \<Rightarrow> (int \<Rightarrow> ioev) \<Rightarrow> 'd iom \<Rightarrow> int option \<times> 'd ioqs \<Rightarrow> ioev \<times> 'd iom" where
  "after_msg w ev m r =
     (case fst r of
        Some v \<Rightarrow> (ev v, set_pc (cur m) App (snd r) m)
      | None \<Rightarrow> (Quiet, settle (set_pc (cur m) w (snd r) m)))"

definition after_xfer :: "(xfer \<Rightarrow> iopc) \<Rightarrow> (xfer \<Rightarrow> iopc) \<Rightarrow> xfer \<Rightarrow> ('d ioqs \<Rightarrow> ioev) \<Rightarrow> 'd iom \<Rightarrow> progress \<times> 'd ioqs \<Rightarrow> ioev \<times> 'd iom" where
  "after_xfer wait on x ev m r =
     (case fst r of
        Moved n \<Rightarrow> (if fst r = xfer_next x then ev (snd r) else Quiet, set_pc (cur m) App (snd r) m)
      | Next y \<Rightarrow> (ev (snd r), set_pc (cur m) (on y) (snd r) m)
      | Blocked y \<Rightarrow> (Quiet, settle (set_pc (cur m) (wait y) (snd r) m)))"

definition got :: "ptr \<Rightarrow> int \<Rightarrow> ioev" where
  "got q v = (if v < Q_OK then Quiet else Delivered q (word_of_int v))"

definition sent :: "ptr \<Rightarrow> u8 \<Rightarrow> int \<Rightarrow> ioev" where
  "sent q b v = (if v = Q_OK then Accepted q b else Quiet)"

definition xfer_start :: "ptr \<Rightarrow> u32 \<Rightarrow> u32 \<Rightarrow> u32 \<Rightarrow> ptr \<Rightarrow> 'd ioqs \<Rightarrow> xfer" where
  "xfer_start q bp n time vt s =
     \<lparr>x_q = q, x_nfy = q_notify s q, x_bp = bp, x_n = n, x_done = 0, x_time = time, x_vt = vt\<rparr>"

definition after_read :: "xfer \<Rightarrow> 'd iom \<Rightarrow> progress \<times> 'd ioqs \<Rightarrow> ioev \<times> 'd iom" where
  "after_read x m = after_xfer Reading Read_on x (\<lambda>s. Delivered (x_q x) (ram s (x_bp x))) m"

definition after_write :: "xfer \<Rightarrow> 'd iom \<Rightarrow> progress \<times> 'd ioqs \<Rightarrow> ioev \<times> 'd iom" where
  "after_write x m = after_xfer Writing Write_on x (\<lambda>_. Accepted (x_q x) (ram (io m) (x_bp x))) m"

text \<open>
  The end of an interrupt handler.  The last two steps below are \<open>chThdYield\<close> and \<open>chThdSleep\<close>, with the kernel unlocked by the
  thread that is switched to.
\<close>

definition irq_exit :: "ioev \<Rightarrow> 'd ioqs \<Rightarrow> 'd iom \<Rightarrow> (ioev \<times> 'd iom) option" where
  "irq_exit ev s m = Option.bind (ALT_OS_INT_EXIT (krn s)) (\<lambda>k. Some (ev, m\<lparr>io := s\<lparr>krn := k\<rparr>\<rparr>))"

definition resume :: "'d notify \<Rightarrow> int \<Rightarrow> 'd iom \<Rightarrow> (ioev \<times> 'd iom) option" where
  "resume nfy msg m =
     (case pc m (cur m) of
        Getting q time vt \<Rightarrow> map_option (after_msg (Getting q time vt) (got q) m) (iq_get_resumed q time vt msg (io m))
      | Putting q b time vt \<Rightarrow> map_option (after_msg (Putting q b time vt) (sent q b) m) (oq_put_resumed nfy q b time vt msg (io m))
      | Reading x \<Rightarrow> map_option (after_read x m) (iq_read_resumed x msg (io m))
      | Writing x \<Rightarrow> map_option (after_write x m) (oq_write_resumed nfy x msg (io m))
      | _ \<Rightarrow> None)"

fun ioexec :: "'d notify \<Rightarrow> kern callbacks \<Rightarrow> (u32 \<Rightarrow> ptr \<Rightarrow> kern \<Rightarrow> kern option) \<Rightarrow> ioact \<Rightarrow> 'd iom \<Rightarrow> (ioev \<times> 'd iom) option" where
  "ioexec nfy call app (In_init q bp sz f l) m = Some (Cleared q, m\<lparr>io := chIQInit q bp sz f l (io m)\<rparr>)"
| "ioexec nfy call app (Out_init q bp sz f l) m = Some (Cleared q, m\<lparr>io := chOQInit q bp sz f l (io m)\<rparr>)"
| "ioexec nfy call app (Get q time vt) m =
     map_option (after_msg (Getting q time vt) (got q) m) (chIQGetTimeout nfy q time vt (io m))"
| "ioexec nfy call app (Put q b time vt) m =
     map_option (after_msg (Putting q b time vt) (sent q b) m) (chOQPutTimeout nfy q b time vt (io m))"
| "ioexec nfy call app (Read q bp n time vt) m =
     map_option (after_read (xfer_start q bp n time vt (io m)) m) (chIQReadTimeout nfy q bp n time vt (io m))"
| "ioexec nfy call app (Write q bp n time vt) m =
     map_option (after_write (xfer_start q bp n time vt (io m)) m) (chOQWriteTimeout nfy q bp n time vt (io m))"
| "ioexec nfy call app Resume m =
     (case p_u (krn (io m)) (cur m) of Rdymsg msg \<Rightarrow> resume nfy msg m | _ \<Rightarrow> None)"
| "ioexec nfy call app Go_on m =
     (case pc m (cur m) of
        Read_on x \<Rightarrow> map_option (after_read x m) (iq_read_next nfy x (io m))
      | Write_on x \<Rightarrow> map_option (after_write x m) (oq_write_next nfy x (io m))
      | _ \<Rightarrow> None)"
| "ioexec nfy call app (Irq_put q b) m = Option.bind (chIQPutI q b (io m)) (\<lambda>(v, s). irq_exit (sent q b v) s m)"
| "ioexec nfy call app (Irq_get q) m = Option.bind (chOQGetI q (io m)) (\<lambda>(v, s). irq_exit (got q v) s m)"
| "ioexec nfy call app (Irq_in_reset q) m = Option.bind (chIQResetI q (io m)) (\<lambda>s. irq_exit (Cleared q) s m)"
| "ioexec nfy call app (Irq_out_reset q) m = Option.bind (chOQResetI q (io m)) (\<lambda>s. irq_exit (Cleared q) s m)"
| "ioexec nfy call app Tick m =
     map_option (\<lambda>k. (Quiet, m\<lparr>io := (io m)\<lparr>krn := k\<rparr>\<rparr>)) (clock_interrupt call app (krn (io m)))"
| "ioexec nfy call app Yield m =
     map_option (\<lambda>k. (Quiet, settle (m\<lparr>io := (io m)\<lparr>krn := k\<rparr>\<rparr>))) (chSchDoYieldS (chSysLock (krn (io m))))"
| "ioexec nfy call app (Sleep time vt) m =
     map_option (\<lambda>k. (Quiet, settle (m\<lparr>io := (io m)\<lparr>krn := k\<rparr>\<rparr>))) (chThdSleepS time vt (chSysLock (krn (io m))))"

text \<open>The memory of the caller that a transfer has still to fill; the buffers of the queues.\<close>

definition xbuf :: "xfer \<Rightarrow> u32 set" where
  "xbuf x = (\<lambda>i. x_bp x + of_nat i) ` {..< unat (x_n x)}"

definition regions :: "ptr set \<Rightarrow> 'd ioqs \<Rightarrow> u32 set" where
  "regions H s = (\<Union>q \<in> H. region q s)"

definition outside :: "'d iom \<Rightarrow> u32 set \<Rightarrow> bool" where
  "outside m R \<longleftrightarrow> (\<forall>p x. pc m p = Reading x \<or> pc m p = Read_on x \<longrightarrow> xbuf x \<inter> R = {})"

text \<open>
  What a caller has to respect: queues are initialised once, with buffers that overlap neither each other nor the memory of a
  transfer; they are used as what they were initialised as; the idle thread does not wait; the timer of a
  wait lies on the stack of the caller; interrupts come when the kernel is not locked.
\<close>

definition in_app :: "ptr \<Rightarrow> (ptr \<Rightarrow> ptr set) \<Rightarrow> ptr \<Rightarrow> 'd iom \<Rightarrow> bool" where
  "in_app idle stk vt m \<longleftrightarrow> pc m (cur m) = App \<and> cur m \<noteq> idle \<and> vt \<in> stk (cur m)"

fun ioallowed :: "ptr \<Rightarrow> (ptr \<Rightarrow> ptr set) \<Rightarrow> ptr set \<Rightarrow> ptr set \<Rightarrow> ptr set \<Rightarrow> 'd iom \<Rightarrow> ioact \<Rightarrow> bool" where
  "ioallowed idle stk S0 ins outs m (In_init q bp sz f l) \<longleftrightarrow> pc m (cur m) = App \<and> q \<in> range Ioq_at - (S0 \<union> ins \<union> outs) \<and> 0 < sz \<and>
     unat bp + unat sz < 2 ^ 32 \<and> {bp ..< bp + sz} \<inter> regions (ins \<union> outs) (io m) = {} \<and> outside m {bp ..< bp + sz}"
| "ioallowed idle stk S0 ins outs m (Out_init q bp sz f l) \<longleftrightarrow> pc m (cur m) = App \<and> q \<in> range Ioq_at - (S0 \<union> ins \<union> outs) \<and> 0 < sz \<and>
     unat bp + unat sz < 2 ^ 32 \<and> {bp ..< bp + sz} \<inter> regions (ins \<union> outs) (io m) = {} \<and> outside m {bp ..< bp + sz}"
| "ioallowed idle stk S0 ins outs m (Get q time vt) \<longleftrightarrow> in_app idle stk vt m \<and> q \<in> ins"
| "ioallowed idle stk S0 ins outs m (Put q b time vt) \<longleftrightarrow> in_app idle stk vt m \<and> q \<in> outs"
| "ioallowed idle stk S0 ins outs m (Read q bp n time vt) \<longleftrightarrow> in_app idle stk vt m \<and> q \<in> ins \<and> 0 < n \<and>
     xbuf (xfer_start q bp n time vt (io m)) \<inter> regions (ins \<union> outs) (io m) = {}"
| "ioallowed idle stk S0 ins outs m (Write q bp n time vt) \<longleftrightarrow> in_app idle stk vt m \<and> q \<in> outs \<and> 0 < n"
| "ioallowed idle stk S0 ins outs m Resume \<longleftrightarrow> room_of (pc m (cur m)) \<noteq> None"
| "ioallowed idle stk S0 ins outs m Go_on \<longleftrightarrow> (\<exists>x. pc m (cur m) = Read_on x \<or> pc m (cur m) = Write_on x)"
| "ioallowed idle stk S0 ins outs m (Irq_put q b) \<longleftrightarrow> room_of (pc m (cur m)) = None \<and> q \<in> ins"
| "ioallowed idle stk S0 ins outs m (Irq_get q) \<longleftrightarrow> room_of (pc m (cur m)) = None \<and> q \<in> outs"
| "ioallowed idle stk S0 ins outs m (Irq_in_reset q) \<longleftrightarrow> room_of (pc m (cur m)) = None \<and> q \<in> ins"
| "ioallowed idle stk S0 ins outs m (Irq_out_reset q) \<longleftrightarrow> room_of (pc m (cur m)) = None \<and> q \<in> outs"
| "ioallowed idle stk S0 ins outs m Tick \<longleftrightarrow> room_of (pc m (cur m)) = None"
| "ioallowed idle stk S0 ins outs m Yield \<longleftrightarrow> pc m (cur m) = App"
| "ioallowed idle stk S0 ins outs m (Sleep time vt) \<longleftrightarrow> in_app idle stk vt m \<and> 0 < time"

fun ins_after :: "ioact \<Rightarrow> ptr set \<Rightarrow> ptr set" where
  "ins_after (In_init q bp sz f l) ins = insert q ins"
| "ins_after a ins = ins"

fun outs_after :: "ioact \<Rightarrow> ptr set \<Rightarrow> ptr set" where
  "outs_after (Out_init q bp sz f l) outs = insert q outs"
| "outs_after a outs = outs"

text \<open>The states that are reached from \<open>m0\<close>, with the queues that have been initialised and the events so far, the last one first.\<close>

inductive ioreach for nfy call app idle stk S0 m0 where
  start: "ioreach nfy call app idle stk S0 m0 {} {} [] m0"
| step: "ioreach nfy call app idle stk S0 m0 ins outs es m \<Longrightarrow> ioallowed idle stk S0 ins outs m a \<Longrightarrow>
    ioexec nfy call app a m = Some (e, m') \<Longrightarrow>
    ioreach nfy call app idle stk S0 m0 (ins_after a ins) (outs_after a outs) (e # es) m'"

text \<open>The bytes that a queue has accepted and delivered since it was last cleared.\<close>

fun accepted :: "ptr \<Rightarrow> ioev list \<Rightarrow> u8 list" where
  "accepted q [] = []"
| "accepted q (Accepted k b # es) = (if k = q then accepted q es @ [b] else accepted q es)"
| "accepted q (Cleared k # es) = (if k = q then [] else accepted q es)"
| "accepted q (e # es) = accepted q es"

fun delivered :: "ptr \<Rightarrow> ioev list \<Rightarrow> u8 list" where
  "delivered q [] = []"
| "delivered q (Delivered k b # es) = (if k = q then delivered q es @ [b] else delivered q es)"
| "delivered q (Cleared k # es) = (if k = q then [] else delivered q es)"
| "delivered q (e # es) = delivered q es"

end
