(* ===== verification/Ch_Io_Mem.thy ===== *)
theory Ch_Io_Mem
  imports Ch_Io
begin

text \<open>What the steps do to the buffers of all the queues.\<close>

definition qs_wf :: "ptr set \<Rightarrow> ptr set \<Rightarrow> 'd ioqs \<Rightarrow> bool" where
  "qs_wf ins outs s \<longleftrightarrow> (\<forall>q \<in> ins \<union> outs. q_wf (q \<in> ins) q s) \<and>
     (\<forall>q \<in> ins \<union> outs. \<forall>k \<in> ins \<union> outs. q \<noteq> k \<longrightarrow> region q s \<inter> region k s = {}) \<and> ins \<inter> outs = {} \<and> ins \<union> outs \<subseteq> range Ioq_at"

fun ev_moves :: "ioev \<Rightarrow> ptr \<Rightarrow> u8 list \<Rightarrow> u8 list \<Rightarrow> bool" where
  "ev_moves Quiet q xs ys \<longleftrightarrow> ys = xs"
| "ev_moves (Accepted k b) q xs ys \<longleftrightarrow> ys = (if k = q then xs @ [b] else xs)"
| "ev_moves (Delivered k b) q xs ys \<longleftrightarrow> (if k = q then xs = b # ys else ys = xs)"
| "ev_moves (Cleared k) q xs ys \<longleftrightarrow> ys = (if k = q then [] else xs)"

text \<open>The effect of a step on the queues.\<close>

definition qs_step :: "ptr set \<Rightarrow> ptr set \<Rightarrow> ioev \<Rightarrow> 'd ioqs \<Rightarrow> 'd ioqs \<Rightarrow> bool" where
  "qs_step ins outs e s s' \<longleftrightarrow> qs_wf ins outs s' \<and> (\<forall>q \<in> ins \<union> outs. region q s' = region q s) \<and>
     (\<forall>q \<in> ins \<union> outs. ev_moves e q (qbytes (q \<in> ins) q s) (qbytes (q \<in> ins) q s'))"

lemma qs_wfD:
  "qs_wf ins outs s \<Longrightarrow> q \<in> ins \<union> outs \<Longrightarrow> q_wf (q \<in> ins) q s"
  "qs_wf ins outs s \<Longrightarrow> q \<in> ins \<union> outs \<Longrightarrow> k \<in> ins \<union> outs \<Longrightarrow> q \<noteq> k \<Longrightarrow> region q s \<inter> region k s = {}"
  "qs_wf ins outs s \<Longrightarrow> q \<in> outs \<Longrightarrow> q \<notin> ins"
  "qs_wf ins outs s \<Longrightarrow> q \<in> ins \<Longrightarrow> q_wf True q s"
  "qs_wf ins outs s \<Longrightarrow> q \<in> outs \<Longrightarrow> q_wf False q s"
proof -
  show d: "q \<in> ins \<union> outs \<Longrightarrow> q_wf (q \<in> ins) q s" "q \<in> outs \<Longrightarrow> q \<notin> ins" if "qs_wf ins outs s" for q using that by (auto simp: qs_wf_def)
  show "q_wf True q s" if "qs_wf ins outs s" "q \<in> ins" using d(1) [OF that(1), of q] that(2) by simp
  show "q_wf False q s" if "qs_wf ins outs s" "q \<in> outs" using d [OF that(1), of q] that(2) by simp
qed (auto simp: qs_wf_def)

text \<open>A change of one queue, which writes to its own buffer only.\<close>

lemma qs_one:
  assumes "qs_wf ins outs s" "q \<in> ins \<union> outs" "q_wf (q \<in> ins) q s'" "ev_moves e q (qbytes (q \<in> ins) q s) (qbytes (q \<in> ins) q s')"
    "\<And>k xs. k \<noteq> q \<Longrightarrow> ev_moves e k xs xs" "q_buffer s' = q_buffer s" "q_top s' = q_top s" "\<And>k. k \<noteq> q \<Longrightarrow> q_rdptr s' k = q_rdptr s k"
    "\<And>k. k \<noteq> q \<Longrightarrow> q_wrptr s' k = q_wrptr s k" "\<And>k. k \<noteq> q \<Longrightarrow> q_counter s' k = q_counter s k"
    "\<And>a. a \<notin> region q s \<Longrightarrow> ram s' a = ram s a"
  shows "qs_step ins outs e s s'"
proof -
  have r: "region k s' = region k s" for k using assms(6,7) by (simp add: region_def)
  have o: "q_wf (k \<in> ins) k s' \<and> qbytes (k \<in> ins) k s' = qbytes (k \<in> ins) k s" if k: "k \<in> ins \<union> outs" "k \<noteq> q" for k
  proof -
    have "\<forall>a \<in> region k s. ram s' a = ram s a" using qs_wfD(2) [OF assms(1,2) k(1)] k(2) assms(11) by blast
    then show ?thesis using q_same [OF qs_wfD(1) [OF assms(1) k(1)], of s'] assms(6-10) k(2) by simp
  qed
  have "q_wf (k \<in> ins) k s'" "ev_moves e k (qbytes (k \<in> ins) k s) (qbytes (k \<in> ins) k s')" if "k \<in> ins \<union> outs" for k
    using o [OF that] assms(3,4,5) by (cases "k = q"; simp)+
  then show ?thesis using assms(1) r unfolding qs_step_def qs_wf_def by simp
qed

lemma qs_store:
  assumes "qs_wf ins outs s" "q \<in> ins \<union> outs" "qused (q \<in> ins) q s < qsize q s"
  shows "qs_step ins outs (Accepted q b) s (q_store q b (q_count q (in_step (q \<in> ins)) s))"
proof -
  note w = qs_wfD(1) [OF assms(1,2)] and r = store_run [OF qs_wfD(1) [OF assms(1,2)] assms(3) refl]
  have "q_wrptr s q \<in> region q s" using w by (simp add: q_wf_def)
  then show ?thesis using r by (intro qs_one [OF assms(1,2)]) (auto simp: store_fields)
qed

lemma qs_load:
  assumes "qs_wf ins outs s" "q \<in> ins \<union> outs" "0 < qused (q \<in> ins) q s" "q_load q (q_count q (out_step (q \<in> ins)) s) = (b, s')"
  shows "qs_step ins outs (Delivered q b) s s'"
proof -
  note r = q_load_run [OF qs_wfD(1) [OF assms(1,2)] assms(3) assms(4) [symmetric]]
  have s': "s' = snd (q_load q (q_count q (out_step (q \<in> ins)) s))" using assms(4) by simp
  show ?thesis using r by (intro qs_one [OF assms(1,2)]) (auto simp: s' load_fields)
qed

lemma qs_clear:
  assumes "qs_wf ins outs s" "q \<in> ins \<union> outs" "q_buffer s' = q_buffer s" "q_top s' = q_top s" "q_wrptr s' = (q_wrptr s)(q := q_buffer s q)"
    "q_rdptr s' = (q_rdptr s)(q := q_buffer s q)" "q_counter s' = (q_counter s)(q := (if q \<in> ins then 0 else chQSizeI q s))" "ram s' = ram s"
  shows "qs_step ins outs (Cleared q) s s'"
proof -
  have r: "q_wf (q \<in> ins) q s'" "qbytes (q \<in> ins) q s' = []"
    using q_reset_run [OF qs_wfD(1) [OF assms(1,2)] assms(3,4)] assms(5-7) by simp_all
  show ?thesis using r assms(3-8) by (intro qs_one [OF assms(1,2)]) auto
qed

text \<open>A change of the memory outside the buffers, of the kernel or of the drivers.\<close>

lemma qs_same:
  assumes "qs_wf ins outs s" "q_buffer s' = q_buffer s" "q_top s' = q_top s" "q_rdptr s' = q_rdptr s" "q_wrptr s' = q_wrptr s"
    "q_counter s' = q_counter s" "\<And>a. a \<in> regions (ins \<union> outs) s \<Longrightarrow> ram s' a = ram s a"
  shows "qs_step ins outs Quiet s s'"
proof -
  have "q_wf (k \<in> ins) k s' \<and> qbytes (k \<in> ins) k s' = qbytes (k \<in> ins) k s \<and> region k s' = region k s" if k: "k \<in> ins \<union> outs" for k
  proof -
    have "\<forall>a \<in> region k s. ram s' a = ram s a" using k assms(7) by (auto simp: regions_def)
    then show ?thesis using q_same [OF qs_wfD(1) [OF assms(1) k], of s'] assms(2-6) by simp
  qed
  then show ?thesis using assms(1) unfolding qs_step_def qs_wf_def by simp
qed

lemma qs_trans:
  assumes "qs_step ins outs e s s'" "qs_step ins outs Quiet s' s''"
  shows "qs_step ins outs e s s''"
  using assms unfolding qs_step_def by simp

lemma qs_trans_left:
  assumes "qs_step ins outs Quiet s s'" "qs_step ins outs e s' s''"
  shows "qs_step ins outs e s s''"
  using assms unfolding qs_step_def by simp

text \<open>A new queue.\<close>

lemma qs_new:
  assumes "qs_wf ins outs s" "q \<in> range Ioq_at - (ins \<union> outs)" "0 < sz" "unat bp + unat sz < 2 ^ 32"
    "{bp ..< bp + sz} \<inter> regions (ins \<union> outs) s = {}" "s' = (if inp then chIQInit q bp sz f l s else chOQInit q bp sz f l s)"
  shows "qs_wf (if inp then insert q ins else ins) (if inp then outs else insert q outs) s'"
    "\<And>k. k \<in> ins \<union> outs \<Longrightarrow> qbytes (k \<in> ins) k s' = qbytes (k \<in> ins) k s"
    "qbytes inp q s' = []" "regions (insert q (ins \<union> outs)) s' = {bp ..< bp + sz} \<union> regions (ins \<union> outs) s"
proof -
  have f: "q_buffer s' = (q_buffer s)(q := bp)" "q_top s' = (q_top s)(q := bp + sz)" "q_rdptr s' = (q_rdptr s)(q := bp)"
    "q_wrptr s' = (q_wrptr s)(q := bp)" "ram s' = ram s" "\<And>k. k \<noteq> q \<Longrightarrow> q_counter s' k = q_counter s k"
    by (simp_all add: assms(6) chIQInit_def chOQInit_def)
  have nq: "k \<noteq> q" if "k \<in> ins \<union> outs" for k using that assms(2) by auto
  have o: "q_wf (k \<in> ins) k s'" "qbytes (k \<in> ins) k s' = qbytes (k \<in> ins) k s" "region k s' = region k s" if k: "k \<in> ins \<union> outs" for k
  proof -
    have e: "q_buffer s' k = q_buffer s k" "q_top s' k = q_top s k" "q_rdptr s' k = q_rdptr s k" "q_wrptr s' k = q_wrptr s k"
      "q_counter s' k = q_counter s k" "\<forall>a \<in> region k s. ram s' a = ram s a" using nq [OF k] f by simp_all
    show "q_wf (k \<in> ins) k s'" "qbytes (k \<in> ins) k s' = qbytes (k \<in> ins) k s" "region k s' = region k s"
      by (rule q_same [OF qs_wfD(1) [OF assms(1) k] e])+
  qed
  show "qbytes (k \<in> ins) k s' = qbytes (k \<in> ins) k s" if "k \<in> ins \<union> outs" for k by (rule o(2) [OF that])
  have w: "q_wf inp q s'" "qbytes inp q s' = []"
    unfolding assms(6) by (cases inp; simp add: q_init_run [OF assms(3,4)])+
  then show "qbytes inp q s' = []" by simp
  have r: "region q s' = {bp ..< bp + sz}" by (simp add: region_def f)
  then show "regions (insert q (ins \<union> outs)) s' = {bp ..< bp + sz} \<union> regions (ins \<union> outs) s" using o(3) by (auto simp: regions_def)
  let ?ins = "if inp then insert q ins else ins" and ?outs = "if inp then outs else insert q outs"
  have H: "?ins \<union> ?outs = insert q (ins \<union> outs)" "?ins \<inter> ?outs = {}" "q \<in> ?ins \<longleftrightarrow> inp"
    using assms(1,2) by (auto simp: qs_wf_def)
  have i: "k \<in> ?ins \<longleftrightarrow> k \<in> ins" if "k \<noteq> q" for k using that by auto
  have "q_wf (k \<in> ?ins) k s'" if "k \<in> insert q (ins \<union> outs)" for k
    using that w(1) o(1) i H(3) nq by (cases "k = q") auto
  moreover have "region k s' \<inter> region j s' = {}" if "k \<in> insert q (ins \<union> outs)" "j \<in> insert q (ins \<union> outs)" "k \<noteq> j" for k j
  proof -
    have d: "{bp ..< bp + sz} \<inter> region i s = {}" if "i \<in> ins \<union> outs" for i using assms(5) that unfolding regions_def by blast
    show ?thesis using that qs_wfD(2) [OF assms(1), of k j] o(3) r d [of k] d [of j] by (cases "k = q"; cases "j = q") auto
  qed
  moreover have "?ins \<union> ?outs \<subseteq> range Ioq_at" using assms(1,2) by (auto simp: H(1) qs_wf_def)
  ultimately show "qs_wf ?ins ?outs s'" using H(1,2) unfolding qs_wf_def by simp
qed

end
