(* ===== verification/Ch_Io_Inv.thy ===== *)
theory Ch_Io_Inv
  imports Ch_Io_Mem
begin

text \<open>
  The invariant of the machine: the invariant of the kernel, the buffers, where the suspended threads are, and that no
  wakeup is lost.  The last part says that while threads wait for a queue, its counter is not above the number of threads
  that have been woken for it and have not run yet.
\<close>

section \<open>The invariant\<close>

definition xwf :: "ptr \<Rightarrow> (ptr \<Rightarrow> ptr set) \<Rightarrow> ptr set \<Rightarrow> ptr \<Rightarrow> xfer \<Rightarrow> bool" where
  "xwf idle stk qs p x \<longleftrightarrow> x_q x \<in> qs \<and> p \<noteq> idle \<and> x_vt x \<in> stk p \<and> x_n x \<noteq> 0"

fun pc_wf :: "ptr \<Rightarrow> (ptr \<Rightarrow> ptr set) \<Rightarrow> ptr set \<Rightarrow> ptr set \<Rightarrow> u32 set \<Rightarrow> ptr \<Rightarrow> iopc \<Rightarrow> bool" where
  "pc_wf idle stk ins outs R p App \<longleftrightarrow> True"
| "pc_wf idle stk ins outs R p (Getting q time vt) \<longleftrightarrow> q \<in> ins \<and> p \<noteq> idle \<and> vt \<in> stk p \<and> time \<noteq> 0"
| "pc_wf idle stk ins outs R p (Putting q b time vt) \<longleftrightarrow> q \<in> outs \<and> p \<noteq> idle \<and> vt \<in> stk p \<and> time \<noteq> 0"
| "pc_wf idle stk ins outs R p (Reading x) \<longleftrightarrow> xwf idle stk ins p x \<and> xbuf x \<inter> R = {} \<and> x_time x \<noteq> 0"
| "pc_wf idle stk ins outs R p (Read_on x) \<longleftrightarrow> xwf idle stk ins p x \<and> xbuf x \<inter> R = {}"
| "pc_wf idle stk ins outs R p (Writing x) \<longleftrightarrow> xwf idle stk outs p x \<and> x_time x \<noteq> 0"
| "pc_wf idle stk ins outs R p (Write_on x) \<longleftrightarrow> xwf idle stk outs p x"

abbreviation room :: "'d iom \<Rightarrow> ptr \<Rightarrow> ptr option" where
  "room m \<equiv> \<lambda>p. room_of (pc m p)"

definition pcs_wf :: "ptr \<Rightarrow> (ptr \<Rightarrow> ptr set) \<Rightarrow> ptr set \<Rightarrow> ptr set \<Rightarrow> 'd iom \<Rightarrow> bool" where
  "pcs_wf idle stk ins outs m \<longleftrightarrow> (\<forall>p. pc_wf idle stk ins outs (regions (ins \<union> outs) (io m)) p (pc m p)) \<and> finite {p. pc m p \<noteq> App}"

definition nolost :: "ptr set \<Rightarrow> (ptr \<Rightarrow> ptr list) \<Rightarrow> 'd iom \<Rightarrow> bool" where
  "nolost H Q m \<longleftrightarrow> (\<forall>q \<in> H. Q q \<noteq> [] \<longrightarrow> unat (q_counter (io m) q) \<le> card (inflight (room m) q (krn (io m))))"

lemma nolostI:
  "(\<And>q. q \<in> H \<Longrightarrow> Q q \<noteq> [] \<Longrightarrow> unat (q_counter (io m) q) \<le> card (inflight (room m) q (krn (io m)))) \<Longrightarrow> nolost H Q m"
  by (simp add: nolost_def)

lemma nolostD: "nolost H Q m \<Longrightarrow> q \<in> H \<Longrightarrow> Q q \<noteq> [] \<Longrightarrow> unat (q_counter (io m) q) \<le> card (inflight (room m) q (krn (io m)))"
  by (simp add: nolost_def)

definition io_mid where
  "io_mid idle stk S0 T ins outs Q ts m \<longleftrightarrow> kinv (S0 \<union> ins \<union> outs) idle stk T Q ts (krn (io m)) \<and>
     rooms (ins \<union> outs) (room m) Q (krn (io m)) \<and> qs_wf ins outs (io m) \<and> pcs_wf idle stk ins outs m \<and> nolost (ins \<union> outs) Q m"

definition io_inv where
  "io_inv idle stk S0 T ins outs m \<longleftrightarrow> (\<exists>Q ts. io_mid idle stk S0 T ins outs Q ts m \<and> runs_top Q (krn (io m)))"

lemma io_midD:
  assumes "io_mid idle stk S0 T ins outs Q ts m"
  shows "kinv (S0 \<union> ins \<union> outs) idle stk T Q ts (krn (io m))" "rooms (ins \<union> outs) (room m) Q (krn (io m))" "qs_wf ins outs (io m)"
    "pcs_wf idle stk ins outs m" "nolost (ins \<union> outs) Q m"
  using assms by (simp_all add: io_mid_def)

lemma io_facts:
  assumes "io_mid idle stk S0 T ins outs Q ts m"
  shows "rlist \<notin> ins \<union> outs" "q \<in> ins \<union> outs \<Longrightarrow> \<not> by_prio q" "q \<in> ins \<union> outs \<Longrightarrow> waiter_state q = THD_STATE_WTQUEUE"
    "q \<in> ins \<union> outs \<Longrightarrow> q \<notin> range At" "cur m \<notin> (\<Union>q \<in> ins \<union> outs. set (Q q))" "finite {p. room m p \<noteq> None}"
    "rlist \<notin> S0 \<union> ins \<union> outs"
proof -
  have H: "ins \<union> outs \<subseteq> range Ioq_at" using io_midD(3) [OF assms] by (simp add: qs_wf_def)
  then show "rlist \<notin> ins \<union> outs" "q \<in> ins \<union> outs \<Longrightarrow> \<not> by_prio q" "q \<in> ins \<union> outs \<Longrightarrow> waiter_state q = THD_STATE_WTQUEUE"
    "q \<in> ins \<union> outs \<Longrightarrow> q \<notin> range At" by (auto simp: by_prio_simps)
  show "rlist \<notin> S0 \<union> ins \<union> outs" by (rule kinvD(4) [OF io_midD(1) [OF assms]])
  show "cur m \<notin> (\<Union>q \<in> ins \<union> outs. set (Q q))"
    using kinvD(6) [OF io_midD(1) [OF assms]] by (auto simp: queued_simps cur_def)
  have "{p. room m p \<noteq> None} \<subseteq> {p. pc m p \<noteq> App}" by auto
  then show "finite {p. room m p \<noteq> None}" using io_midD(4) [OF assms] by (auto simp: pcs_wf_def intro: finite_subset)
qed

lemma finite_inflight: "finite {p. r p \<noteq> None} \<Longrightarrow> finite (inflight r q k)"
  by (rule finite_subset [of _ "{p. r p \<noteq> None}"]) (auto simp: inflight_def)

lemma inflight_u: "p_u k' = p_u k \<Longrightarrow> inflight r q k' = inflight r q k"
  by (simp add: inflight_def)

section \<open>Steps of the kernel alone\<close>

text \<open>The queues and their buffers stay as they are, the kernel moves on.\<close>

lemma io_kernel:
  assumes "io_mid idle stk S0 T ins outs Q ts m" "kinv (S0 \<union> ins \<union> outs) idle stk T Q' ts' k"
    "kmoves (S0 \<union> ins \<union> outs) Q (krn (io m)) Q' k" "s' = (io m)\<lparr>krn := k, driver := d\<rparr>"
  shows "io_mid idle stk S0 T ins outs Q' ts' (m\<lparr>io := s'\<rparr>)" "qs_step ins outs Quiet (io m) s'"
proof -
  note i = io_midD [OF assms(1)]
  have q: "qs_step ins outs Quiet (io m) s'" by (rule qs_same [OF i(3)]) (simp_all add: assms(4))
  then show "qs_step ins outs Quiet (io m) s'" .
  have r: "rooms (ins \<union> outs) (room m) Q' k" by (rule rooms_moves [OF i(2) _ assms(3)]) blast
  have f: "inflight (room m) q k = inflight (room m) q (krn (io m))" for q
    by (rule inflight_moves [OF i(2) _ assms(3) i(1) assms(2)]) blast
  have "regions (ins \<union> outs) s' = regions (ins \<union> outs) (io m)" by (simp add: regions_def region_def assms(4))
  then have "pcs_wf idle stk ins outs (m\<lparr>io := s'\<rparr>)" using i(4) by (simp add: pcs_wf_def)
  moreover have "nolost (ins \<union> outs) Q' (m\<lparr>io := s'\<rparr>)"
    using i(5) f moves_empty [OF assms(3)] by (auto simp: nolost_def assms(4))
  ultimately show "io_mid idle stk S0 T ins outs Q' ts' (m\<lparr>io := s'\<rparr>)"
    using assms(2) r q by (simp add: io_mid_def qs_step_def assms(4))
qed

lemma kinv_status: "kinv S idle stk T Q ts s \<Longrightarrow> kinv S idle stk T Q ts (s\<lparr>status := w\<rparr>)"
  by (simp add: kinv_def kmid_status counts_def)

lemma kmoves_same: "r_current s' = r_current s \<Longrightarrow> p_u s' = p_u s \<Longrightarrow> kmoves S Q s Q s'"
  by (simp add: kmoves_def rdy_def)

lemma io_status:
  assumes "io_mid idle stk S0 T ins outs Q ts m" "k = (krn (io m))\<lparr>status := w\<rparr>"
  shows "io_mid idle stk S0 T ins outs Q ts (m\<lparr>io := (io m)\<lparr>krn := k, driver := d\<rparr>\<rparr>)"
  by (rule io_kernel(1) [OF assms(1) _ _ refl]) (use kinv_status [OF io_midD(1) [OF assms(1)]] assms(2) in \<open>auto intro: kmoves_same\<close>)

lemma io_unlock:
  assumes "io_mid idle stk S0 T ins outs Q ts m"
  shows "io_mid idle stk S0 T ins outs Q ts (m\<lparr>io := q_unlock (io m)\<rparr>)"
  using io_status [OF assms refl, where w = PIE_MSK and d = "driver (io m)"] by (simp add: q_unlock_def lock_simps)

lemma io_lock:
  assumes "io_mid idle stk S0 T ins outs Q ts m"
  shows "io_mid idle stk S0 T ins outs Q ts (m\<lparr>io := q_lock (io m)\<rparr>)"
  using io_status [OF assms refl, where w = "status (krn (io m)) AND NOT PIE_MSK" and d = "driver (io m)"] by (simp add: q_lock_def lock_simps)

lemma settle_run:
  assumes "io_mid idle stk S0 T ins outs Q ts m" "runs_top Q (krn (io m))"
  shows "io_inv idle stk S0 T ins outs (settle m)" "qs_step ins outs Quiet (io m) (io (settle m))"
proof -
  have "runs_top Q (krn (q_unlock (io m)))" using assms(2) by (simp add: q_unlock_def lock_simps runs_top_def)
  then show "io_inv idle stk S0 T ins outs (settle m)"
    using assms io_unlock [OF assms(1)] by (auto simp: io_inv_def settle_def)
  show "qs_step ins outs Quiet (io m) (io (settle m))"
    by (rule qs_same [OF io_midD(3) [OF assms(1)]]) (simp_all add: settle_def q_unlock_def)
qed

text \<open>The end of an interrupt.\<close>

lemma irq_exit_run:
  assumes "io_mid idle stk S0 T ins outs Q ts (m\<lparr>io := s\<rparr>)"
  obtains k where "irq_exit ev s m = Some (ev, m\<lparr>io := s\<lparr>krn := k\<rparr>\<rparr>)" "io_inv idle stk S0 T ins outs (m\<lparr>io := s\<lparr>krn := k\<rparr>\<rparr>)"
    "qs_step ins outs Quiet s (s\<lparr>krn := k\<rparr>)"
proof -
  have i: "kinv (S0 \<union> ins \<union> outs) idle stk T Q ts (krn s)" using io_midD(1) [OF assms] by simp
  obtain k Q' ts' where r: "ALT_OS_INT_EXIT (krn s) = Some k" "kinv (S0 \<union> ins \<union> outs) idle stk T Q' ts' k" "runs_top Q' k"
    "kmoves (S0 \<union> ins \<union> outs) Q (krn s) Q' k" "s_cnt k = s_cnt (krn s)" "rdy Q' k = rdy Q (krn s)" "p_u k = p_u (krn s)" "\<forall>h \<in> S0 \<union> ins \<union> outs. Q' h = Q h"
    by (rule resched_fine [OF resched_exit i TrueI])
  have k: "io_mid idle stk S0 T ins outs Q' ts' (m\<lparr>io := s\<lparr>krn := k\<rparr>\<rparr>)" "qs_step ins outs Quiet s (s\<lparr>krn := k\<rparr>)"
    using io_kernel [OF assms, of Q' ts' k "s\<lparr>krn := k\<rparr>" "driver s"] r by simp_all
  then have "io_inv idle stk S0 T ins outs (m\<lparr>io := s\<lparr>krn := k\<rparr>\<rparr>)" using r(3) by (auto simp: io_inv_def)
  then show ?thesis using r(1) k(2) by (intro that [of k]) (simp_all add: irq_exit_def)
qed

section \<open>Interrupts that wake threads\<close>

lemma notempty_iff:
  assumes "kinv S idle stk T Q ts k" "q \<in> S"
  shows "notempty q k \<longleftrightarrow> Q q \<noteq> []"
proof -
  have "dl (p_next k) (p_prev k) q (Q q)"
    using assms by (auto simp: kinv_def kmid_def kqueues_def queues_def)
  then show ?thesis by (cases "Q q") (auto simp: notempty_def dl_def)
qed

text \<open>The first of the waiting threads is woken.\<close>

lemma wake_first_run:
  assumes "kinv S idle stk T Q ts k" "q \<in> S" "q \<notin> range At" "Q q = t # ys"
  obtains k' zs where "wake_first q msg k = Some k'" "kinv S idle stk T (Q(q := ys, rlist := zs)) ts k'" "set zs = insert t (set (Q rlist))"
    "r_current k' = r_current k" "p_u k' = (p_u k)(t := Rdymsg msg)"
proof -
  note i = kinvD [OF assms(1)]
  obtain k1 where k1: "fifo_remove q k = (t, k1)" "kmid S idle stk T (Q(q := ys)) ts {t} k1" "t \<in> T"
    "t \<notin> queued (insert rlist S) (Q(q := ys))" "t \<noteq> r_current k" "r_current k1 = r_current k" "p_prio k1 = p_prio k" "s_cnt k1 = s_cnt k"
    "p_u k1 = p_u k" "p_state k1 = p_state k"
    by (rule fifo_fine [OF assms(1,2,4)])
  have "counts S (Q(q := ys)) k1" using i(2) assms(3) k1(8) by (auto simp: counts_def)
  moreover have "t \<noteq> r_current k1" using k1(5,6) by simp
  ultimately obtain k2 where k2: "ready_msg t msg k1 = Some k2"
    "kinv S idle stk T (Q(q := ys, rlist := behind k1 t ((Q(q := ys)) rlist))) ts k2" "r_current k2 = r_current k1"
    "p_u k2 = (p_u k1)(t := Rdymsg msg)" "s_cnt k2 = s_cnt k1" "p_state k2 = (p_state k1)(t := THD_STATE_READY)"
    by (rule ready_fine [OF k1(2) _ i(3) k1(3,4)])
  have "q \<noteq> rlist" using assms(2) i(4) by auto
  then show ?thesis using k1(1,6,9) k2 by (intro that [of k2 "behind k1 t ((Q(q := ys)) rlist)"]) (simp_all add: wake_first_def)
qed

lemma wake_waiting_run:
  assumes "io_mid idle stk S0 T ins outs Q ts m" "q \<in> ins \<union> outs" "qs_step ins outs e (io m) s" "krn s = krn (io m)"
    "unat (q_counter s q) \<le> Suc (unat (q_counter (io m) q))" "\<And>j. j \<noteq> q \<Longrightarrow> q_counter s j = q_counter (io m) j"
  obtains k Q' where "wake_waiting q s = Some (s\<lparr>krn := k\<rparr>)" "io_mid idle stk S0 T ins outs Q' ts (m\<lparr>io := s\<lparr>krn := k\<rparr>\<rparr>)"
    "qs_step ins outs e (io m) (s\<lparr>krn := k\<rparr>)"
proof -
  note i = io_midD [OF assms(1)] and fa = io_facts [OF assms(1)]
  have qS: "q \<in> S0 \<union> ins \<union> outs" using assms(2) by blast
  note ne = notempty_iff [OF i(1) qS]
  have same: "qs_wf ins outs (s\<lparr>krn := k\<rparr>)" "regions (ins \<union> outs) (s\<lparr>krn := k\<rparr>) = regions (ins \<union> outs) (io m)"
    "qs_step ins outs e (io m) (s\<lparr>krn := k\<rparr>)" for k
  proof -
    have "qs_step ins outs Quiet s (s\<lparr>krn := k\<rparr>)" by (rule qs_same) (use assms(3) in \<open>simp_all add: qs_step_def\<close>)
    then show s: "qs_step ins outs e (io m) (s\<lparr>krn := k\<rparr>)" by (rule qs_trans [OF assms(3)])
    then show "qs_wf ins outs (s\<lparr>krn := k\<rparr>)" "regions (ins \<union> outs) (s\<lparr>krn := k\<rparr>) = regions (ins \<union> outs) (io m)"
      by (simp_all add: qs_step_def regions_def)
  qed
  have pcs: "pcs_wf idle stk ins outs (m\<lparr>io := s\<lparr>krn := k\<rparr>\<rparr>)" for k using i(4) same(2) by (simp add: pcs_wf_def)
  show ?thesis
  proof (cases "Q q")
    case Nil
    have "nolost (ins \<union> outs) Q (m\<lparr>io := s\<rparr>)"
    proof (rule nolostI)
      fix j assume j: "j \<in> ins \<union> outs" "Q j \<noteq> []"
      then have "j \<noteq> q" using Nil by auto
      then have "q_counter s j = q_counter (io m) j" by (rule assms(6))
      then show "unat (q_counter (io (m\<lparr>io := s\<rparr>)) j) \<le> card (inflight (room (m\<lparr>io := s\<rparr>)) j (krn (io (m\<lparr>io := s\<rparr>))))"
        using nolostD [OF i(5) j] assms(4) by simp
    qed
    then have "io_mid idle stk S0 T ins outs Q ts (m\<lparr>io := s\<lparr>krn := krn s\<rparr>\<rparr>)"
      using i(1,2) same [of "krn s"] pcs [of "krn s"] assms(4) by (simp add: io_mid_def nolost_def)
    then show ?thesis using Nil ne assms(4) same(3) [of "krn s"] by (intro that [of "krn s" Q]) (simp_all add: wake_waiting_def)
  next
    case (Cons t ys)
    obtain k zs where k: "wake_first q Q_OK (krn (io m)) = Some k" "kinv (S0 \<union> ins \<union> outs) idle stk T (Q(q := ys, rlist := zs)) ts k"
      "set zs = insert t (set (Q rlist))" "r_current k = r_current (krn (io m))" "p_u k = (p_u (krn (io m)))(t := Rdymsg Q_OK)"
      by (rule wake_first_run [OF i(1) qS fa(4) [OF assms(2)] Cons])
    let ?Q = "Q(q := ys, rlist := zs)"
    have r: "rooms (ins \<union> outs) (room m) ?Q k" by (rule rooms_wake [OF i(2) assms(2) Cons fa(1) k(3,4,5)])
    have rt: "room m t = Some q" using roomsD(4) [OF i(2) assms(2), of t] Cons by simp
    note fl = inflight_wake [where room = "room m" and t = t and h = q, OF rt k(5)]
    have "t \<notin> inflight (room m) q (krn (io m))" using waiting_u [OF i(1) qS, of t] Cons by (simp add: inflight_def)
    then have ck: "card (inflight (room m) q k) = Suc (card (inflight (room m) q (krn (io m))))"
      using fl(2) finite_inflight [OF fa(6)] by (simp add: Q_OK_def)
    have "nolost (ins \<union> outs) ?Q (m\<lparr>io := s\<lparr>krn := k\<rparr>\<rparr>)"
    proof (rule nolostI)
      fix j assume j: "j \<in> ins \<union> outs" "?Q j \<noteq> []"
      then have "Q j \<noteq> []" using Cons fa(1) by (auto split: if_splits)
      then have "unat (q_counter (io m) j) \<le> card (inflight (room m) j (krn (io m)))" by (rule nolostD [OF i(5) j(1)])
      then show "unat (q_counter (io (m\<lparr>io := s\<lparr>krn := k\<rparr>\<rparr>)) j) \<le> card (inflight (room (m\<lparr>io := s\<lparr>krn := k\<rparr>\<rparr>)) j (krn (io (m\<lparr>io := s\<lparr>krn := k\<rparr>\<rparr>))))"
        using ck fl(1) assms(5,6) by (cases "j = q") auto
    qed
    then have "io_mid idle stk S0 T ins outs ?Q ts (m\<lparr>io := s\<lparr>krn := k\<rparr>\<rparr>)"
      using k(2) r same [of k] pcs [of k] by (simp add: io_mid_def)
    moreover have "wake_waiting q s = Some (s\<lparr>krn := k\<rparr>)" using Cons ne k(1) assms(4) by (simp add: wake_waiting_def)
    ultimately show ?thesis using same(3) that by blast
  qed
qed

text \<open>All waiting threads are woken.\<close>

lemma wake_all_run:
  assumes "kinv S idle stk T Q ts k" "q \<in> H" "H \<subseteq> S" "q \<notin> range At" "rooms H r Q k"
  shows "\<exists>k' zs. wake_all q msg k = Some k' \<and> kinv S idle stk T (Q(q := [], rlist := zs)) ts k' \<and> rooms H r (Q(q := [], rlist := zs)) k' \<and>
    (\<forall>j. j \<noteq> q \<longrightarrow> inflight r j k' = inflight r j k)"
  using assms
proof (induction "Q q" arbitrary: Q k)
  case Nil
  have q: "q \<in> S" using Nil.prems(2,3) by blast
  have "Q(q := [], rlist := Q rlist) = Q" using Nil.hyps by auto
  moreover have "wake_all q msg k = Some k" using notempty_iff [OF Nil.prems(1) q] Nil.hyps by (simp add: wake_all.simps [of q])
  ultimately show ?case using Nil.prems(1,5) by metis
next
  case (Cons t ys)
  have q: "q \<in> S" "q \<noteq> rlist" "rlist \<notin> H" using Cons.prems(2,3) kinvD(4) [OF Cons.prems(1)] by auto
  have Qq: "Q q = t # ys" using Cons.hyps(2) by simp
  obtain k1 zs where k1: "wake_first q msg k = Some k1" "kinv S idle stk T (Q(q := ys, rlist := zs)) ts k1" "set zs = insert t (set (Q rlist))"
    "r_current k1 = r_current k" "p_u k1 = (p_u k)(t := Rdymsg msg)"
    by (rule wake_first_run [OF Cons.prems(1) q(1) Cons.prems(4) Qq])
  let ?Q = "Q(q := ys, rlist := zs)"
  have r: "rooms H r ?Q k1" by (rule rooms_wake [OF Cons.prems(5,2) Qq q(3) k1(3,4,5)])
  have ys: "ys = ?Q q" using q(2) by simp
  obtain k' zs' where k': "wake_all q msg k1 = Some k'" "kinv S idle stk T (?Q(q := [], rlist := zs')) ts k'" "rooms H r (?Q(q := [], rlist := zs')) k'"
    "\<forall>j. j \<noteq> q \<longrightarrow> inflight r j k' = inflight r j k1"
    using Cons.hyps(1) [OF ys k1(2) Cons.prems(2-4) r] by blast
  have rt: "r t = Some q" using roomsD(4) [OF Cons.prems(5,2), of t] Qq by simp
  have e: "?Q(q := [], rlist := zs') = Q(q := [], rlist := zs')" using q(2) by auto
  have "wake_all q msg k = Some k'" using notempty_iff [OF Cons.prems(1) q(1)] Qq k1(1) k'(1) by (simp add: wake_all.simps [of q msg k])
  then show ?case using k'(2-4) inflight_wake(1) [where room = r and t = t and h = q, OF rt k1(5)] unfolding e by auto
qed

lemma reset_all_run:
  assumes "io_mid idle stk S0 T ins outs Q ts m" "q \<in> ins \<union> outs" "qs_step ins outs e (io m) s" "krn s = krn (io m)"
    "\<And>j. j \<noteq> q \<Longrightarrow> q_counter s j = q_counter (io m) j"
  obtains k Q' where "wake_all q msg (krn s) = Some k" "io_mid idle stk S0 T ins outs Q' ts (m\<lparr>io := s\<lparr>krn := k\<rparr>\<rparr>)"
    "qs_step ins outs e (io m) (s\<lparr>krn := k\<rparr>)"
proof -
  note i = io_midD [OF assms(1)] and fa = io_facts [OF assms(1)]
  have HS: "ins \<union> outs \<subseteq> S0 \<union> ins \<union> outs" by blast
  obtain k zs where k: "wake_all q msg (krn (io m)) = Some k" "kinv (S0 \<union> ins \<union> outs) idle stk T (Q(q := [], rlist := zs)) ts k"
    "rooms (ins \<union> outs) (room m) (Q(q := [], rlist := zs)) k" "\<forall>j. j \<noteq> q \<longrightarrow> inflight (room m) j k = inflight (room m) j (krn (io m))"
    using wake_all_run [OF i(1) assms(2) HS fa(4) [OF assms(2)] i(2)] by blast
  let ?Q = "Q(q := [], rlist := zs)" and ?m = "m\<lparr>io := s\<lparr>krn := k\<rparr>\<rparr>"
  have "qs_step ins outs Quiet s (s\<lparr>krn := k\<rparr>)" by (rule qs_same) (use assms(3) in \<open>simp_all add: qs_step_def\<close>)
  then have st: "qs_step ins outs e (io m) (s\<lparr>krn := k\<rparr>)" by (rule qs_trans [OF assms(3)])
  then have "regions (ins \<union> outs) (s\<lparr>krn := k\<rparr>) = regions (ins \<union> outs) (io m)" by (simp add: qs_step_def regions_def)
  then have "pcs_wf idle stk ins outs ?m" using i(4) by (simp add: pcs_wf_def)
  moreover have "nolost (ins \<union> outs) ?Q ?m"
  proof (rule nolostI)
    fix j assume j: "j \<in> ins \<union> outs" "?Q j \<noteq> []"
    then have jq: "j \<noteq> q" "Q j \<noteq> []" using fa(1) by (auto split: if_splits)
    show "unat (q_counter (io ?m) j) \<le> card (inflight (room ?m) j (krn (io ?m)))"
      using nolostD [OF i(5) j(1) jq(2)] k(4) jq(1) assms(5) [OF jq(1)] by simp
  qed
  ultimately have "io_mid idle stk S0 T ins outs ?Q ts ?m" using k(2,3) st by (simp add: io_mid_def qs_step_def)
  then show ?thesis using k(1) assms(4) st by (intro that [of k ?Q]) simp_all
qed

section \<open>The running thread\<close>

text \<open>It returns or goes on, with what it waited for or without.\<close>

lemma io_leave:
  assumes "io_mid idle stk S0 T ins outs Q ts m" "qs_step ins outs e (io m) s" "krn s = (krn (io m))\<lparr>status := w\<rparr>"
    "room_of p = None" "pc_wf idle stk ins outs (regions (ins \<union> outs) (io m)) (cur m) p"
    "\<And>q. q \<in> ins \<union> outs \<Longrightarrow> unat (q_counter s q) \<le> unat (q_counter (io m) q)"
    "\<And>q. q \<in> ins \<union> outs \<Longrightarrow> cur m \<in> inflight (room m) q (krn (io m)) \<Longrightarrow> unat (q_counter s q) \<le> unat (q_counter (io m) q) - 1"
  shows "io_mid idle stk S0 T ins outs Q ts (set_pc (cur m) p s m)"
proof -
  note i = io_midD [OF assms(1)] and fa = io_facts [OF assms(1)]
  let ?m = "set_pc (cur m) p s m"
  have rm: "room ?m = (room m)(cur m := None)" using assms(4) by (auto simp: set_pc_def)
  have k: "kinv (S0 \<union> ins \<union> outs) idle stk T Q ts (krn s)" using kinv_status [OF i(1)] assms(3) by simp
  have "rooms (ins \<union> outs) (room m) Q (krn s)" by (rule rooms_moves [OF i(2) Un_upper2 [of _ S0]])
    (use assms(3) in \<open>simp add: kmoves_def rdy_def Un_assoc\<close>)
  then have r: "rooms (ins \<union> outs) (room ?m) Q (krn s)" unfolding rm by (rule rooms_leave [OF _ fa(5)])
  have rg: "regions (ins \<union> outs) s = regions (ins \<union> outs) (io m)" using assms(2) by (simp add: qs_step_def regions_def)
  have "{q. pc ?m q \<noteq> App} \<subseteq> insert (cur m) {q. pc m q \<noteq> App}" by (auto simp: set_pc_def)
  then have "finite {q. pc ?m q \<noteq> App}" using i(4) by (auto simp: pcs_wf_def intro: finite_subset)
  then have "pcs_wf idle stk ins outs ?m" using i(4) assms(5) rg by (simp add: pcs_wf_def set_pc_def)
  moreover have "nolost (ins \<union> outs) Q ?m"
  proof (rule nolostI)
    fix q assume q: "q \<in> ins \<union> outs" "Q q \<noteq> []"
    have e: "inflight (room ?m) q (krn (io ?m)) = inflight (room m) q (krn (io m)) - {cur m}"
      unfolding rm using assms(3) by (auto simp: inflight_def set_pc_def)
    have n: "unat (q_counter (io m) q) \<le> card (inflight (room m) q (krn (io m)))" by (rule nolostD [OF i(5) q])
    show "unat (q_counter (io ?m) q) \<le> card (inflight (room ?m) q (krn (io ?m)))"
    proof (cases "cur m \<in> inflight (room m) q (krn (io m))")
      case True
      then show ?thesis using n assms(7) [OF q(1) True] unfolding e by (simp add: set_pc_def card_Diff_singleton)
    next
      case False
      then show ?thesis using n assms(6) [OF q(1)] unfolding e by (simp add: set_pc_def)
    qed
  qed
  ultimately show ?thesis using k r assms(2) by (simp add: io_mid_def qs_step_def set_pc_def)
qed

text \<open>It finds nothing and waits.\<close>

lemma io_block:
  assumes "io_mid idle stk S0 T ins outs Q ts m" "q \<in> ins \<union> outs" "q_counter (io m) q = 0" "time \<noteq> 0" "vt \<in> stk (cur m)" "cur m \<noteq> idle"
    "stacks stk" "room_of p = Some q" "pc_wf idle stk ins outs (regions (ins \<union> outs) (io m)) (cur m) p" "room m (cur m) \<in> {None, Some q}"
  obtains k where "qwait q time vt (krn (io m)) = Some (None, k)"
    "io_inv idle stk S0 T ins outs (settle (set_pc (cur m) p ((io m)\<lparr>krn := k\<rparr>) m))"
    "qs_step ins outs Quiet (io m) (io (settle (set_pc (cur m) p ((io m)\<lparr>krn := k\<rparr>) m)))"
proof -
  note i = io_midD [OF assms(1)] and fa = io_facts [OF assms(1)]
  let ?k = "krn (io m)" and ?c = "r_current (krn (io m))"
  have qS: "q \<in> S0 \<union> ins \<union> outs" using assms(2) by blast
  have c: "?c \<noteq> idle" "vt \<in> stk ?c" "?c \<notin> (\<Union>q \<in> ins \<union> outs. set (Q q))" using assms(5,6) fa(5) by (simp_all add: cur_def)
  let ?s1 = "(queue_insert ?c q ?k)\<lparr>p_u := (p_u ?k)(?c := Wtobjp q)\<rparr>"
  obtain n rest ts' k where k: "chSchGoSleepTimeoutS (waiter_state q) time vt ?s1 = Some k" "Q rlist = n # rest"
    "kinv (S0 \<union> ins \<union> outs) idle stk T (Q(q := Q q @ [?c], rlist := rest)) ts' k" "runs_top (Q(q := Q q @ [?c], rlist := rest)) k"
    "r_current k = n" "p_u k = (p_u ?k)(?c := Wtobjp q)"
    by (rule wait_fine [OF i(1) c(1) qS fa(2) [OF assms(2)] fa(4) [OF assms(2)] assms(4) c(2) assms(7) refl])
  let ?Q = "Q(q := Q q @ [?c], rlist := rest)" and ?s = "(io m)\<lparr>krn := k\<rparr>"
  let ?m = "set_pc (cur m) p ?s m"
  have e: "queue_insert (r_current (?k\<lparr>p_u := (p_u ?k)(?c := Wtobjp q)\<rparr>)) q (?k\<lparr>p_u := (p_u ?k)(?c := Wtobjp q)\<rparr>) = ?s1"
    by (simp add: queue_insert_def Let_def)
  have w: "qwait q time vt ?k = Some (None, k)"
    using assms(4) k(1) fa(3) [OF assms(2)] unfolding qwait_def Let_def e by (simp add: TIME_IMMEDIATE_def)
  have rm: "room ?m = (room m)(?c := Some q)" using assms(8) by (auto simp: set_pc_def cur_def)
  have r: "rooms (ins \<union> outs) (room ?m) ?Q k" unfolding rm by (rule rooms_block [OF i(2) assms(2) fa(1) c(3) k(2,5,6)])
  have q: "qs_step ins outs Quiet (io m) ?s" by (rule qs_same [OF i(3)]) simp_all
  have rg: "regions (ins \<union> outs) ?s = regions (ins \<union> outs) (io m)" by (simp add: regions_def region_def)
  have "{j. pc ?m j \<noteq> App} \<subseteq> insert (cur m) {j. pc m j \<noteq> App}" by (auto simp: set_pc_def)
  then have "finite {j. pc ?m j \<noteq> App}" using i(4) by (auto simp: pcs_wf_def intro: finite_subset)
  then have pcs: "pcs_wf idle stk ins outs ?m" using i(4) assms(9) rg by (simp add: pcs_wf_def set_pc_def)
  have "nolost (ins \<union> outs) ?Q ?m"
  proof (rule nolostI)
    fix j assume j: "j \<in> ins \<union> outs" "?Q j \<noteq> []"
    show "unat (q_counter (io ?m) j) \<le> card (inflight (room ?m) j (krn (io ?m)))"
    proof (cases "j = q")
      case True then show ?thesis using assms(3) by (simp add: set_pc_def)
    next
      case False
      then have Qj: "Q j \<noteq> []" using j fa(1) by (auto split: if_splits)
      have "inflight (room ?m) j k = inflight (room m) j ?k"
        unfolding rm using False assms(10) k(6) by (auto simp: inflight_def cur_def)
      then show ?thesis using nolostD [OF i(5) j(1) Qj] by (simp add: set_pc_def)
    qed
  qed
  then have mid: "io_mid idle stk S0 T ins outs ?Q ts' ?m" using k(3) r q pcs by (simp add: io_mid_def qs_step_def set_pc_def)
  have top: "runs_top ?Q (krn (io ?m))" using k(4) by (simp add: set_pc_def)
  have "qs_step ins outs Quiet (io m) (io (settle ?m))"
    by (rule qs_trans [OF q]) (use settle_run(2) [OF mid top] in \<open>simp add: set_pc_def\<close>)
  then show ?thesis using settle_run(1) [OF mid top] by (intro that [OF w])
qed

text \<open>The way out of the room for a thread that was woken without getting anything.\<close>

lemma io_give_up:
  assumes "io_mid idle stk S0 T ins outs Q ts m" "room m (cur m) = None \<or> p_u (krn (io m)) (cur m) \<noteq> Rdymsg RDY_OK"
  shows "io_mid idle stk S0 T ins outs Q ts (set_pc (cur m) App (q_unlock (io m)) m)" "qs_step ins outs Quiet (io m) (q_unlock (io m))"
proof -
  show q: "qs_step ins outs Quiet (io m) (q_unlock (io m))"
    by (rule qs_same [OF io_midD(3) [OF assms(1)]]) (simp_all add: q_unlock_def)
  show "io_mid idle stk S0 T ins outs Q ts (set_pc (cur m) App (q_unlock (io m)) m)"
    by (rule io_leave [OF assms(1) q, where w = PIE_MSK]) (use assms(2) in \<open>auto simp: q_unlock_def lock_simps inflight_def\<close>)
qed

end
