(* ===== verification/Ch_Io_Steps.thy ===== *)
theory Ch_Io_Steps
  imports Ch_Io_Inv
begin

text \<open>Every step returns and keeps the invariant, and its event is what it does to the bytes in the queues.\<close>

section \<open>Loops of the threads\<close>

definition step_ok where
  "step_ok idle stk S0 T ins outs m r \<longleftrightarrow> io_inv idle stk S0 T ins outs (snd r) \<and> qs_step ins outs (fst r) (io m) (io (snd r))"

lemma step_okI:
  assumes "io_mid idle stk S0 T ins outs Q ts m'" "runs_top Q (krn (io m'))" "qs_step ins outs e (io m) (io m')"
  shows "step_ok idle stk S0 T ins outs m (e, m')"
  using assms by (auto simp: step_ok_def io_inv_def)

text \<open>One unit of the counter is taken.\<close>

lemma io_take:
  assumes "io_mid idle stk S0 T ins outs Q ts m" "q \<in> ins \<union> outs" "q_counter (io m) q \<noteq> 0" "qs_step ins outs e (io m) s"
    "krn s = (krn (io m))\<lparr>status := w\<rparr>" "q_counter s = (q_counter (io m))(q := q_counter (io m) q - 1)" "room_of p = None"
    "pc_wf idle stk ins outs (regions (ins \<union> outs) (io m)) (cur m) p" "room m (cur m) \<in> {None, Some q}"
  shows "io_mid idle stk S0 T ins outs Q ts (set_pc (cur m) p s m)"
proof (rule io_leave [OF assms(1,4,5,7,8)])
  note d = counter_down [OF assms(3)]
  fix j assume "j \<in> ins \<union> outs"
  show "unat (q_counter s j) \<le> unat (q_counter (io m) j)" using d assms(6) by simp
  assume "cur m \<in> inflight (room m) j (krn (io m))"
  then have "j = q" using assms(9) by (auto simp: inflight_def)
  then show "unat (q_counter s j) \<le> unat (q_counter (io m) j) - 1" using d assms(6) by simp
qed

text \<open>What the loops need to know when they look at the counter.\<close>

definition at_loop where
  "at_loop idle stk S0 T ins outs Q ts q time vt m \<longleftrightarrow> io_mid idle stk S0 T ins outs Q ts m \<and> runs_top Q (krn (io m)) \<and> vt \<in> stk (cur m) \<and>
     cur m \<noteq> idle \<and> room m (cur m) \<in> {None, Some q} \<and> (time = 0 \<longrightarrow> room m (cur m) = None)"

lemma at_loopD:
  assumes "at_loop idle stk S0 T ins outs Q ts q time vt m"
  shows "io_mid idle stk S0 T ins outs Q ts m" "runs_top Q (krn (io m))" "vt \<in> stk (cur m)" "cur m \<noteq> idle" "room m (cur m) \<in> {None, Some q}"
    "time = 0 \<Longrightarrow> room m (cur m) = None"
  using assms by (simp_all add: at_loop_def)

lemma unlock_simps [simp]:
  "krn (q_unlock s) = (krn s)\<lparr>status := PIE_MSK\<rparr>" "q_counter (q_unlock s) = q_counter s" "ram (q_unlock s) = ram s"
  "regions H (q_unlock s) = regions H s"
  by (simp_all add: q_unlock_def lock_simps regions_def region_def)

lemma qs_unlock: "qs_step ins outs e s s' \<Longrightarrow> qs_step ins outs e s (q_unlock s')"
  by (rule qs_trans, assumption, rule qs_same) (simp_all add: qs_step_def q_unlock_def)

lemma out_in_step: "out_step True = (\<lambda>n. n - 1)" "in_step False = (\<lambda>n. n - 1)" "out_step False = (\<lambda>n. n + 1)" "in_step True = (\<lambda>n. n + 1)"
  by (auto simp: out_step_def in_step_def)

lemma take_run:
  assumes "qs_wf ins outs s" "q \<in> ins" "q_counter s q \<noteq> 0"
  obtains b s' where "iq_take q s = (b, s')" "qs_step ins outs (Delivered q b) s s'" "krn s' = krn s" "q_counter s' = (q_counter s)(q := q_counter s q - 1)"
proof -
  have u: "0 < qused (q \<in> ins) q s" "q \<in> ins \<union> outs" using assms(2,3) by (simp_all add: qused_def unat_gt_0)
  obtain b s' where l: "q_load q (q_count q (out_step (q \<in> ins)) s) = (b, s')" by force
  have s': "s' = snd (q_load q (q_count q (out_step (q \<in> ins)) s))" using l by simp
  show ?thesis
    by (rule that [OF _ qs_load [OF assms(1) u(2,1) l]]) (use l assms(2) s' in \<open>simp_all add: iq_take_def out_in_step load_fields\<close>)
qed

lemma add_run:
  assumes "qs_wf ins outs s" "q \<in> outs" "q_counter s q \<noteq> 0"
  shows "qs_step ins outs (Accepted q b) s (oq_add q b s)" "krn (oq_add q b s) = krn s" "q_counter (oq_add q b s) = (q_counter s)(q := q_counter s q - 1)"
    "ram (oq_add q b s) = (ram s)(q_wrptr s q := b)" "q_notify (oq_add q b s) = q_notify s"
proof -
  have n: "q \<notin> ins" by (rule qs_wfD(3) [OF assms(1,2)])
  then have "qused (q \<in> ins) q s < qsize q s" "q \<in> ins \<union> outs"
    using assms(2,3) q_wf_pos [OF qs_wfD(5) [OF assms(1,2)]] by (auto simp: qused_def unat_gt_0)
  from qs_store [OF assms(1) this(2,1), of b] show "qs_step ins outs (Accepted q b) s (oq_add q b s)"
    using n by (simp add: oq_add_def out_in_step)
  show "krn (oq_add q b s) = krn s" "q_counter (oq_add q b s) = (q_counter s)(q := q_counter s q - 1)"
    "ram (oq_add q b s) = (ram s)(q_wrptr s q := b)" "q_notify (oq_add q b s) = q_notify s"
    by (simp_all add: oq_add_def store_fields)
qed

lemma msgs [simp]: "Q_TIMEOUT < Q_OK" "Q_TIMEOUT \<noteq> Q_OK" "Q_RESET < Q_OK" "Q_RESET \<noteq> Q_OK" "Q_FULL < Q_OK" "Q_EMPTY < Q_OK"
  "Q_FULL \<noteq> Q_OK" "Q_EMPTY \<noteq> Q_OK"
  by (simp_all add: Q_TIMEOUT_def Q_RESET_def Q_OK_def RDY_TIMEOUT_def RDY_RESET_def RDY_OK_def Q_FULL_def Q_EMPTY_def)

lemma got_simps: "v < Q_OK \<Longrightarrow> got q v = Quiet" "got q (uint b) = Delivered q b" "sent q b v = (if v = Q_OK then Accepted q b else Quiet)"
  by (simp_all add: got_def sent_def Q_OK_def RDY_OK_def)

lemma give_up_run:
  assumes "io_mid idle stk S0 T ins outs Q ts m" "runs_top Q (krn (io m))" "room m (cur m) = None \<or> p_u (krn (io m)) (cur m) \<noteq> Rdymsg RDY_OK"
  shows "step_ok idle stk S0 T ins outs m (Quiet, set_pc (cur m) App (q_unlock (io m)) m)"
  by (rule step_okI [OF io_give_up(1) [OF assms(1,3)]]) (use io_give_up(2) [OF assms(1,3)] assms(2) in \<open>simp_all add: set_pc_def runs_top_status\<close>)

text \<open>Nothing is there: the caller gives up at once, or waits at the point \<open>p\<close>.\<close>

lemma loop_wait:
  assumes "at_loop idle stk S0 T ins outs Q ts q time vt m" "q \<in> ins \<union> outs" "q_counter (io m) q = 0" "stacks stk" "room_of p = Some q"
    "time \<noteq> 0 \<Longrightarrow> pc_wf idle stk ins outs (regions (ins \<union> outs) (io m)) (cur m) p"
  obtains (now) "qwait q time vt (krn (io m)) = Some (Some Q_TIMEOUT, krn (io m))"
      "step_ok idle stk S0 T ins outs m (Quiet, set_pc (cur m) App (q_unlock (io m)) m)"
    | (later) k where "qwait q time vt (krn (io m)) = Some (None, k)"
      "step_ok idle stk S0 T ins outs m (Quiet, settle (set_pc (cur m) p ((io m)\<lparr>krn := k\<rparr>) m))"
proof (cases "time = 0")
  case True
  note a = at_loopD [OF assms(1)]
  show ?thesis using give_up_run [OF a(1,2)] a(6) True by (intro now) (simp_all add: qwait_def TIME_IMMEDIATE_def)
next
  case False
  note a = at_loopD [OF assms(1)]
  obtain k where k: "qwait q time vt (krn (io m)) = Some (None, k)"
    "io_inv idle stk S0 T ins outs (settle (set_pc (cur m) p ((io m)\<lparr>krn := k\<rparr>) m))"
    "qs_step ins outs Quiet (io m) (io (settle (set_pc (cur m) p ((io m)\<lparr>krn := k\<rparr>) m)))"
    by (rule io_block [OF a(1) assms(2,3) False a(3,4) assms(4,5) assms(6) [OF False] a(5)])
  then show ?thesis using later by (simp add: step_ok_def)
qed

text \<open>Something is there: it is taken, and the caller goes on at the point \<open>p\<close>.\<close>

lemma loop_take:
  assumes "at_loop idle stk S0 T ins outs Q ts q time vt m" "q \<in> ins \<union> outs" "q_counter (io m) q \<noteq> 0" "qs_step ins outs e (io m) s"
    "krn s = krn (io m)" "q_counter s = (q_counter (io m))(q := q_counter (io m) q - 1)" "room_of p = None"
    "pc_wf idle stk ins outs (regions (ins \<union> outs) (io m)) (cur m) p"
  shows "step_ok idle stk S0 T ins outs m (e, set_pc (cur m) p (q_unlock s) m)"
proof (rule step_okI)
  note a = at_loopD [OF assms(1)]
  show "io_mid idle stk S0 T ins outs Q ts (set_pc (cur m) p (q_unlock s) m)"
    by (rule io_take [OF a(1) assms(2,3) qs_unlock [OF assms(4)] _ _ assms(7,8) a(5), where w = PIE_MSK]) (use assms(5,6) in simp_all)
  show "runs_top Q (krn (io (set_pc (cur m) p (q_unlock s) m)))" using a(2) assms(5) by (simp add: set_pc_def runs_top_status)
  show "qs_step ins outs e (io m) (io (set_pc (cur m) p (q_unlock s) m))" using qs_unlock [OF assms(4)] by (simp add: set_pc_def)
qed

lemma get_loop_run:
  assumes "at_loop idle stk S0 T ins outs Q ts q time vt m" "q \<in> ins" "stacks stk"
  shows "\<exists>r. iq_get_loop q time vt (io m) = Some r \<and> step_ok idle stk S0 T ins outs m (after_msg (Getting q time vt) (got q) m r)"
proof -
  note a = at_loopD [OF assms(1)]
  have q: "q \<in> ins \<union> outs" using assms(2) by blast
  show ?thesis
  proof (cases "q_counter (io m) q = 0")
    case True
    then have e: "chIQIsEmptyI q (io m)" by (simp add: chIQIsEmptyI_def chQSpaceI_def)
    show ?thesis
      by (rule loop_wait [OF assms(1) q True assms(3), of "Getting q time vt"])
        (use assms(2) a(3,4) e in \<open>auto simp: iq_get_loop.simps [of q] after_msg_def got_simps\<close>)
  next
    case False
    then have e: "\<not> chIQIsEmptyI q (io m)" by (simp add: chIQIsEmptyI_def chQSpaceI_def)
    obtain b s' where s': "iq_take q (io m) = (b, s')" "qs_step ins outs (Delivered q b) (io m) s'" "krn s' = krn (io m)"
      "q_counter s' = (q_counter (io m))(q := q_counter (io m) q - 1)"
      by (rule take_run [OF io_midD(3) [OF a(1)] assms(2) False])
    from loop_take [OF assms(1) q False s'(2-4), of App] show ?thesis
      using e s'(1) by (simp add: iq_get_loop.simps [of q] after_msg_def got_simps)
  qed
qed

text \<open>The rest of a transfer.\<close>

lemma xfer_next_cases:
  assumes "x_n x \<noteq> 0"
  obtains (last) "xfer_next x = Moved (x_done x + 1)"
    | (more) y where "xfer_next x = Next y" "x_q y = x_q x" "x_vt y = x_vt x" "x_n y \<noteq> 0" "xbuf y \<subseteq> xbuf x"
proof (cases "x_n x = 1")
  case True then show ?thesis using last by (simp add: xfer_next_def)
next
  case False
  let ?y = "x\<lparr>x_bp := x_bp x + 1, x_done := x_done x + 1, x_n := x_n x - 1\<rparr>"
  have n: "unat (x_n x - 1) = unat (x_n x) - 1" by (rule counter_down [OF assms])
  have "x_bp x + 1 + of_nat i \<in> xbuf x" if "i < unat (x_n x - 1)" for i
    using that n by (auto simp: xbuf_def intro!: image_eqI [of _ _ "Suc i"])
  then have "xbuf ?y \<subseteq> xbuf x" by (auto simp: xbuf_def)
  then show ?thesis using False assms by (intro more [of ?y]) (simp_all add: xfer_next_def Let_def)
qed

lemma moved_not_next: "Moved (x_done x) \<noteq> xfer_next x"
  by (auto simp: xfer_next_def Let_def)

lemma xbuf_first: "x_n x \<noteq> 0 \<Longrightarrow> x_bp x \<in> xbuf x"
  by (auto simp: xbuf_def unat_gt_0 intro!: image_eqI [of _ _ 0])

lemma read_loop_run:
  assumes "at_loop idle stk S0 T ins outs Q ts (x_q x) (x_time x) (x_vt x) m" "xwf idle stk ins (cur m) x" "stacks stk"
    "xbuf x \<inter> regions (ins \<union> outs) (io m) = {}"
  shows "\<exists>r. iq_read_loop x (io m) = Some r \<and> step_ok idle stk S0 T ins outs m (after_read x m r)"
proof -
  note a = at_loopD [OF assms(1)]
  let ?q = "x_q x"
  have q: "?q \<in> ins" "?q \<in> ins \<union> outs" "x_n x \<noteq> 0" using assms(2) by (simp_all add: xwf_def)
  show ?thesis
  proof (cases "q_counter (io m) ?q = 0")
    case True
    then have e: "chIQIsEmptyI ?q (io m)" by (simp add: chIQIsEmptyI_def chQSpaceI_def)
    show ?thesis
      by (rule loop_wait [OF assms(1) q(2) True assms(3), of "Reading x"])
        (use assms(2,4) e in \<open>auto simp: iq_read_loop.simps [of x] after_read_def after_xfer_def moved_not_next\<close>)
  next
    case False
    then have e: "\<not> chIQIsEmptyI ?q (io m)" by (simp add: chIQIsEmptyI_def chQSpaceI_def)
    obtain b s' where s': "iq_take ?q (io m) = (b, s')" "qs_step ins outs (Delivered ?q b) (io m) s'" "krn s' = krn (io m)"
      "q_counter s' = (q_counter (io m))(?q := q_counter (io m) ?q - 1)"
      by (rule take_run [OF io_midD(3) [OF a(1)] q(1) False])
    let ?s = "s'\<lparr>ram := (ram s')(x_bp x := b)\<rparr>"
    have "x_bp x \<notin> regions (ins \<union> outs) s'" using assms(4) xbuf_first [OF q(3)] s'(2) by (auto simp: qs_step_def regions_def)
    then have "qs_step ins outs Quiet s' ?s" by (intro qs_same) (use s'(2) in \<open>auto simp: qs_step_def\<close>)
    then have st: "qs_step ins outs (Delivered ?q b) (io m) ?s" by (rule qs_trans [OF s'(2)])
    have c: "krn ?s = krn (io m)" "q_counter ?s = (q_counter (io m))(?q := q_counter (io m) ?q - 1)" using s'(3,4) by simp_all
    have r: "iq_read_loop x (io m) = Some (xfer_next x, q_unlock ?s)" using e s'(1) by (simp add: iq_read_loop.simps [of x])
    show ?thesis
      using q(3)
    proof (cases rule: xfer_next_cases)
      case last
      from loop_take [OF assms(1) q(2) False st c, of App] show ?thesis using r last by (simp add: after_read_def after_xfer_def)
    next
      case (more y)
      have "pc_wf idle stk ins outs (regions (ins \<union> outs) (io m)) (cur m) (Read_on y)" using more assms(2,4) by (auto simp: xwf_def)
      from loop_take [OF assms(1) q(2) False st c _ this] show ?thesis using r more(1) by (simp add: after_read_def after_xfer_def)
    qed
  qed
qed

text \<open>A callback that changes the state of its driver only.\<close>

definition quiet :: "'d notify \<Rightarrow> bool" where
  "quiet nfy \<longleftrightarrow> (\<forall>f q s. \<exists>d. nfy f q s = s\<lparr>driver := d\<rparr>)"

lemma q_call_run:
  assumes "quiet nfy"
  obtains d where "q_call nfy f q s = s\<lparr>driver := d\<rparr>"
proof (cases "f = 0")
  case True then show ?thesis using that [of "driver s"] by (simp add: q_call_def)
next
  case False
  obtain d where "nfy f q s = s\<lparr>driver := d\<rparr>" using assms unfolding quiet_def by blast
  then show ?thesis using that [of d] False by (simp add: q_call_def)
qed

lemma qs_driver: "qs_step ins outs e s s' \<Longrightarrow> qs_step ins outs e s (s'\<lparr>driver := d\<rparr>)"
  by (rule qs_trans, assumption, rule qs_same) (simp_all add: qs_step_def)

lemma put_loop_run:
  assumes "at_loop idle stk S0 T ins outs Q ts q time vt m" "q \<in> outs" "stacks stk" "quiet nfy"
  shows "\<exists>r. oq_put_loop nfy q b time vt (io m) = Some r \<and>
    step_ok idle stk S0 T ins outs m (after_msg (Putting q b time vt) (sent q b) m r)"
proof -
  note a = at_loopD [OF assms(1)]
  have q: "q \<in> ins \<union> outs" using assms(2) by blast
  show ?thesis
  proof (cases "q_counter (io m) q = 0")
    case True
    then have e: "chOQIsFullI q (io m)" by (simp add: chOQIsFullI_def chQSpaceI_def)
    show ?thesis
      by (rule loop_wait [OF assms(1) q True assms(3), of "Putting q b time vt"])
        (use assms(2) a(3,4) e in \<open>auto simp: oq_put_loop.simps [of nfy q] after_msg_def got_simps\<close>)
  next
    case False
    then have e: "\<not> chOQIsFullI q (io m)" by (simp add: chOQIsFullI_def chQSpaceI_def)
    note s' = add_run [OF io_midD(3) [OF a(1)] assms(2) False, of b]
    obtain d where d: "q_call nfy (q_notify (oq_add q b (io m)) q) q (oq_add q b (io m)) = (oq_add q b (io m))\<lparr>driver := d\<rparr>"
      by (rule q_call_run [OF assms(4)])
    let ?s = "(oq_add q b (io m))\<lparr>driver := d\<rparr>"
    have c: "krn ?s = krn (io m)" "q_counter ?s = (q_counter (io m))(q := q_counter (io m) q - 1)" using s'(2,3) by simp_all
    from loop_take [OF assms(1) q False qs_driver [OF s'(1)] c, of App] show ?thesis
      using e d by (simp add: oq_put_loop.simps [of nfy q] after_msg_def got_simps Let_def)
  qed
qed

lemma write_loop_run:
  assumes "at_loop idle stk S0 T ins outs Q ts (x_q x) (x_time x) (x_vt x) m" "xwf idle stk outs (cur m) x" "stacks stk" "quiet nfy"
  shows "\<exists>r. oq_write_loop nfy x (io m) = Some r \<and> step_ok idle stk S0 T ins outs m (after_write x m r)"
proof -
  note a = at_loopD [OF assms(1)]
  let ?q = "x_q x" and ?b = "ram (io m) (x_bp x)"
  have q: "?q \<in> outs" "?q \<in> ins \<union> outs" "x_n x \<noteq> 0" using assms(2) by (simp_all add: xwf_def)
  show ?thesis
  proof (cases "q_counter (io m) ?q = 0")
    case True
    then have e: "chOQIsFullI ?q (io m)" by (simp add: chOQIsFullI_def chQSpaceI_def)
    show ?thesis
      by (rule loop_wait [OF assms(1) q(2) True assms(3), of "Writing x"])
        (use assms(2) e in \<open>auto simp: oq_write_loop.simps [of nfy x] after_write_def after_xfer_def moved_not_next\<close>)
  next
    case False
    then have e: "\<not> chOQIsFullI ?q (io m)" by (simp add: chOQIsFullI_def chQSpaceI_def)
    note s' = add_run [OF io_midD(3) [OF a(1)] q(1) False, of ?b]
    obtain d where d: "q_call nfy (x_nfy x) ?q (oq_add ?q ?b (io m)) = (oq_add ?q ?b (io m))\<lparr>driver := d\<rparr>"
      by (rule q_call_run [OF assms(4)])
    let ?s = "(oq_add ?q ?b (io m))\<lparr>driver := d\<rparr>"
    have c: "krn ?s = krn (io m)" "q_counter ?s = (q_counter (io m))(?q := q_counter (io m) ?q - 1)" using s'(2,3) by simp_all
    note st = qs_driver [OF s'(1)]
    have r: "oq_write_loop nfy x (io m) = Some (xfer_next x, q_unlock ?s)" using e d by (simp add: oq_write_loop.simps [of nfy x] Let_def)
    show ?thesis
      using q(3)
    proof (cases rule: xfer_next_cases)
      case last
      from loop_take [OF assms(1) q(2) False st c, of App] show ?thesis using r last by (simp add: after_write_def after_xfer_def)
    next
      case (more y)
      have "pc_wf idle stk ins outs (regions (ins \<union> outs) (io m)) (cur m) (Write_on y)" using more assms(2) by (auto simp: xwf_def)
      from loop_take [OF assms(1) q(2) False st c _ this] show ?thesis using r more(1) by (simp add: after_write_def after_xfer_def)
    qed
  qed
qed

section \<open>Calls and the way on\<close>

lemma io_invE:
  assumes "io_inv idle stk S0 T ins outs m"
  obtains Q ts where "io_mid idle stk S0 T ins outs Q ts m" "runs_top Q (krn (io m))"
  using assms by (auto simp: io_inv_def)

text \<open>The kernel is locked and a callback may have run.\<close>

lemma enter_run:
  assumes "io_mid idle stk S0 T ins outs Q ts m" "runs_top Q (krn (io m))" "m1 = m\<lparr>io := (q_lock (io m))\<lparr>driver := d\<rparr>\<rparr>"
  shows "io_mid idle stk S0 T ins outs Q ts m1" "runs_top Q (krn (io m1))" "cur m1 = cur m" "room m1 = room m" "ram (io m1) = ram (io m)"
    "step_ok idle stk S0 T ins outs m1 r \<Longrightarrow> step_ok idle stk S0 T ins outs m r" "after_msg w ev m1 = after_msg w ev m"
    "after_read x m1 = after_read x m" "after_write x m1 = after_write x m" "regions H (io m1) = regions H (io m)"
proof -
  have e: "(q_lock (io m))\<lparr>driver := d\<rparr> = (io m)\<lparr>krn := (krn (io m))\<lparr>status := status (krn (io m)) AND NOT PIE_MSK\<rparr>, driver := d\<rparr>"
    by (simp add: q_lock_def lock_simps)
  show i: "io_mid idle stk S0 T ins outs Q ts m1" unfolding assms(3) e by (rule io_status [OF assms(1) refl])
  show "runs_top Q (krn (io m1))" using assms(2) by (simp add: assms(3) e runs_top_status)
  have c: "cur m1 = cur m" "ram (io m1) = ram (io m)" by (simp_all add: assms(3) e cur_def)
  then show "cur m1 = cur m" "ram (io m1) = ram (io m)" by simp_all
  show "room m1 = room m" "regions H (io m1) = regions H (io m)" by (simp_all add: assms(3) e regions_def region_def)
  have "qs_step ins outs Quiet (io m) (io m1)" by (rule qs_same [OF io_midD(3) [OF assms(1)]]) (simp_all add: assms(3) e)
  then show "step_ok idle stk S0 T ins outs m1 r \<Longrightarrow> step_ok idle stk S0 T ins outs m r" by (auto simp: step_ok_def intro: qs_trans_left)
  have s: "set_pc p v s' m1 = set_pc p v s' m" for p v s' by (simp add: set_pc_def assms(3))
  show "after_msg w ev m1 = after_msg w ev m" by (rule ext) (simp only: after_msg_def s c)
  show "after_read x m1 = after_read x m" by (rule ext) (simp only: after_read_def after_xfer_def s c)
  show "after_write x m1 = after_write x m" by (rule ext) (simp only: after_write_def after_xfer_def s c)
qed

lemma in_app_loop:
  assumes "io_mid idle stk S0 T ins outs Q ts m" "runs_top Q (krn (io m))" "in_app idle stk vt m"
  shows "at_loop idle stk S0 T ins outs Q ts q time vt (m\<lparr>io := (q_lock (io m))\<lparr>driver := d\<rparr>\<rparr>)"
  using enter_run(1-4) [OF assms(1,2) refl, of d] assms(3) by (simp add: at_loop_def in_app_def fun_eq_iff)

lemma get_run:
  assumes "io_inv idle stk S0 T ins outs m" "in_app idle stk vt m" "q \<in> ins" "stacks stk" "quiet nfy"
  shows "\<exists>r. ioexec nfy call app (Get q time vt) m = Some r \<and> step_ok idle stk S0 T ins outs m r"
proof -
  obtain Q ts where k: "io_mid idle stk S0 T ins outs Q ts m" "runs_top Q (krn (io m))" using assms(1) by (rule io_invE)
  obtain d where d: "q_call nfy (q_notify (q_lock (io m)) q) q (q_lock (io m)) = (q_lock (io m))\<lparr>driver := d\<rparr>"
    by (rule q_call_run [OF assms(5)])
  obtain r where r: "iq_get_loop q time vt ((q_lock (io m))\<lparr>driver := d\<rparr>) = Some r"
    "step_ok idle stk S0 T ins outs (m\<lparr>io := (q_lock (io m))\<lparr>driver := d\<rparr>\<rparr>)
      (after_msg (Getting q time vt) (got q) (m\<lparr>io := (q_lock (io m))\<lparr>driver := d\<rparr>\<rparr>) r)"
    using get_loop_run [OF in_app_loop [OF k assms(2), of q time d] assms(3,4)] by auto
  then show ?thesis using d enter_run(6,7) [OF k refl, where d = d] by (simp add: chIQGetTimeout_def Let_def)
qed

lemma put_run:
  assumes "io_inv idle stk S0 T ins outs m" "in_app idle stk vt m" "q \<in> outs" "stacks stk" "quiet nfy"
  shows "\<exists>r. ioexec nfy call app (Put q b time vt) m = Some r \<and> step_ok idle stk S0 T ins outs m r"
proof -
  obtain Q ts where k: "io_mid idle stk S0 T ins outs Q ts m" "runs_top Q (krn (io m))" using assms(1) by (rule io_invE)
  have d: "(q_lock (io m))\<lparr>driver := driver (q_lock (io m))\<rparr> = q_lock (io m)" by simp
  obtain r where r: "oq_put_loop nfy q b time vt (q_lock (io m)) = Some r"
    "step_ok idle stk S0 T ins outs (m\<lparr>io := (q_lock (io m))\<lparr>driver := driver (q_lock (io m))\<rparr>\<rparr>)
      (after_msg (Putting q b time vt) (sent q b) (m\<lparr>io := (q_lock (io m))\<lparr>driver := driver (q_lock (io m))\<rparr>\<rparr>) r)"
    using put_loop_run [OF in_app_loop [OF k assms(2), of q time "driver (q_lock (io m))"] assms(3-5), of b] by auto
  then show ?thesis
    using enter_run(6,7) [OF k refl, where d = "driver (q_lock (io m))"] by (simp add: chOQPutTimeout_def)
qed

lemma read_next_run:
  assumes "io_mid idle stk S0 T ins outs Q ts m" "runs_top Q (krn (io m))" "room m (cur m) = None" "xwf idle stk ins (cur m) x"
    "xbuf x \<inter> regions (ins \<union> outs) (io m) = {}" "stacks stk" "quiet nfy"
  shows "\<exists>r. iq_read_next nfy x (io m) = Some r \<and> step_ok idle stk S0 T ins outs m (after_read x m r)"
proof -
  obtain d where d: "q_call nfy (x_nfy x) (x_q x) (q_lock (io m)) = (q_lock (io m))\<lparr>driver := d\<rparr>"
    by (rule q_call_run [OF assms(7)])
  let ?m = "m\<lparr>io := (q_lock (io m))\<lparr>driver := d\<rparr>\<rparr>"
  note e = enter_run [OF assms(1,2) refl, where d = d]
  have "at_loop idle stk S0 T ins outs Q ts (x_q x) (x_time x) (x_vt x) ?m"
    using e(1-4) assms(3,4) by (simp add: at_loop_def xwf_def fun_eq_iff)
  moreover have "xwf idle stk ins (cur ?m) x" "xbuf x \<inter> regions (ins \<union> outs) (io ?m) = {}" using e(3,10) assms(4,5) by simp_all
  ultimately obtain r where "iq_read_loop x (io ?m) = Some r" "step_ok idle stk S0 T ins outs ?m (after_read x ?m r)"
    using read_loop_run [OF _ _ assms(6)] by blast
  then show ?thesis using d e(6,8) by (simp add: iq_read_next_def)
qed

lemma write_next_run:
  assumes "io_mid idle stk S0 T ins outs Q ts m" "runs_top Q (krn (io m))" "room m (cur m) = None" "xwf idle stk outs (cur m) x"
    "stacks stk" "quiet nfy"
  shows "\<exists>r. oq_write_next nfy x (io m) = Some r \<and> step_ok idle stk S0 T ins outs m (after_write x m r)"
proof -
  let ?m = "m\<lparr>io := (q_lock (io m))\<lparr>driver := driver (q_lock (io m))\<rparr>\<rparr>"
  note e = enter_run [OF assms(1,2) refl, where d = "driver (q_lock (io m))"]
  have "at_loop idle stk S0 T ins outs Q ts (x_q x) (x_time x) (x_vt x) ?m"
    using e(1-4) assms(3,4) by (simp add: at_loop_def xwf_def fun_eq_iff)
  moreover have "xwf idle stk outs (cur ?m) x" using e(3) assms(4) by simp
  ultimately obtain r where "oq_write_loop nfy x (io ?m) = Some r" "step_ok idle stk S0 T ins outs ?m (after_write x ?m r)"
    using write_loop_run [OF _ _ assms(5,6)] by blast
  then show ?thesis using e(6,9) by (simp add: oq_write_next_def)
qed

text \<open>The way on of a thread that was woken with a message.\<close>

lemma io_resume_run:
  assumes "io_inv idle stk S0 T ins outs m" "room m (cur m) \<noteq> None" "stacks stk" "quiet nfy"
  shows "\<exists>r. ioexec nfy call app Resume m = Some r \<and> step_ok idle stk S0 T ins outs m r"
proof -
  obtain Q ts where k: "io_mid idle stk S0 T ins outs Q ts m" "runs_top Q (krn (io m))" using assms(1) by (rule io_invE)
  note i = io_midD [OF k(1)] and fa = io_facts [OF k(1)]
  obtain q where q: "room m (cur m) = Some q" using assms(2) by auto
  have "q \<in> ins \<union> outs" by (rule roomsD(1) [OF i(2) q])
  then have "cur m \<notin> set (Q q)" using fa(5) by auto
  then obtain msg where u: "p_u (krn (io m)) (cur m) = Rdymsg msg" using roomsD(3) [OF i(2) q] by blast
  have wf: "pc_wf idle stk ins outs (regions (ins \<union> outs) (io m)) (cur m) (pc m (cur m))" using i(4) by (simp add: pcs_wf_def)
  have up: "step_ok idle stk S0 T ins outs m (Quiet, set_pc (cur m) App (q_unlock (io m)) m)" if "msg \<noteq> Q_OK"
    by (rule give_up_run [OF k]) (use u that in \<open>simp add: Q_OK_def\<close>)
  have "\<exists>r. resume nfy msg m = Some r \<and> step_ok idle stk S0 T ins outs m r"
  proof (cases "pc m (cur m)")
    case (Getting j time vt)
    have l: "at_loop idle stk S0 T ins outs Q ts j time vt m" using k q wf Getting by (simp add: at_loop_def)
    have ex: "\<exists>r. iq_get_resumed j time vt msg (io m) = Some r \<and> step_ok idle stk S0 T ins outs m (after_msg (Getting j time vt) (got j) m r)"
      using get_loop_run [OF l _ assms(3)] up wf Getting by (cases "msg < Q_OK") (simp_all add: iq_get_resumed_def after_msg_def got_simps)
    then show ?thesis using Getting by (auto simp only: resume_def iopc.case option.map)
  next
    case (Putting j b time vt)
    have l: "at_loop idle stk S0 T ins outs Q ts j time vt m" using k q wf Putting by (simp add: at_loop_def)
    have ex: "\<exists>r. oq_put_resumed nfy j b time vt msg (io m) = Some r \<and> step_ok idle stk S0 T ins outs m (after_msg (Putting j b time vt) (sent j b) m r)"
      using put_loop_run [OF l _ assms(3,4), of b] up wf Putting
      by (cases "msg < Q_OK") (simp_all add: oq_put_resumed_def after_msg_def got_simps)
    then show ?thesis using Putting by (auto simp only: resume_def iopc.case option.map)
  next
    case (Reading x)
    have l: "at_loop idle stk S0 T ins outs Q ts (x_q x) (x_time x) (x_vt x) m" using k q wf Reading by (simp add: at_loop_def xwf_def)
    have ex: "\<exists>r. iq_read_resumed x msg (io m) = Some r \<and> step_ok idle stk S0 T ins outs m (after_read x m r)"
      using read_loop_run [OF l _ assms(3)] up wf Reading
      by (cases "msg = Q_OK") (simp_all add: iq_read_resumed_def after_read_def after_xfer_def moved_not_next)
    then show ?thesis using Reading by (auto simp only: resume_def iopc.case option.map)
  next
    case (Writing x)
    have l: "at_loop idle stk S0 T ins outs Q ts (x_q x) (x_time x) (x_vt x) m" using k q wf Writing by (simp add: at_loop_def xwf_def)
    have ex: "\<exists>r. oq_write_resumed nfy x msg (io m) = Some r \<and> step_ok idle stk S0 T ins outs m (after_write x m r)"
      using write_loop_run [OF l _ assms(3,4)] up wf Writing
      by (cases "msg = Q_OK") (simp_all add: oq_write_resumed_def after_write_def after_xfer_def moved_not_next)
    then show ?thesis using Writing by (auto simp only: resume_def iopc.case option.map)
  qed (use q in simp_all)
  then show ?thesis using u by simp
qed

end
