(* ===== verification/Ch_Io_Props.thy ===== *)
theory Ch_Io_Props
  imports Ch_Io_Steps
begin

text \<open>The steps of interrupts and of the kernel, and what holds in every state that is reached.\<close>

section \<open>Interrupts\<close>

lemma irq_ok:
  assumes "io_mid idle stk S0 T ins outs Q ts (m\<lparr>io := s\<rparr>)" "qs_step ins outs e (io m) s"
  shows "\<exists>r. irq_exit e s m = Some r \<and> step_ok idle stk S0 T ins outs m r"
proof -
  obtain k where k: "irq_exit e s m = Some (e, m\<lparr>io := s\<lparr>krn := k\<rparr>\<rparr>)" "io_inv idle stk S0 T ins outs (m\<lparr>io := s\<lparr>krn := k\<rparr>\<rparr>)"
    "qs_step ins outs Quiet s (s\<lparr>krn := k\<rparr>)"
    by (rule irq_exit_run [OF assms(1), of e])
  then show ?thesis using qs_trans [OF assms(2) k(3)] by (simp add: step_ok_def)
qed

lemma qs_refl: "qs_wf ins outs s \<Longrightarrow> qs_step ins outs Quiet s s"
  by (rule qs_same) simp_all

lemma unat_up: "unat (n + 1) \<le> Suc (unat n)" for n :: u32
  using unat_plus_if_size [of n 1] by (auto simp: word_size split: if_splits)

lemma irq_put_run:
  assumes "io_mid idle stk S0 T ins outs Q ts m" "q \<in> ins"
  shows "\<exists>r. ioexec nfy call app (Irq_put q b) m = Some r \<and> step_ok idle stk S0 T ins outs m r"
proof -
  note i = io_midD [OF assms(1)]
  have q: "q \<in> ins \<union> outs" using assms(2) by blast
  note w = qs_wfD(4) [OF i(3) assms(2)]
  show ?thesis
  proof (cases "chIQIsFullI q (io m)")
    case True
    have "io_mid idle stk S0 T ins outs Q ts (m\<lparr>io := io m\<rparr>)" using assms(1) by simp
    from irq_ok [OF this qs_refl [OF i(3)]] show ?thesis using True by (simp add: chIQPutI_def sent_def)
  next
    case False
    then have "qused (q \<in> ins) q (io m) < qsize q (io m)" using q_tests(1) [OF w] rq.used_le [OF w] assms(2) by simp
    from qs_store [OF i(3) q this, of b]
    have st: "qs_step ins outs (Accepted q b) (io m) (q_store q b (q_count q (\<lambda>n. n + 1) (io m)))" using assms(2) by (simp add: out_in_step)
    obtain k Q' where k: "wake_waiting q (q_store q b (q_count q (\<lambda>n. n + 1) (io m))) = Some ((q_store q b (q_count q (\<lambda>n. n + 1) (io m)))\<lparr>krn := k\<rparr>)"
      "io_mid idle stk S0 T ins outs Q' ts (m\<lparr>io := (q_store q b (q_count q (\<lambda>n. n + 1) (io m)))\<lparr>krn := k\<rparr>\<rparr>)"
      "qs_step ins outs (Accepted q b) (io m) ((q_store q b (q_count q (\<lambda>n. n + 1) (io m)))\<lparr>krn := k\<rparr>)"
      by (rule wake_waiting_run [OF assms(1) q st]) (simp_all add: store_fields unat_up)
    from irq_ok [OF k(2,3)] show ?thesis using False k(1) by (simp add: chIQPutI_def sent_def)
  qed
qed

lemma irq_get_run:
  assumes "io_mid idle stk S0 T ins outs Q ts m" "q \<in> outs"
  shows "\<exists>r. ioexec nfy call app (Irq_get q) m = Some r \<and> step_ok idle stk S0 T ins outs m r"
proof -
  note i = io_midD [OF assms(1)]
  have q: "q \<in> ins \<union> outs" "q \<notin> ins" using assms(2) qs_wfD(3) [OF i(3)] by blast+
  note w = qs_wfD(5) [OF i(3) assms(2)]
  show ?thesis
  proof (cases "chOQIsEmptyI q (io m)")
    case True
    have "io_mid idle stk S0 T ins outs Q ts (m\<lparr>io := io m\<rparr>)" using assms(1) by simp
    from irq_ok [OF this qs_refl [OF i(3)]] show ?thesis using True by (simp add: chOQGetI_def got_simps)
  next
    case False
    then have u: "0 < qused (q \<in> ins) q (io m)" using q_tests(3) [OF w] q(2) by simp
    obtain b s where l: "q_load q (q_count q (\<lambda>n. n + 1) (io m)) = (b, s)" by force
    have s: "s = snd (q_load q (q_count q (\<lambda>n. n + 1) (io m)))" using l by simp
    have st: "qs_step ins outs (Delivered q b) (io m) s" using qs_load [OF i(3) q(1) u, of b s] l q(2) by (simp add: out_in_step)
    obtain k Q' where k: "wake_waiting q s = Some (s\<lparr>krn := k\<rparr>)" "io_mid idle stk S0 T ins outs Q' ts (m\<lparr>io := s\<lparr>krn := k\<rparr>\<rparr>)"
      "qs_step ins outs (Delivered q b) (io m) (s\<lparr>krn := k\<rparr>)"
      by (rule wake_waiting_run [OF assms(1) q(1) st]) (simp_all add: s load_fields unat_up)
    from irq_ok [OF k(2,3)] show ?thesis using False k(1) l by (simp add: chOQGetI_def got_simps)
  qed
qed

lemma irq_reset_run:
  assumes "io_mid idle stk S0 T ins outs Q ts m"
  shows "q \<in> ins \<Longrightarrow> \<exists>r. ioexec nfy call app (Irq_in_reset q) m = Some r \<and> step_ok idle stk S0 T ins outs m r"
    "q \<in> outs \<Longrightarrow> \<exists>r. ioexec nfy call app (Irq_out_reset q) m = Some r \<and> step_ok idle stk S0 T ins outs m r"
proof -
  note i = io_midD [OF assms]
  have reset: "\<exists>k. wake_all q Q_RESET (krn s) = Some k \<and> (\<exists>r. irq_exit (Cleared q) (s\<lparr>krn := k\<rparr>) m = Some r \<and> step_ok idle stk S0 T ins outs m r)"
    if q: "q \<in> ins \<union> outs" and s: "s = (io m)\<lparr>q_wrptr := (q_wrptr (io m))(q := q_buffer (io m) q), q_rdptr := (q_rdptr (io m))(q := q_buffer (io m) q),
      q_counter := (q_counter (io m))(q := (if q \<in> ins then 0 else chQSizeI q (io m)))\<rparr>" for s
  proof -
    have st: "qs_step ins outs (Cleared q) (io m) s" by (rule qs_clear [OF i(3) q]) (simp_all add: s)
    obtain k Q' where k: "wake_all q Q_RESET (krn s) = Some k" "io_mid idle stk S0 T ins outs Q' ts (m\<lparr>io := s\<lparr>krn := k\<rparr>\<rparr>)"
      "qs_step ins outs (Cleared q) (io m) (s\<lparr>krn := k\<rparr>)"
      by (rule reset_all_run [OF assms q st, where msg = Q_RESET]) (simp_all add: s)
    then show ?thesis using irq_ok [OF k(2,3)] by blast
  qed
  show "\<exists>r. ioexec nfy call app (Irq_in_reset q) m = Some r \<and> step_ok idle stk S0 T ins outs m r" if "q \<in> ins"
    using reset [OF _ refl] that by (fastforce simp: chIQResetI_def Let_def)
  show "\<exists>r. ioexec nfy call app (Irq_out_reset q) m = Some r \<and> step_ok idle stk S0 T ins outs m r" if "q \<in> outs"
    using reset [OF _ refl] that qs_wfD(3) [OF i(3) that] by (fastforce simp: chOQResetI_def Let_def chQSizeI_def)
qed

section \<open>The clock and the scheduler\<close>

lemma io_tick_run:
  assumes "io_mid idle stk S0 T ins outs Q ts m"
  shows "\<exists>r. ioexec nfy call app Tick m = Some r \<and> step_ok idle stk S0 T ins outs m r"
proof -
  obtain k Q' ts' where k: "clock_interrupt call app (krn (io m)) = Some k" "kinv (S0 \<union> ins \<union> outs) idle stk T Q' ts' k" "runs_top Q' k"
    "kmoves (S0 \<union> ins \<union> outs) Q (krn (io m)) Q' k"
    by (rule clock_fine [OF io_midD(1) [OF assms]])
  have e: "(io m)\<lparr>krn := k\<rparr> = (io m)\<lparr>krn := k, driver := driver (io m)\<rparr>" by simp
  note r = io_kernel [OF assms k(2,4) e]
  have "step_ok idle stk S0 T ins outs m (Quiet, m\<lparr>io := (io m)\<lparr>krn := k\<rparr>\<rparr>)" by (rule step_okI [OF r(1)]) (use k(3) r(2) in simp_all)
  then show ?thesis using k(1) by simp
qed

lemma settle_ok:
  assumes "io_mid idle stk S0 T ins outs Q ts m'" "runs_top Q (krn (io m'))" "qs_step ins outs e (io m) (io m')"
  shows "step_ok idle stk S0 T ins outs m (e, settle m')"
  using settle_run [OF assms(1,2)] qs_trans [OF assms(3)] by (simp add: step_ok_def)

lemma yield_io_run:
  assumes "io_mid idle stk S0 T ins outs Q ts m"
  shows "\<exists>r. ioexec nfy call app Yield m = Some r \<and> step_ok idle stk S0 T ins outs m r"
proof -
  let ?m = "m\<lparr>io := q_lock (io m)\<rparr>"
  note i = io_lock [OF assms]
  obtain k Q' ts' where k: "chSchDoYieldS (krn (io ?m)) = Some k" "kinv (S0 \<union> ins \<union> outs) idle stk T Q' ts' k" "runs_top Q' k"
    "kmoves (S0 \<union> ins \<union> outs) Q (krn (io ?m)) Q' k" "s_cnt k = s_cnt (krn (io ?m))" "rdy Q' k = rdy Q (krn (io ?m))" "p_u k = p_u (krn (io ?m))"
    "\<forall>h \<in> S0 \<union> ins \<union> outs. Q' h = Q h"
    by (rule resched_fine [OF resched_yield io_midD(1) [OF i] TrueI])
  have e: "(io m)\<lparr>krn := k\<rparr> = (io ?m)\<lparr>krn := k, driver := driver (io m)\<rparr>" by (simp add: q_lock_def)
  note r = io_kernel(1) [OF i k(2,4) e]
  have "qs_step ins outs Quiet (io m) ((io m)\<lparr>krn := k\<rparr>)" by (rule qs_same [OF io_midD(3) [OF assms]]) simp_all
  then have "step_ok idle stk S0 T ins outs m (Quiet, settle (m\<lparr>io := (io m)\<lparr>krn := k\<rparr>\<rparr>))"
    using r k(3) by (intro settle_ok) simp_all
  then show ?thesis using k(1) by (simp add: q_lock_def)
qed

lemma sleep_io_run:
  assumes "io_mid idle stk S0 T ins outs Q ts m" "in_app idle stk vt m" "time \<noteq> 0" "stacks stk"
  shows "\<exists>r. ioexec nfy call app (Sleep time vt) m = Some r \<and> step_ok idle stk S0 T ins outs m r"
proof -
  let ?m = "m\<lparr>io := q_lock (io m)\<rparr>"
  note l = io_lock [OF assms(1)]
  note i = io_midD [OF l] and fa = io_facts [OF l]
  let ?k = "krn (io ?m)"
  have c: "r_current ?k \<noteq> idle" "vt \<in> stk (r_current ?k)" "room ?m (r_current ?k) = None"
    using assms(2) by (simp_all add: in_app_def cur_def q_lock_def lock_simps)
  have oq: "off_queue THD_STATE_SLEEPING" by simp
  obtain n rest ts' k where k: "chSchGoSleepTimeoutS THD_STATE_SLEEPING time vt ?k = Some k" "Q rlist = n # rest"
    "kinv (S0 \<union> ins \<union> outs) idle stk T (Q(rlist := rest)) ts' k" "runs_top (Q(rlist := rest)) k" "r_current k = n" "p_u k = p_u ?k" "s_cnt k = s_cnt ?k"
    "p_state k = (p_state ?k)(r_current ?k := THD_STATE_SLEEPING, n := THD_STATE_CURRENT)"
    by (rule sleep_fine [OF i(1) c(1) oq assms(3) c(2) assms(4)])
  let ?m' = "m\<lparr>io := (io m)\<lparr>krn := k\<rparr>\<rparr>"
  have r: "rooms (ins \<union> outs) (room ?m) (Q(rlist := rest)) k" by (rule rooms_sleep [OF i(2) fa(1) c(3) k(2,5,6)])
  have st: "qs_step ins outs Quiet (io m) ((io m)\<lparr>krn := k\<rparr>)" by (rule qs_same [OF io_midD(3) [OF assms(1)]]) simp_all
  have "nolost (ins \<union> outs) (Q(rlist := rest)) ?m'"
  proof (rule nolostI)
    fix q assume q: "q \<in> ins \<union> outs" "(Q(rlist := rest)) q \<noteq> []"
    then have "Q q \<noteq> []" using fa(1) by (auto split: if_splits)
    from nolostD [OF i(5) q(1) this] show "unat (q_counter (io ?m') q) \<le> card (inflight (room ?m') q (krn (io ?m')))"
      using inflight_u [OF k(6)] by (simp add: q_lock_def)
  qed
  moreover have "regions (ins \<union> outs) ((io m)\<lparr>krn := k\<rparr>) = regions (ins \<union> outs) (io m)" by (simp add: regions_def region_def)
  ultimately have "io_mid idle stk S0 T ins outs (Q(rlist := rest)) ts' ?m'"
    using k(3) r st io_midD(4) [OF assms(1)] by (simp add: io_mid_def qs_step_def pcs_wf_def)
  then have "step_ok idle stk S0 T ins outs m (Quiet, settle ?m')" using k(4) st by (intro settle_ok) simp_all
  then show ?thesis using k(1) by (simp add: chThdSleepS_def q_lock_def)
qed

section \<open>New queues\<close>

lemma pc_wf_more:
  assumes "pc_wf idle stk ins outs R p w" "ins \<subseteq> ins'" "outs \<subseteq> outs'" "\<And>x. w = Reading x \<or> w = Read_on x \<Longrightarrow> xbuf x \<inter> R' = {}"
  shows "pc_wf idle stk ins' outs' R' p w"
  using assms by (cases w) (auto simp: xwf_def)

lemma init_io_run:
  assumes "io_inv idle stk S0 T ins outs m" "q \<in> range Ioq_at - (S0 \<union> ins \<union> outs)" "0 < sz" "unat bp + unat sz < 2 ^ 32"
    "{bp ..< bp + sz} \<inter> regions (ins \<union> outs) (io m) = {}" "outside m {bp ..< bp + sz}"
    "s' = (if inp then chIQInit q bp sz f l (io m) else chOQInit q bp sz f l (io m))"
  shows "io_inv idle stk S0 T (if inp then insert q ins else ins) (if inp then outs else insert q outs) (m\<lparr>io := s'\<rparr>)"
    "\<And>j. j \<in> ins \<union> outs \<Longrightarrow> qbytes (j \<in> ins) j s' = qbytes (j \<in> ins) j (io m)" "qbytes inp q s' = []"
proof -
  obtain Q ts where k: "io_mid idle stk S0 T ins outs Q ts m" "runs_top Q (krn (io m))" using assms(1) by (rule io_invE)
  note i = io_midD [OF k(1)] and fa = io_facts [OF k(1)]
  have qn: "q \<in> range Ioq_at - (ins \<union> outs)" using assms(2) by blast
  note n = qs_new [OF i(3) qn assms(3-5,7)]
  show "\<And>j. j \<in> ins \<union> outs \<Longrightarrow> qbytes (j \<in> ins) j s' = qbytes (j \<in> ins) j (io m)" by (rule n(2))
  show "qbytes inp q s' = []" by (rule n(3))
  let ?ins = "if inp then insert q ins else ins" and ?outs = "if inp then outs else insert q outs" and ?Q = "Q(q := [])" and ?m = "m\<lparr>io := s'\<rparr>"
  have H: "?ins \<union> ?outs = insert q (ins \<union> outs)" "S0 \<union> ?ins \<union> ?outs = insert q (S0 \<union> ins \<union> outs)" by auto
  have qr: "q \<noteq> rlist" "q \<notin> insert rlist (ins \<union> outs)" "\<not> q \<in> range At" using assms(2) by auto
  have ks: "krn s' = queue_init q (krn (io m))" by (simp add: assms(7) chIQInit_def chOQInit_def)
  have f: "r_current (krn s') = r_current (krn (io m))" "p_u (krn s') = p_u (krn (io m))" "s_cnt (krn s') = s_cnt (krn (io m))"
    "p_prio (krn s') = p_prio (krn (io m))" by (simp_all add: ks queue_init_def)
  have km: "kmid (S0 \<union> ins \<union> outs) idle stk T Q ts {} (krn (io m))" by (rule kinvD(1) [OF i(1)])
  have qh: "q \<in> headers - (S0 \<union> ins \<union> outs) - T" using assms(2) kmid_facts(2) [OF km] by auto
  have "(queue_init q (krn (io m)))\<lparr>s_cnt := s_cnt (krn (io m))\<rparr> = krn s'" by (simp add: ks queue_init_def)
  then have "kmid (insert q (S0 \<union> ins \<union> outs)) idle stk T ?Q ts {} (krn s')"
    using header_init_run [OF km qh, of "s_cnt (krn (io m))"] by simp
  moreover have "counts (insert q (S0 \<union> ins \<union> outs)) ?Q (krn s')" using kinvD(2) [OF i(1)] qr(3) f(3) by (auto simp: counts_def)
  ultimately have ki: "kinv (insert q (S0 \<union> ins \<union> outs)) idle stk T ?Q ts (krn s')" using kinvD(3) [OF i(1)] by (simp add: kinv_def)
  have r: "rooms (insert q (ins \<union> outs)) (room ?m) ?Q (krn s')" using rooms_new [OF i(2) qr(2) f(1,2)] by simp
  have "pc_wf idle stk ?ins ?outs (regions (insert q (ins \<union> outs)) s') p (pc m p)" for p
  proof (rule pc_wf_more)
    show w: "pc_wf idle stk ins outs (regions (ins \<union> outs) (io m)) p (pc m p)" using i(4) by (simp add: pcs_wf_def)
    fix x assume x: "pc m p = Reading x \<or> pc m p = Read_on x"
    then have "xbuf x \<inter> regions (ins \<union> outs) (io m) = {}" using w by auto
    moreover have "xbuf x \<inter> {bp ..< bp + sz} = {}" using assms(6) x by (auto simp: outside_def)
    ultimately show "xbuf x \<inter> regions (insert q (ins \<union> outs)) s' = {}" unfolding n(4) by blast
  qed auto
  then have pcs: "pcs_wf idle stk ?ins ?outs ?m" using i(4) H(1) by (simp add: pcs_wf_def)
  have "nolost (insert q (ins \<union> outs)) ?Q ?m"
  proof (rule nolostI)
    fix j assume j: "j \<in> insert q (ins \<union> outs)" "?Q j \<noteq> []"
    then have jq: "j \<noteq> q" "j \<in> ins \<union> outs" "Q j \<noteq> []" by (auto split: if_splits)
    have "q_counter s' j = q_counter (io m) j" using jq(1) by (simp add: assms(7) chIQInit_def chOQInit_def)
    then show "unat (q_counter (io ?m) j) \<le> card (inflight (room ?m) j (krn (io ?m)))"
      using nolostD [OF i(5) jq(2,3)] inflight_u [OF f(2)] by simp
  qed
  then have "io_mid idle stk S0 T ?ins ?outs ?Q ts ?m" using ki r n(1) pcs unfolding io_mid_def H by simp
  moreover have "runs_top ?Q (krn (io ?m))" using k(2) f(1,4) qr(1) by (simp add: runs_top_def)
  ultimately show "io_inv idle stk S0 T ?ins ?outs ?m" unfolding io_inv_def by blast
qed

section \<open>All steps\<close>

definition io_next where
  "io_next idle stk S0 T ins outs a m r \<longleftrightarrow> io_inv idle stk S0 T (ins_after a ins) (outs_after a outs) (snd r) \<and>
     (\<forall>q \<in> ins_after a ins \<union> outs_after a outs. \<forall>xs. (q \<in> ins \<union> outs \<longrightarrow> xs = qbytes (q \<in> ins) q (io m)) \<longrightarrow>
        ev_moves (fst r) q xs (qbytes (q \<in> ins_after a ins) q (io (snd r))))"

lemma step_next:
  assumes "step_ok idle stk S0 T ins outs m r" "ins_after a ins = ins" "outs_after a outs = outs"
  shows "io_next idle stk S0 T ins outs a m r"
  using assms by (simp add: step_ok_def io_next_def qs_step_def)

lemma io_step:
  assumes "io_inv idle stk S0 T ins outs m" "ioallowed idle stk S0 ins outs m a" "stacks stk" "quiet nfy"
  shows "\<exists>r. ioexec nfy call app a m = Some r \<and> io_next idle stk S0 T ins outs a m r"
proof -
  obtain Q ts where k: "io_mid idle stk S0 T ins outs Q ts m" "runs_top Q (krn (io m))" using assms(1) by (rule io_invE)
  note next_ = step_next [where idle = idle and stk = stk and ?S0.0 = S0 and T = T and ins = ins and outs = outs and m = m]
  show ?thesis
  proof (cases a)
    case (In_init q bp sz f l)
    note r = init_io_run [OF assms(1), of q sz bp "chIQInit q bp sz f l (io m)" True f l]
    have "q \<notin> outs" "q \<notin> ins" using assms(2) In_init by auto
    then show ?thesis using r assms(2) In_init by (auto simp: io_next_def)
  next
    case (Out_init q bp sz f l)
    note r = init_io_run [OF assms(1), of q sz bp "chOQInit q bp sz f l (io m)" False f l]
    have "q \<notin> outs" "q \<notin> ins" using assms(2) Out_init by auto
    then show ?thesis using r assms(2) Out_init by (auto simp: io_next_def)
  next
    case (Get q time vt)
    then show ?thesis using get_run [OF assms(1) _ _ assms(3,4), of vt q call app time] assms(2) next_ [of _ a] by auto
  next
    case (Put q b time vt)
    then show ?thesis using put_run [OF assms(1) _ _ assms(3,4), of vt q call app b time] assms(2) next_ [of _ a] by auto
  next
    case (Read q bp n time vt)
    let ?x = "xfer_start q bp n time vt (io m)"
    have w: "room m (cur m) = None" "xwf idle stk ins (cur m) ?x" "xbuf ?x \<inter> regions (ins \<union> outs) (io m) = {}"
      using assms(2) Read by (auto simp: in_app_def xwf_def xfer_start_def)
    have "chIQReadTimeout nfy q bp n time vt (io m) = iq_read_next nfy ?x (io m)" by (simp add: chIQReadTimeout_def xfer_start_def)
    moreover obtain r where "iq_read_next nfy ?x (io m) = Some r" "step_ok idle stk S0 T ins outs m (after_read ?x m r)"
      using read_next_run [OF k w assms(3,4)] by blast
    ultimately show ?thesis using Read next_ [of "after_read ?x m r" a] by simp
  next
    case (Write q bp n time vt)
    let ?x = "xfer_start q bp n time vt (io m)"
    have w: "room m (cur m) = None" "xwf idle stk outs (cur m) ?x"
      using assms(2) Write by (auto simp: in_app_def xwf_def xfer_start_def)
    have "chOQWriteTimeout nfy q bp n time vt (io m) = oq_write_next nfy ?x (io m)" by (simp add: chOQWriteTimeout_def xfer_start_def)
    moreover obtain r where "oq_write_next nfy ?x (io m) = Some r" "step_ok idle stk S0 T ins outs m (after_write ?x m r)"
      using write_next_run [OF k w assms(3,4)] by blast
    ultimately show ?thesis using Write next_ [of "after_write ?x m r" a] by simp
  next
    case Resume
    then show ?thesis using io_resume_run [OF assms(1) _ assms(3,4), of call app] assms(2) next_ [of _ a] by auto
  next
    case Go_on
    have wf: "pc_wf idle stk ins outs (regions (ins \<union> outs) (io m)) (cur m) (pc m (cur m))" using io_midD(4) [OF k(1)] by (simp add: pcs_wf_def)
    obtain x where "pc m (cur m) = Read_on x \<or> pc m (cur m) = Write_on x" using assms(2) Go_on by auto
    then show ?thesis
    proof
      assume x: "pc m (cur m) = Read_on x"
      obtain r where "iq_read_next nfy x (io m) = Some r" "step_ok idle stk S0 T ins outs m (after_read x m r)"
        using read_next_run [OF k _ _ _ assms(3,4), of x] x wf by auto
      then show ?thesis using x Go_on next_ [of "after_read x m r" a] by simp
    next
      assume x: "pc m (cur m) = Write_on x"
      obtain r where "oq_write_next nfy x (io m) = Some r" "step_ok idle stk S0 T ins outs m (after_write x m r)"
        using write_next_run [OF k _ _ assms(3,4), of x] x wf by auto
      then show ?thesis using x Go_on next_ [of "after_write x m r" a] by simp
    qed
  next
    case (Irq_put q b)
    then show ?thesis using irq_put_run [OF k(1), of q nfy call app b] assms(2) next_ [of _ a] by auto
  next
    case (Irq_get q)
    then show ?thesis using irq_get_run [OF k(1), of q nfy call app] assms(2) next_ [of _ a] by auto
  next
    case (Irq_in_reset q)
    then show ?thesis using irq_reset_run(1) [OF k(1), of q nfy call app] assms(2) next_ [of _ a] by auto
  next
    case (Irq_out_reset q)
    then show ?thesis using irq_reset_run(2) [OF k(1), of q nfy call app] assms(2) next_ [of _ a] by auto
  next
    case Tick
    then show ?thesis using io_tick_run [OF k(1), of nfy call app] next_ [of _ a] by auto
  next
    case Yield
    then show ?thesis using yield_io_run [OF k(1), of nfy call app] next_ [of _ a] by auto
  next
    case (Sleep time vt)
    then show ?thesis using sleep_io_run [OF k(1) _ _ assms(3), of vt time nfy call app] assms(2) next_ [of _ a] by auto
  qed
qed

section \<open>Properties\<close>

lemma io_start:
  assumes "kok S0 idle stk T (krn (io m))" "\<forall>p. pc m p = App"
  shows "io_inv idle stk S0 T {} {} m"
proof -
  obtain Q ts where k: "kmid S0 idle stk T Q ts {} (krn (io m))" "counts S0 Q (krn (io m))" "\<forall>t \<in> set ts. 0 < tm_in t" "runs_top Q (krn (io m))"
    using assms(1) by (rule kokE)
  have "io_mid idle stk S0 T {} {} Q ts m"
    using k assms(2) by (simp add: io_mid_def kinv_def rooms_def qs_wf_def pcs_wf_def nolost_def)
  then show ?thesis using k(4) by (auto simp: io_inv_def)
qed

lemma ev_log: "ev_moves e q xs ys \<Longrightarrow> accepted q es = delivered q es @ xs \<Longrightarrow> accepted q (e # es) = delivered q (e # es) @ ys"
  by (cases e) (auto split: if_splits)

lemma ev_log_new: "(\<And>xs. ev_moves e q xs ys) \<Longrightarrow> accepted q (e # es) = delivered q (e # es) @ ys"
proof -
  assume a: "\<And>xs. ev_moves e q xs ys"
  show ?thesis using a [of "[]"] a [of "[0]"] a [of "[0, 0]"] by (cases e) (auto split: if_splits)
qed

lemma ioreach_inv:
  assumes "ioreach nfy call app idle stk S0 m0 ins outs es m" "kok S0 idle stk T (krn (io m0))" "\<forall>p. pc m0 p = App" "stacks stk" "quiet nfy"
  shows "io_inv idle stk S0 T ins outs m \<and> (\<forall>q \<in> ins \<union> outs. accepted q es = delivered q es @ qbytes (q \<in> ins) q (io m))"
  using assms(1)
proof (induction rule: ioreach.induct)
  case start
  show ?case using io_start [OF assms(2,3)] by simp
next
  case (step ins outs es m a e m')
  obtain r where r: "ioexec nfy call app a m = Some r" "io_next idle stk S0 T ins outs a m r"
    using io_step [OF conjunct1 [OF step.IH] step.hyps(2) assms(4,5), of call app] by blast
  have n: "io_next idle stk S0 T ins outs a m (e, m')" using r step.hyps(3) by simp
  have "accepted q (e # es) = delivered q (e # es) @ qbytes (q \<in> ins_after a ins) q (io m')" if q: "q \<in> ins_after a ins \<union> outs_after a outs" for q
  proof (cases "q \<in> ins \<union> outs")
    case True
    then have "ev_moves e q (qbytes (q \<in> ins) q (io m)) (qbytes (q \<in> ins_after a ins) q (io m'))" using n q by (simp add: io_next_def)
    moreover have "accepted q es = delivered q es @ qbytes (q \<in> ins) q (io m)" using step.IH True by blast
    ultimately show ?thesis by (rule ev_log)
  next
    case False
    then have "ev_moves e q xs (qbytes (q \<in> ins_after a ins) q (io m'))" for xs using n q by (simp add: io_next_def)
    then show ?thesis by (rule ev_log_new)
  qed
  then show ?case using n by (simp add: io_next_def)
qed

text \<open>
  C14. I/O queues lose, repeat and reorder nothing: in every state that threads and interrupt handlers reach by any interleaving of
  calls, suspensions, timeouts, resets and interrupts, the bytes that a queue has accepted since it was last cleared are the
  bytes that it has delivered followed by those that its ring buffer holds, of which there are never more than fit; and every
  step that is allowed then returns.
\<close>

theorem io_queues_fifo:
  assumes "ioreach nfy call app idle stk S0 m0 ins outs es m" "kok S0 idle stk T (krn (io m0))" "\<forall>p. pc m0 p = App" "stacks stk" "quiet nfy"
  shows "(\<forall>q \<in> ins \<union> outs. accepted q es = delivered q es @ qbytes (q \<in> ins) q (io m) \<and>
      length (qbytes (q \<in> ins) q (io m)) \<le> unat (chQSizeI q (io m))) \<and>
    (\<forall>a. ioallowed idle stk S0 ins outs m a \<longrightarrow> (\<exists>e m'. ioexec nfy call app a m = Some (e, m')))"
proof -
  note i = ioreach_inv [OF assms]
  have "length (qbytes (q \<in> ins) q (io m)) \<le> unat (chQSizeI q (io m))" if "q \<in> ins \<union> outs" for q
  proof -
    have "q_wf (q \<in> ins) q (io m)" using conjunct1 [OF i] that by (auto simp: io_inv_def io_mid_def qs_wf_def)
    then show ?thesis using rq.used_le by (simp add: qbytes_def qsize_def)
  qed
  moreover have "\<exists>e m'. ioexec nfy call app a m = Some (e, m')" if "ioallowed idle stk S0 ins outs m a" for a
    using io_step [OF conjunct1 [OF i] that assms(4,5), of call app] by auto
  ultimately show ?thesis using i by blast
qed

text \<open>A start right after the boot of the kernel, with a callback that counts its calls.\<close>

definition io_boot :: "kern \<Rightarrow> nat iom" where
  "io_boot k = \<lparr>io = \<lparr>krn = k, q_counter = (\<lambda>_. 0), q_buffer = (\<lambda>_. 0), q_top = (\<lambda>_. 0), q_wrptr = (\<lambda>_. 0), q_rdptr = (\<lambda>_. 0),
     q_notify = (\<lambda>_. 0), q_link = (\<lambda>_. 0), ram = (\<lambda>_. 0), driver = 0\<rparr>, pc = (\<lambda>_. App)\<rparr>"

definition count_calls :: "nat notify" where
  "count_calls f q s = s\<lparr>driver := Suc (driver s)\<rparr>"

lemma io_boot_start:
  obtains k where "r_current k = At 4096" "kok {} (At 8192) boot_stacks {At 4096, At 8192} (krn (io (io_boot k)))" "\<forall>p. pc (io_boot k) p = App"
    "stacks boot_stacks" "quiet count_calls"
proof -
  obtain k where k: "chSysInit (At 4096) (At 8192) (At 16) boot_state = Some k" "r_current k = At 4096"
    "kreach (\<lambda>_ _ _. None) (\<lambda>_ _ _. None) (At 4096) (At 8192) (At 16) boot_stacks boot_state {} {At 4096, At 8192} k"
    by (rule boot_reach)
  show ?thesis using kreach_kok [OF k(3) boot_ok] boot_ok k(2)
    by (intro that [of k]) (auto simp: io_boot_def kboot_def quiet_def count_calls_def)
qed

definition Uart :: ptr where "Uart = Ioq_at 512"

lemma io_boot_init:
  assumes "r_current k = At 4096"
  shows "ioreach count_calls (\<lambda>_ _ _. None) (\<lambda>_ _ _. None) (At 8192) boot_stacks {} (io_boot k) {Uart} {} [Cleared Uart]
    ((io_boot k)\<lparr>io := chIQInit Uart 1000 16 7 0 (io (io_boot k))\<rparr>)"
proof -
  have a: "ioallowed (At 8192) boot_stacks {} {} {} (io_boot k) (In_init Uart 1000 16 7 0)"
    by (simp add: io_boot_def Uart_def regions_def outside_def)
  from ioreach.step [OF ioreach.start a, of count_calls "\<lambda>_ _ _. None" "\<lambda>_ _ _. None"] show ?thesis by simp
qed

theorem io_queues_fifo_witness:
  "\<exists>k es m. ioreach count_calls (\<lambda>_ _ _. None) (\<lambda>_ _ _. None) (At 8192) boot_stacks {} (io_boot k) {Uart} {} es m \<and>
     es = [Accepted Uart 65, Cleared Uart] \<and> qbytes True Uart (io m) = [65]"
proof -
  obtain k where k: "r_current k = At 4096" "kok {} (At 8192) boot_stacks {At 4096, At 8192} (krn (io (io_boot k)))" "\<forall>p. pc (io_boot k) p = App"
    "stacks boot_stacks" "quiet count_calls"
    by (rule io_boot_start)
  let ?m1 = "(io_boot k)\<lparr>io := chIQInit Uart 1000 16 7 0 (io (io_boot k))\<rparr>" and ?a = "Irq_put Uart 65"
  note r1 = io_boot_init [OF k(1)]
  have a: "ioallowed (At 8192) boot_stacks {} {Uart} {} ?m1 ?a" by (simp add: io_boot_def)
  obtain e m where m: "ioexec count_calls (\<lambda>_ _ _. None) (\<lambda>_ _ _. None) ?a ?m1 = Some (e, m)"
    using io_queues_fifo [OF r1 k(2-5)] a by blast
  have e: "e = Accepted Uart 65"
    using m by (auto simp: chIQPutI_def chIQIsFullI_def chIQInit_def sent_def irq_exit_def bind_eq_Some_conv)
  from ioreach.step [OF r1 a m]
  have r2: "ioreach count_calls (\<lambda>_ _ _. None) (\<lambda>_ _ _. None) (At 8192) boot_stacks {} (io_boot k) {Uart} {} [Accepted Uart 65, Cleared Uart] m"
    by (simp add: e)
  from io_queues_fifo [OF r2 k(2-5)] have "qbytes True Uart (io m) = [65]" by simp
  then show ?thesis using r2 by blast
qed

text \<open>
  C15. No wakeup is lost: in every state that is reached the threads that wait for an I/O queue are linked in its thread queue, in the
  state of waiting, and while there are any, its counter (of the bytes to read, or of the places to write to) is not above
  the number of threads that have been woken for it and have not run yet; each of those is ready or
  running.  The kernel keeps its own invariant.
\<close>

theorem io_no_lost_wakeup:
  assumes "ioreach nfy call app idle stk S0 m0 ins outs es m" "kok S0 idle stk T (krn (io m0))" "\<forall>p. pc m0 p = App" "stacks stk" "quiet nfy"
  shows "kok (S0 \<union> ins \<union> outs) idle stk T (krn (io m)) \<and>
    (\<exists>Q. (\<forall>q \<in> insert rlist (ins \<union> outs). dl (p_next (krn (io m))) (p_prev (krn (io m))) q (Q q)) \<and>
      (\<forall>q \<in> ins \<union> outs. (\<forall>p \<in> set (Q q). room_of (pc m p) = Some q \<and> p_state (krn (io m)) p = THD_STATE_WTQUEUE) \<and>
        (Q q \<noteq> [] \<longrightarrow> unat (q_counter (io m) q) \<le> card {p. room_of (pc m p) = Some q \<and> p_u (krn (io m)) p = Rdymsg Q_OK}) \<and>
        (\<forall>p. room_of (pc m p) = Some q \<and> p \<notin> set (Q q) \<longrightarrow> p = r_current (krn (io m)) \<or> p \<in> set (Q rlist))))"
proof -
  obtain Q ts where k: "io_mid idle stk S0 T ins outs Q ts m" "runs_top Q (krn (io m))"
    using conjunct1 [OF ioreach_inv [OF assms]] by (rule io_invE)
  note i = io_midD [OF k(1)] and fa = io_facts [OF k(1)]
  have ok: "kok (S0 \<union> ins \<union> outs) idle stk T (krn (io m))" using i(1) k(2) by (auto simp: kok_def)
  have qd: "dl (p_next (krn (io m))) (p_prev (krn (io m))) q (Q q)" if "q \<in> insert rlist (ins \<union> outs)" for q
    using i(1) that by (auto simp: kinv_def kmid_def kqueues_def queues_def)
  have st: "room_of (pc m p) = Some q \<and> p_state (krn (io m)) p = THD_STATE_WTQUEUE" if q: "q \<in> ins \<union> outs" "p \<in> set (Q q)" for q p
  proof
    show "room_of (pc m p) = Some q" by (rule roomsD(4) [OF i(2) q])
    have "p_state (krn (io m)) p = waiter_state q" using i(1) q by (auto simp: kinv_def kmid_def kqueues_def waiters_wf_def)
    then show "p_state (krn (io m)) p = THD_STATE_WTQUEUE" using fa(3) [OF q(1)] by simp
  qed
  have nl: "unat (q_counter (io m) q) \<le> card {p. room_of (pc m p) = Some q \<and> p_u (krn (io m)) p = Rdymsg Q_OK}"
    if "q \<in> ins \<union> outs" "Q q \<noteq> []" for q
    using nolostD [OF i(5) that] by (simp add: inflight_def Q_OK_def)
  have rd: "p = r_current (krn (io m)) \<or> p \<in> set (Q rlist)" if "room_of (pc m p) = Some q" "p \<notin> set (Q q)" for p q
    using roomsD(2) [OF i(2), of p q] that by (simp add: rdy_def)
  show ?thesis using ok qd st nl rd by (intro conjI exI [of _ Q]) auto
qed

text \<open>The main thread reads an empty queue and is suspended.\<close>

theorem io_no_lost_wakeup_witness:
  "\<exists>k m Q. ioreach count_calls (\<lambda>_ _ _. None) (\<lambda>_ _ _. None) (At 8192) boot_stacks {} (io_boot k) {Uart} {} [Quiet, Cleared Uart] m \<and>
     pc m (At 4096) = Getting Uart 5 (At 4160) \<and> dl (p_next (krn (io m))) (p_prev (krn (io m))) Uart (Q Uart) \<and>
     (At 4096 \<in> set (Q Uart) \<or> At 4096 = cur m \<or> At 4096 \<in> set (Q rlist))"
proof -
  obtain k where k: "r_current k = At 4096" "kok {} (At 8192) boot_stacks {At 4096, At 8192} (krn (io (io_boot k)))" "\<forall>p. pc (io_boot k) p = App"
    "stacks boot_stacks" "quiet count_calls"
    by (rule io_boot_start)
  let ?m1 = "(io_boot k)\<lparr>io := chIQInit Uart 1000 16 7 0 (io (io_boot k))\<rparr>" and ?a = "Get Uart 5 (At 4160)"
  note r1 = io_boot_init [OF k(1)]
  have c: "cur ?m1 = At 4096" using k(1) by (simp add: cur_def chIQInit_def queue_init_def io_boot_def)
  have a: "ioallowed (At 8192) boot_stacks {} {Uart} {} ?m1 ?a" using c by (simp add: in_app_def io_boot_def boot_stacks_def)
  obtain e m where m: "ioexec count_calls (\<lambda>_ _ _. None) (\<lambda>_ _ _. None) ?a ?m1 = Some (e, m)"
    using io_step [OF conjunct1 [OF ioreach_inv [OF r1 k(2-5)]] a k(4,5), of "\<lambda>_ _ _. None" "\<lambda>_ _ _. None"] by auto
  have e: "e = Quiet" "pc m (At 4096) = Getting Uart 5 (At 4160)"
    using m c by (auto simp: chIQGetTimeout_def iq_get_loop.simps [of Uart] chIQIsEmptyI_def chQSpaceI_def q_call_def count_calls_def q_lock_def
      chIQInit_def qwait_def TIME_IMMEDIATE_def after_msg_def settle_def set_pc_def bind_eq_Some_conv Let_def split: if_splits)
  from ioreach.step [OF r1 a m]
  have r2: "ioreach count_calls (\<lambda>_ _ _. None) (\<lambda>_ _ _. None) (At 8192) boot_stacks {} (io_boot k) {Uart} {} [Quiet, Cleared Uart] m" by (simp add: e)
  from io_no_lost_wakeup [OF r2 k(2-5)] obtain Q where "dl (p_next (krn (io m))) (p_prev (krn (io m))) Uart (Q Uart)"
    "\<forall>p. room_of (pc m p) = Some Uart \<and> p \<notin> set (Q Uart) \<longrightarrow> p = r_current (krn (io m)) \<or> p \<in> set (Q rlist)" by auto
  then show ?thesis using r2 e(2) unfolding cur_def by (metis room_of.simps(1))
qed

end
