(* ===== verification/Spec2Isabelle.thy ===== *)
theory Spec2Isabelle
  imports Ledos_System Edid_Print_Props Dpi_Image Hal_Alarm_Props Ch_Machine Ch_Mem Ch_Io_Props
begin

text \<open>
  Verification of the LEDOS firmware of Synesthesia-Moksha, the C program that runs on the soft
  processor of the FPGA and drives its audio and HDMI hardware
  (\<^verbatim>\<open>src/wxp/dgn/sw/ledos_main\<close>, with the parts of the board support package
  \<^verbatim>\<open>src/wxp/dgn/sw/limbus_bsp\<close> that it rests on), and of the reference code of its testbench
  (\<^verbatim>\<open>src/wxp/verif/tb/dpi\<close>).

  \<^bold>\<open>The program.\<close>  \<^verbatim>\<open>main\<close> (\<^verbatim>\<open>hello_world_small.c\<close>) calls \<^verbatim>\<open>init_ledos\<close>, which
  releases the fabric from reset and configures the audio cortex (\<^verbatim>\<open>cortex.c\<close>,
  \<^verbatim>\<open>acortex.c\<close>), the SSM2603 codec (\<^verbatim>\<open>aud_codec.c\<close>) and the ADV7513 HDMI transmitter
  (\<^verbatim>\<open>adv7513.c\<close>).  Both chips hang on one I2C bus, whose master is a core of the fabric with a
  four byte cache and a polled status register (\<^verbatim>\<open>i2c.c\<close>).  The transmitter raises an interrupt on
  hot plug; its handler powers the chip up, reads and decodes the monitor's EDID
  (\<^verbatim>\<open>edid.c\<close>) and programs the video mode.  The remaining drivers read out the sample capture
  buffer (\<^verbatim>\<open>pcm_bffr.c\<close>), the FFT engine (\<^verbatim>\<open>fgyrus.c\<close>) and set up the partitions of the
  memory interface (\<^verbatim>\<open>sys_mem_intf.c\<close>).  The board support package runs the program as the main thread
  of the ChibiOS/RT kernel, which its hooks start (\<^verbatim>\<open>alt_hooks.h\<close>); the interrupt of the system clock
  serves the alarms of the HAL (\<^verbatim>\<open>alt_tick.c\<close>) and then the kernel, which runs its virtual timers and switches
  threads at the exit of the interrupt.  The testbench checks the FFT engine and the display against C code of
  its own.

  \<^bold>\<open>How it is modelled.\<close>  A C function is a state-passing function in option: \<open>None\<close> is a call that
  does not return.  The state \<open>mach\<close> (theory \<open>Machine\<close>) holds the globals of the program, the console
  log and the device; the device is behind a record \<open>bus\<close> of a load and a store function, an argument
  of every function that touches hardware, because the RTL is not C.  Machine integers are words of
  their C width; a C \<open>int\<close> whose range does not matter is an \<open>int\<close>.  An access outside an array of
  the EDID structure or image is a \<open>fault\<close>, the left side of a sum.  Polling loops are
  \<open>partial_function (option)\<close>, so that their return is a theorem and not an assumption; the loops the
  code bounds itself (30 tries for monitor sense, 200 for power-on) are recursions on that bound, and
  the loops over arrays are folds or functions with a termination proof.  The clock, the timers and the kernel
  have a state of their own (\<open>alarms\<close>, \<open>vts\<close>, \<open>kern\<close>), in which every member of a structure is a map from
  addresses, because their lists are linked through structures of the clients.  A kernel call that switches gives the state
  in which the other thread runs.  The counter of a semaphore is an \<open>int\<close>.

  \<^bold>\<open>Theories.\<close>
  \<^item> \<open>Ledos_Prelude\<close>: word and list lemmas, collections of rules.  \<open>Machine\<close>: the state, the monad,
    the access macros of \<^verbatim>\<open>io.h\<close>, weakest preconditions \<open>wp\<close>, invariants \<open>keeps\<close> and
    functional refinement \<open>refines\<close>.
  \<^item> \<open>Alt_Printf\<close>: \<^verbatim>\<open>alt_printf.c\<close>, \<^verbatim>\<open>alt_putstr.c\<close>.  \<open>Hal_Irq\<close>: the interrupt table
    (\<^verbatim>\<open>alt_iic.c\<close>, \<^verbatim>\<open>alt_irq.h\<close>, the PIO registers).
  \<^item> \<open>I2c\<close>: \<^verbatim>\<open>i2c.c\<close>, and the contract of a live I2C core as locales.
  \<^item> \<open>Cortex_Regs\<close>, \<open>Ssm2603\<close>, \<open>Pcm_Bffr\<close>, \<open>Fgyrus\<close>, \<open>Sys_Mem\<close>: the drivers of the fabric's
    cores.  \<open>Aud_Codec\<close>: \<^verbatim>\<open>aud_codec.c\<close> over the contract of a codec.  \<open>Acortex\<close>:
    \<^verbatim>\<open>acortex.c\<close>.  \<open>Cortex_Dev\<close>: a concrete fabric, with registers, capture memory, FFT memory and
    an I2C core that is busy for a while on every transfer, and on whose far side arbitrary chips
    answer; the locales are interpreted on it.
  \<^item> \<open>Encoder\<close>, \<open>Adv7513\<close>: \<^verbatim>\<open>encoder.c\<close>, \<^verbatim>\<open>adv7513.c\<close>; \<open>Adv7513_Props\<close>: their laws over
    the contract of a transmitter.
  \<^item> \<open>Edid_Consts\<close>, \<open>Edid_Types\<close>: \<^verbatim>\<open>edid.h\<close> and \<^verbatim>\<open>edid_cea.h\<close>; \<open>Edid_Cea\<close>,
    \<open>Edid_V14\<close>: the decoders of \<^verbatim>\<open>edid.c\<close>; \<open>Edid_Safety\<close>, \<open>Edid_Props\<close>: the executable
    condition under which no access is out of bounds, and acceptance; \<open>Edid_Timing\<close>,
    \<open>Edid_Blocks\<close>: encoders that the decoders invert; \<open>Edid_Sample\<close>: a concrete image.
    \<open>Checked\<close>: the faults.  \<open>Edid_Print\<close>, \<open>Edid_Print_Props\<close>: the printing functions of \<^verbatim>\<open>edid.c\<close> as
    sequences of their printf calls.
  \<^item> \<open>Ledos\<close>: \<^verbatim>\<open>ledos.c\<close>, \<^verbatim>\<open>cortex.c\<close> and \<^verbatim>\<open>hello_world_small.c\<close>.  \<open>Board\<close>: a codec and a
    transmitter that keep their contracts, the instance of the witnesses.
  \<^item> \<open>Audio_System\<close>, \<open>Hdmi_System\<close>, \<open>Ledos_System\<close>: the theorems on the fabric with any chips that
    keep their contracts.
  \<^item> \<open>Dpi_Fft\<close>, \<open>Dpi_Dft\<close>: \<^verbatim>\<open>fft.c\<close> in exact arithmetic and the discrete Fourier transform; \<open>Syn_Dpi\<close>,
    \<open>Dpi_Image\<close>: the functions the testbench calls (\<^verbatim>\<open>syn_dpi.c\<close>) and the image writers (\<^verbatim>\<open>ppm.c\<close>, \<^verbatim>\<open>raw.c\<close>).
  \<^item> \<open>Dllist\<close>: circular doubly linked lists as lists.  \<open>Hal_Alarm\<close>, \<open>Hal_Alarm_Props\<close>: the clock and the alarms of
    the HAL (\<^verbatim>\<open>alt_alarm_start.c\<close>, \<^verbatim>\<open>alt_tick.c\<close>, \<^verbatim>\<open>alt_llist.h\<close>) and their countdown.
  \<^item> \<open>Ch_Vt\<close>, \<open>Ch_Vt_Props\<close>: the virtual timers (\<^verbatim>\<open>chvt.c\<close>), their list of times, and the contract of the
    functions they call, a locale that \<open>Ch_Tick\<close> interprets on the kernel.  \<open>Ch_Lists\<close>: the thread structure and the
    thread queues (\<^verbatim>\<open>chinline.h\<close>).  \<open>Ch_Schd\<close>: scheduler, semaphores, threads, tick and start (\<^verbatim>\<open>chschd.c\<close>,
    \<^verbatim>\<open>chsem.c\<close>, \<^verbatim>\<open>chthreads.c\<close>, \<^verbatim>\<open>chsys.c\<close>, \<^verbatim>\<open>altera_avalon_timer_sc.c\<close>).  \<open>Ch_Inv\<close>: the invariant of the kernel;
    \<open>Ch_Ops\<close>, \<open>Ch_Calls\<close>, \<open>Ch_Waits\<close>, \<open>Ch_Tick\<close>, \<open>Ch_Kernel\<close>: each group of operations keeps it and returns;
    \<open>Ch_Timing\<close>: timeouts; \<open>Ch_Machine\<close>: the kernel as a step relation over calls and interrupts, and its theorems.
    \<open>Ch_Mem\<close>: the memory core and the memory pools (\<^verbatim>\<open>chmemcore.c\<close>, \<^verbatim>\<open>chmempools.c\<close>).

  \<^bold>\<open>What is shown.\<close>  Transfers through the register interface of the I2C core are single transactions
  at the addressed slave, and end.  On top of that the codec driver refines updates of a register
  file field by field, and the audio path functions reach the configuration they were asked for
  and leave everything else alone.  The HDMI driver arms its interrupt, classifies hot plug events and
  programs exactly the intended fields; its handler ends in one of two states.  \<^verbatim>\<open>main\<close> and the
  handler return on every such fabric, also if chips fail or are missing.  The EDID decoder rejects
  exactly the images with a wrong header or checksum, finds every single byte error, stays in bounds
  under an executable condition on the image, inverts the encoding of timings and of CEA data blocks,
  and is undefined if the announced timings do not fit; printing what it decoded is in bounds unless there is a
  colorimetry block, where a pointer was never set.  The spectrum of the testbench is the discrete Fourier transform, its
  inverse undoes it, and the image files read back as the image.  A clock tick counts all alarms down by one, also when the
  counter wraps.  The kernel keeps its queues, priorities, semaphore counters and timers consistent under all sequences of
  allowed calls and interrupts, none of which hangs, and its timeouts are on time.  Blocks of its memory
  core are disjoint and its pools serve each object once.  Where the code does not do what it means to,
  the theorem states what it does: the power state is always on, clearing the interrupt flag has no
  effect, the EDID segment is ignored, the word length of the audio interface is undetermined.

  \<^bold>\<open>Assumed of what is not C here.\<close>  The contracts \<open>codec_slave\<close>, \<open>adv_slave\<close> and \<open>edid_slave\<close> say that
  the chips have a register file that is read and written over I2C as their data sheets document.
  They are hypotheses of the theorems that need them, and the witnesses apply these to the board.

  The kernel theorems assume of its callers what \<open>kallowed\<close> and \<open>kboot\<close> say: objects are initialised once and before
  they are used, priorities are not zero, the idle thread does not wait, stacks do not overlap, and no alarm of the
  HAL is set.

  \<^bold>\<open>Not modelled.\<close>  Of the kernel: mutexes, condition variables, events, messages, mailboxes, queues, the heap,
  dynamic threads, the exit of and the waiting for threads, and the queries of its registry.  The assembly of the context switch
  and of the interrupt entry.  The generated drivers, POSIX stubs and start-up code of the board support package, which the application
  does not call; the wrappers of the math library in \<^verbatim>\<open>syn_dpi.c\<close>; the generated calibration program of the memory
  controller (\<^verbatim>\<open>sequencer.c\<close>); the RTL.

  \<^bold>\<open>Plan.\<close>  The exit of threads and the registry; mutexes with their priority inheritance, condition variables, events,
  messages and mailboxes over the invariant of the scheduler; the I/O queues and the heap.
\<close>

end
